(* ===== verification/Prelude.thy ===== *)
theory Prelude
  imports Main "HOL-Library.Word" "HOL-Library.Monad_Syntax"
begin

unbundle bit_operations_syntax

text \<open>
  Shared vocabulary of the development: machine integer types, little-endian byte strings, the
  contracts of a fixed-width codec and of a deterministic machine with an invariant, and the
  generic lemmas on lists and words that the component theories use.
\<close>

section \<open>Machine integers\<close>

type_synonym u8 = "8 word"
type_synonym u16 = "16 word"
type_synonym u32 = "32 word"
type_synonym u64 = "64 word"

text \<open>File descriptors, process ids and C \<open>int\<close> results; they are only compared and stored.\<close>

type_synonym fd = int

named_theorems flag_simps \<open>evaluation of the flag constants\<close>
named_theorems fd_simps \<open>reasoning about the descriptor table\<close>
named_theorems wire_simps \<open>evaluation of the wire format\<close>

section \<open>Lists\<close>

lemma takeWhile_append_stop [simp]:
  "\<forall>x\<in>set xs. P x \<Longrightarrow> \<not> P y \<Longrightarrow> takeWhile P (xs @ y # ys) = xs"
  by (simp add: takeWhile_append)

lemma dropWhile_append_stop [simp]:
  "\<forall>x\<in>set xs. P x \<Longrightarrow> \<not> P y \<Longrightarrow> dropWhile P (xs @ y # ys) = y # ys"
  by (simp add: dropWhile_append)

lemma filter_idem_disjoint: "\<forall>x\<in>set xs. \<not> P x \<Longrightarrow> filter P xs = []"
  by (simp add: filter_empty_conv)

lemma find_append: "find P (xs @ ys) = (case find P xs of None \<Rightarrow> find P ys | Some x \<Rightarrow> Some x)"
  by (induction xs) simp_all

lemma sub_list_decomp: "length bs = 4 \<Longrightarrow> \<exists>a b c d. bs = [a, b, c, d]"
  by (auto simp: length_Suc_conv numeral_eq_Suc)

section \<open>Characters, digits and numerals\<close>

text \<open>\<open>isspace\<close> in the C locale, and the value of a digit (99 for any other character).\<close>

definition is_space :: "char \<Rightarrow> bool" where
  "is_space c \<longleftrightarrow> (let n = of_char c :: nat in n = 32 \<or> 9 \<le> n \<and> n \<le> 13)"

definition digit_value :: "char \<Rightarrow> nat" where
  "digit_value c = (let n = of_char c :: nat in
     if 48 \<le> n \<and> n \<le> 57 then n - 48
     else if 97 \<le> n \<and> n \<le> 102 then n - 87
     else if 65 \<le> n \<and> n \<le> 70 then n - 55
     else 99)"

definition is_digit :: "nat \<Rightarrow> char \<Rightarrow> bool" where
  "is_digit b c \<longleftrightarrow> digit_value c < b"

definition digit_char :: "nat \<Rightarrow> char" where
  "digit_char d = (if d < 10 then char_of (48 + d) else char_of (87 + d))"

lemma digit_value_char: "d < 16 \<Longrightarrow> digit_value (digit_char d) = d"
  by (auto simp: digit_value_def digit_char_def Let_def)

lemma is_digit_char: "d < b \<Longrightarrow> b \<le> 16 \<Longrightarrow> is_digit b (digit_char d)"
  by (simp add: is_digit_def digit_value_char)

lemma is_digit_not_space: "is_digit b c \<Longrightarrow> b \<le> 16 \<Longrightarrow> \<not> is_space c"
  by (auto simp: is_digit_def is_space_def digit_value_def Let_def split: if_splits)

text \<open>The number a digit string denotes, and the digit string of a number.\<close>

definition num_of :: "nat \<Rightarrow> string \<Rightarrow> nat" where
  "num_of b ds = foldl (\<lambda>v c. v * b + digit_value c) 0 ds"

function show_num :: "nat \<Rightarrow> nat \<Rightarrow> string" where
  "show_num b n =
     (if b < 2 then []
      else if n < b then [digit_char n]
      else show_num b (n div b) @ [digit_char (n mod b)])"
  by pat_completeness auto
termination
  by (relation "measure (\<lambda>(b, n). n)") auto

declare show_num.simps [simp del]

lemma num_of_snoc [simp]: "num_of b (ds @ [c]) = num_of b ds * b + digit_value c"
  by (simp add: num_of_def)

lemma num_of_Nil [simp]: "num_of b [] = 0"
  by (simp add: num_of_def)

lemma show_num_props:
  "2 \<le> b \<Longrightarrow> b \<le> 16 \<Longrightarrow>
     num_of b (show_num b n) = n \<and> show_num b n \<noteq> [] \<and> (\<forall>c\<in>set (show_num b n). is_digit b c)"
proof (induction b n rule: show_num.induct)
  case (1 b n)
  show ?case
  proof (cases "n < b")
    case True
    with "1.prems" show ?thesis
      by (simp add: show_num.simps [of b n] num_of_def digit_value_char is_digit_char)
  next
    case False
    from "1.prems" have "n mod b < b" by simp
    with "1.prems"(2) have "digit_value (digit_char (n mod b)) = n mod b"
      by (intro digit_value_char) linarith
    with False "1.prems" "1.IH" \<open>n mod b < b\<close> show ?thesis
      by (simp add: show_num.simps [of b n] is_digit_char)
  qed
qed

lemmas num_of_show_num = show_num_props [THEN conjunct1]
  and show_num_nonempty = show_num_props [THEN conjunct2, THEN conjunct1]
  and show_num_digits = show_num_props [THEN conjunct2, THEN conjunct2]

lemma unat_u32_bound: "unat (w :: u32) < 2 ^ 32"
proof -
  have "unat w < 2 ^ LENGTH(32)" by (rule unsigned_less)
  then show ?thesis by simp
qed

lemma unat_u64_bound: "unat (w :: u64) < 2 ^ 64"
proof -
  have "unat w < 2 ^ LENGTH(64)" by (rule unsigned_less)
  then show ?thesis by simp
qed

section \<open>Little-endian byte strings\<close>

text \<open>
  The bytes of a 32-bit value in memory order (every supported ABI is little endian), and the
  value a 4-byte load reads back.
\<close>

definition le32 :: "u32 \<Rightarrow> u8 list" where
  "le32 w = [ucast w, ucast (drop_bit 8 w), ucast (drop_bit 16 w), ucast (drop_bit 24 w)]"

definition of_le32 :: "u8 \<Rightarrow> u8 \<Rightarrow> u8 \<Rightarrow> u8 \<Rightarrow> u32" where
  "of_le32 a b c d =
     ucast a OR push_bit 8 (ucast b) OR push_bit 16 (ucast c) OR push_bit 24 (ucast d)"

definition dec32 :: "u8 list \<Rightarrow> u32 option" where
  "dec32 bs = (case bs of [a, b, c, d] \<Rightarrow> Some (of_le32 a b c d) | _ \<Rightarrow> None)"

lemma length_le32 [simp]: "length (le32 w) = 4"
  by (simp add: le32_def)

lemma of_le32_le32:
  "of_le32 (ucast w) (ucast (drop_bit 8 w)) (ucast (drop_bit 16 w)) (ucast (drop_bit 24 w)) = w"
proof (rule bit_word_eqI)
  fix n :: nat
  assume "n < LENGTH(32)"
  then show "bit (of_le32 (ucast w) (ucast (drop_bit 8 w)) (ucast (drop_bit 16 w))
      (ucast (drop_bit 24 w))) n = bit w n"
    by (cases "n < 8"; cases "n < 16"; cases "n < 24")
      (auto simp: of_le32_def bit_simps)
qed

lemma bit_u8_high [simp]: "8 \<le> n \<Longrightarrow> \<not> bit (w :: u8) n"
  by (auto dest: bit_imp_le_length)

lemma le32_of_le32: "le32 (of_le32 a b c d) = [a, b, c, d]"
  unfolding le32_def of_le32_def
  by (auto intro!: bit_word_eqI simp: bit_simps)

section \<open>The contract of a fixed-width codec\<close>

locale codec =
  fixes enc :: "'a \<Rightarrow> u8 list"
    and dec :: "u8 list \<Rightarrow> 'a option"
    and width :: nat
  assumes length_enc: "length (enc a) = width"
    and dec_enc: "dec (enc a) = Some a"
    and enc_dec: "dec bs = Some a \<Longrightarrow> enc a = bs"
    and dec_total: "length bs = width \<Longrightarrow> dec bs \<noteq> None"
begin

lemma enc_inject: "enc a = enc b \<longleftrightarrow> a = b"
  using dec_enc by (metis option.inject)

lemma dec_stream: "dec (take width (enc a @ rest)) = Some a"
  by (simp add: length_enc dec_enc)

lemma rest_stream: "drop width (enc a @ rest) = rest"
  by (simp add: length_enc)

lemma dec_Some_iff: "dec bs = Some a \<longleftrightarrow> bs = enc a"
  using dec_enc enc_dec by blast

lemma dec_defined_iff: "dec bs \<noteq> None \<longleftrightarrow> length bs = width"
  using dec_total length_enc enc_dec by blast

end

interpretation c32: codec le32 dec32 4
proof
  show "length (le32 a) = 4" for a by simp
  show "dec32 (le32 a) = Some a" for a
    by (simp add: dec32_def le32_def of_le32_le32)
  show "dec32 bs = Some a \<Longrightarrow> le32 a = bs" for bs a
    by (auto simp: dec32_def le32_of_le32 split: list.splits)
  show "length bs = 4 \<Longrightarrow> dec32 bs \<noteq> None" for bs
    by (auto simp: dec32_def dest: sub_list_decomp)
qed

section \<open>The contract of a deterministic machine with an invariant\<close>

text \<open>
  A component whose operations are a function of state and event, with a predicate that every
  operation keeps. The predicate then holds along every run.
\<close>

locale machine =
  fixes step :: "'e \<Rightarrow> 's \<Rightarrow> 's"
    and inv :: "'s \<Rightarrow> bool"
  assumes inv_step: "inv s \<Longrightarrow> inv (step e s)"
begin

lemma inv_fold: "inv s \<Longrightarrow> inv (fold step es s)"
  by (induction es arbitrary: s) (auto intro: inv_step)

lemma inv_prefix: "inv s \<Longrightarrow> inv (fold step (take n es) s)"
  by (rule inv_fold)

end

end
