(* ===== verification/Wire.thy ===== *)
theory Wire
  imports Prelude
begin

text \<open>
  \<^verbatim>\<open>src/common/consts.hpp\<close> and the flag enumerations of \<^verbatim>\<open>libzygisk/src/module.hpp\<close>:
  the request codes, the state flags the daemon reports, the two masks over them, and the two
  packed headers that cross the socket with their byte encodings.
\<close>

section \<open>Request codes and state flags\<close>

definition ZYGISK_SOCKET_PATH :: string where
  "ZYGISK_SOCKET_PATH = ''/data/adb/zygisk/zygiskd.sock''"

datatype ZygiskRequest = GetInfo | GetModuleDir | ConnectCompanion

fun request_code :: "ZygiskRequest \<Rightarrow> u32" where
  "request_code GetInfo = 0"
| "request_code GetModuleDir = 1"
| "request_code ConnectCompanion = 2"

datatype ZygiskStateFlags =
  ProcessGrantedRoot | ProcessOnDenyList | DenyListEnforced | ProcessIsMagiskApp

fun state_flag :: "ZygiskStateFlags \<Rightarrow> u32" where
  "state_flag ProcessGrantedRoot = 0x01"
| "state_flag ProcessOnDenyList = 0x02"
| "state_flag DenyListEnforced = 0x04"
| "state_flag ProcessIsMagiskApp = 0x08"

definition UNMOUNT_MASK :: u32 where
  "UNMOUNT_MASK = state_flag ProcessOnDenyList OR state_flag DenyListEnforced"

definition PRIVATE_MASK :: u32 where
  "PRIVATE_MASK = state_flag DenyListEnforced OR state_flag ProcessIsMagiskApp"

lemma UNMOUNT_MASK_val [flag_simps]: "UNMOUNT_MASK = 6"
  by (simp add: UNMOUNT_MASK_def)

lemma PRIVATE_MASK_val [flag_simps]: "PRIVATE_MASK = 12"
  by (simp add: PRIVATE_MASK_def)

text \<open>A test on a one-bit flag, and on a mask with every bit required.\<close>

definition has_flag :: "u32 \<Rightarrow> u32 \<Rightarrow> bool" where
  "has_flag w f \<longleftrightarrow> w AND f \<noteq> 0"

definition has_all :: "u32 \<Rightarrow> u32 \<Rightarrow> bool" where
  "has_all w m \<longleftrightarrow> w AND m = m"

lemma has_flag_zero [simp]: "\<not> has_flag 0 f"
  by (simp add: has_flag_def)

lemma u32_bits: "(\<forall>n<32. bit (w :: u32) n \<longrightarrow> P n) \<longleftrightarrow> (\<forall>n. bit w n \<longrightarrow> P n)"
  "(\<exists>n<32. bit w n \<and> P n) \<longleftrightarrow> (\<exists>n. bit w n \<and> P n)"
  using bit_imp_le_length [of w] by auto

lemma has_flag_bits: "has_flag w f \<longleftrightarrow> (\<exists>n. bit w n \<and> bit (f :: u32) n)"
  unfolding has_flag_def by (subst bit_eq_iff) (simp add: bit_and_iff u32_bits)

lemma has_all_bits: "has_all w m \<longleftrightarrow> (\<forall>n. bit m n \<longrightarrow> bit (w :: u32) n)"
  unfolding has_all_def using bit_imp_le_length [of m]
  by (subst bit_eq_iff) (auto simp: bit_and_iff)

lemma has_flag_or: "has_flag (a OR b) f \<longleftrightarrow> has_flag a f \<or> has_flag b f"
  by (auto simp: has_flag_bits bit_or_iff)

lemma has_all_or: "has_all w (a OR b) \<longleftrightarrow> has_all w a \<and> has_all w b"
  by (auto simp: has_all_bits bit_or_iff)

lemma has_flag_exp: "has_flag (w :: u32) (2 ^ k) \<longleftrightarrow> bit w k"
  by (auto simp: has_flag_bits bit_exp_iff dest: bit_imp_le_length)

lemma has_all_exp: "k < 32 \<Longrightarrow> has_all (w :: u32) (2 ^ k) \<longleftrightarrow> bit w k"
  by (auto simp: has_all_bits bit_exp_iff)

lemma state_flag_exp:
  "state_flag f = 2 ^ (case f of ProcessGrantedRoot \<Rightarrow> 0 | ProcessOnDenyList \<Rightarrow> 1
                       | DenyListEnforced \<Rightarrow> 2 | ProcessIsMagiskApp \<Rightarrow> 3)"
  by (cases f) simp_all

lemma has_all_unmount_iff:
  "has_all w UNMOUNT_MASK \<longleftrightarrow>
     has_flag w (state_flag ProcessOnDenyList) \<and> has_flag w (state_flag DenyListEnforced)"
  by (simp only: UNMOUNT_MASK_def has_all_or state_flag_exp has_flag_exp ZygiskStateFlags.case)
    (simp only: has_all_exp)

section \<open>Headers on the socket\<close>

record request_header =
  opcode :: u32
  hpid :: u32

record response_header =
  code :: u32
  ruid :: u32
  rflags :: u32

definition enc_request :: "request_header \<Rightarrow> u8 list" where
  "enc_request h = le32 (opcode h) @ le32 (hpid h)"

definition dec_request :: "u8 list \<Rightarrow> request_header option" where
  "dec_request bs = do {
     a \<leftarrow> dec32 (take 4 bs);
     b \<leftarrow> dec32 (drop 4 bs);
     Some \<lparr>opcode = a, hpid = b\<rparr> }"

definition enc_response :: "response_header \<Rightarrow> u8 list" where
  "enc_response h = le32 (code h) @ le32 (ruid h) @ le32 (rflags h)"

definition dec_response :: "u8 list \<Rightarrow> response_header option" where
  "dec_response bs = do {
     a \<leftarrow> dec32 (take 4 bs);
     b \<leftarrow> dec32 (take 4 (drop 4 bs));
     c \<leftarrow> dec32 (drop 8 bs);
     Some \<lparr>code = a, ruid = b, rflags = c\<rparr> }"

interpretation req: codec enc_request dec_request 8
proof
  show "length (enc_request a) = 8" for a by (simp add: enc_request_def)
  show "dec_request (enc_request a) = Some a" for a
    by (simp add: dec_request_def enc_request_def c32.dec_enc)
  show "dec_request bs = Some a \<Longrightarrow> enc_request a = bs" for bs a
    by (auto simp: dec_request_def enc_request_def c32.dec_Some_iff simp flip: append_take_drop_id
        split: Option.bind_splits) (metis append_take_drop_id c32.dec_Some_iff)
  show "length bs = 8 \<Longrightarrow> dec_request bs \<noteq> None" for bs
    using c32.dec_total [of "take 4 bs"] c32.dec_total [of "drop 4 bs"]
    by (auto simp: dec_request_def)
qed

interpretation resp: codec enc_response dec_response 12
proof
  show "length (enc_response a) = 12" for a by (simp add: enc_response_def)
  show "dec_response (enc_response a) = Some a" for a
    by (simp add: dec_response_def enc_response_def c32.dec_enc)
  show "enc_response a = bs" if "dec_response bs = Some a" for bs a
  proof -
    from that have "take 4 bs = le32 (code a)" "take 4 (drop 4 bs) = le32 (ruid a)"
      "drop 4 (drop 4 bs) = le32 (rflags a)"
      by (auto simp: dec_response_def c32.dec_Some_iff split: Option.bind_splits)
    then show ?thesis
      unfolding enc_response_def by (metis append_take_drop_id)
  qed
  show "length bs = 12 \<Longrightarrow> dec_response bs \<noteq> None" for bs
    using c32.dec_total [of "take 4 bs"] c32.dec_total [of "take 4 (drop 4 bs)"]
      c32.dec_total [of "drop 8 bs"]
    by (auto simp: dec_response_def)
qed

end
