(* ===== verification/Posix.thy ===== *)
theory Posix
  imports Prelude
begin

text \<open>
  What the program uses of the C library's system calls: a descriptor table with lowest-free
  allocation, stream sockets whose peer's answers are given as a script, and a log of the calls
  whose order matters. The answers of the outside world (whether a socket can be created, whether
  a connection is accepted, which bytes arrive in which pieces, where a read fails) are data of
  the state, so every theorem holds for all of them.
\<close>

section \<open>Files behind descriptors\<close>

datatype errno = EINTR | EOther

text \<open>
  A piece of an incoming stream: bytes, perhaps carrying one descriptor as ancillary data, or a
  failing read. The end of the script is the end of the stream.
\<close>

datatype ofile =
    Sock "rx list" "u8 list" \<comment> \<open>still to arrive, sent so far\<close>
  | Reg nat \<comment> \<open>a regular file, by identity\<close>
  | NonReg nat
  | DirStream
and rx =
    Chunk "u8 list" "ofile option"
  | Fault errno

datatype conn = NoSocket | Refused | Accepted "rx list"

datatype sysop =
    OpClose fd
  | OpUsleep nat
  | OpUmount string
  | OpFork
  | OpSigBlock
  | OpSigUnblock
  | OpSetenv string string
  | OpDlclose nat
  | OpOrigUnshare
  | OpOrigLogClose
  | OpOrigSetcontext
  | OpOrigStrdup string
  | OpOrigAttrDestroy
  | OpLoadBridge string \<comment> \<open>the real native bridge, by library name\<close>
  | OpCallback string nat \<comment> \<open>a module's callback, by name and module id\<close>

record os =
  fdtab :: "(fd \<times> ofile) list"
  net :: "conn list"
  oslog :: "sysop list"

definition logop :: "sysop \<Rightarrow> 'a os_scheme \<Rightarrow> 'a os_scheme" where
  "logop e s = s\<lparr>oslog := oslog s @ [e]\<rparr>"

definition fd_open :: "fd \<Rightarrow> 'a os_scheme \<Rightarrow> bool" where
  "fd_open d s \<longleftrightarrow> d \<in> fst ` set (fdtab s)"

definition open_fds :: "'a os_scheme \<Rightarrow> fd set" where
  "open_fds s = fst ` set (fdtab s)"

text \<open>Well-formed tables: no descriptor twice, none negative.\<close>

definition fdtab_ok :: "'a os_scheme \<Rightarrow> bool" where
  "fdtab_ok s \<longleftrightarrow> distinct (map fst (fdtab s)) \<and> (\<forall>d\<in>open_fds s. 0 \<le> d)"

section \<open>Allocation\<close>

text \<open>The lowest descriptor not in use; one of the first \<open>n + 1\<close> is free in a table of \<open>n\<close>.\<close>

definition lowest_free :: "fd list \<Rightarrow> fd" where
  "lowest_free used = hd (filter (\<lambda>d. d \<notin> set used) (map int [0..<Suc (length used)]))"

lemma lowest_free_exists:
  "filter (\<lambda>d. d \<notin> set used) (map int [0..<Suc (length used)]) \<noteq> []"
proof
  assume "filter (\<lambda>d. d \<notin> set used) (map int [0..<Suc (length used)]) = []"
  then have "set (map int [0..<Suc (length used)]) \<subseteq> set used"
    by (auto simp: filter_empty_conv simp del: upt_Suc)
  then have "card (set (map int [0..<Suc (length used)])) \<le> card (set used)"
    by (intro card_mono) auto
  moreover have "card (set (map int [0..<Suc (length used)])) = Suc (length used)"
    by (subst distinct_card) (auto simp: distinct_map simp del: upt_Suc)
  ultimately show False
    using card_length [of used] by simp
qed

lemma lowest_free_fresh: "lowest_free used \<notin> set used" and lowest_free_nonneg: "0 \<le> lowest_free used"
proof -
  have "lowest_free used \<in> set (filter (\<lambda>d. d \<notin> set used) (map int [0..<Suc (length used)]))"
    unfolding lowest_free_def by (rule hd_in_set [OF lowest_free_exists])
  then show "lowest_free used \<notin> set used" "0 \<le> lowest_free used"
    by (auto simp del: upt_Suc)
qed

definition alloc_fd :: "ofile \<Rightarrow> 'a os_scheme \<Rightarrow> fd \<times> 'a os_scheme" where
  "alloc_fd f s = (let d = lowest_free (map fst (fdtab s)) in (d, s\<lparr>fdtab := (d, f) # fdtab s\<rparr>))"

definition sys_close :: "fd \<Rightarrow> 'a os_scheme \<Rightarrow> 'a os_scheme" where
  "sys_close d s = logop (OpClose d) (s\<lparr>fdtab := filter (\<lambda>(k, _). k \<noteq> d) (fdtab s)\<rparr>)"

definition set_file :: "fd \<Rightarrow> ofile \<Rightarrow> 'a os_scheme \<Rightarrow> 'a os_scheme" where
  "set_file d f s = s\<lparr>fdtab := map (\<lambda>(k, g). (k, if k = d then f else g)) (fdtab s)\<rparr>"

lemma logop_simps [simp]:
  "fdtab (logop e s) = fdtab s" "net (logop e s) = net s" "oslog (logop e s) = oslog s @ [e]"
  "os.more (logop e s) = os.more s" "open_fds (logop e s) = open_fds s"
  "fd_open d (logop e s) = fd_open d s"
  by (simp_all add: logop_def open_fds_def fd_open_def)

lemma open_fds_close [fd_simps]: "open_fds (sys_close d s) = open_fds s - {d}"
  by (auto simp: open_fds_def sys_close_def)

lemma open_fds_set_file [fd_simps]: "open_fds (set_file d f s) = open_fds s"
  by (force simp: open_fds_def set_file_def)

lemma open_fds_alloc [fd_simps]:
  "alloc_fd f s = (d, s') \<Longrightarrow> open_fds s' = insert d (open_fds s)"
  by (auto simp: open_fds_def alloc_fd_def Let_def)

lemma alloc_fd_fresh [fd_simps]: "alloc_fd f s = (d, s') \<Longrightarrow> d \<notin> open_fds s \<and> 0 \<le> d"
  using lowest_free_fresh [of "map fst (fdtab s)"] lowest_free_nonneg [of "map fst (fdtab s)"]
  by (auto simp: open_fds_def alloc_fd_def Let_def)

lemma fd_open_iff [fd_simps]: "fd_open d s \<longleftrightarrow> d \<in> open_fds s"
  by (simp add: fd_open_def open_fds_def)

lemma sys_close_simps [simp]:
  "net (sys_close d s) = net s" "oslog (sys_close d s) = oslog s @ [OpClose d]"
  "os.more (sys_close d s) = os.more s"
  by (simp_all add: sys_close_def)

lemma set_file_simps [simp]:
  "net (set_file d f s) = net s" "oslog (set_file d f s) = oslog s"
  "os.more (set_file d f s) = os.more s"
  by (simp_all add: set_file_def)

lemma alloc_fd_simps [fd_simps]:
  "alloc_fd f s = (d, s') \<Longrightarrow>
     net s' = net s \<and> oslog s' = oslog s \<and> os.more s' = os.more s \<and> map_of (fdtab s') d = Some f"
  by (auto simp: alloc_fd_def Let_def)

lemma filter_fd_fresh: "d \<notin> fst ` set xs \<Longrightarrow> filter (\<lambda>(k, _). k \<noteq> d) xs = xs"
  by (induction xs) auto

lemma alloc_then_close:
  "alloc_fd f s = (d, s') \<Longrightarrow> fdtab (sys_close d s') = fdtab s"
  using alloc_fd_fresh [of f s d s']
  by (auto simp: alloc_fd_def sys_close_def Let_def open_fds_def filter_fd_fresh)

lemma fdtab_ok_close [simp]: "fdtab_ok s \<Longrightarrow> fdtab_ok (sys_close d s)"
proof -
  have "map fst (filter (\<lambda>(k, _). k \<noteq> d) xs) = filter (\<lambda>k. k \<noteq> d) (map fst xs)"
    for xs :: "(fd \<times> ofile) list"
    by (induction xs) auto
  then show "fdtab_ok s \<Longrightarrow> fdtab_ok (sys_close d s)"
    unfolding fdtab_ok_def open_fds_close by (simp add: sys_close_def)
qed

lemma fdtab_ok_alloc: "fdtab_ok s \<Longrightarrow> alloc_fd f s = (d, s') \<Longrightarrow> fdtab_ok s'"
  using alloc_fd_fresh [of f s d s']
  by (auto simp: fdtab_ok_def alloc_fd_def Let_def open_fds_def)

lemma fdtab_ok_logop [simp]: "fdtab_ok (logop e s) = fdtab_ok s"
  by (simp add: fdtab_ok_def)

lemma map_fst_set_file: "map fst (fdtab (set_file d f s)) = map fst (fdtab s)"
  by (auto simp: set_file_def)

lemma fdtab_ok_set_file [simp]: "fdtab_ok (set_file d f s) = fdtab_ok s"
  unfolding fdtab_ok_def open_fds_set_file map_fst_set_file ..

section \<open>Sockets\<close>

definition sys_socket :: "'a os_scheme \<Rightarrow> fd \<times> 'a os_scheme" where
  "sys_socket s = (case net s of
      NoSocket # r \<Rightarrow> (-1, s\<lparr>net := r\<rparr>)
    | _ \<Rightarrow> alloc_fd (Sock [] []) s)"

definition sys_connect :: "fd \<Rightarrow> 'a os_scheme \<Rightarrow> bool \<times> 'a os_scheme" where
  "sys_connect d s = (case net s of
      Accepted rx # r \<Rightarrow> (True, set_file d (Sock rx []) (s\<lparr>net := r\<rparr>))
    | Refused # r \<Rightarrow> (False, s\<lparr>net := r\<rparr>)
    | _ \<Rightarrow> (False, s))"

text \<open>\<open>write\<close> fails (\<open>False\<close>) unless the descriptor is an open socket.\<close>

definition sys_write :: "fd \<Rightarrow> u8 list \<Rightarrow> 'a os_scheme \<Rightarrow> bool \<times> 'a os_scheme" where
  "sys_write d bs s = (case map_of (fdtab s) d of
      Some (Sock rx tx) \<Rightarrow> (True, set_file d (Sock rx (tx @ bs)) s)
    | _ \<Rightarrow> (False, s))"

datatype rres = RData "u8 list" | REof | RFail errno

text \<open>One \<open>read\<close> of at most \<open>n\<close> bytes: never more than the current piece holds.\<close>

fun rx_read :: "nat \<Rightarrow> rx list \<Rightarrow> rres \<times> rx list" where
  "rx_read n [] = (REof, [])"
| "rx_read n (Chunk bs a # r) =
     (if bs = [] then rx_read n r
      else (RData (take n bs), if length bs \<le> n then r else Chunk (drop n bs) None # r))"
| "rx_read n (Fault e # r) = (RFail e, r)"

text \<open>One \<open>recvmsg\<close> of at most \<open>n\<close> bytes with room for one descriptor.\<close>

fun rx_recvmsg :: "nat \<Rightarrow> rx list \<Rightarrow> rres \<times> ofile option \<times> rx list" where
  "rx_recvmsg n [] = (REof, None, [])"
| "rx_recvmsg n (Chunk bs a # r) =
     (if bs = [] then rx_recvmsg n r
      else (RData (take n bs), a, if length bs \<le> n then r else Chunk (drop n bs) None # r))"
| "rx_recvmsg n (Fault e # r) = (RFail e, None, r)"

definition incoming :: "fd \<Rightarrow> 'a os_scheme \<Rightarrow> rx list option" where
  "incoming d s = (case map_of (fdtab s) d of Some (Sock rx tx) \<Rightarrow> Some rx | _ \<Rightarrow> None)"

definition set_incoming :: "fd \<Rightarrow> rx list \<Rightarrow> 'a os_scheme \<Rightarrow> 'a os_scheme" where
  "set_incoming d rx s = (case map_of (fdtab s) d of
      Some (Sock _ tx) \<Rightarrow> set_file d (Sock rx tx) s | _ \<Rightarrow> s)"

lemma open_fds_net [simp]: "open_fds (s\<lparr>net := x\<rparr>) = open_fds s"
  by (simp add: open_fds_def)

lemma fdtab_ok_net [simp]: "fdtab_ok (s\<lparr>net := x\<rparr>) = fdtab_ok s"
  by (simp add: fdtab_ok_def)

lemma set_incoming_simps [simp]:
  "net (set_incoming d rx s) = net s" "oslog (set_incoming d rx s) = oslog s"
  "os.more (set_incoming d rx s) = os.more s" "open_fds (set_incoming d rx s) = open_fds s"
  by (auto simp: set_incoming_def open_fds_set_file split: option.splits ofile.splits)

lemma sys_write_frame [fd_simps]:
  "sys_write d bs s = (ok, s') \<Longrightarrow>
     net s' = net s \<and> oslog s' = oslog s \<and> os.more s' = os.more s \<and> open_fds s' = open_fds s"
  by (auto simp: sys_write_def open_fds_set_file split: option.splits ofile.splits)

lemma rx_read_RData:
  "rx_read n rx = (RData d, r) \<Longrightarrow> 0 < n \<Longrightarrow> d \<noteq> [] \<and> length d \<le> n"
  by (induction n rx rule: rx_read.induct) (auto split: if_splits)

lemma rx_read_RFail: "rx_read n rx = (RFail e, r) \<Longrightarrow> length r < length rx"
  by (induction n rx rule: rx_read.induct) (auto split: if_splits)

end
