(* ===== verification/IpcClient.thy ===== *)
theory IpcClient
  imports Wire Posix
begin

text \<open>
  \<^verbatim>\<open>libzygisk/src/ipc_client.cpp\<close>: the process-wide connection to the daemon
  (\<open>g_sock\<close>, \<open>g_available\<close>), the exponential back-off with its circuit breaker, the exact-length
  read loop and the request/response exchange; and the retrying read loop \<open>xxread\<close> and the
  writers of \<^verbatim>\<open>libzygisk/src/module.cpp\<close>, which use the same sockets.
\<close>

section \<open>State\<close>

record ipc = os +
  g_sock :: fd
  g_available :: bool

lemma ipc_frame [simp]:
  "g_sock (logop e s) = g_sock s" "g_available (logop e s) = g_available s"
  "g_sock (sys_close d s) = g_sock s" "g_available (sys_close d s) = g_available s"
  "g_sock (set_file d f s) = g_sock s" "g_available (set_file d f s) = g_available s"
  "g_sock (snd (alloc_fd f s)) = g_sock s" "g_available (snd (alloc_fd f s)) = g_available s"
  "g_sock (set_incoming d rx s) = g_sock s" "g_available (set_incoming d rx s) = g_available s"
  by (simp_all add: logop_def sys_close_def set_file_def alloc_fd_def Let_def set_incoming_def
      split: option.split ofile.split)

lemma ipc_upd_frame [simp]:
  "open_fds (s\<lparr>g_sock := k\<rparr>) = open_fds s" "open_fds (s\<lparr>g_available := b\<rparr>) = open_fds s"
  "fdtab_ok (s\<lparr>g_sock := k\<rparr>) = fdtab_ok s" "fdtab_ok (s\<lparr>g_available := b\<rparr>) = fdtab_ok s"
  by (simp_all add: open_fds_def fdtab_ok_def)

section \<open>Reading\<close>

text \<open>
  The bytes that arrive before the stream ends or a read fails, and the same when interrupted
  reads are retried: the abstract values the two loops are measured against.
\<close>

fun rx_bytes :: "rx list \<Rightarrow> u8 list" where
  "rx_bytes [] = []"
| "rx_bytes (Chunk bs a # r) = bs @ rx_bytes r"
| "rx_bytes (Fault e # r) = []"

fun rx_bytes_retry :: "rx list \<Rightarrow> u8 list" where
  "rx_bytes_retry [] = []"
| "rx_bytes_retry (Chunk bs a # r) = bs @ rx_bytes_retry r"
| "rx_bytes_retry (Fault e # r) = (if e = EINTR then rx_bytes_retry r else [])"

fun rx_ends_in_error :: "rx list \<Rightarrow> bool" where
  "rx_ends_in_error [] = False"
| "rx_ends_in_error (Chunk bs a # r) = rx_ends_in_error r"
| "rx_ends_in_error (Fault e # r) = (if e = EINTR then rx_ends_in_error r else True)"

text \<open>\<open>read_all\<close>: any failed or empty read, an interrupted one included, gives up.\<close>

function read_all :: "nat \<Rightarrow> rx list \<Rightarrow> u8 list \<Rightarrow> int \<times> u8 list \<times> rx list" where
  "read_all len rx buf =
     (if length buf < len then
        (case rx_read (len - length buf) rx of
           (RData d, r) \<Rightarrow> read_all len r (buf @ d)
         | (REof, r) \<Rightarrow> (-1, buf, r)
         | (RFail e, r) \<Rightarrow> (-1, buf, r))
      else (0, buf, rx))"
  by pat_completeness auto
termination
proof (relation "measure (\<lambda>(len, rx, buf). len - length buf)", goal_cases)
  case 1
  show ?case by simp
next
  case (2 len rx buf x1 x2 d)
  then have "d \<noteq> []" using rx_read_RData [of "len - length buf" rx d x2] by simp
  with 2 show ?case by (cases d) auto
qed

declare read_all.simps [simp del]

text \<open>
  \<open>xxread\<close>: an interrupted read is retried, the end of the stream returns what has arrived, any
  other failure returns \<open>-1\<close>.
\<close>

function xxread :: "nat \<Rightarrow> rx list \<Rightarrow> u8 list \<Rightarrow> int \<times> u8 list \<times> rx list" where
  "xxread count rx buf =
     (if length buf < count then
        (case rx_read (count - length buf) rx of
           (RData d, r) \<Rightarrow> xxread count r (buf @ d)
         | (REof, r) \<Rightarrow> (int (length buf), buf, r)
         | (RFail e, r) \<Rightarrow> (if e = EINTR then xxread count r buf else (-1, buf, r)))
      else (int (length buf), buf, rx))"
  by pat_completeness auto
termination
proof (relation "measures [\<lambda>(count, rx, buf). count - length buf, \<lambda>(count, rx, buf). length rx]",
    goal_cases)
  case 1
  show ?case by simp
next
  case (2 count rx buf x1 x2 d)
  then have "d \<noteq> []" using rx_read_RData [of "count - length buf" rx d x2] by simp
  with 2 show ?case by (cases d) auto
next
  case (3 count rx buf x1 x2 e)
  then show ?case using rx_read_RFail [of "count - length buf" rx e x2] by simp
qed

declare xxread.simps [simp del]

lemma rx_read_RData_bytes:
  "rx_read n rx = (RData d, r) \<Longrightarrow>
     rx_bytes rx = d @ rx_bytes r \<and> rx_bytes_retry rx = d @ rx_bytes_retry r \<and>
     rx_ends_in_error rx = rx_ends_in_error r"
  by (induction n rx rule: rx_read.induct) (auto split: if_splits)

lemma rx_read_stop_bytes:
  "rx_read n rx = (REof, r) \<Longrightarrow> rx_bytes rx = [] \<and> rx_bytes_retry rx = [] \<and> \<not> rx_ends_in_error rx"
  "rx_read n rx = (RFail e, r) \<Longrightarrow>
     rx_bytes rx = [] \<and> (e = EINTR \<longrightarrow> rx_bytes_retry rx = rx_bytes_retry r \<and>
       rx_ends_in_error rx = rx_ends_in_error r) \<and>
     (e \<noteq> EINTR \<longrightarrow> rx_bytes_retry rx = [] \<and> rx_ends_in_error rx)"
  by (induction n rx rule: rx_read.induct) (auto split: if_splits)

lemma read_all_spec:
  "length buf \<le> len \<Longrightarrow>
     (if len \<le> length buf + length (rx_bytes rx)
      then \<exists>r. read_all len rx buf = (0, take len (buf @ rx_bytes rx), r) \<and>
           buf @ rx_bytes rx = take len (buf @ rx_bytes rx) @ rx_bytes r
      else \<exists>r. read_all len rx buf = (-1, buf @ rx_bytes rx, r))"
proof (induction len rx buf rule: read_all.induct)
  case (1 len rx buf)
  show ?case
  proof (cases "length buf < len")
    case False
    with "1.prems" show ?thesis by (auto simp: read_all.simps [of len rx buf])
  next
    case True
    obtain res r where rd: "rx_read (len - length buf) rx = (res, r)" by fastforce
    show ?thesis
    proof (cases res)
      case (RData d)
      then have d: "d \<noteq> []" "length d \<le> len - length buf"
        using rx_read_RData [of "len - length buf" rx d r] rd True by simp_all
      with True have "length (buf @ d) \<le> len" by simp
      note IH = "1.IH" [OF True rd [symmetric] RData this]
      show ?thesis
        using IH True rd RData rx_read_RData_bytes [of "len - length buf" rx d r]
        by (simp add: read_all.simps [of len rx buf] add.assoc del: take_append split: if_splits)
    next
      case REof
      with rd True rx_read_stop_bytes(1) [of "len - length buf" rx r] show ?thesis
        by (auto simp: read_all.simps [of len rx buf])
    next
      case (RFail e)
      with rd True rx_read_stop_bytes(2) [of "len - length buf" rx e r] show ?thesis
        by (auto simp: read_all.simps [of len rx buf])
    qed
  qed
qed

lemma xxread_spec:
  "length buf \<le> count \<Longrightarrow>
     (if count \<le> length buf + length (rx_bytes_retry rx)
      then \<exists>r. xxread count rx buf = (int count, take count (buf @ rx_bytes_retry rx), r)
      else \<exists>r. xxread count rx buf =
        (if rx_ends_in_error rx then -1 else int (length buf + length (rx_bytes_retry rx)),
         buf @ rx_bytes_retry rx, r))"
proof (induction count rx buf rule: xxread.induct)
  case (1 count rx buf)
  show ?case
  proof (cases "length buf < count")
    case False
    with "1.prems" show ?thesis by (auto simp: xxread.simps [of count rx buf])
  next
    case True
    obtain res r where rd: "rx_read (count - length buf) rx = (res, r)" by fastforce
    show ?thesis
    proof (cases res)
      case (RData d)
      then have d: "d \<noteq> []" "length d \<le> count - length buf"
        using rx_read_RData [of "count - length buf" rx d r] rd True by simp_all
      with True have "length (buf @ d) \<le> count" by simp
      note IH = "1.IH"(1) [OF True rd [symmetric] RData this]
      show ?thesis
        using IH True rd RData rx_read_RData_bytes [of "count - length buf" rx d r]
        by (simp add: xxread.simps [of count rx buf] add.assoc del: take_append split: if_splits)
    next
      case REof
      with rd True rx_read_stop_bytes(1) [of "count - length buf" rx r] show ?thesis
        by (auto simp: xxread.simps [of count rx buf])
    next
      case (RFail e)
      show ?thesis
      proof (cases "e = EINTR")
        case eintr: True
        show ?thesis
          using "1.IH"(2) [OF True rd [symmetric] RFail eintr "1.prems"] rd True RFail eintr
            rx_read_stop_bytes(2) [of "count - length buf" rx e r]
          by (simp add: xxread.simps [of count rx buf] del: take_append split: if_splits)
      next
        case False
        with rd True RFail rx_read_stop_bytes(2) [of "count - length buf" rx e r] show ?thesis
          by (auto simp: xxread.simps [of count rx buf])
      qed
    qed
  qed
qed

definition sock_read_all :: "fd \<Rightarrow> nat \<Rightarrow> 'a os_scheme \<Rightarrow> int \<times> u8 list \<times> 'a os_scheme" where
  "sock_read_all d len s = (case incoming d s of
      None \<Rightarrow> (-1, [], s)
    | Some rx \<Rightarrow> (case read_all len rx [] of (r, buf, rx') \<Rightarrow> (r, buf, set_incoming d rx' s)))"

definition sock_xxread :: "fd \<Rightarrow> nat \<Rightarrow> 'a os_scheme \<Rightarrow> int \<times> u8 list \<times> 'a os_scheme" where
  "sock_xxread d len s = (case incoming d s of
      None \<Rightarrow> (-1, [], s)
    | Some rx \<Rightarrow> (case xxread len rx [] of (r, buf, rx') \<Rightarrow> (r, buf, set_incoming d rx' s)))"

section \<open>Connecting\<close>

definition zygisk_is_available :: "'a ipc_scheme \<Rightarrow> bool" where
  "zygisk_is_available s = g_available s"

text \<open>
  The loop \<open>for (delay = 100; delay <= 3000; delay *= 2)\<close> with the assignment of 3000 in its body;
  the only call starts at 100 and the delay is never 0 (the guard on 0 only makes the definition
  total).
\<close>

function connect_loop :: "nat \<Rightarrow> 'a ipc_scheme \<Rightarrow> fd \<times> 'a ipc_scheme" where
  "connect_loop delay s =
     (if 0 < delay \<and> delay \<le> 3000 then
        if \<not> g_available s then (-1, s)
        else
          (case sys_socket s of (sk, s1) \<Rightarrow>
             let s2 = s1\<lparr>g_sock := sk\<rparr> in
             if sk < 0 then (-1, s2)
             else
               (case sys_connect sk s2 of (ok, s3) \<Rightarrow>
                  if ok then (sk, s3)
                  else
                    let s4 = (sys_close sk s3)\<lparr>g_sock := -1\<rparr>;
                        s5 = logop (OpUsleep (delay * 1000)) s4;
                        delay' = (if delay < 1600 then delay else 3000)
                    in connect_loop (delay' * 2) s5))
      else (-1, s\<lparr>g_available := False\<rparr>))"
  by pat_completeness auto
termination
  by (relation "measure (\<lambda>(delay, s). 3001 - delay)") (auto split: if_splits)

declare connect_loop.simps [simp del]

definition zygisk_connect :: "'a ipc_scheme \<Rightarrow> fd \<times> 'a ipc_scheme" where
  "zygisk_connect s =
     (if \<not> g_available s then (-1, s)
      else if 0 \<le> g_sock s then (g_sock s, s)
      else connect_loop 100 s)"

definition zygisk_disconnect :: "'a ipc_scheme \<Rightarrow> 'a ipc_scheme" where
  "zygisk_disconnect s = (if 0 \<le> g_sock s then (sys_close (g_sock s) s)\<lparr>g_sock := -1\<rparr> else s)"

section \<open>Requests\<close>

text \<open>
  The result of a request: the return code, the response fields written to the out parameters, and
  the descriptor written to \<open>out_fd\<close> when one is wanted. \<open>garbage\<close> is what the uninitialised
  control buffer holds: \<open>recvmsg\<close>'s own result is not checked.
\<close>

definition zygisk_request ::
    "u32 \<Rightarrow> u32 \<Rightarrow> bool \<Rightarrow> fd \<Rightarrow> 'a ipc_scheme \<Rightarrow>
     (int \<times> response_header option \<times> fd option) \<times> 'a ipc_scheme" where
  "zygisk_request opc p want_fd garbage s =
     (case zygisk_connect s of (c, s1) \<Rightarrow>
        if c < 0 then ((-1, None, None), s1)
        else
          (case sys_write (g_sock s1) (enc_request \<lparr>opcode = opc, hpid = p\<rparr>) s1 of (ok, s2) \<Rightarrow>
             if \<not> ok then ((-1, None, None), zygisk_disconnect s2)
             else
               (case sock_read_all (g_sock s2) 12 s2 of (r, buf, s3) \<Rightarrow>
                  if r < 0 then ((-1, None, None), zygisk_disconnect s3)
                  else
                    (case dec_response buf of
                       None \<Rightarrow> ((-1, None, None), s3) \<comment> \<open>not reached: 12 bytes were read\<close>
                     | Some resp \<Rightarrow>
                         if \<not> want_fd then ((sint (code resp), Some resp, None), s3)
                         else
                           (case incoming (g_sock s3) s3 of
                              None \<Rightarrow> ((sint (code resp), Some resp, Some garbage), s3)
                            | Some rx \<Rightarrow>
                                (case rx_recvmsg 12 rx of
                                   (RFail e, _, rx') \<Rightarrow>
                                     ((sint (code resp), Some resp, Some garbage),
                                      set_incoming (g_sock s3) rx' s3)
                                 | (_, None, rx') \<Rightarrow>
                                     ((sint (code resp), Some resp, Some (-1)),
                                      set_incoming (g_sock s3) rx' s3)
                                 | (_, Some f, rx') \<Rightarrow>
                                     (case alloc_fd f (set_incoming (g_sock s3) rx' s3) of
                                        (d, s4) \<Rightarrow> ((sint (code resp), Some resp, Some d), s4))))))))"

section \<open>Writers of module.cpp\<close>

text \<open>\<open>write_any\<close> and its instances: a negative descriptor is skipped, the result is ignored.\<close>

definition write_any :: "fd \<Rightarrow> u8 list \<Rightarrow> 'a os_scheme \<Rightarrow> 'a os_scheme" where
  "write_any d bs s = (if d < 0 then s else snd (sys_write d bs s))"

definition write_int :: "fd \<Rightarrow> u32 \<Rightarrow> 'a os_scheme \<Rightarrow> 'a os_scheme" where
  "write_int d v s = write_any d (le32 v) s"

definition write_string :: "fd \<Rightarrow> u8 list option \<Rightarrow> 'a os_scheme \<Rightarrow> 'a os_scheme" where
  "write_string d str s =
     (let len = (case str of None \<Rightarrow> 0 | Some cs \<Rightarrow> length cs);
          s1 = write_int d (of_nat len) s
      in if 0 < len then (case str of None \<Rightarrow> s1 | Some cs \<Rightarrow> snd (sys_write d cs s1)) else s1)"

text \<open>\<open>sizeof(T)\<close> bytes per element, in memory order; \<open>enc\<close> is the element's representation.\<close>

definition write_vector :: "fd \<Rightarrow> ('e \<Rightarrow> u8 list) \<Rightarrow> 'e list \<Rightarrow> 'a os_scheme \<Rightarrow> 'a os_scheme" where
  "write_vector d enc vec s =
     (let s1 = write_int d (of_nat (length vec)) s
      in if vec \<noteq> [] then snd (sys_write d (concat (map enc vec)) s1) else s1)"

section \<open>What connecting promises\<close>

text \<open>
  The abstract contract of \<open>zygisk_connect\<close>: over a fixed list of delays, one attempt per delay,
  stopping at the first acceptance or at a failing \<open>socket\<close>; the sleeps made on the way.
\<close>

datatype conn_outcome = Connected "rx list" | SocketFailed | GaveUp

fun connect_spec :: "nat list \<Rightarrow> conn list \<Rightarrow> conn_outcome \<times> nat list \<times> conn list" where
  "connect_spec [] n = (GaveUp, [], n)"
| "connect_spec (d # ds) [] =
     (case connect_spec ds [] of (out, sl, r) \<Rightarrow> (out, (d * 1000) # sl, r))"
| "connect_spec (d # ds) (NoSocket # r) = (SocketFailed, [], r)"
| "connect_spec (d # ds) (Accepted rx # r) = (Connected rx, [], r)"
| "connect_spec (d # ds) (Refused # r) =
     (case connect_spec ds r of (out, sl, r') \<Rightarrow> (out, (d * 1000) # sl, r'))"

definition backoff_delays :: "nat list" where
  "backoff_delays = [100, 200, 400, 800, 1600]"

text \<open>The concrete result that an abstract outcome stands for.\<close>

definition connect_result ::
    "conn_outcome \<Rightarrow> nat list \<Rightarrow> conn list \<Rightarrow> 'a ipc_scheme \<Rightarrow> fd \<times> 'a ipc_scheme" where
  "connect_result out sl r s =
     (let d = lowest_free (map fst (fdtab s));
          s1 = s\<lparr>net := r, oslog := oslog s @ concat (map (\<lambda>t. [OpClose d, OpUsleep t]) sl)\<rparr>
      in case out of
           Connected rx \<Rightarrow> (d, s1\<lparr>fdtab := (d, Sock rx []) # fdtab s, g_sock := d\<rparr>)
         | SocketFailed \<Rightarrow> (-1, s1\<lparr>g_sock := -1\<rparr>)
         | GaveUp \<Rightarrow> (-1, s1\<lparr>g_sock := -1, g_available := False\<rparr>))"

text \<open>The delays the loop header and body produce from \<open>d\<close> on are \<open>ds\<close>.\<close>

fun delays_from :: "nat \<Rightarrow> nat list \<Rightarrow> bool" where
  "delays_from d [] \<longleftrightarrow> 3000 < d"
| "delays_from d (e # es) \<longleftrightarrow>
     d = e \<and> 0 < d \<and> d \<le> 3000 \<and> delays_from ((if d < 1600 then d else 3000) * 2) es"

lemma map_fd_fresh:
  "d \<notin> fst ` set xs \<Longrightarrow> map (\<lambda>(k, g). (k, if k = d then f else g)) xs = xs"
  by (induction xs) auto

lemma connect_loop_refused:
  assumes "0 < d" "d \<le> 3000" "g_available s" "net s = Refused # r"
  shows "connect_loop d s =
    connect_loop ((if d < 1600 then d else 3000) * 2)
      (s\<lparr>net := r, g_sock := -1,
         oslog := oslog s @ [OpClose (lowest_free (map fst (fdtab s))), OpUsleep (d * 1000)]\<rparr>)"
  using assms lowest_free_fresh [of "map fst (fdtab s)"] lowest_free_nonneg [of "map fst (fdtab s)"]
  by (subst connect_loop.simps)
    (auto simp: sys_socket_def sys_connect_def alloc_fd_def Let_def sys_close_def logop_def
      filter_fd_fresh)

lemma connect_loop_unanswered:
  assumes "0 < d" "d \<le> 3000" "g_available s" "net s = []"
  shows "connect_loop d s =
    connect_loop ((if d < 1600 then d else 3000) * 2)
      (s\<lparr>g_sock := -1,
         oslog := oslog s @ [OpClose (lowest_free (map fst (fdtab s))), OpUsleep (d * 1000)]\<rparr>)"
  using assms lowest_free_fresh [of "map fst (fdtab s)"] lowest_free_nonneg [of "map fst (fdtab s)"]
  by (subst connect_loop.simps)
    (auto simp: sys_socket_def sys_connect_def alloc_fd_def Let_def sys_close_def logop_def
      filter_fd_fresh)

lemma connect_loop_accepted:
  assumes "0 < d" "d \<le> 3000" "g_available s" "net s = Accepted rx # r"
  shows "connect_loop d s = connect_result (Connected rx) [] r s"
  using assms lowest_free_fresh [of "map fst (fdtab s)"] lowest_free_nonneg [of "map fst (fdtab s)"]
  by (subst connect_loop.simps)
    (auto simp: sys_socket_def sys_connect_def alloc_fd_def Let_def set_file_def connect_result_def
      map_fd_fresh)

lemma connect_loop_no_socket:
  assumes "0 < d" "d \<le> 3000" "g_available s" "net s = NoSocket # r"
  shows "connect_loop d s = connect_result SocketFailed [] r s"
  using assms
  by (subst connect_loop.simps) (auto simp: sys_socket_def connect_result_def Let_def)

lemma connect_loop_over: "3000 < d \<Longrightarrow> connect_loop d s = (-1, s\<lparr>g_available := False\<rparr>)"
  by (subst connect_loop.simps) simp

lemma connect_result_later:
  "connect_result out sl r (s\<lparr>net := n, g_sock := -1,
       oslog := oslog s @ [OpClose (lowest_free (map fst (fdtab s))), OpUsleep t]\<rparr>)
   = connect_result out (t # sl) r s"
  "connect_result out sl r (s\<lparr>g_sock := -1,
       oslog := oslog s @ [OpClose (lowest_free (map fst (fdtab s))), OpUsleep t]\<rparr>)
   = connect_result out (t # sl) r s"
  by (cases out; simp add: connect_result_def Let_def)+

lemma connect_loop_refines:
  "delays_from d ds \<Longrightarrow> g_available s \<Longrightarrow> g_sock s = -1 \<Longrightarrow>
     connect_loop d s =
       (case connect_spec ds (net s) of (out, sl, r) \<Rightarrow> connect_result out sl r s)"
proof (induction ds arbitrary: d s)
  case Nil
  then show ?case by (simp add: connect_loop_over connect_result_def Let_def)
next
  case (Cons e es)
  let ?n = "(if d < 1600 then d else 3000) * 2"
  let ?s = "\<lambda>r. s\<lparr>net := r, g_sock := -1,
    oslog := oslog s @ [OpClose (lowest_free (map fst (fdtab s))), OpUsleep (d * 1000)]\<rparr>"
  from Cons.prems have d: "d = e" "0 < d" "d \<le> 3000" "delays_from ?n es"
    unfolding delays_from.simps by blast+
  have IH: "connect_loop ?n (?s r) =
      (case connect_spec es r of (out, sl, r') \<Rightarrow> connect_result out (d * 1000 # sl) r' s)" for r
    using Cons.IH [OF d(4), of "?s r"] Cons.prems(2)
    by (simp add: connect_result_later split: prod.splits)
  let ?t = "s\<lparr>g_sock := -1,
    oslog := oslog s @ [OpClose (lowest_free (map fst (fdtab s))), OpUsleep (d * 1000)]\<rparr>"
  have IH0: "connect_loop ?n ?t =
      (case connect_spec es (net s) of (out, sl, r') \<Rightarrow> connect_result out (d * 1000 # sl) r' s)"
    using Cons.IH [OF d(4), of ?t] Cons.prems(2)
    by (simp add: connect_result_later split: prod.splits)
  show ?case
  proof (cases "net s")
    case Nil
    with d Cons.prems(2) IH0 show ?thesis
      by (subst connect_loop_unanswered) (auto split: prod.splits)
  next
    case (Cons c r)
    with d Cons.prems(2) IH [of r] show ?thesis
      by (cases c)
        (auto simp: connect_loop_no_socket connect_loop_accepted
          connect_loop_refused [where r = r] split: prod.splits)
  qed
qed

text \<open>
  C18: Connecting refines its contract. With no cached socket and a closed breaker,
  \<open>zygisk_connect\<close> makes one attempt per delay of 100, 200, 400, 800 and 1600 ms, stops at the first
  acceptance or failing \<open>socket\<close> call, closes every socket it does not return before sleeping, and
  touches nothing else; only after the fifth refusal is the breaker opened.
\<close>

theorem zygisk_connect_refines:
  "g_available s \<Longrightarrow> g_sock s = -1 \<Longrightarrow>
     zygisk_connect s =
       (case connect_spec backoff_delays (net s) of (out, sl, r) \<Rightarrow> connect_result out sl r s)"
  using connect_loop_refines [of 100 backoff_delays s]
  by (simp add: zygisk_connect_def backoff_delays_def)

definition demo_ipc :: "conn list \<Rightarrow> ipc" where
  "demo_ipc n = \<lparr>fdtab = [(0, NonReg 0), (1, NonReg 1)], net = n, oslog = [], g_sock = -1,
     g_available = True\<rparr>"

theorem zygisk_connect_refines_witness:
  "zygisk_connect (demo_ipc [Refused, Accepted []]) =
     (2, (demo_ipc [])\<lparr>fdtab := [(2, Sock [] []), (0, NonReg 0), (1, NonReg 1)],
        oslog := [OpClose 2, OpUsleep 100000], g_sock := 2\<rparr>)"
  by (subst zygisk_connect_refines)
    (simp_all add: demo_ipc_def backoff_delays_def connect_result_def lowest_free_def)

text \<open>
  When nothing listens, \<open>zygisk_connect\<close> gives up after exactly five attempts and 3.1 seconds of
  sleep (the delay of 3000 ms that the loop bound and the last assignment aim at is never slept),
  returns \<open>-1\<close>, leaves the descriptor table as it was and opens the breaker for good.
\<close>

theorem zygisk_connect_gives_up:
  assumes "g_available s" "g_sock s = -1" "net s = replicate 5 Refused @ r"
  shows "fst (zygisk_connect s) = -1 \<and>
     fdtab (snd (zygisk_connect s)) = fdtab s \<and>
     net (snd (zygisk_connect s)) = r \<and>
     \<not> g_available (snd (zygisk_connect s)) \<and>
     sum_list [t. OpUsleep t \<leftarrow> drop (length (oslog s)) (oslog (snd (zygisk_connect s)))] = 3100000 \<and>
     (\<forall>t. OpUsleep t \<in> set (drop (length (oslog s)) (oslog (snd (zygisk_connect s)))) \<longrightarrow>
        t \<noteq> 3000000)"
proof -
  have "replicate 5 Refused = [Refused, Refused, Refused, Refused, Refused]"
    by (simp add: numeral_eq_Suc)
  then show ?thesis
    using zygisk_connect_refines [OF assms(1,2)] assms(3)
    by (auto simp: backoff_delays_def connect_result_def Let_def)
qed

theorem zygisk_connect_gives_up_witness:
  "\<not> g_available (snd (zygisk_connect (demo_ipc (replicate 5 Refused))))"
  using zygisk_connect_gives_up [of "demo_ipc (replicate 5 Refused)" "[]"]
  by (simp add: demo_ipc_def)

section \<open>The client as a machine\<close>

text \<open>
  The operations the client offers, as events, and what they keep. A request with \<open>out_fd\<close> may hand
  a received descriptor over to its caller, so a state of the machine is the client together with
  the descriptors its callers have been handed: a value written to \<open>out_fd\<close> counts when it is a
  descriptor this request opened, other than the connection itself. \<open>EvRequest\<close> carries the
  operation, the pid, whether \<open>out_fd\<close> is given, and what the uninitialised buffer holds.
\<close>

datatype ipc_event = EvConnect | EvDisconnect | EvRequest u32 u32 bool fd

definition handed :: "'a ipc_scheme \<Rightarrow> fd option \<Rightarrow> 'a ipc_scheme \<Rightarrow> fd list" where
  "handed s out s' = (case out of
      None \<Rightarrow> []
    | Some d \<Rightarrow> if d \<in> open_fds s' \<and> d \<notin> open_fds s \<and> d \<noteq> g_sock s' then [d] else [])"

fun ipc_step :: "ipc_event \<Rightarrow> ipc \<times> fd list \<Rightarrow> ipc \<times> fd list" where
  "ipc_step EvConnect (s, ds) = (snd (zygisk_connect s), ds)"
| "ipc_step EvDisconnect (s, ds) = (zygisk_disconnect s, ds)"
| "ipc_step (EvRequest opc p want_fd garbage) (s, ds) =
     (case zygisk_request opc p want_fd garbage s of
        ((_, _, out), s') \<Rightarrow> (s', ds @ handed s out s'))"

definition sock_inv :: "fd set \<Rightarrow> 'a ipc_scheme \<Rightarrow> bool" where
  "sock_inv base s \<longleftrightarrow> fdtab_ok s \<and>
     (if g_sock s < 0 then g_sock s = -1 \<and> open_fds s = base
      else g_sock s \<notin> base \<and> open_fds s = insert (g_sock s) base) \<and>
     (g_available s \<or> g_sock s = -1)"

lemma sys_write_ipc [fd_simps]:
  "sys_write d bs s = (ok, s') \<Longrightarrow>
     g_sock s' = g_sock s \<and> g_available s' = g_available s \<and> open_fds s' = open_fds s \<and>
     fdtab_ok s' = fdtab_ok s"
  by (auto simp: sys_write_def open_fds_set_file split: option.splits ofile.splits)

lemma sock_read_all_ipc [fd_simps]:
  "sock_read_all d n s = (r, buf, s') \<Longrightarrow>
     g_sock s' = g_sock s \<and> g_available s' = g_available s \<and> open_fds s' = open_fds s \<and>
     fdtab_ok s' = fdtab_ok s"
  by (auto simp: sock_read_all_def set_incoming_def open_fds_set_file
      split: option.splits ofile.splits prod.splits)

lemma sock_inv_frame:
  "g_sock s' = g_sock s \<Longrightarrow> g_available s' = g_available s \<Longrightarrow> open_fds s' = open_fds s \<Longrightarrow>
     fdtab_ok s' = fdtab_ok s \<Longrightarrow> sock_inv base s' = sock_inv base s"
  by (simp add: sock_inv_def)

lemma sock_inv_result:
  "sock_inv base s \<Longrightarrow> g_sock s = -1 \<Longrightarrow> g_available s \<Longrightarrow>
     sock_inv base (snd (connect_result out sl r s))"
  using lowest_free_fresh [of "map fst (fdtab s)"] lowest_free_nonneg [of "map fst (fdtab s)"]
  by (cases out) (auto simp: sock_inv_def connect_result_def Let_def open_fds_def fdtab_ok_def)

lemma sock_inv_connect: "sock_inv base s \<Longrightarrow> sock_inv base (snd (zygisk_connect s))"
proof (cases "g_available s \<and> g_sock s < 0")
  case True
  assume inv: "sock_inv base s"
  with True have "g_available s" "g_sock s = -1" by (auto simp: sock_inv_def split: if_splits)
  with inv show ?thesis
    by (simp add: zygisk_connect_refines split_beta sock_inv_result)
qed (auto simp: zygisk_connect_def)

lemma sock_inv_disconnect: "sock_inv base s \<Longrightarrow> sock_inv base (zygisk_disconnect s)"
  by (auto simp: sock_inv_def zygisk_disconnect_def open_fds_close split: if_splits)

lemma sock_inv_alloc:
  assumes "sock_inv base s" "alloc_fd f s = (d, s')"
  shows "sock_inv (insert d base) s' \<and> g_sock s' = g_sock s \<and> d \<in> open_fds s' \<and> d \<notin> open_fds s"
proof -
  have "g_sock s' = g_sock s" "g_available s' = g_available s"
    using assms(2) by (auto simp: alloc_fd_def Let_def)
  then show ?thesis
    using assms(1) fdtab_ok_alloc [OF _ assms(2)] open_fds_alloc [OF assms(2)] alloc_fd_fresh [OF assms(2)]
    by (auto simp: sock_inv_def split: if_splits)
qed

lemma sock_inv_incoming: "sock_inv base (set_incoming d rx s) = sock_inv base s"
  by (rule sock_inv_frame) (simp_all, auto simp: set_incoming_def split: option.split ofile.split)

lemma connect_keeps_open: "sock_inv base s \<Longrightarrow> open_fds s \<subseteq> open_fds (snd (zygisk_connect s))"
  using sock_inv_connect [of base s] by (auto simp: sock_inv_def zygisk_connect_def split: if_splits)

text \<open>A request either opens nothing but the connection or hands over the one descriptor it received.\<close>

lemma sock_inv_request:
  assumes "sock_inv base s" "zygisk_request opc p want g s = ((r, resp, out), s')"
  shows "\<exists>new. sock_inv (base \<union> new) s' \<and> new \<subseteq> {d. out = Some d \<and> d \<in> open_fds s' \<and> d \<noteq> g_sock s'} \<and>
    new \<inter> open_fds s = {}"
proof -
  obtain c s1 where c: "zygisk_connect s = (c, s1)" by fastforce
  obtain ok s2 where w: "sys_write (g_sock s1) (enc_request \<lparr>opcode = opc, hpid = p\<rparr>) s1 = (ok, s2)"
    by fastforce
  obtain rc buf s3 where rd: "sock_read_all (g_sock s2) 12 s2 = (rc, buf, s3)"
    by (metis prod_cases3)
  have 1: "sock_inv base s1" using sock_inv_connect [OF assms(1)] c by simp
  then have 2: "sock_inv base s2" using sock_inv_frame sys_write_ipc [OF w] by metis
  then have 3: "sock_inv base s3" using sock_inv_frame sock_read_all_ipc [OF rd] by metis
  have grown: "open_fds s \<subseteq> open_fds s3"
  proof -
    have "open_fds s \<subseteq> open_fds s1" using connect_keeps_open [OF assms(1)] c by simp
    then show ?thesis using sys_write_ipc [OF w] sock_read_all_ipc [OF rd] by simp
  qed
  note req = assms(2) [unfolded zygisk_request_def c w rd prod.case]
  have none: ?thesis if "sock_inv base s'"
    using that by (intro exI [of _ "{}"]) simp
  show ?thesis
  proof (cases "\<exists>f rx' d. out = Some d \<and> alloc_fd f (set_incoming (g_sock s3) rx' s3) = (d, s')")
    case True
    then obtain f rx' d where out: "out = Some d"
      and al: "alloc_fd f (set_incoming (g_sock s3) rx' s3) = (d, s')" by blast
    have "sock_inv base (set_incoming (g_sock s3) rx' s3)" using 3 by (simp add: sock_inv_incoming)
    from sock_inv_alloc [OF this al] have
      "sock_inv (insert d base) s'" "d \<in> open_fds s'" "d \<notin> open_fds s3" "g_sock s' = g_sock s3"
      by simp_all
    moreover from this have "d \<noteq> g_sock s'"
      using 3 alloc_fd_fresh [OF al] by (auto simp: sock_inv_def split: if_splits)
    ultimately show ?thesis using out grown by (intro exI [of _ "{d}"]) auto
  next
    case False
    have "sock_inv base s'"
      using req False 1 2 3
      by (auto simp: sock_inv_disconnect sock_inv_incoming split: if_splits option.splits prod.splits rres.splits)
    then show ?thesis by (rule none)
  qed
qed

text \<open>The descriptors that are open: those of the start, those handed over, the cached socket.\<close>

definition accounted :: "fd set \<Rightarrow> ipc \<times> fd list \<Rightarrow> bool" where
  "accounted base t \<longleftrightarrow> sock_inv (base \<union> set (snd t)) (fst t)"

lemma accounted_step: "accounted base t \<Longrightarrow> accounted base (ipc_step e t)"
proof -
  assume t: "accounted base t"
  obtain s ds where s: "t = (s, ds)" by fastforce
  show ?thesis
  proof (cases e)
    case (EvRequest opc p want g)
    obtain r resp out s' where rq: "zygisk_request opc p want g s = ((r, resp, out), s')"
      using prod.exhaust by metis
    have "sock_inv (base \<union> set ds) s" using t s by (simp add: accounted_def)
    from sock_inv_request [OF this rq] obtain new where
      new: "sock_inv (base \<union> set ds \<union> new) s'" "new \<inter> open_fds s = {}"
        "new \<subseteq> {d. out = Some d \<and> d \<in> open_fds s' \<and> d \<noteq> g_sock s'}"
      by blast
    have only: "d \<in> base \<union> set ds \<union> new" if "d \<in> open_fds s'" "d \<noteq> g_sock s'" for d
      using new(1) that by (auto simp: sock_inv_def split: if_splits)
    have old: "base \<union> set ds \<subseteq> open_fds s"
      using t s by (auto simp: accounted_def sock_inv_def split: if_splits)
    have "set (handed s out s') = new"
    proof
      show "set (handed s out s') \<subseteq> new"
      proof
        fix d assume "d \<in> set (handed s out s')"
        then have "d \<in> open_fds s'" "d \<notin> open_fds s" "d \<noteq> g_sock s'"
          by (auto simp: handed_def split: option.splits if_splits)
        then show "d \<in> new" using only old by blast
      qed
      show "new \<subseteq> set (handed s out s')"
        using new(2,3) by (auto simp: handed_def)
    qed
    then show ?thesis
      using new(1) by (simp add: EvRequest s rq accounted_def Un_assoc)
  qed (use t s in \<open>simp_all add: accounted_def sock_inv_connect sock_inv_disconnect\<close>)
qed

interpretation client: machine ipc_step "accounted base" for base
  by unfold_locales (rule accounted_step)

text \<open>
  C22: The client leaks no descriptor. Along any sequence of connects, disconnects and requests, with
  or without \<open>out_fd\<close> and on any answers of the daemon, the open descriptors are exactly those open at
  the start, those a request received and handed to its caller, and the cached socket while there is
  one, which is none of the others; once the breaker is open none is cached.
\<close>

theorem client_no_leak:
  assumes "fdtab_ok s" "g_sock s = -1"
  shows "let (t, received) = fold ipc_step es (s, []) in
     open_fds t = open_fds s \<union> set received \<union> (if g_sock t < 0 then {} else {g_sock t}) \<and>
     (0 \<le> g_sock t \<longrightarrow> g_sock t \<notin> open_fds s \<union> set received) \<and> (g_available t \<or> g_sock t = -1)"
proof -
  have "accounted (open_fds s) (fold ipc_step es (s, []))"
    using assms by (intro client.inv_fold) (simp add: accounted_def sock_inv_def)
  then show ?thesis by (auto simp: accounted_def sock_inv_def Let_def split: if_splits)
qed

text \<open>
  A refused attempt, a connection on which a request receives a descriptor, a failing request that
  drops the connection, and a connection that is kept.
\<close>

definition demo_handover :: ipc where
  "demo_handover = demo_ipc [Refused,
     Accepted [Chunk (enc_response \<lparr>code = 0, ruid = 10123, rflags = 6\<rparr>) None, Chunk [0] (Some (NonReg 9))],
     Accepted []]"

definition demo_ops :: "ipc_event list" where
  "demo_ops = [EvConnect, EvRequest 0 7 True 99, EvRequest 0 7 False 0, EvConnect]"

lemma demo_handover_run:
  "let (t, received) = fold ipc_step demo_ops (demo_handover, []) in received = [3] \<and> g_sock t = 2"
proof -
  define reply where "reply = enc_response \<lparr>code = 0, ruid = 10123, rflags = 6\<rparr>"
  define req where "req = enc_request \<lparr>opcode = 0, hpid = 7\<rparr>"
  have len: "length reply = 12" "dec_response reply = Some \<lparr>code = 0, ruid = 10123, rflags = 6\<rparr>"
    by (simp_all add: reply_def resp.length_enc resp.dec_enc)
  then have nonempty: "reply \<noteq> []" by auto
  have reads: "read_all 12 [Chunk reply None, Chunk [0] (Some (NonReg 9))] [] = (0, reply, [Chunk [0] (Some (NonReg 9))])"
    "read_all 12 [] [] = (-1, [], [])"
    using len nonempty by (simp_all add: read_all.simps)
  let ?st = "\<lambda>files n lg k. \<lparr>fdtab = files @ [(0, NonReg 0), (1, NonReg 1)], net = n, oslog = lg,
    g_sock = k, g_available = True\<rparr>"
  let ?lg = "[OpClose 2, OpUsleep 100000]"
  have 1: "ipc_step EvConnect (demo_handover, []) =
      (?st [(2, Sock [Chunk reply None, Chunk [0] (Some (NonReg 9))] [])] [Accepted []] ?lg 2, [])"
    by (simp add: demo_handover_def demo_ipc_def zygisk_connect_refines backoff_delays_def
        connect_result_def lowest_free_def reply_def)
  have 2: "ipc_step (EvRequest 0 7 True 99)
        (?st [(2, Sock [Chunk reply None, Chunk [0] (Some (NonReg 9))] [])] [Accepted []] ?lg 2, []) =
      (?st [(3, NonReg 9), (2, Sock [] req)] [Accepted []] ?lg 2, [3])"
    using reads len
    by (simp add: zygisk_request_def zygisk_connect_def sys_write_def set_file_def sock_read_all_def
        incoming_def set_incoming_def alloc_fd_def lowest_free_def handed_def open_fds_def req_def)
  have 3: "ipc_step (EvRequest 0 7 False 0)
        (?st [(3, NonReg 9), (2, Sock [] req)] [Accepted []] ?lg 2, [3]) =
      (?st [(3, NonReg 9)] [Accepted []] (?lg @ [OpClose 2]) (- 1), [3])"
    using reads
    by (simp add: zygisk_request_def zygisk_connect_def zygisk_disconnect_def sys_write_def set_file_def
        sock_read_all_def incoming_def set_incoming_def handed_def sys_close_def logop_def)
  have 4: "ipc_step EvConnect (?st [(3, NonReg 9)] [Accepted []] (?lg @ [OpClose 2]) (- 1), [3]) =
      (?st [(2, Sock [] []), (3, NonReg 9)] [] (?lg @ [OpClose 2]) 2, [3])"
    by (simp add: zygisk_connect_refines backoff_delays_def connect_result_def lowest_free_def)
  show ?thesis
    by (simp only: demo_ops_def fold.simps comp_def id_def 1 2 3 4) simp
qed

theorem client_no_leak_witness:
  "let (t, received) = fold ipc_step demo_ops (demo_handover, []) in
     received = [3] \<and> open_fds t = {0, 1, 3, 2}"
  using client_no_leak [of demo_handover demo_ops] demo_handover_run
  by (auto simp: demo_handover_def demo_ipc_def fdtab_ok_def open_fds_def Let_def case_prod_beta)

text \<open>
  An open breaker stays open and silent: every connect and every request returns \<open>-1\<close> at once,
  with no system call and no change of state.
\<close>

theorem breaker_open:
  "\<not> g_available s \<Longrightarrow>
     zygisk_connect s = (-1, s) \<and> zygisk_request opc p w g s = ((-1, None, None), s)"
  by (simp add: zygisk_connect_def zygisk_request_def)

theorem breaker_open_witness:
  "zygisk_request 0 7 True 9 ((demo_ipc [Accepted []])\<lparr>g_available := False\<rparr>) =
     ((-1, None, None), (demo_ipc [Accepted []])\<lparr>g_available := False\<rparr>)"
  using breaker_open [of "(demo_ipc [Accepted []])\<lparr>g_available := False\<rparr>" 0 7 True 9]
  by simp

section \<open>The exchange\<close>

lemma map_of_set_file:
  "map_of (fdtab (set_file d f s)) k =
     (if k = d then map_option (\<lambda>_. f) (map_of (fdtab s) k) else map_of (fdtab s) k)"
proof -
  have "map_of (map (\<lambda>(k, g). (k, if k = d then f else g)) xs) k =
      (if k = d then map_option (\<lambda>_. f) (map_of xs k) else map_of xs k)" for xs
    by (induction xs) auto
  then show ?thesis by (simp add: set_file_def)
qed

lemma sock_write_read:
  assumes "map_of (fdtab s) d = Some (Sock rx tx)"
  shows "sys_write d bs s = (True, set_file d (Sock rx (tx @ bs)) s)"
    "incoming d (set_file d (Sock rx (tx @ bs)) s) = Some rx"
    "map_of (fdtab (set_incoming d rx' (set_file d (Sock rx (tx @ bs)) s))) d =
       Some (Sock rx' (tx @ bs))"
  using assms by (simp_all add: sys_write_def incoming_def set_incoming_def map_of_set_file)

lemma take_append_exact: "length xs = n \<Longrightarrow> take n (xs @ ys) = xs"
  by simp

text \<open>
  C23: A request on a live connection is a round trip. However the twelve response bytes are cut into
  pieces, \<open>zygisk_request\<close> sends exactly the encoded header, returns the response's code and fields,
  leaves the rest of the stream unread and keeps the connection.
\<close>

theorem zygisk_request_roundtrip:
  assumes "g_available s" "0 \<le> g_sock s"
    and "map_of (fdtab s) (g_sock s) = Some (Sock rx tx)"
    and "rx_bytes rx = enc_response r @ rest"
  shows "\<exists>s' rx'. zygisk_request opc p False g s = ((sint (code r), Some r, None), s') \<and>
     map_of (fdtab s') (g_sock s') =
       Some (Sock rx' (tx @ enc_request \<lparr>opcode = opc, hpid = p\<rparr>)) \<and>
     rx_bytes rx' = rest \<and> g_sock s' = g_sock s \<and> open_fds s' = open_fds s"
proof -
  let ?h = "enc_request \<lparr>opcode = opc, hpid = p\<rparr>"
  let ?s2 = "set_file (g_sock s) (Sock rx (tx @ ?h)) s"
  have len: "length (enc_response r) = 12" by (rule resp.length_enc)
  have tk: "take 12 (rx_bytes rx) = enc_response r" "12 \<le> length (rx_bytes rx)"
    using assms(4) len by simp_all
  with read_all_spec [of "[]" 12 rx] obtain rx' where
    ra: "read_all 12 rx [] = (0, enc_response r, rx')" "rx_bytes rx = enc_response r @ rx_bytes rx'"
    by auto
  from assms(4) ra(2) have rest: "rx_bytes rx' = rest" by simp
  have rd: "sock_read_all (g_sock s) 12 ?s2 = (0, enc_response r, set_incoming (g_sock s) rx' ?s2)"
    using sock_write_read(2) [OF assms(3)] ra(1) by (simp add: sock_read_all_def)
  have "zygisk_request opc p False g s =
      ((sint (code r), Some r, None), set_incoming (g_sock s) rx' ?s2)"
    using assms(1,2) sock_write_read(1) [OF assms(3)] rd
    by (simp add: zygisk_request_def zygisk_connect_def resp.dec_enc)
  then show ?thesis
    using sock_write_read(3) [OF assms(3)] rest by (simp add: open_fds_set_file)
qed

definition demo_reply :: response_header where
  "demo_reply = \<lparr>code = 0, ruid = 10123, rflags = 6\<rparr>"

definition demo_rx :: "rx list" where
  "demo_rx = [Chunk (take 5 (enc_response demo_reply)) None,
     Chunk (drop 5 (enc_response demo_reply) @ [9]) None]"

definition demo_live :: ipc where
  "demo_live = (demo_ipc [])\<lparr>g_sock := 5, fdtab := [(5, Sock demo_rx [])]\<rparr>"

theorem zygisk_request_roundtrip_witness:
  "fst (zygisk_request 0 7 False 0 demo_live) = (0, Some demo_reply, None)"
proof -
  have rx: "rx_bytes demo_rx = enc_response demo_reply @ [9]" by (simp add: demo_rx_def)
  have live: "g_available demo_live" "0 \<le> g_sock demo_live"
    "map_of (fdtab demo_live) (g_sock demo_live) = Some (Sock demo_rx [])"
    by (simp_all add: demo_live_def demo_ipc_def)
  from zygisk_request_roundtrip [OF live rx, of 0 7 0] obtain s' where
    "zygisk_request 0 7 False 0 demo_live = ((sint (code demo_reply), Some demo_reply, None), s')"
    by blast
  moreover have "sint (code demo_reply) = 0" by (simp add: demo_reply_def)
  ultimately show ?thesis by simp
qed

text \<open>
  C24: A response that ends early or fails is reported and the connection dropped: the call returns
  \<open>-1\<close>, no response field is written, the socket is closed and no longer cached.
\<close>

theorem zygisk_request_truncated:
  assumes "g_available s" "0 \<le> g_sock s"
    and "map_of (fdtab s) (g_sock s) = Some (Sock rx tx)"
    and "length (rx_bytes rx) < 12"
  shows "\<exists>s'. zygisk_request opc p w g s = ((-1, None, None), s') \<and> g_sock s' = -1 \<and>
     open_fds s' = open_fds s - {g_sock s} \<and> g_available s'"
proof -
  let ?h = "enc_request \<lparr>opcode = opc, hpid = p\<rparr>"
  let ?s2 = "set_file (g_sock s) (Sock rx (tx @ ?h)) s"
  from read_all_spec [of "[]" 12 rx] assms(4) obtain rx' where
    ra: "read_all 12 rx [] = (-1, rx_bytes rx, rx')"
    by auto
  have rd: "sock_read_all (g_sock s) 12 ?s2 = (-1, rx_bytes rx, set_incoming (g_sock s) rx' ?s2)"
    using sock_write_read(2) [OF assms(3)] ra by (simp add: sock_read_all_def)
  show ?thesis
    using assms(1,2) sock_write_read(1) [OF assms(3)] rd
    by (simp add: zygisk_request_def zygisk_connect_def zygisk_disconnect_def fd_simps)
qed

definition demo_short :: ipc where
  "demo_short = (demo_ipc [])\<lparr>g_sock := 5,
     fdtab := [(5, Sock [Chunk [1, 2, 3] None, Fault EINTR, Chunk [4] None] [])]\<rparr>"

theorem zygisk_request_truncated_witness:
  "fst (zygisk_request 0 7 False 0 demo_short) = (-1, None, None)"
proof -
  have "g_available demo_short" "0 \<le> g_sock demo_short"
    "map_of (fdtab demo_short) (g_sock demo_short) =
       Some (Sock [Chunk [1, 2, 3] None, Fault EINTR, Chunk [4] None] [])"
    "length (rx_bytes [Chunk [1, 2, 3] None, Fault EINTR, Chunk [4] None]) < 12"
    by (simp_all add: demo_short_def demo_ipc_def)
  from zygisk_request_truncated [OF this, of 0 7 False 0] obtain s' where
    "zygisk_request 0 7 False 0 demo_short = ((-1, None, None), s')"
    by blast
  then show ?thesis by simp
qed

end
