(* ===== verification/Daemon.thy ===== *)
theory Daemon
  imports Wire
begin

text \<open>
  \<^verbatim>\<open>zygiskd/src/process.rs\<close> and \<^verbatim>\<open>zygiskd/src/server.rs\<close>: what the daemon answers to one
  connection. The contents of \<^verbatim>\<open>/proc/<pid>/status\<close> are an argument (\<open>None\<close> when the file cannot
  be read as text).
\<close>

section \<open>The string functions used\<close>

definition strip_cr :: "string \<Rightarrow> string" where
  "strip_cr l = (if l \<noteq> [] \<and> last l = CHR 0x0D then butlast l else l)"

function rust_lines :: "string \<Rightarrow> string list" where
  "rust_lines s =
     (if s = [] then []
      else strip_cr (takeWhile (\<lambda>c. c \<noteq> CHR 0x0A) s) # rust_lines (tl (dropWhile (\<lambda>c. c \<noteq> CHR 0x0A) s)))"
  by pat_completeness auto
termination
proof (relation "measure length", goal_cases)
  case 1
  show ?case by simp
next
  case (2 s)
  then show ?case
    using length_dropWhile_le [of "\<lambda>c. c \<noteq> CHR 0x0A" s]
    by (cases s) (auto simp: le_imp_less_Suc less_Suc_eq_le le_diff_conv)
qed

declare rust_lines.simps [simp del]

function split_whitespace :: "string \<Rightarrow> string list" where
  "split_whitespace s =
     (let t = dropWhile is_space s in
      if t = [] then []
      else takeWhile (\<lambda>c. \<not> is_space c) t # split_whitespace (dropWhile (\<lambda>c. \<not> is_space c) t))"
  by pat_completeness auto
termination
proof (relation "measure length", goal_cases)
  case 1
  show ?case by simp
next
  case (2 s t)
  then have "t \<noteq> []" "\<not> is_space (hd t)" "length t \<le> length s"
    using hd_dropWhile [of is_space s] length_dropWhile_le [of is_space s] by auto
  then show ?case
    using length_dropWhile_le [of "\<lambda>c. \<not> is_space c" "tl t"] by (cases t) auto
qed

declare split_whitespace.simps [simp del]

text \<open>\<open>str::parse::<i32>\<close>: an optional sign, at least one digit, nothing else, within range.\<close>

definition parse_i32 :: "string \<Rightarrow> int option" where
  "parse_i32 s =
     (let neg = (s \<noteq> [] \<and> hd s = CHR ''-'');
          ds = (if s \<noteq> [] \<and> (hd s = CHR ''-'' \<or> hd s = CHR ''+'') then tl s else s);
          v = (if neg then - int (num_of 10 ds) else int (num_of 10 ds))
      in if ds \<noteq> [] \<and> list_all (is_digit 10) ds \<and> - (2 ^ 31) \<le> v \<and> v < 2 ^ 31 then Some v else None)"

section \<open>process.rs\<close>

record process_info =
  puid :: int
  pflags :: u32

definition find_uid_line :: "string \<Rightarrow> string option" where
  "find_uid_line status = find (\<lambda>l. take 4 l = ''Uid:'') (rust_lines status)"

definition process_info_new :: "string option \<Rightarrow> process_info" where
  "process_info_new status =
     (let uid = (case do {
              s \<leftarrow> status;
              l \<leftarrow> find_uid_line s;
              v \<leftarrow> (let ws = split_whitespace l in if 1 < length ws then Some (ws ! 1) else None);
              parse_i32 v } of None \<Rightarrow> -1 | Some v \<Rightarrow> v)
      in \<lparr>puid = uid, pflags = 0\<rparr>)"

section \<open>server.rs\<close>

text \<open>
  One accepted stream: the eight header bytes are read exactly (anything shorter is dropped without
  an answer), the twelve response bytes are written, and the stream is closed as it goes out of
  scope. The opcode is decoded and logged only.
\<close>

definition handle_stream :: "(u32 \<Rightarrow> string option) \<Rightarrow> u8 list \<Rightarrow> u8 list option" where
  "handle_stream proc_status input =
     (if length input < 8 then None
      else
        (case dec_request (take 8 input) of
           None \<Rightarrow> None \<comment> \<open>not reached: eight bytes always decode\<close>
         | Some h \<Rightarrow>
             (let info = process_info_new (proc_status (hpid h))
              in Some (enc_response
                   \<lparr>code = 0, ruid = word_of_int (puid info), rflags = pflags info\<rparr>))))"

section \<open>Properties\<close>

text \<open>
  The daemon answers every complete request alike. Whatever the opcode and whatever follows the
  header, it sends exactly one twelve-byte response with code 0 and no flag set: in particular no
  process is ever reported as being on the deny list, and no descriptor is ever passed.
\<close>

theorem daemon_answers:
  "handle_stream ps (enc_request h @ extra) =
     Some (enc_response \<lparr>code = 0,
       ruid = word_of_int (puid (process_info_new (ps (hpid h)))), rflags = 0\<rparr>)"
  by (simp add: handle_stream_def req.length_enc req.dec_enc process_info_new_def Let_def)

lemma split_whitespace_word:
  assumes "\<forall>c\<in>set sp. is_space c" "w \<noteq> []" "\<forall>c\<in>set w. \<not> is_space c"
    "r = [] \<or> is_space (hd r)"
  shows "split_whitespace (sp @ w @ r) = w # split_whitespace r"
proof -
  have 1: "dropWhile is_space (sp @ w @ r) = w @ r"
    using assms(1-3) by (cases w) (auto simp: dropWhile_append)
  have 2: "takeWhile (\<lambda>c. \<not> is_space c) (w @ r) = w" "dropWhile (\<lambda>c. \<not> is_space c) (w @ r) = r"
    using assms(3,4) by (cases r; auto simp: takeWhile_append dropWhile_append)+
  show ?thesis
    using assms(2) by (subst split_whitespace.simps) (simp add: 1 2 Let_def)
qed

lemma parse_i32_show: "n < 2 ^ 31 \<Longrightarrow> parse_i32 (show_num 10 n) = Some (int n)"
proof -
  assume n: "n < 2 ^ 31"
  have d: "is_digit 10 (hd (show_num 10 n))"
    using show_num_digits [of 10 n] show_num_nonempty [of 10 n] by auto
  then have "hd (show_num 10 n) \<noteq> CHR ''-''" "hd (show_num 10 n) \<noteq> CHR ''+''"
    by (auto simp: is_digit_def digit_value_def)
  with n show ?thesis
    using show_num_digits [of 10 n]
    by (simp add: parse_i32_def num_of_show_num show_num_nonempty list_all_iff)
qed

text \<open>
  The uid the daemon reports is the one the kernel prints. For a status text whose first line
  starting with \<open>Uid:\<close> is that label, a tab, the real uid in decimal and a tab (the kernel's
  format), the reported uid is that number.
\<close>

theorem process_uid:
  assumes "find_uid_line status = Some (''Uid:'' @ [CHR 0x09] @ show_num 10 n @ CHR 0x09 # r)"
    and "n < 2 ^ 31"
  shows "puid (process_info_new (Some status)) = int n"
proof -
  let ?r = "[CHR 0x09] @ show_num 10 n @ CHR 0x09 # r"
  have ns: "\<forall>c\<in>set (show_num 10 n). \<not> is_space c"
    using show_num_digits [of 10 n] is_digit_not_space by auto
  have "split_whitespace (''Uid:'' @ ?r) = ''Uid:'' # split_whitespace ?r"
    using split_whitespace_word [of "[]" "''Uid:''" ?r] by (simp add: is_space_def)
  also have "split_whitespace ?r = show_num 10 n # split_whitespace (CHR 0x09 # r)"
    using ns by (intro split_whitespace_word) (auto simp: is_space_def show_num_nonempty)
  finally show ?thesis
    using assms by (simp add: process_info_new_def parse_i32_show)
qed

definition demo_status :: string where
  "demo_status = ''Name:'' @ [CHR 0x09] @ ''zygote'' @ [CHR 0x0A] @ ''Uid:'' @ [CHR 0x09] @ ''1000''
     @ [CHR 0x09] @ ''1000'' @ [CHR 0x0A]"

theorem process_uid_witness: "puid (process_info_new (Some demo_status)) = 1000"
proof -
  have num: "show_num 10 1000 = ''1000''"
    by (simp add: show_num.simps digit_char_def char_of_def bit_0)
  have "find_uid_line demo_status =
      Some (''Uid:'' @ [CHR 0x09] @ show_num 10 1000 @ CHR 0x09 # ''1000'')"
    unfolding num by code_simp
  from process_uid [OF this] show ?thesis by simp
qed

end
