(* ===== verification/Server.thy ===== *)
theory Server
  imports Daemon
begin

text \<open>
  \<^verbatim>\<open>zygiskd/src/main.rs\<close> and the rest of \<^verbatim>\<open>zygiskd/src/server.rs\<close>: the daemon as a process. It makes
  its directory, removes the socket an earlier daemon left behind, binds, opens the socket to
  everybody and answers one connection after the other. The files it touches and what the accepted
  connections bring are data; whatever the system refuses is a parameter.
\<close>

section \<open>The files of the daemon\<close>

datatype node = Dir | Other nat \<comment> \<open>the mode of anything that is not a directory\<close>

datatype fs_op = Mkdir string | Unlink string | Bind string | Chmod string nat

record host =
  nodes :: "string \<Rightarrow> node option"
  permitted :: "fs_op \<Rightarrow> bool"
  bind_mode :: nat \<comment> \<open>the mode a new socket gets\<close>

definition set_node :: "string \<Rightarrow> node option \<Rightarrow> host \<Rightarrow> host" where
  "set_node p n h = h\<lparr>nodes := (nodes h)(p := n)\<rparr>"

text \<open>\<open>fs::create_dir_all\<close>: the directories of the path from the root on, as far as they can be made.\<close>

fun create_dir_all :: "string list \<Rightarrow> host \<Rightarrow> host" where
  "create_dir_all [] h = h"
| "create_dir_all (p # ps) h =
     (case nodes h p of
        None \<Rightarrow> if permitted h (Mkdir p) then create_dir_all ps (set_node p (Some Dir) h) else h
      | Some Dir \<Rightarrow> create_dir_all ps h
      | Some (Other _) \<Rightarrow> h)"

definition remove_file :: "string \<Rightarrow> host \<Rightarrow> host" where
  "remove_file p h =
     (case nodes h p of
        Some (Other _) \<Rightarrow> if permitted h (Unlink p) then set_node p None h else h
      | _ \<Rightarrow> h)"

definition bind_socket :: "string \<Rightarrow> string \<Rightarrow> host \<Rightarrow> host option" where
  "bind_socket parent p h =
     (if nodes h p = None \<and> nodes h parent = Some Dir \<and> permitted h (Bind p)
      then Some (set_node p (Some (Other (bind_mode h))) h) else None)"

definition set_permissions :: "string \<Rightarrow> nat \<Rightarrow> host \<Rightarrow> host" where
  "set_permissions p mode h = (if permitted h (Chmod p mode) then set_node p (Some (Other mode)) h else h)"

definition socket_dirs :: "string list" where
  "socket_dirs = [''/data'', ''/data/adb'', ''/data/adb/zygisk'']"

section \<open>The connections\<close>

text \<open>
  What \<open>accept\<close> yields: an error, or a stream. Of a stream: the bytes its client sends, whether the
  client then keeps the connection open without sending more, whether it still takes an answer, and
  the contents of \<^verbatim>\<open>/proc/<pid>/status\<close> at that moment.
\<close>

datatype connection =
    Accept_failed
  | Stream (sent: "u8 list") (silent: bool) (takes: bool) (status_of: "u32 \<Rightarrow> string option")

text \<open>\<open>read_exact\<close> on eight bytes waits until they are there or the connection ends.\<close>

fun waits :: "connection \<Rightarrow> bool" where
  "waits Accept_failed = False"
| "waits (Stream bs sil tk st) \<longleftrightarrow> length bs < 8 \<and> sil"

text \<open>The answer that reaches the client of a connection, when one does.\<close>

fun serve :: "connection \<Rightarrow> u8 list option" where
  "serve Accept_failed = None"
| "serve (Stream bs sil tk st) =
     (case handle_stream st bs of
        None \<Rightarrow> None \<comment> \<open>Failed to read request header\<close>
      | Some resp \<Rightarrow> if tk then Some resp else None \<comment> \<open>Failed to write response\<close>)"

text \<open>
  The loop over \<open>listener.incoming()\<close>, which never ends by itself: after the last connection given
  it waits in \<open>accept\<close>. \<open>Reading\<close> is waiting for the header of a connection.
\<close>

datatype server_at = Accepting | Reading | Exited "nat option" \<comment> \<open>the exit status of \<open>process::exit\<close>\<close>

fun serve_all :: "connection list \<Rightarrow> u8 list option list \<times> server_at" where
  "serve_all [] = ([], Accepting)"
| "serve_all (c # cs) =
     (if waits c then ([], Reading)
      else (let (as, at) = serve_all cs in (serve c # as, at)))"

definition run :: "connection list \<Rightarrow> host \<Rightarrow> (u8 list option list \<times> server_at) \<times> host" where
  "run cs h =
     (let h1 = create_dir_all socket_dirs h;
          h2 = remove_file ZYGISK_SOCKET_PATH h1
      in case bind_socket (last socket_dirs) ZYGISK_SOCKET_PATH h2 of
           None \<Rightarrow> (([], Exited None), h2) \<comment> \<open>Failed to bind socket\<close>
         | Some h3 \<Rightarrow> (serve_all cs, set_permissions ZYGISK_SOCKET_PATH 0x1FF h3))"

definition daemon_main :: "string list \<Rightarrow> connection list \<Rightarrow> host \<Rightarrow> (u8 list option list \<times> server_at) \<times> host" where
  "daemon_main args cs h =
     (let arg = (if 1 < length args then Some (args ! 1) else None)
      in if arg = Some ''daemon'' \<or> arg = None then run cs h else (([], Exited (Some 1)), h))"

section \<open>Lemmas\<close>

lemma serve_all_answers: "\<not> (\<exists>c\<in>set cs. waits c) \<Longrightarrow> serve_all cs = (map serve cs, Accepting)"
  by (induction cs) auto

lemma serve_all_blocks: "\<not> (\<exists>c\<in>set cs. waits c) \<Longrightarrow> waits c \<Longrightarrow> serve_all (cs @ c # cs') = (map serve cs, Reading)"
  by (induction cs) auto

lemma create_dir_all_keeps: "p \<notin> set ps \<Longrightarrow> nodes (create_dir_all ps h) p = nodes h p"
  by (induction ps h rule: create_dir_all.induct) (auto simp: set_node_def split: option.split node.split)

lemma create_dir_all_permitted [simp]: "permitted (create_dir_all ps h) = permitted h"
  by (induction ps h rule: create_dir_all.induct) (auto simp: set_node_def split: option.split node.split)

lemma create_dir_all_made:
  assumes "\<forall>p\<in>set ps. nodes h p = Some Dir \<or> nodes h p = None \<and> permitted h (Mkdir p)" "distinct ps" "p \<in> set ps"
  shows "nodes (create_dir_all ps h) p = Some Dir"
  using assms
proof (induction ps h rule: create_dir_all.induct)
  case (2 q ps h)
  have "q \<notin> set ps" using 2(4) by simp
  moreover have "\<forall>p\<in>set ps. nodes (set_node q (Some Dir) h) p = Some Dir \<or> nodes (set_node q (Some Dir) h) p = None \<and> permitted h (Mkdir p)"
    using 2(3,4) by (auto simp: set_node_def)
  ultimately show ?case
    using 2 by (auto simp: create_dir_all_keeps set_node_def split: option.split node.split)
qed simp

lemma socket_path_apart: "ZYGISK_SOCKET_PATH \<notin> set socket_dirs"
  by (simp add: ZYGISK_SOCKET_PATH_def socket_dirs_def)

text \<open>
  A host on which the daemon can start: its directories are there or can be made, what stands at its
  path, if anything, is a file it may remove, and it may bind and change the mode.
\<close>

definition startable :: "host \<Rightarrow> bool" where
  "startable h \<longleftrightarrow>
     (\<forall>p\<in>set socket_dirs. nodes h p = Some Dir \<or> nodes h p = None \<and> permitted h (Mkdir p)) \<and>
     nodes h ZYGISK_SOCKET_PATH \<noteq> Some Dir \<and> permitted h (Unlink ZYGISK_SOCKET_PATH) \<and>
     permitted h (Bind ZYGISK_SOCKET_PATH) \<and> permitted h (Chmod ZYGISK_SOCKET_PATH 0x1FF)"

lemma run_starts:
  assumes "startable h"
  shows "fst (run cs h) = serve_all cs" and "nodes (snd (run cs h)) ZYGISK_SOCKET_PATH = Some (Other 0x1FF)"
    and "startable (snd (run cs h))"
proof -
  let ?P = ZYGISK_SOCKET_PATH
  define h1 where "h1 = create_dir_all socket_dirs h"
  define h2 where "h2 = remove_file ?P h1"
  have dist: "distinct socket_dirs" by (simp add: socket_dirs_def)
  have d1: "nodes h1 p = Some Dir" if "p \<in> set socket_dirs" for p
    unfolding h1_def using assms dist that by (intro create_dir_all_made) (auto simp: startable_def)
  have p1: "nodes h1 ?P = nodes h ?P" "permitted h1 = permitted h"
    using create_dir_all_keeps [OF socket_path_apart, of h] by (simp_all add: h1_def)
  have d2: "nodes h2 ?P = None" "permitted h2 = permitted h" "nodes h2 p = nodes h1 p" if "p \<noteq> ?P" for p
    using assms p1 that by (auto simp: h2_def remove_file_def startable_def set_node_def split: option.split node.split)
  have ne: "last socket_dirs \<noteq> ?P" "last socket_dirs \<in> set socket_dirs"
    using socket_path_apart by (auto simp: socket_dirs_def)
  have b: "bind_socket (last socket_dirs) ?P h2 = Some (set_node ?P (Some (Other (bind_mode h2))) h2)"
    using assms d1 [OF ne(2)] d2 [OF ne(1)] by (simp add: bind_socket_def startable_def)
  have r: "run cs h = (serve_all cs, set_permissions ?P 0x1FF (set_node ?P (Some (Other (bind_mode h2))) h2))"
    by (simp add: run_def h1_def [symmetric] h2_def [symmetric] b)
  show "fst (run cs h) = serve_all cs" by (simp add: r)
  show n: "nodes (snd (run cs h)) ?P = Some (Other 0x1FF)"
    using assms d2(2) [OF ne(1)] by (simp add: r set_permissions_def set_node_def startable_def)
  have "nodes (snd (run cs h)) p = Some Dir" if "p \<in> set socket_dirs" for p
    using socket_path_apart d1 [OF that] d2(3) [of p] that
    by (auto simp: r set_permissions_def set_node_def)
  moreover have "permitted (snd (run cs h)) = permitted h"
    using d2(2) [OF ne(1)] by (simp add: r set_permissions_def set_node_def)
  ultimately show "startable (snd (run cs h))"
    using assms n by (simp add: startable_def)
qed

section \<open>Properties\<close>

text \<open>
  C21: One silent client stops the daemon. Started with no argument or with \<open>daemon\<close> on a host where it
  can start, over a socket an earlier run left behind as well, the daemon opens its socket to
  everybody and gives each connection its own answer, in order, as long as no client keeps its
  connection open after fewer than eight bytes. The first client that does is waited for, and
  whatever follows is neither accepted nor answered: the outcome does not depend on it.
\<close>

theorem silent_client_stops_service:
  assumes "startable h" "args = [prog] \<or> args = [prog, ''daemon'']" "\<forall>c\<in>set cs. \<not> waits c"
  shows "\<exists>h1. daemon_main args cs h = ((map serve cs, Accepting), h1) \<and>
           nodes h1 ZYGISK_SOCKET_PATH = Some (Other 0x1FF) \<and>
           (\<forall>cs1. fst (daemon_main args cs1 h1) = serve_all cs1) \<and>
           (\<forall>c rest. waits c \<longrightarrow> fst (daemon_main args (cs @ c # rest) h) = (map serve cs, Reading))"
proof -
  have m: "daemon_main args xs h' = run xs h'" for xs h'
    using assms(2) by (auto simp: daemon_main_def)
  have n: "\<not> (\<exists>c\<in>set cs. waits c)" using assms(3) by simp
  show ?thesis
    using run_starts [OF assms(1)] run_starts(1) [OF run_starts(3) [OF assms(1), of cs]] n
    by (intro exI [of _ "snd (run cs h)"])
      (auto simp: m prod_eq_iff serve_all_answers serve_all_blocks)
qed

definition demo_host :: host where
  "demo_host = \<lparr>nodes = (\<lambda>p. if p = ZYGISK_SOCKET_PATH then Some (Other 0x1ED)
      else if p = ''/data'' \<or> p = ''/data/adb'' \<or> p = ''/data/adb/zygisk'' then Some Dir else None),
      permitted = (\<lambda>_. True), bind_mode = 0x1ED\<rparr>"

definition demo_asks :: connection where
  "demo_asks = Stream (enc_request \<lparr>opcode = 0, hpid = 7\<rparr>) True True (\<lambda>_. Some demo_status)"

theorem silent_client_stops_service_witness:
  "\<exists>h1. daemon_main [''zygiskd''] [Accept_failed, demo_asks] demo_host =
      (([None, Some (enc_response \<lparr>code = 0, ruid = 1000, rflags = 0\<rparr>)], Accepting), h1) \<and>
    nodes h1 ZYGISK_SOCKET_PATH = Some (Other 0x1FF) \<and>
    fst (daemon_main [''zygiskd''] [Accept_failed, demo_asks, Stream [0] True True (\<lambda>_. None), demo_asks] demo_host) =
      ([None, Some (enc_response \<lparr>code = 0, ruid = 1000, rflags = 0\<rparr>)], Reading)"
proof -
  have w: "\<forall>c\<in>set [Accept_failed, demo_asks]. \<not> waits c"
    by (simp add: demo_asks_def req.length_enc)
  have st: "startable demo_host"
    by (simp add: startable_def demo_host_def socket_dirs_def ZYGISK_SOCKET_PATH_def)
  have u: "process_info_new (Some demo_status) = \<lparr>puid = 1000, pflags = 0\<rparr>"
    by code_simp
  have s: "serve demo_asks = Some (enc_response \<lparr>code = 0, ruid = 1000, rflags = 0\<rparr>)"
    using daemon_answers [of "\<lambda>_. Some demo_status" "\<lparr>opcode = 0, hpid = 7\<rparr>" "[]"]
    by (simp add: demo_asks_def u)
  show ?thesis
    using silent_client_stops_service [OF st _ w, of "[''zygiskd'']" "''zygiskd''"] s by fastforce
qed

end
