(* ===== verification/MapInfo.thy ===== *)
theory MapInfo
  imports Prelude
begin

text \<open>
  \<^verbatim>\<open>lsplt::MapInfo\<close> (\<^verbatim>\<open>lsplt/include/lsplt.hpp\<close>) and \<^verbatim>\<open>MapInfo::Scan\<close>
  (\<^verbatim>\<open>lsplt/lsplt.cc\<close>): one entry per line of the kernel's memory map, read with the \<open>sscanf\<close>
  format of the source. Addresses, offsets and inodes are naturals below $2^{64}$.
\<close>

section \<open>Entries\<close>

definition PROT_READ :: u8 where "PROT_READ = 1"
definition PROT_WRITE :: u8 where "PROT_WRITE = 2"
definition PROT_EXEC :: u8 where "PROT_EXEC = 4"

record map_info =
  mstart :: nat
  mend :: nat
  perms :: u8
  is_private :: bool
  moffset :: nat
  dev :: u64
  inode :: nat
  mpath :: string

text \<open>The C library's packing of a device number.\<close>

definition makedev :: "u32 \<Rightarrow> u32 \<Rightarrow> u64" where
  "makedev ma mi =
     push_bit 32 (ucast ma AND 0xfffff000) OR push_bit 8 (ucast ma AND 0xfff) OR
     push_bit 12 (ucast mi AND 0xffffff00) OR (ucast mi AND 0xff)"

section \<open>The conversions of the scan format\<close>

definition skip_ws :: "string \<Rightarrow> string" where
  "skip_ws s = dropWhile is_space s"

text \<open>\<open>strtoul\<close> in base 10 or 16: an optional sign, in base 16 an optional prefix, saturating.\<close>

definition strtoul :: "nat \<Rightarrow> string \<Rightarrow> (nat \<times> string) option" where
  "strtoul b s =
     (let t = skip_ws s;
          neg = (take 1 t = ''-'');
          u = (if neg \<or> take 1 t = ''+'' then drop 1 t else t);
          v = (if b = 16 \<and> (take 2 u = ''0x'' \<or> take 2 u = ''0X'') \<and>
                  2 < length u \<and> is_digit 16 (u ! 2) then drop 2 u else u);
          ds = takeWhile (is_digit b) v;
          r = dropWhile (is_digit b) v;
          n = num_of b ds
      in if ds = [] then None
         else if 2 ^ 64 \<le> n then Some (2 ^ 64 - 1, r)
         else Some (if neg then (2 ^ 64 - n) mod 2 ^ 64 else n, r))"

definition scan_char :: "char \<Rightarrow> string \<Rightarrow> string option" where
  "scan_char c s = (case s of [] \<Rightarrow> None | d # r \<Rightarrow> if d = c then Some r else None)"

definition scan_word :: "nat \<Rightarrow> string \<Rightarrow> (string \<times> string) option" where
  "scan_word n s =
     (let t = skip_ws s; w = take n (takeWhile (\<lambda>c. \<not> is_space c) t)
      in if w = [] then None else Some (w, drop (length w) t))"

text \<open>
  \<open>"%lx-%lx %4s %lx %x:%x %lu %n%*s"\<close>: the seven conversions, all of which must succeed, and what
  is left of the line where \<open>%n\<close> stands.
\<close>

definition scan_maps_line ::
    "string \<Rightarrow> (nat \<times> nat \<times> string \<times> nat \<times> u32 \<times> u32 \<times> nat \<times> string) option" where
  "scan_maps_line line = do {
     (start, r1) \<leftarrow> strtoul 16 line;
     r2 \<leftarrow> scan_char CHR ''-'' r1;
     (end, r3) \<leftarrow> strtoul 16 r2;
     (perm, r4) \<leftarrow> scan_word 4 (skip_ws r3);
     (off, r5) \<leftarrow> strtoul 16 (skip_ws r4);
     (dmaj, r6) \<leftarrow> strtoul 16 (skip_ws r5);
     r7 \<leftarrow> scan_char CHR '':'' r6;
     (dmin, r8) \<leftarrow> strtoul 16 r7;
     (ino, r9) \<leftarrow> strtoul 10 (skip_ws r8);
     Some (start, end, perm, off, of_nat dmaj, of_nat dmin, ino, skip_ws r9) }"

text \<open>The permission buffer is zero-filled, so a short word reads as zero bytes.\<close>

definition perm_at :: "string \<Rightarrow> nat \<Rightarrow> char" where
  "perm_at p i = (if i < length p then p ! i else CHR 0x00)"

definition parse_line :: "string \<Rightarrow> map_info option" where
  "parse_line line = do {
     (start, end, perm, off, dmaj, dmin, ino, rest) \<leftarrow> scan_maps_line line;
     let p0 = (if perm_at perm 0 = CHR ''r'' then PROT_READ else 0);
     let p1 = (if perm_at perm 1 = CHR ''w'' then p0 OR PROT_WRITE else p0);
     let p2 = (if perm_at perm 2 = CHR ''x'' then p1 OR PROT_EXEC else p1);
     Some \<lparr>mstart = start, mend = end, perms = p2, is_private = (perm_at perm 3 = CHR ''p''),
       moffset = off, dev = makedev dmaj dmin, inode = ino, mpath = dropWhile is_space rest\<rparr> }"

text \<open>
  \<open>getline\<close> yields the text up to and with each newline; the last character of what it yields is
  overwritten with the terminator, newline or not.
\<close>

function getlines :: "string \<Rightarrow> string list" where
  "getlines s =
     (if s = [] then []
      else (case dropWhile (\<lambda>c. c \<noteq> CHR 0x0A) s of
              [] \<Rightarrow> [s]
            | _ # r \<Rightarrow> (takeWhile (\<lambda>c. c \<noteq> CHR 0x0A) s @ [CHR 0x0A]) # getlines r))"
  by pat_completeness auto
termination
proof (relation "measure length", goal_cases)
  case 1
  show ?case by simp
next
  case (2 s c r)
  then show ?case
    using length_dropWhile_le [of "\<lambda>c. c \<noteq> CHR 0x0A" s] by simp
qed

declare getlines.simps [simp del]

text \<open>\<open>None\<close> is a map that cannot be opened.\<close>

definition Scan :: "string option \<Rightarrow> map_info list" where
  "Scan f = (case f of None \<Rightarrow> [] | Some s \<Rightarrow> List.map_filter (\<lambda>l. parse_line (butlast l)) (getlines s))"

section \<open>The kernel's format, and reading it back\<close>

definition pad0 :: "nat \<Rightarrow> string \<Rightarrow> string" where
  "pad0 n s = replicate (n - length s) (CHR ''0'') @ s"

definition show_perms :: "u8 \<Rightarrow> bool \<Rightarrow> string" where
  "show_perms p priv =
     [if p AND PROT_READ \<noteq> 0 then CHR ''r'' else CHR ''-'',
      if p AND PROT_WRITE \<noteq> 0 then CHR ''w'' else CHR ''-'',
      if p AND PROT_EXEC \<noteq> 0 then CHR ''x'' else CHR ''-'',
      if priv then CHR ''p'' else CHR ''s'']"

text \<open>\<open>%08lx-%08lx %c%c%c%c %08lx %02x:%02x %lu\<close>, padding, path.\<close>

definition show_map :: "u32 \<Rightarrow> u32 \<Rightarrow> string \<Rightarrow> map_info \<Rightarrow> string" where
  "show_map ma mi pad m =
     pad0 8 (show_num 16 (mstart m)) @ ''-'' @ pad0 8 (show_num 16 (mend m)) @ '' '' @
     show_perms (perms m) (is_private m) @ '' '' @ pad0 8 (show_num 16 (moffset m)) @ '' '' @
     pad0 2 (show_num 16 (unat ma)) @ '':'' @ pad0 2 (show_num 16 (unat mi)) @ '' '' @
     show_num 10 (inode m) @ pad @ mpath m"

definition map_ok :: "u32 \<Rightarrow> u32 \<Rightarrow> string \<Rightarrow> map_info \<Rightarrow> bool" where
  "map_ok ma mi pad m \<longleftrightarrow>
     mstart m < 2 ^ 64 \<and> mend m < 2 ^ 64 \<and> moffset m < 2 ^ 64 \<and> inode m < 2 ^ 64 \<and>
     perms m < 8 \<and> dev m = makedev ma mi \<and>
     pad \<noteq> [] \<and> (\<forall>c\<in>set pad. c = CHR '' '') \<and>
     (\<forall>c\<in>set (mpath m). c \<noteq> CHR 0x0A) \<and> (mpath m = [] \<or> \<not> is_space (hd (mpath m)))"

lemma pad0_props:
  assumes "2 \<le> b" "b \<le> 16"
  shows "num_of b (pad0 n (show_num b k)) = k" "pad0 n (show_num b k) \<noteq> []"
    "\<forall>c\<in>set (pad0 n (show_num b k)). is_digit b c"
proof -
  have z: "foldl (\<lambda>v c. v * b + digit_value c) 0 (replicate j (CHR ''0'')) = 0" for j
    by (induction j) (simp_all add: digit_value_def)
  show "num_of b (pad0 n (show_num b k)) = k"
    using num_of_show_num [OF assms, of k] by (simp add: num_of_def pad0_def z)
  show "pad0 n (show_num b k) \<noteq> []"
    using show_num_nonempty [OF assms] by (simp add: pad0_def)
  show "\<forall>c\<in>set (pad0 n (show_num b k)). is_digit b c"
    using show_num_digits [OF assms] assms by (auto simp: pad0_def is_digit_def digit_value_def)
qed

text \<open>Reading a run of digits that a non-digit (or nothing) follows.\<close>

lemma strtoul_digits:
  assumes "b = 10 \<or> b = 16" "ds \<noteq> []" "\<forall>c\<in>set ds. is_digit b c"
    "r = [] \<or> \<not> is_digit b (hd r)" "take 1 r \<noteq> ''x''" "take 1 r \<noteq> ''X''" "num_of b ds < 2 ^ 64"
    "\<forall>c\<in>set sp. is_space c"
  shows "strtoul b (sp @ ds @ r) = Some (num_of b ds, r)"
proof -
  have b: "b \<le> 16" using assms(1) by auto
  obtain c cs where ds: "ds = c # cs" using assms(2) by (cases ds) auto
  have c: "is_digit b c" using assms(3) ds by simp
  then have ns: "\<not> is_space c" using is_digit_not_space b by blast
  then have ws: "skip_ws (sp @ ds @ r) = ds @ r"
    using assms(8) by (simp add: skip_ws_def ds dropWhile_append)
  from c b have sign: "c \<noteq> CHR ''-''" "c \<noteq> CHR ''+''" by (auto simp: is_digit_def digit_value_def)
  have x: "is_digit b y \<Longrightarrow> y \<noteq> CHR ''x'' \<and> y \<noteq> CHR ''X''" for y
    using b by (auto simp: is_digit_def digit_value_def)
  have pre: "take 2 (ds @ r) \<noteq> ''0x''" "take 2 (ds @ r) \<noteq> ''0X''"
    using assms(3,5,6) x ds by (cases cs; cases r; auto simp: numeral_eq_Suc)+
  have tw: "takeWhile (is_digit b) (ds @ r) = ds" "dropWhile (is_digit b) (ds @ r) = r"
    using assms(3,4) by (cases r; simp add: takeWhile_append dropWhile_append)+
  show ?thesis
    using assms(2,7) sign pre by (simp add: strtoul_def ws tw Let_def) (simp add: ds)
qed

lemma strtoul_show:
  assumes "b = 10 \<or> b = 16" "k < 2 ^ 64" "\<forall>c\<in>set sp. is_space c"
    "r = [] \<or> \<not> is_digit b (hd r)" "take 1 r \<noteq> ''x''" "take 1 r \<noteq> ''X''"
  shows "strtoul b (sp @ pad0 n (show_num b k) @ r) = Some (k, r)"
proof -
  have b: "2 \<le> b" "b \<le> 16" using assms(1) by auto
  show ?thesis
    using strtoul_digits [of b "pad0 n (show_num b k)" r sp] assms pad0_props [OF b, where k = k and n = n]
    by simp
qed

lemma pad0_0 [simp]: "pad0 0 s = s"
  by (simp add: pad0_def)

lemma perms_cases: "(p :: u8) < 8 \<Longrightarrow> p = 0 \<or> p = 1 \<or> p = 2 \<or> p = 3 \<or> p = 4 \<or> p = 5 \<or> p = 6 \<or> p = 7"
proof -
  assume "p < 8"
  then have "unat p < 8" by (simp add: word_less_nat_alt)
  then have "unat p \<in> {0, 1, 2, 3, 4, 5, 6, 7}" by auto
  moreover have "p = of_nat (unat p)" by simp
  ultimately have "p \<in> of_nat ` {0, 1, 2, 3, 4, 5, 6, 7}" by blast
  then show ?thesis by auto
qed

lemma skip_ws_simps:
  "skip_ws (CHR '' '' # s) = skip_ws s"
  "c \<noteq> CHR '' '' \<Longrightarrow> \<not> is_space c \<Longrightarrow> skip_ws (c # s) = c # s"
  by (simp_all add: skip_ws_def is_space_def)

lemma skip_ws_num:
  "b = 10 \<or> b = 16 \<Longrightarrow> skip_ws (pad0 n (show_num b k) @ r) = pad0 n (show_num b k) @ r"
proof -
  assume b: "b = 10 \<or> b = 16"
  then have b': "2 \<le> b" "b \<le> 16" by auto
  obtain c cs where c: "pad0 n (show_num b k) = c # cs" "is_digit b c"
    using pad0_props(2,3) [OF b', of n k] by (cases "pad0 n (show_num b k)") auto
  then have "\<not> is_space c" using is_digit_not_space b' by blast
  with c show ?thesis by (simp add: skip_ws_def)
qed

lemma skip_ws_pad: "\<forall>c\<in>set pad. c = CHR '' '' \<Longrightarrow> skip_ws (pad @ s) = skip_ws s"
  by (induction pad) (auto simp: skip_ws_simps)

lemma scan_perms:
  "scan_word 4 (show_perms p v @ CHR '' '' # r) = Some (show_perms p v, CHR '' '' # r)"
  by (auto simp: scan_word_def show_perms_def skip_ws_def is_space_def)

lemma skip_perms: "skip_ws (CHR '' '' # show_perms p v @ r) = show_perms p v @ r"
  by (auto simp: show_perms_def skip_ws_def is_space_def)

lemma perms_back:
  "p < 8 \<Longrightarrow>
     ((if perm_at (show_perms p v) 0 = CHR ''r'' then PROT_READ else 0) OR
      (if perm_at (show_perms p v) 1 = CHR ''w'' then PROT_WRITE else 0)) OR
      (if perm_at (show_perms p v) 2 = CHR ''x'' then PROT_EXEC else 0) = p"
  by (drule perms_cases) (auto simp: perm_at_def show_perms_def PROT_READ_def PROT_WRITE_def
      PROT_EXEC_def)

lemma perm_private: "(perm_at (show_perms p v) 3 = CHR ''p'') = v"
  by (simp add: perm_at_def show_perms_def numeral_3_eq_3)

lemma scan_show_map:
  assumes "map_ok ma mi pad m"
  shows "scan_maps_line (show_map ma mi pad m) =
    Some (mstart m, mend m, show_perms (perms m) (is_private m), moffset m, ma, mi, inode m, mpath m)"
proof -
  have lt: "mstart m < 2 ^ 64" "mend m < 2 ^ 64" "moffset m < 2 ^ 64" "inode m < 2 ^ 64"
    using assms by (simp_all add: map_ok_def)
  have dv: "unat ma < 2 ^ 64" "unat mi < 2 ^ 64"
    using unat_u32_bound [of ma] unat_u32_bound [of mi] by simp_all
  have nd: "\<not> is_digit 16 CHR ''-''" "\<not> is_digit 16 CHR '' ''" "\<not> is_digit 16 CHR '':''"
    "\<not> is_digit 10 CHR '' ''"
    by (simp_all add: is_digit_def digit_value_def)
  have hex: "strtoul 16 (pad0 n (show_num 16 k) @ c # r) = Some (k, c # r)"
    if "k < 2 ^ 64" "\<not> is_digit 16 c" "c \<noteq> CHR ''x''" "c \<noteq> CHR ''X''" for n k c r
    using strtoul_show [of 16 k "[]" "c # r" n] that by simp
  obtain pad' where pad: "pad = CHR '' '' # pad'" "\<forall>c\<in>set pad'. c = CHR '' ''"
    using assms by (cases pad) (auto simp: map_ok_def)
  have num: "strtoul 10 (show_num 10 (inode m) @ pad @ mpath m) = Some (inode m, pad @ mpath m)"
    using strtoul_show [of 10 "inode m" "[]" "pad @ mpath m" 0] lt nd pad by simp
  have path: "skip_ws (pad @ mpath m) = mpath m"
    using assms skip_ws_pad [of pad "mpath m"]
    by (cases "mpath m") (auto simp: map_ok_def skip_ws_def)
  have skipn: "skip_ws (CHR '' '' # pad0 n (show_num b k) @ r) = pad0 n (show_num b k) @ r"
    if "b = 10 \<or> b = 16" for n b k r
    using that by (simp add: skip_ws_simps(1) skip_ws_num)
  have skip10: "skip_ws (CHR '' '' # show_num 10 k @ r) = show_num 10 k @ r" for k r
    using skipn [of 10 0 k r] by simp
  show ?thesis
    using lt dv
    by (simp add: scan_maps_line_def show_map_def hex nd scan_char_def skip_perms scan_perms
        skipn skip10 num path)
qed

lemma parse_show_map:
  assumes "map_ok ma mi pad m"
  shows "parse_line (show_map ma mi pad m) = Some m"
proof -
  have path: "dropWhile is_space (mpath m) = mpath m"
    using assms by (cases "mpath m") (auto simp: map_ok_def)
  have perms: "perms m < 8" "dev m = makedev ma mi" using assms by (simp_all add: map_ok_def)
  show ?thesis
    using perms_back [OF perms(1), of "is_private m"] perms(2)
    by (simp add: parse_line_def scan_show_map [OF assms] path perm_private Let_def
        split: if_splits)
qed

lemma show_map_no_newline: "map_ok ma mi pad m \<Longrightarrow> CHR 0x0A \<notin> set (show_map ma mi pad m)"
proof -
  have nd: "\<not> is_digit b CHR 0x0A" if "b \<le> 16" for b
    using that by (simp add: is_digit_def digit_value_def)
  have "CHR 0x0A \<notin> set (pad0 n (show_num b k))" if "b = 10 \<or> b = 16" for b n k
    using pad0_props(3) [of b n k] that nd [of b] by auto
  from this [of 16] this [of 10 0] show "map_ok ma mi pad m \<Longrightarrow> ?thesis"
    by (auto simp: show_map_def show_perms_def map_ok_def)
qed

lemma getlines_line: "CHR 0x0A \<notin> set l \<Longrightarrow> getlines (l @ CHR 0x0A # r) = (l @ [CHR 0x0A]) # getlines r"
proof -
  assume "CHR 0x0A \<notin> set l"
  then have "\<forall>c\<in>set l. c \<noteq> CHR 0x0A" by auto
  then show ?thesis by (subst getlines.simps) simp
qed

text \<open>
  C29: \<open>MapInfo::Scan\<close> reads back the kernel's memory map. For any list of entries printed in the
  kernel's format, one per line with any amount of padding before the path, the scan returns exactly
  those entries in order, paths with spaces included.
\<close>

theorem Scan_show:
  "\<forall>(ma, mi, pad, m)\<in>set es. map_ok ma mi pad m \<Longrightarrow>
     Scan (Some (concat (map (\<lambda>(ma, mi, pad, m). show_map ma mi pad m @ [CHR 0x0A]) es))) =
       map (\<lambda>(ma, mi, pad, m). m) es"
proof (induction es)
  case Nil
  then show ?case by (simp add: Scan_def getlines.simps map_filter_simps)
next
  case (Cons e es)
  obtain ma mi pad m where e: "e = (ma, mi, pad, m)" by (cases e)
  with Cons.prems have ok: "map_ok ma mi pad m" by simp
  from Cons show ?case
    by (simp add: Scan_def e getlines_line [OF show_map_no_newline [OF ok]] parse_show_map [OF ok]
        map_filter_simps butlast_append)
qed

definition demo_map :: map_info where
  "demo_map = \<lparr>mstart = 0x7f0000, mend = 0x7f2000, perms = 5, is_private = True, moffset = 0,
     dev = makedev 253 1, inode = 42, mpath = ''/system/lib64/a b.so''\<rparr>"

theorem Scan_show_witness:
  "Scan (Some (show_map 253 1 ''   '' demo_map @ [CHR 0x0A])) = [demo_map]"
  using Scan_show [of "[(253, 1, ''   '', demo_map)]"]
  by (simp add: map_ok_def demo_map_def is_space_def)

end
