(* ===== verification/ElfUtil.thy ===== *)
theory ElfUtil
  imports Prelude
begin

unbundle bit_operations_syntax

text \<open>
  \<^verbatim>\<open>lsplt/elf_util.cc\<close> and \<^verbatim>\<open>lsplt/elf_util.hpp\<close>: reading a loaded library's ELF headers
  and dynamic section, the three symbol lookups, and the relocation slots of a symbol. The layout is
  the 64-bit one (\<open>__LP64__\<close>); memory is a function from addresses to bytes. Where the code divides
  by zero or shifts too far (undefined in C++), or follows a chain for ever, the result is \<open>None\<close>.
\<close>

section \<open>Loads\<close>

type_synonym bmem = "u64 \<Rightarrow> u8"

definition rd16 :: "bmem \<Rightarrow> u64 \<Rightarrow> u16" where
  "rd16 m a = ucast (m a) OR push_bit 8 (ucast (m (a + 1)))"

definition rd32 :: "bmem \<Rightarrow> u64 \<Rightarrow> u32" where
  "rd32 m a = of_le32 (m a) (m (a + 1)) (m (a + 2)) (m (a + 3))"

definition rd64 :: "bmem \<Rightarrow> u64 \<Rightarrow> u64" where
  "rd64 m a = ucast (rd32 m a) OR push_bit 32 (ucast (rd32 m (a + 4)))"

text \<open>Equality of a string view with a terminated string in memory.\<close>

fun cstr_eq :: "bmem \<Rightarrow> u64 \<Rightarrow> u8 list \<Rightarrow> bool" where
  "cstr_eq m a [] \<longleftrightarrow> m a = 0"
| "cstr_eq m a (c # cs) \<longleftrightarrow> c \<noteq> 0 \<and> m a = c \<and> cstr_eq m (a + 1) cs"

section \<open>Machine-dependent constants\<close>

datatype machine_abi = Arm | Aarch64 | I386 | X86_64 | Riscv

fun EM_native :: "machine_abi \<Rightarrow> u16" where
  "EM_native Arm = 40" | "EM_native Aarch64 = 183" | "EM_native I386 = 3"
| "EM_native X86_64 = 62" | "EM_native Riscv = 243"

fun R_JUMP_SLOT :: "machine_abi \<Rightarrow> u64" where
  "R_JUMP_SLOT Arm = 22" | "R_JUMP_SLOT Aarch64 = 1026" | "R_JUMP_SLOT I386 = 7"
| "R_JUMP_SLOT X86_64 = 7" | "R_JUMP_SLOT Riscv = 5"

fun R_GLOB_DAT :: "machine_abi \<Rightarrow> u64" where
  "R_GLOB_DAT Arm = 21" | "R_GLOB_DAT Aarch64 = 1025" | "R_GLOB_DAT I386 = 6"
| "R_GLOB_DAT X86_64 = 6" | "R_GLOB_DAT Riscv = 2"

fun R_ABS :: "machine_abi \<Rightarrow> u64" where
  "R_ABS Arm = 2" | "R_ABS Aarch64 = 257" | "R_ABS I386 = 1"
| "R_ABS X86_64 = 1" | "R_ABS Riscv = 2"

definition ELF_R_SYM :: "u64 \<Rightarrow> u64" where "ELF_R_SYM i = drop_bit 32 i"
definition ELF_R_TYPE :: "u64 \<Rightarrow> u64" where "ELF_R_TYPE i = i AND 0xffffffff"

section \<open>The parsed image\<close>

record elf =
  base_addr :: u64
  bias_addr :: u64
  program_header :: u64
  dynamic :: u64
  dynamic_size :: u32
  dyn_str :: u64
  dyn_sym :: u64
  rel_plt :: u64
  rel_plt_size :: u32
  rel_dyn :: u64
  rel_dyn_size :: u32
  rel_android :: u64
  rel_android_size :: u32
  bucket :: u64
  bucket_count :: u32
  chain :: u64
  sym_offset :: u32
  bloom :: u64
  bloom_size :: u32
  bloom_shift :: u32
  is_use_rela :: bool
  valid :: bool

definition elf_zero :: "u64 \<Rightarrow> elf" where
  "elf_zero b = \<lparr>base_addr = b, bias_addr = 0, program_header = 0, dynamic = 0, dynamic_size = 0,
     dyn_str = 0, dyn_sym = 0, rel_plt = 0, rel_plt_size = 0, rel_dyn = 0, rel_dyn_size = 0,
     rel_android = 0, rel_android_size = 0, bucket = 0, bucket_count = 0, chain = 0, sym_offset = 0,
     bloom = 0, bloom_size = 0, bloom_shift = 0, is_use_rela = False, valid = False\<rparr>"

section \<open>The constructor\<close>

text \<open>The checks on the ELF header: magic, class, byte order, versions, type, machine.\<close>

definition header_ok :: "machine_abi \<Rightarrow> bmem \<Rightarrow> u64 \<Rightarrow> bool" where
  "header_ok abi m b \<longleftrightarrow>
     [m b, m (b + 1), m (b + 2), m (b + 3)] = [0x7f, 0x45, 0x4c, 0x46] \<and>
     m (b + 4) = 2 \<and> m (b + 5) = 1 \<and> m (b + 6) = 1 \<and>
     (rd16 m (b + 16) = 2 \<or> rd16 m (b + 16) = 3) \<and>
     rd16 m (b + 18) = EM_native abi \<and> rd32 m (b + 20) = 1"

text \<open>One program header: the first-segment load bias and the dynamic segment.\<close>

definition phdr_step :: "bmem \<Rightarrow> u64 \<Rightarrow> elf \<Rightarrow> elf" where
  "phdr_step m ph e =
     (if rd32 m ph = 1 \<and> rd64 m (ph + 8) = 0 then
        (if rd64 m (ph + 16) \<le> base_addr e then e\<lparr>bias_addr := base_addr e - rd64 m (ph + 16)\<rparr> else e)
      else if rd32 m ph = 2 then
        e\<lparr>dynamic := rd64 m (ph + 16), dynamic_size := ucast (rd64 m (ph + 40))\<rparr>
      else e)"

definition phdr_addrs :: "bmem \<Rightarrow> elf \<Rightarrow> u64 list" where
  "phdr_addrs m e = map (\<lambda>i. program_header e + of_nat i * ucast (rd16 m (base_addr e + 54)))
     [0..<unat (rd16 m (base_addr e + 56))]"

text \<open>\<open>SetByOffset\<close>: the address when it lies above the base, a failure otherwise.\<close>

definition set_by_offset :: "u64 \<Rightarrow> u64 \<Rightarrow> u64 \<Rightarrow> u64 option" where
  "set_by_offset base bias off = (if base < bias + off then Some (bias + off) else None)"

datatype dyn_tag =
  DT_NULL | DT_STRTAB | DT_SYMTAB | DT_PLTREL | DT_JMPREL | DT_PLTRELSZ | DT_REL | DT_RELA
| DT_RELSZ | DT_RELASZ | DT_ANDROID_REL | DT_ANDROID_RELA | DT_ANDROID_RELSZ | DT_ANDROID_RELASZ
| DT_HASH | DT_GNU_HASH | DT_other

definition tag_of :: "u64 \<Rightarrow> dyn_tag" where
  "tag_of t =
     (if t = 0 then DT_NULL else if t = 5 then DT_STRTAB else if t = 6 then DT_SYMTAB
      else if t = 20 then DT_PLTREL else if t = 23 then DT_JMPREL else if t = 2 then DT_PLTRELSZ
      else if t = 17 then DT_REL else if t = 7 then DT_RELA else if t = 18 then DT_RELSZ
      else if t = 8 then DT_RELASZ else if t = 0x6000000f then DT_ANDROID_REL
      else if t = 0x60000011 then DT_ANDROID_RELA else if t = 0x60000010 then DT_ANDROID_RELSZ
      else if t = 0x60000012 then DT_ANDROID_RELASZ else if t = 4 then DT_HASH
      else if t = 0x6ffffef5 then DT_GNU_HASH else DT_other)"

text \<open>What one entry makes the loop do: go on, end the loop, or return from the constructor.\<close>

datatype dyn_next = Go elf | End elf | Return elf

definition by_offset :: "(u64 \<Rightarrow> elf) \<Rightarrow> elf \<Rightarrow> u64 \<Rightarrow> dyn_next" where
  "by_offset upd e v =
     (case set_by_offset (base_addr e) (bias_addr e) v of
        Some a \<Rightarrow> Go (upd a) | None \<Rightarrow> Return (upd 0))"

fun dyn_step :: "bmem \<Rightarrow> dyn_tag \<Rightarrow> u64 \<Rightarrow> elf \<Rightarrow> dyn_next" where
  "dyn_step m DT_NULL v e = End e"
| "dyn_step m DT_STRTAB v e = by_offset (\<lambda>a. e\<lparr>dyn_str := a\<rparr>) e v"
| "dyn_step m DT_SYMTAB v e = by_offset (\<lambda>a. e\<lparr>dyn_sym := a\<rparr>) e v"
| "dyn_step m DT_PLTREL v e = Go (e\<lparr>is_use_rela := (v = 7)\<rparr>)"
| "dyn_step m DT_JMPREL v e = by_offset (\<lambda>a. e\<lparr>rel_plt := a\<rparr>) e v"
| "dyn_step m DT_PLTRELSZ v e = Go (e\<lparr>rel_plt_size := ucast v\<rparr>)"
| "dyn_step m DT_REL v e = by_offset (\<lambda>a. e\<lparr>rel_dyn := a\<rparr>) e v"
| "dyn_step m DT_RELA v e = by_offset (\<lambda>a. e\<lparr>rel_dyn := a\<rparr>) e v"
| "dyn_step m DT_RELSZ v e = Go (e\<lparr>rel_dyn_size := ucast v\<rparr>)"
| "dyn_step m DT_RELASZ v e = Go (e\<lparr>rel_dyn_size := ucast v\<rparr>)"
| "dyn_step m DT_ANDROID_REL v e = by_offset (\<lambda>a. e\<lparr>rel_android := a\<rparr>) e v"
| "dyn_step m DT_ANDROID_RELA v e = by_offset (\<lambda>a. e\<lparr>rel_android := a\<rparr>) e v"
| "dyn_step m DT_ANDROID_RELSZ v e = Go (e\<lparr>rel_android_size := ucast v\<rparr>)"
| "dyn_step m DT_ANDROID_RELASZ v e = Go (e\<lparr>rel_android_size := ucast v\<rparr>)"
| "dyn_step m DT_HASH v e =
     (if bloom e \<noteq> 0 then Go e
      else
        let raw = bias_addr e + v; n = rd32 m raw; b = raw + 8 in
        Go (e\<lparr>bucket_count := n, bucket := b, chain := b + 4 * ucast n\<rparr>))"
| "dyn_step m DT_GNU_HASH v e =
     (let raw = bias_addr e + v;
          n = rd32 m raw; so = rd32 m (raw + 4); bs = rd32 m (raw + 8); sh = rd32 m (raw + 12);
          bl = raw + 16; b = bl + 8 * ucast bs
      in Go (e\<lparr>bucket_count := n, sym_offset := so, bloom_size := bs, bloom_shift := sh,
             bloom := bl, bucket := b, chain := b + 4 * ucast n - 4 * ucast so\<rparr>))"
| "dyn_step m DT_other v e = Go e"

text \<open>The entries of the section in order, as (tag, value).\<close>

definition dyn_entries :: "bmem \<Rightarrow> elf \<Rightarrow> (dyn_tag \<times> u64) list" where
  "dyn_entries m e =
     map (\<lambda>i. let a = dynamic e + of_nat (16 * i) in (tag_of (rd64 m a), rd64 m (a + 8)))
       [0..<unat (dynamic_size e) div 16]"

fun dyn_loop :: "bmem \<Rightarrow> (dyn_tag \<times> u64) list \<Rightarrow> elf \<Rightarrow> bool \<times> elf" where
  "dyn_loop m [] e = (True, e)"
| "dyn_loop m ((t, v) # es) e =
     (case dyn_step m t v e of
        Go e' \<Rightarrow> dyn_loop m es e' | End e' \<Rightarrow> (True, e') | Return e' \<Rightarrow> (False, e'))"

definition android_check :: "bmem \<Rightarrow> elf \<Rightarrow> elf" where
  "android_check m e =
     (if rel_android e \<noteq> 0 then
        (let a = rel_android e in
         if rel_android_size e < 4 \<or> m a \<noteq> 0x41 \<or> m (a + 1) \<noteq> 0x50 \<or> m (a + 2) \<noteq> 0x53 \<or>
            m (a + 3) \<noteq> 0x32
         then e
         else e\<lparr>rel_android := a + 4, rel_android_size := rel_android_size e - 4, valid := True\<rparr>)
      else e\<lparr>valid := True\<rparr>)"

definition Elf :: "machine_abi \<Rightarrow> bmem \<Rightarrow> u64 \<Rightarrow> elf" where
  "Elf abi m b =
     (if \<not> header_ok abi m b then elf_zero b
      else
        (let e0 = (elf_zero b)\<lparr>program_header := b + rd64 m (b + 32)\<rparr>;
             e1 = fold (phdr_step m) (phdr_addrs m e0) e0
         in if dynamic e1 = 0 \<or> bias_addr e1 = 0 then e1
            else
              (let e2 = e1\<lparr>dynamic := bias_addr e1 + dynamic e1\<rparr> in
               case dyn_loop m (dyn_entries m e2) e2 of
                 (False, e3) \<Rightarrow> e3
               | (True, e3) \<Rightarrow> android_check m e3)))"

section \<open>Symbol lookup\<close>

definition sym_name :: "bmem \<Rightarrow> elf \<Rightarrow> u32 \<Rightarrow> u64" where
  "sym_name m e idx = dyn_str e + ucast (rd32 m (dyn_sym e + 24 * ucast idx))"

definition sym_is :: "bmem \<Rightarrow> elf \<Rightarrow> u8 list \<Rightarrow> u32 \<Rightarrow> bool" where
  "sym_is m e name idx = cstr_eq m (sym_name m e idx) name"

definition bucket_at :: "bmem \<Rightarrow> elf \<Rightarrow> u32 \<Rightarrow> u32" where
  "bucket_at m e i = rd32 m (bucket e + 4 * ucast i)"

definition chain_at :: "bmem \<Rightarrow> elf \<Rightarrow> u32 \<Rightarrow> u32" where
  "chain_at m e i = rd32 m (chain e + 4 * ucast i)"

definition bloom_at :: "bmem \<Rightarrow> elf \<Rightarrow> u64 \<Rightarrow> u64" where
  "bloom_at m e i = rd64 m (bloom e + 8 * i)"

definition gnu_hash :: "u8 list \<Rightarrow> u32" where
  "gnu_hash name = foldl (\<lambda>h c. h + (push_bit 5 h + ucast c)) 5381 name"

definition elf_hash :: "u8 list \<Rightarrow> u32" where
  "elf_hash name =
     foldl (\<lambda>h c.
       let h1 = push_bit 4 h + ucast c; t = h1 AND 0xf0000000; h2 = h1 XOR t
       in h2 XOR drop_bit 24 t) 0 name"

text \<open>The do-while over a GNU chain; the index is 32 bits wide.\<close>

partial_function (option) gnu_chain :: "bmem \<Rightarrow> elf \<Rightarrow> u8 list \<Rightarrow> u32 \<Rightarrow> u32 \<Rightarrow> u32 option" where
  "gnu_chain m e name hash idx =
     (if drop_bit 1 (chain_at m e idx XOR hash) = 0 \<and> sym_is m e name idx then Some idx
      else if chain_at m e idx AND 1 = 0 then gnu_chain m e name hash (idx + 1)
      else Some 0)"

definition bloom_mask :: "elf \<Rightarrow> u32 \<Rightarrow> u64" where
  "bloom_mask e hash =
     push_bit (unat hash mod 64) 1 OR push_bit (unat (drop_bit (unat (bloom_shift e)) hash) mod 64) 1"

definition GnuLookup :: "bmem \<Rightarrow> elf \<Rightarrow> u8 list \<Rightarrow> u32 option" where
  "GnuLookup m e name =
     (if bucket e = 0 \<or> bloom e = 0 then Some 0
      else if bloom_size e = 0 \<or> 32 \<le> bloom_shift e then None
      else
        (let hash = gnu_hash name;
             word = bloom_at m e (of_nat ((unat hash div 64) mod unat (bloom_size e)));
             mask = bloom_mask e hash
         in if mask AND word = mask then
              (if bucket_count e = 0 then None
               else
                 (let idx = bucket_at m e (hash mod bucket_count e) in
                  if sym_offset e \<le> idx then gnu_chain m e name hash idx else Some 0))
            else Some 0))"

partial_function (option) elf_chain :: "bmem \<Rightarrow> elf \<Rightarrow> u8 list \<Rightarrow> u32 \<Rightarrow> u32 option" where
  "elf_chain m e name idx =
     (if idx = 0 then Some 0
      else if sym_is m e name idx then Some idx
      else elf_chain m e name (chain_at m e idx))"

definition ElfLookup :: "bmem \<Rightarrow> elf \<Rightarrow> u8 list \<Rightarrow> u32 option" where
  "ElfLookup m e name =
     (if bucket e = 0 \<or> bloom e \<noteq> 0 then Some 0
      else if bucket_count e = 0 then None
      else elf_chain m e name (bucket_at m e (elf_hash name mod bucket_count e)))"

definition LinearLookup :: "bmem \<Rightarrow> elf \<Rightarrow> u8 list \<Rightarrow> u32" where
  "LinearLookup m e name =
     (if dyn_sym e = 0 \<or> sym_offset e = 0 then 0
      else (case find (\<lambda>i. sym_is m e name (of_nat i)) [0..<unat (sym_offset e)] of
              Some i \<Rightarrow> of_nat i | None \<Rightarrow> 0))"

definition lookup_symbol :: "bmem \<Rightarrow> elf \<Rightarrow> u8 list \<Rightarrow> u32 option" where
  "lookup_symbol m e name = do {
     i \<leftarrow> GnuLookup m e name;
     j \<leftarrow> (if i = 0 then ElfLookup m e name else Some i);
     Some (if j = 0 then LinearLookup m e name else j) }"

section \<open>Relocation slots\<close>

text \<open>The entries of a table of \<open>sz\<close> bytes: the loop runs while the entry starts inside it.\<close>

definition rel_addrs :: "nat \<Rightarrow> u64 \<Rightarrow> u32 \<Rightarrow> u64 list" where
  "rel_addrs entsize first sz =
     map (\<lambda>i. first + of_nat (entsize * i)) [0..<(unat sz + entsize - 1) div entsize]"

definition rel_matches :: "machine_abi \<Rightarrow> bmem \<Rightarrow> u32 \<Rightarrow> bool \<Rightarrow> u64 \<Rightarrow> bool" where
  "rel_matches abi m idx is_plt rel =
     (let info = rd64 m (rel + 8); t = ELF_R_TYPE info
      in ELF_R_SYM info = ucast idx \<and>
         (if is_plt then t = R_JUMP_SLOT abi else t = R_ABS abi \<or> t = R_GLOB_DAT abi))"

fun looper :: "machine_abi \<Rightarrow> bmem \<Rightarrow> elf \<Rightarrow> u32 \<Rightarrow> bool \<Rightarrow> u64 list \<Rightarrow> u64 list" where
  "looper abi m e idx is_plt [] = []"
| "looper abi m e idx is_plt (rel # rels) =
     (if \<not> rel_matches abi m idx is_plt rel then looper abi m e idx is_plt rels
      else
        (let addr = bias_addr e + rd64 m rel;
             here = (if base_addr e < addr then [addr] else [])
         in if is_plt then here else here @ looper abi m e idx is_plt rels))"

definition FindPltAddr :: "machine_abi \<Rightarrow> bmem \<Rightarrow> elf \<Rightarrow> u8 list \<Rightarrow> u64 list option" where
  "FindPltAddr abi m e name = do {
     idx \<leftarrow> lookup_symbol m e name;
     if idx = 0 then Some []
     else
       (let ent = (if is_use_rela e then 24 else 16)
        in Some (concat (map (\<lambda>(rel, sz, is_plt).
             if rel = 0 then [] else looper abi m e idx is_plt (rel_addrs ent rel sz))
           [(rel_plt e, rel_plt_size e, True), (rel_dyn e, rel_dyn_size e, False),
            (rel_android e, rel_android_size e, False)]))) }"

end
