(* ===== verification/ElfProofs.thy ===== *)
theory ElfProofs
  imports ElfUtil
begin

unbundle bit_operations_syntax

text \<open>
  Properties of the ELF reader: the lookups only return matching symbols, they find every symbol of a
  well-formed hash table and terminate on it, the slots found are exactly the relocations of the
  symbol, and a parsed image is consistent.
\<close>

section \<open>A small image\<close>

text \<open>
  An AArch64 image at 4096 with one symbol \<open>a\<close>: two program headers, six dynamic entries, a GNU
  hash table with one bucket, and one jump-table relocation with slot 5120. It is the concrete input
  of the properties below.
\<close>

definition demo_bytes :: "(u64 \<times> u8) list" where
  "demo_bytes =
     [(4096, 0x7f), (4097, 0x45), (4098, 0x4c), (4099, 0x46), (4100, 2), (4101, 1), (4102, 1),
      (4112, 3), (4114, 183), (4116, 1), (4128, 64), (4150, 56), (4152, 2),
      (4160, 1), (4216, 2), (4233, 2), (4256, 96),
      (4608, 5), (4617, 3), (4624, 6), (4632, 0x40), (4633, 3), (4640, 20), (4648, 7),
      (4656, 23), (4664, 0xc0), (4665, 3), (4672, 2), (4680, 24),
      (4688, 0xf5), (4689, 0xfe), (4690, 0xff), (4691, 0x6f), (4696, 0x80), (4697, 3),
      (4865, 97), (4952, 1), (4992, 1), (4996, 1), (5000, 1), (5008, 0x40), (5016, 1),
      (5020, 7), (5021, 0xb6), (5022, 2), (5057, 4), (5064, 2), (5065, 4), (5068, 1)]"

definition demo :: bmem where
  "demo a = (case map_of demo_bytes a of Some b \<Rightarrow> b | None \<Rightarrow> 0)"

lemmas ld = demo_def demo_bytes_def rd16_def rd32_def rd64_def of_le32_def push_bit_eq_mult unsigned_ucast_eq

lemma demo_phdrs:
  "phdr_addrs demo ((elf_zero 4096)\<lparr>program_header := 4160\<rparr>) = [4160, 4216]"
  by (simp add: phdr_addrs_def elf_zero_def ld upt_rec)

lemma demo_loads:
  "rd64 demo 4128 = 64" "rd32 demo 4160 = 1" "rd64 demo 4168 = 0" "rd64 demo 4176 = 0" "rd32 demo 4216 = 2"
  "rd64 demo 4232 = 512" "rd64 demo 4256 = 96"
  "rd64 demo 4608 = 5" "rd64 demo 4616 = 0x300" "rd64 demo 4624 = 6" "rd64 demo 4632 = 0x340"
  "rd64 demo 4640 = 20" "rd64 demo 4648 = 7" "rd64 demo 4656 = 23" "rd64 demo 4664 = 0x3c0"
  "rd64 demo 4672 = 2" "rd64 demo 4680 = 24" "rd64 demo 4688 = 0x6ffffef5" "rd64 demo 4696 = 0x380"
  by (simp_all add: ld)
lemma demo_tables:
  "rd32 demo 4992 = 1" "rd32 demo 4996 = 1" "rd32 demo 5000 = 1" "rd32 demo 5004 = 0"
  "rd64 demo 5008 = 0x40" "rd32 demo 5016 = 1" "rd32 demo 5020 = 177671"
  "rd32 demo 4952 = 1" "demo 4865 = 97" "demo 4866 = 0"
  "rd64 demo 5056 = 0x400" "rd64 demo 5064 = 0x100000402"
  by (simp_all add: ld)

definition demo_elf :: elf where
  "demo_elf = (elf_zero 4096)\<lparr>program_header := 4160, bias_addr := 4096, dynamic := 4608, dynamic_size := 96,
  dyn_str := 4864, dyn_sym := 4928, is_use_rela := True, rel_plt := 5056, rel_plt_size := 24,
  bucket_count := 1, sym_offset := 1, bloom_size := 1, bloom_shift := 0, bloom := 5008, bucket := 5016, chain := 5016,
   valid := True\<rparr>"

lemma demo_header: "header_ok Aarch64 demo 4096"
  by (simp add: header_ok_def ld)

lemma demo_entries:
 "dynamic e = 4608 \<Longrightarrow> dynamic_size e = 96 \<Longrightarrow> dyn_entries demo e =
  [(DT_STRTAB, 0x300), (DT_SYMTAB, 0x340), (DT_PLTREL, 7), (DT_JMPREL, 0x3c0), (DT_PLTRELSZ, 24), (DT_GNU_HASH, 0x380)]"
  by (simp add: dyn_entries_def upt_rec demo_loads Let_def tag_of_def)

lemma demo_Elf: "Elf Aarch64 demo 4096 = demo_elf"
  using demo_phdrs
  by (simp add: Elf_def demo_header Let_def demo_loads demo_tables phdr_step_def elf_zero_def demo_entries by_offset_def set_by_offset_def
   android_check_def demo_elf_def)
section \<open>Chains\<close>

lemma gnu_chain_sound:
  assumes "gnu_chain m e name h b = Some i" "i \<noteq> 0"
  shows "sym_is m e name i"
proof -
  have "i \<noteq> 0 \<longrightarrow> sym_is m e name i"
  proof (rule gnu_chain.raw_induct
      [where P = "\<lambda>m e name h b i. i \<noteq> 0 \<longrightarrow> sym_is m e name i", OF _ assms(1)], intro impI)
    fix f m e name h b i
    assume IH: "\<And>m e name h b i. f m e name h b = Some i \<Longrightarrow> i \<noteq> 0 \<longrightarrow> sym_is m e name i"
      and eq: "(if drop_bit 1 (chain_at m e b XOR h) = 0 \<and> sym_is m e name b then Some b
         else if chain_at m e b AND 1 = 0 then f m e name h (b + 1) else Some 0) = Some i"
      and nz: "i \<noteq> 0"
    show "sym_is m e name i"
      using eq nz IH [of m e name h "b + 1" i] by (auto split: if_splits)
  qed
  with assms(2) show ?thesis by simp
qed

lemma elf_chain_sound:
  assumes "elf_chain m e name b = Some i" "i \<noteq> 0"
  shows "sym_is m e name i"
proof -
  have "i \<noteq> 0 \<longrightarrow> sym_is m e name i"
  proof (rule elf_chain.raw_induct
      [where P = "\<lambda>m e name b i. i \<noteq> 0 \<longrightarrow> sym_is m e name i", OF _ assms(1)], intro impI)
    fix f m e name b i
    assume IH: "\<And>m e name b i. f m e name b = Some i \<Longrightarrow> i \<noteq> 0 \<longrightarrow> sym_is m e name i"
      and eq: "(if b = 0 then Some 0 else if sym_is m e name b then Some b
         else f m e name (chain_at m e b)) = Some i"
      and nz: "i \<noteq> 0"
    show "sym_is m e name i"
      using eq nz IH [of m e name "chain_at m e b" i] by (auto split: if_splits)
  qed
  with assms(2) show ?thesis by simp
qed

lemma LinearLookup_sound:
  assumes "LinearLookup m e name \<noteq> 0"
  shows "sym_is m e name (LinearLookup m e name)"
proof (cases "find (\<lambda>i. sym_is m e name (of_nat i)) [0..<unat (sym_offset e)]")
  case None
  with assms show ?thesis by (simp add: LinearLookup_def split: if_splits)
next
  case (Some i)
  then have "sym_is m e name (of_nat i)" by (auto simp: find_Some_iff)
  with assms Some show ?thesis by (simp add: LinearLookup_def split: if_splits)
qed

text \<open>
  C26: A symbol lookup never returns a wrong symbol: whatever the hash tables hold, a non-zero index
  found by \<open>GnuLookup\<close>, \<open>ElfLookup\<close> or \<open>LinearLookup\<close> names a symbol whose string in the
  image is the requested name.
\<close>

theorem lookup_symbol_sound:
  "lookup_symbol m e name = Some i \<Longrightarrow> i \<noteq> 0 \<Longrightarrow> sym_is m e name i"
proof -
  have gnu: "GnuLookup m e name = Some j \<Longrightarrow> j \<noteq> 0 \<Longrightarrow> sym_is m e name j" for j
    by (auto simp: GnuLookup_def Let_def split: if_splits intro: gnu_chain_sound)
  have elf: "ElfLookup m e name = Some j \<Longrightarrow> j \<noteq> 0 \<Longrightarrow> sym_is m e name j" for j
    by (auto simp: ElfLookup_def split: if_splits intro: elf_chain_sound)
  show "lookup_symbol m e name = Some i \<Longrightarrow> i \<noteq> 0 \<Longrightarrow> sym_is m e name i"
    by (auto simp: lookup_symbol_def split: Option.bind_splits if_splits
        dest: gnu elf LinearLookup_sound)
qed

lemma demo_sym [simp]: "sym_is demo demo_elf [97] 1"
  by (simp add: sym_is_def sym_name_def demo_elf_def demo_tables elf_zero_def)

lemma demo_gnu_hash [simp]: "gnu_hash [97] = 177670"
  by (simp add: gnu_hash_def push_bit_eq_mult)

lemma demo_bloom_mask [simp]: "bloom_mask demo_elf 177670 = 0x40"
  by (simp add: bloom_mask_def demo_elf_def push_bit_eq_mult elf_zero_def)

lemma demo_GnuLookup: "GnuLookup demo demo_elf [97] = Some 1"
proof -
  have "gnu_chain demo demo_elf [97] 177670 1 = Some 1"
    by (subst gnu_chain.simps)
      (simp add: chain_at_def demo_elf_def elf_zero_def demo_tables drop_bit_eq_div
        demo_sym [unfolded demo_elf_def elf_zero_def, simplified])
  then show ?thesis
    by (simp add: GnuLookup_def Let_def bloom_at_def bucket_at_def)
      (simp add: demo_elf_def elf_zero_def demo_tables)
qed

lemma demo_lookup: "lookup_symbol demo demo_elf [97] = Some 1"
  by (simp add: lookup_symbol_def demo_GnuLookup)

theorem lookup_symbol_sound_witness:
  "lookup_symbol demo demo_elf [97] = Some 1 \<and> sym_is demo demo_elf [97] 1"
  using lookup_symbol_sound [OF demo_lookup] demo_lookup by simp

section \<open>Tables that can be searched\<close>

text \<open>
  The index a lookup returns against its reading: the first symbol of the name among the candidates
  of the tables, in the order they are searched. A GNU chain ends at the first word with the lowest
  bit set, \<open>k\<close> entries after \<open>b\<close>; a SYSV chain ends at the index 0.
\<close>

definition gnu_ends :: "bmem \<Rightarrow> elf \<Rightarrow> u32 \<Rightarrow> nat \<Rightarrow> bool" where
  "gnu_ends m e b k \<longleftrightarrow>
     (\<forall>j<k. chain_at m e (b + of_nat j) AND 1 = 0) \<and> chain_at m e (b + of_nat k) AND 1 \<noteq> 0"

fun chain_path :: "bmem \<Rightarrow> elf \<Rightarrow> u32 \<Rightarrow> u32 list \<Rightarrow> bool" where
  "chain_path m e b [] \<longleftrightarrow> b = 0"
| "chain_path m e b (x # xs) \<longleftrightarrow> b = x \<and> x \<noteq> 0 \<and> chain_path m e (chain_at m e x) xs"

definition gnu_first :: "bmem \<Rightarrow> elf \<Rightarrow> u8 list \<Rightarrow> u32" where
  "gnu_first m e name = bucket_at m e (gnu_hash name mod bucket_count e)"

definition elf_first :: "bmem \<Rightarrow> elf \<Rightarrow> u8 list \<Rightarrow> u32" where
  "elf_first m e name = bucket_at m e (elf_hash name mod bucket_count e)"

definition in_bloom :: "bmem \<Rightarrow> elf \<Rightarrow> u8 list \<Rightarrow> bool" where
  "in_bloom m e name \<longleftrightarrow>
     (let mask = bloom_mask e (gnu_hash name)
      in mask AND bloom_at m e (of_nat ((unat (gnu_hash name) div 64) mod unat (bloom_size e))) = mask)"

definition elf_searchable :: "bmem \<Rightarrow> elf \<Rightarrow> u8 list \<Rightarrow> nat \<Rightarrow> u32 list \<Rightarrow> bool" where
  "elf_searchable m e name k xs \<longleftrightarrow>
     (bucket e \<noteq> 0 \<and> bloom e \<noteq> 0 \<longrightarrow> bloom_size e \<noteq> 0 \<and> bloom_shift e < 32 \<and> bucket_count e \<noteq> 0 \<and>
        (sym_offset e \<le> gnu_first m e name \<longrightarrow> gnu_ends m e (gnu_first m e name) k)) \<and>
     (if bucket e \<noteq> 0 \<and> bloom e = 0 then bucket_count e \<noteq> 0 \<and> chain_path m e (elf_first m e name) xs else xs = [])"

definition gnu_candidates :: "bmem \<Rightarrow> elf \<Rightarrow> u8 list \<Rightarrow> nat \<Rightarrow> u32 list" where
  "gnu_candidates m e name k =
     (if bucket e \<noteq> 0 \<and> bloom e \<noteq> 0 \<and> in_bloom m e name \<and> sym_offset e \<le> gnu_first m e name
      then filter (\<lambda>i. drop_bit 1 (chain_at m e i XOR gnu_hash name) = 0)
             (map (\<lambda>j. gnu_first m e name + of_nat j) [0..<Suc k]) else [])"

definition linear_candidates :: "elf \<Rightarrow> u32 list" where
  "linear_candidates e = (if dyn_sym e = 0 then [] else map of_nat [0..<unat (sym_offset e)])"

definition first_named :: "bmem \<Rightarrow> elf \<Rightarrow> u8 list \<Rightarrow> u32 list \<Rightarrow> u32" where
  "first_named m e name is = (case find (sym_is m e name) is of Some i \<Rightarrow> i | None \<Rightarrow> 0)"

lemma find_Some_holds: "find P xs = Some x \<Longrightarrow> x \<in> set xs \<and> P x"
  by (auto simp: find_Some_iff)

lemma first_named_append:
  "\<not> sym_is m e name 0 \<Longrightarrow> first_named m e name (xs @ ys) =
     (if first_named m e name xs = 0 then first_named m e name ys else first_named m e name xs)"
  by (cases "find (sym_is m e name) xs") (auto simp: first_named_def find_append dest: find_Some_holds)

lemma gnu_chain_first:
  "gnu_ends m e b k \<Longrightarrow> gnu_chain m e name h b =
     Some (first_named m e name (filter (\<lambda>i. drop_bit 1 (chain_at m e i XOR h) = 0) (map (\<lambda>j. b + of_nat j) [0..<Suc k])))"
proof (induction k arbitrary: b)
  case 0
  then show ?case by (subst gnu_chain.simps) (simp add: gnu_ends_def first_named_def)
next
  case (Suc k)
  have s: "map (\<lambda>j. b + of_nat j) [0..<Suc (Suc k)] = b # map (\<lambda>j. b + 1 + of_nat j) [0..<Suc k]"
    by (subst upt_conv_Cons) (simp_all add: map_Suc_upt [symmetric] comp_def add.assoc del: upt_Suc)
  have c: "chain_at m e b AND 1 = 0" using Suc.prems by (auto simp: gnu_ends_def)
  have "gnu_ends m e (b + 1) k"
    using Suc.prems by (auto simp: gnu_ends_def add.assoc dest: spec [of _ "Suc _"])
  from Suc.IH [OF this] show ?case
    by (subst gnu_chain.simps) (simp add: s c first_named_def del: upt_Suc)
qed

lemma elf_chain_first: "chain_path m e b xs \<Longrightarrow> elf_chain m e name b = Some (first_named m e name xs)"
proof (induction xs arbitrary: b)
  case Nil
  then show ?case by (subst elf_chain.simps) (simp add: first_named_def)
next
  case (Cons x xs)
  then show ?case by (subst elf_chain.simps) (auto simp: first_named_def)
qed

lemma GnuLookup_first:
  "elf_searchable m e name k xs \<Longrightarrow> GnuLookup m e name = Some (first_named m e name (gnu_candidates m e name k))"
  using gnu_chain_first [of m e "gnu_first m e name" k name "gnu_hash name"]
  by (auto simp: GnuLookup_def elf_searchable_def gnu_candidates_def in_bloom_def gnu_first_def Let_def not_le
      first_named_def [of m e name "[]"] simp del: upt_Suc)

lemma ElfLookup_first:
  "elf_searchable m e name k xs \<Longrightarrow> ElfLookup m e name = Some (first_named m e name xs)"
  using elf_chain_first [of m e "elf_first m e name" xs name]
  by (auto simp: ElfLookup_def elf_searchable_def elf_first_def first_named_def [of m e name "[]"] split: if_splits)

lemma find_map_of_nat:
  "first_named m e name (map of_nat is) =
     (case find (\<lambda>i. sym_is m e name (of_nat i)) is of Some i \<Rightarrow> of_nat i | None \<Rightarrow> 0)"
  by (induction "is") (auto simp: first_named_def)

lemma LinearLookup_first: "LinearLookup m e name = first_named m e name (linear_candidates e)"
  by (auto simp: LinearLookup_def linear_candidates_def find_map_of_nat first_named_def [of m e name "[]"])

text \<open>
  C27: A symbol lookup returns and is complete. In an image whose hash chains for the name end, and whose
  symbol 0 does not have the name, the lookup returns the first symbol of that name among the entries
  of the GNU chain with its hash, then the SYSV chain, then the symbols below the hashed ones, and 0
  when there is none.
\<close>

theorem lookup_finds_first:
  assumes "elf_searchable m e name k xs" "\<not> sym_is m e name 0"
  shows "lookup_symbol m e name =
    Some (first_named m e name (gnu_candidates m e name k @ xs @ linear_candidates e))"
  using assms(2)
  by (simp add: lookup_symbol_def GnuLookup_first [OF assms(1)] ElfLookup_first [OF assms(1)] LinearLookup_first
      first_named_append)

lemma demo_searchable: "elf_searchable demo demo_elf [97] 0 []"
  by (simp add: elf_searchable_def gnu_first_def gnu_ends_def bucket_at_def chain_at_def)
    (simp add: demo_elf_def elf_zero_def demo_tables)

lemma demo_null: "\<not> sym_is demo demo_elf [97] 0"
  by (simp add: sym_is_def sym_name_def demo_elf_def elf_zero_def ld)

lemma demo_candidates: "gnu_candidates demo demo_elf [97] 0 = [1]" "linear_candidates demo_elf = [0]"
  by (simp add: gnu_candidates_def gnu_first_def in_bloom_def Let_def bloom_at_def bucket_at_def chain_at_def)
    (simp_all add: linear_candidates_def demo_elf_def elf_zero_def demo_tables drop_bit_eq_div)

theorem lookup_finds_first_witness:
  "gnu_candidates demo demo_elf [97] 0 @ [] @ linear_candidates demo_elf = [1, 0] \<and>
   lookup_symbol demo demo_elf [97] = Some 1"
  using lookup_finds_first [OF demo_searchable demo_null] by (simp add: demo_candidates first_named_def)

section \<open>Slots\<close>

lemma looper_data:
  "looper abi m e idx False rels =
     filter (\<lambda>a. base_addr e < a)
       (map (\<lambda>rel. bias_addr e + rd64 m rel) (filter (rel_matches abi m idx False) rels))"
  by (induction rels) (simp_all add: Let_def)

lemma looper_plt:
  "looper abi m e idx True rels =
     filter (\<lambda>a. base_addr e < a)
       (map (\<lambda>rel. bias_addr e + rd64 m rel) (take 1 (filter (rel_matches abi m idx True) rels)))"
  by (induction rels) (simp_all add: Let_def)

text \<open>
  The relocations of a symbol in a table, in table order: the entries that start inside the table and
  name the symbol with one of the given types. A table that is absent has none.
\<close>

definition relocs_of :: "bmem \<Rightarrow> elf \<Rightarrow> u32 \<Rightarrow> u64 set \<Rightarrow> u64 \<Rightarrow> u32 \<Rightarrow> u64 list" where
  "relocs_of m e idx types tab sz =
     (let ent = (if is_use_rela e then 24 else 16);
          entries = map (\<lambda>i. tab + of_nat (ent * i)) (filter (\<lambda>i. ent * i < unat sz) [0..<unat sz]) in
      if tab = 0 then []
      else filter (\<lambda>rel. ELF_R_SYM (rd64 m (rel + 8)) = ucast idx \<and> ELF_R_TYPE (rd64 m (rel + 8)) \<in> types)
             entries)"

lemma entries_inside:
  assumes "0 < k"
  shows "filter (\<lambda>i. k * i < n) [0..<n] = [0..<(n + k - 1) div k]"
proof -
  have lt: "k * i < n \<longleftrightarrow> i < (n + k - 1) div k" for i
  proof -
    have "i < (n + k - 1) div k \<longleftrightarrow> Suc i \<le> (n + k - 1) div k" by (rule less_eq_Suc_le)
    also have "\<dots> \<longleftrightarrow> Suc i * k \<le> n + k - 1" using assms by (simp add: less_eq_div_iff_mult_less_eq)
    also have "\<dots> \<longleftrightarrow> k * i < n" using assms by (simp add: mult.commute) linarith
    finally show ?thesis by simp
  qed
  have le: "(n + k - 1) div k \<le> n"
  proof (cases n)
    case (Suc n')
    have "n + k - 1 \<le> n * k" using assms Suc by (cases k) simp_all
    then show ?thesis using assms by (metis div_le_mono nonzero_mult_div_cancel_right less_not_refl2)
  qed (use assms in simp)
  then obtain d where "n = (n + k - 1) div k + d" using nat_le_iff_add by blast
  then have "[0..<n] = [0..<(n + k - 1) div k] @ [(n + k - 1) div k..<n]"
    using le by (metis upt_add_eq_append zero_le)
  then show ?thesis
    by (simp only: lt filter_append) (simp add: filter_id_conv filter_empty_conv)
qed

lemma relocs_of_eq:
  "tab \<noteq> 0 \<Longrightarrow> relocs_of m e idx types tab sz =
     filter (\<lambda>rel. ELF_R_SYM (rd64 m (rel + 8)) = ucast idx \<and> ELF_R_TYPE (rd64 m (rel + 8)) \<in> types)
       (rel_addrs (if is_use_rela e then 24 else 16) tab sz)"
  by (cases "is_use_rela e")
    (simp_all only: relocs_of_def rel_addrs_def Let_def entries_inside zero_less_numeral if_True if_False)

lemma relocs_of_absent: "relocs_of m e idx types 0 sz = []"
  by (simp add: relocs_of_def Let_def)

lemma matches_data: "rel_matches abi m idx False = (\<lambda>rel. ELF_R_SYM (rd64 m (rel + 8)) = ucast idx \<and>
    ELF_R_TYPE (rd64 m (rel + 8)) \<in> {R_ABS abi, R_GLOB_DAT abi})"
  by (rule ext) (simp add: rel_matches_def Let_def)

lemma matches_plt: "rel_matches abi m idx True = (\<lambda>rel. ELF_R_SYM (rd64 m (rel + 8)) = ucast idx \<and>
    ELF_R_TYPE (rd64 m (rel + 8)) \<in> {R_JUMP_SLOT abi})"
  by (rule ext) (simp add: rel_matches_def Let_def)

text \<open>
  C28: Exactly the slots of a symbol are found. The result is the slot of the symbol's first jump-slot
  relocation in the jump table, when there is one and no other of that table, followed by the slots of
  all its absolute and data relocations in the other two tables, in table order; of these only the ones
  above the base of the image count. An unknown symbol has none.
\<close>

theorem FindPltAddr_slots:
  assumes "lookup_symbol m e name = Some idx"
  shows "FindPltAddr abi m e name = Some (if idx = 0 then [] else
    filter (\<lambda>a. base_addr e < a) (map (\<lambda>rel. bias_addr e + rd64 m rel)
      (take 1 (relocs_of m e idx {R_JUMP_SLOT abi} (rel_plt e) (rel_plt_size e)) @
       relocs_of m e idx {R_ABS abi, R_GLOB_DAT abi} (rel_dyn e) (rel_dyn_size e) @
       relocs_of m e idx {R_ABS abi, R_GLOB_DAT abi} (rel_android e) (rel_android_size e))))"
proof -
  let ?ent = "if is_use_rela e then 24 else 16 :: nat"
  let ?out = "\<lambda>rels. filter (\<lambda>a. base_addr e < a) (map (\<lambda>rel. bias_addr e + rd64 m rel) rels)"
  have data: "(if tab = 0 then [] else looper abi m e idx False (rel_addrs ?ent tab sz)) =
      ?out (relocs_of m e idx {R_ABS abi, R_GLOB_DAT abi} tab sz)" for tab sz
    by (cases "tab = 0") (simp_all only: relocs_of_absent relocs_of_eq looper_data matches_data simp_thms if_True if_False
        list.map filter.simps take_Nil not_False_eq_True)
  have plt: "(if tab = 0 then [] else looper abi m e idx True (rel_addrs ?ent tab sz)) =
      ?out (take 1 (relocs_of m e idx {R_JUMP_SLOT abi} tab sz))" for tab sz
    by (cases "tab = 0") (simp_all only: relocs_of_absent relocs_of_eq looper_plt matches_plt simp_thms if_True if_False
        list.map filter.simps take_Nil not_False_eq_True)
  show ?thesis
    unfolding FindPltAddr_def assms Option.bind.bind_lunit Let_def list.map prod.case data plt
    by simp
qed

lemma demo_FindPltAddr: "FindPltAddr Aarch64 demo demo_elf [97] = Some [5120]"
proof -
  have "rel_addrs 24 5056 24 = [5056]" "rel_matches Aarch64 demo 1 True 5056"
    by (simp_all add: rel_addrs_def rel_matches_def Let_def ELF_R_SYM_def ELF_R_TYPE_def demo_tables
        drop_bit_eq_div)
  then show ?thesis
    by (simp add: FindPltAddr_def demo_lookup Let_def)
      (simp add: demo_elf_def elf_zero_def demo_tables drop_bit_eq_div)
qed

theorem FindPltAddr_slots_witness:
  "FindPltAddr Aarch64 demo demo_elf [97] = Some [5120] \<and>
   filter (\<lambda>a. base_addr demo_elf < a) (map (\<lambda>rel. bias_addr demo_elf + rd64 demo rel)
      (take 1 (relocs_of demo demo_elf 1 {R_JUMP_SLOT Aarch64} (rel_plt demo_elf) (rel_plt_size demo_elf)) @
       relocs_of demo demo_elf 1 {R_ABS Aarch64, R_GLOB_DAT Aarch64} (rel_dyn demo_elf) (rel_dyn_size demo_elf) @
       relocs_of demo demo_elf 1 {R_ABS Aarch64, R_GLOB_DAT Aarch64} (rel_android demo_elf)
         (rel_android_size demo_elf))) = [5120]"
  using FindPltAddr_slots [OF demo_lookup, of Aarch64] demo_FindPltAddr by simp

section \<open>The constructor\<close>

text \<open>Every table pointer is null or above the base.\<close>

definition tables_above :: "elf \<Rightarrow> bool" where
  "tables_above e \<longleftrightarrow>
     (\<forall>p\<in>{dyn_str e, dyn_sym e, rel_plt e, rel_dyn e, rel_android e}. p = 0 \<or> base_addr e < p)"

definition image_of :: "dyn_next \<Rightarrow> elf" where
  "image_of r = (case r of Go e \<Rightarrow> e | End e \<Rightarrow> e | Return e \<Rightarrow> e)"

lemma dyn_step_frame:
  assumes "tables_above e"
  shows "tables_above (image_of (dyn_step m t v e)) \<and>
    base_addr (image_of (dyn_step m t v e)) = base_addr e \<and>
    bias_addr (image_of (dyn_step m t v e)) = bias_addr e \<and>
    dynamic (image_of (dyn_step m t v e)) = dynamic e \<and>
    valid (image_of (dyn_step m t v e)) = valid e"
  using assms
  by (cases t)
    (auto simp: image_of_def tables_above_def Let_def by_offset_def set_by_offset_def)

lemma dyn_loop_frame:
  "tables_above e \<Longrightarrow> tables_above (snd (dyn_loop m es e)) \<and>
     base_addr (snd (dyn_loop m es e)) = base_addr e \<and>
     bias_addr (snd (dyn_loop m es e)) = bias_addr e \<and>
     dynamic (snd (dyn_loop m es e)) = dynamic e \<and>
     valid (snd (dyn_loop m es e)) = valid e"
proof (induction m es e rule: dyn_loop.induct)
  case (2 m t v es e)
  then show ?case
    using dyn_step_frame [of e m t v]
    by (auto simp: image_of_def split: dyn_next.splits)
qed simp

lemma phdr_step_frame:
  "base_addr (phdr_step m ph e) = base_addr e" "valid (phdr_step m ph e) = valid e"
  "tables_above (phdr_step m ph e) = tables_above e"
  by (simp_all add: phdr_step_def tables_above_def)

lemma phdr_fold_frame:
  "base_addr (fold (phdr_step m) phs e) = base_addr e \<and>
   valid (fold (phdr_step m) phs e) = valid e \<and>
   tables_above (fold (phdr_step m) phs e) = tables_above e"
  by (induction phs arbitrary: e) (simp_all add: phdr_step_frame)

text \<open>
  An image is marked valid only if its header passed every check (magic, class, byte order,
  version, type, machine), a load bias and a dynamic segment were found, and every table pointer
  that is set lies above the base; an Android relocation table is accepted only behind the
  \<open>APS2\<close> magic and its pointer is moved past it.
\<close>

theorem Elf_valid:
  assumes "valid (Elf abi m b)"
  shows "header_ok abi m b \<and> base_addr (Elf abi m b) = b \<and> bias_addr (Elf abi m b) \<noteq> 0 \<and>
    dynamic (Elf abi m b) \<noteq> bias_addr (Elf abi m b) \<and>
    (\<forall>p\<in>{dyn_str (Elf abi m b), dyn_sym (Elf abi m b), rel_plt (Elf abi m b), rel_dyn (Elf abi m b)}.
       p = 0 \<or> b < p) \<and>
    (rel_android (Elf abi m b) = 0 \<or>
       (let a = rel_android (Elf abi m b) - 4 in
         b < a \<and> [m a, m (a + 1), m (a + 2), m (a + 3)] = [0x41, 0x50, 0x53, 0x32]))"
proof -
  define e0 where "e0 = (elf_zero b)\<lparr>program_header := b + rd64 m (b + 32)\<rparr>"
  define e1 where "e1 = fold (phdr_step m) (phdr_addrs m e0) e0"
  define e2 where "e2 = e1\<lparr>dynamic := bias_addr e1 + dynamic e1\<rparr>"
  define e3 where "e3 = snd (dyn_loop m (dyn_entries m e2) e2)"
  have e1: "base_addr e1 = b" "\<not> valid e1" "tables_above e1"
  proof -
    have "base_addr e0 = b" "\<not> valid e0" "tables_above e0"
      by (simp_all add: e0_def elf_zero_def tables_above_def)
    then show "base_addr e1 = b" "\<not> valid e1" "tables_above e1"
      unfolding e1_def using phdr_fold_frame [of m "phdr_addrs m e0" e0] by blast+
  qed
  have e2: "base_addr e2 = b" "bias_addr e2 = bias_addr e1" "\<not> valid e2" "tables_above e2"
    "dynamic e2 = bias_addr e1 + dynamic e1"
    using e1 by (simp_all add: e2_def tables_above_def)
  have e3: "base_addr e3 = b" "bias_addr e3 = bias_addr e1" "\<not> valid e3" "tables_above e3"
    "dynamic e3 = bias_addr e1 + dynamic e1"
    using dyn_loop_frame [OF e2(4), of m "dyn_entries m e2"] e2 by (simp_all add: e3_def)
  have hdr: "header_ok abi m b"
    using assms by (rule contrapos_pp) (simp add: Elf_def elf_zero_def)
  have nz: "dynamic e1 \<noteq> 0" "bias_addr e1 \<noteq> 0"
    using assms e1(2) by (auto simp: Elf_def hdr Let_def e0_def [symmetric] e1_def [symmetric] split: if_splits)
  have "Elf abi m b = (if fst (dyn_loop m (dyn_entries m e2) e2) then android_check m e3 else e3)"
    using nz by (simp add: Elf_def hdr Let_def e0_def [symmetric] e1_def [symmetric] e2_def [symmetric]
        e3_def split_beta split: bool.splits prod.splits)
  then have "Elf abi m b = android_check m e3"
    using assms e3(3) by (auto split: if_splits)
  then have elf: "Elf abi m b = android_check m e3" "valid (android_check m e3)"
    using assms by simp_all
  show ?thesis
  proof (cases "rel_android e3 = 0")
    case True
    with nz e3 hdr show ?thesis
      unfolding elf(1) by (simp add: android_check_def tables_above_def)
  next
    case False
    then have "\<not> rel_android_size e3 < 4"
      "[m (rel_android e3), m (rel_android e3 + 1), m (rel_android e3 + 2), m (rel_android e3 + 3)] =
         [0x41, 0x50, 0x53, 0x32]"
      using elf(2) e3(3) by (auto simp: android_check_def Let_def split: if_splits)
    with False nz e3 hdr show ?thesis
      unfolding elf(1) by (simp add: android_check_def tables_above_def add.commute)
  qed
qed

theorem Elf_valid_witness:
  "valid (Elf Aarch64 demo 4096) \<and> header_ok Aarch64 demo 4096"
  using Elf_valid [of Aarch64 demo 4096] by (simp add: demo_Elf) (simp add: demo_elf_def)

text \<open>The fields a GNU table with value \<open>v\<close> gives.\<close>

definition gnu_tables :: "bmem \<Rightarrow> u64 \<Rightarrow> elf \<Rightarrow> bool" where
  "gnu_tables m v e \<longleftrightarrow>
     (let raw = bias_addr e + v; b = raw + 16 + 8 * ucast (rd32 m (raw + 8)) in
       bucket_count e = rd32 m raw \<and> sym_offset e = rd32 m (raw + 4) \<and>
       bloom_size e = rd32 m (raw + 8) \<and> bloom_shift e = rd32 m (raw + 12) \<and>
       bloom e = raw + 16 \<and> bucket e = b \<and>
       chain e = b + 4 * ucast (rd32 m raw) - 4 * ucast (rd32 m (raw + 4)))"

lemma dyn_step_gnu_keep:
  assumes "gnu_tables m v e" "bias_addr e + v + 16 \<noteq> 0" "t = DT_GNU_HASH \<longrightarrow> w = v"
  shows "gnu_tables m v (image_of (dyn_step m t w e))"
  using assms
  by (cases t) (auto simp: gnu_tables_def image_of_def Let_def by_offset_def set_by_offset_def)

lemma dyn_step_bias: "bias_addr (image_of (dyn_step m t w e)) = bias_addr e"
  by (cases t) (auto simp: image_of_def Let_def by_offset_def set_by_offset_def)

lemma dyn_loop_gnu_keep:
  "gnu_tables m v e \<Longrightarrow> bias_addr e + v + 16 \<noteq> 0 \<Longrightarrow> \<forall>w. (DT_GNU_HASH, w) \<in> set es \<longrightarrow> w = v \<Longrightarrow>
     gnu_tables m v (snd (dyn_loop m es e))"
proof (induction m es e rule: dyn_loop.induct)
  case (2 m t w es e)
  then show ?case
    using dyn_step_gnu_keep [of m v e t w] dyn_step_bias [of m t w e]
    by (auto simp: image_of_def split: dyn_next.splits)
qed simp

text \<open>
  \<open>DT_GNU_HASH\<close> takes precedence over \<open>DT_HASH\<close> in whatever order the two appear: when the
  section has one GNU table before its end, the bucket, chain and bloom fields of the image are those
  of that table.
\<close>

theorem gnu_hash_precedence:
  assumes "dyn_loop m es e = (True, e')"
    and "(DT_GNU_HASH, v) \<in> set (takeWhile (\<lambda>(t, _). t \<noteq> DT_NULL) es)"
    and "\<forall>w. (DT_GNU_HASH, w) \<in> set es \<longrightarrow> w = v" and "bias_addr e + v + 16 \<noteq> 0"
  shows "gnu_tables m v e'"
  using assms
proof (induction m es e rule: dyn_loop.induct)
  case (2 m t w es e)
  show ?case
  proof (cases "t = DT_GNU_HASH")
    case True
    define e1 where "e1 = image_of (dyn_step m DT_GNU_HASH v e)"
    have "gnu_tables m v e1" "bias_addr e1 = bias_addr e"
      by (simp_all add: e1_def gnu_tables_def image_of_def Let_def)
    moreover have "dyn_loop m es e1 = (True, e')"
      using "2.prems"(1,3) True by (simp add: e1_def image_of_def Let_def)
    ultimately show ?thesis
      using dyn_loop_gnu_keep [of m v e1 es] "2.prems"(3,4) by simp
  next
    case False
    obtain e1 where e1: "dyn_step m t w e = Go e1" "dyn_loop m es e1 = (True, e')"
      using "2.prems"(1,2)
      by (cases t) (auto simp: by_offset_def set_by_offset_def Let_def split: dyn_next.splits if_splits)
    have "bias_addr e1 = bias_addr e"
      using dyn_step_bias [of m t w e] e1(1) by (simp add: image_of_def)
    with "2.prems" e1(2) False show ?thesis
      by (intro "2.IH" [OF e1(1)]) (auto split: if_splits)
  qed
qed simp

theorem gnu_hash_precedence_witness:
  "\<exists>e'. dyn_loop demo [(DT_GNU_HASH, 0x380), (DT_HASH, 0x500)] ((elf_zero 4096)\<lparr>bias_addr := 4096\<rparr>) =
     (True, e') \<and> gnu_tables demo 0x380 e' \<and> bloom e' = 5008"
proof -
  let ?e = "(elf_zero 4096)\<lparr>bias_addr := 4096\<rparr>"
  let ?es = "[(DT_GNU_HASH, 0x380), (DT_HASH, 0x500)]"
  obtain e' where e': "dyn_loop demo ?es ?e = (True, e')" "bloom e' = 5008"
    by (simp add: Let_def elf_zero_def)
  have "gnu_tables demo 0x380 e'"
    by (rule gnu_hash_precedence [OF e'(1)]) (auto simp: elf_zero_def)
  with e' show ?thesis by blast
qed

end
