(* ===== verification/Lsplt.thy ===== *)
theory Lsplt
  imports IpcClient MapInfo ElfUtil
begin

unbundle bit_operations_syntax

text \<open>
  \<^verbatim>\<open>lsplt/lsplt.cc\<close>: registrations of PLT hooks, the table of hooked mappings, the patching of a
  slot in a private copy of its mapping, and the operations \<open>RegisterHook\<close>, \<open>CommitHook\<close> and
  \<open>InvalidateBackup\<close>. The process memory is a function from addresses to bytes; the kernel's answers
  to \<open>mmap\<close> (an address or a failure) and to the calls with a fixed address (success or failure), and
  the text of each reading of the memory map, are data of the state.
\<close>

section \<open>Ordered maps\<close>

text \<open>
  What the code uses of \<open>std::map\<close>: the entries in key order, lookup, insertion that keeps a present
  entry, removal, assignment to a present entry, and the last entry at or below a key.
\<close>

locale ordered_map =
  fixes entries :: "'m \<Rightarrow> ('k :: linorder \<times> 'v) list"
    and lookup :: "'m \<Rightarrow> 'k \<Rightarrow> 'v option"
    and emplace :: "'k \<Rightarrow> 'v \<Rightarrow> 'm \<Rightarrow> 'm"
    and erase :: "'k \<Rightarrow> 'm \<Rightarrow> 'm"
    and assign :: "'k \<Rightarrow> 'v \<Rightarrow> 'm \<Rightarrow> 'm"
    and ok :: "'m \<Rightarrow> bool"
  assumes ordered: "ok t \<Longrightarrow> sorted_wrt (<) (map fst (entries t))"
    and lookup_entries: "ok t \<Longrightarrow> lookup t k = Some v \<longleftrightarrow> (k, v) \<in> set (entries t)"
    and ok_emplace: "ok t \<Longrightarrow> ok (emplace k v t)"
    and ok_erase: "ok t \<Longrightarrow> ok (erase k t)"
    and ok_assign: "ok t \<Longrightarrow> ok (assign k v t)"
    and lookup_emplace: "ok t \<Longrightarrow>
      lookup (emplace k v t) = (if lookup t k = None then (lookup t)(k \<mapsto> v) else lookup t)"
    and lookup_erase: "ok t \<Longrightarrow> lookup (erase k t) = (lookup t)(k := None)"
    and lookup_assign: "ok t \<Longrightarrow>
      lookup (assign k v t) = (if lookup t k = None then lookup t else (lookup t)(k \<mapsto> v))"
begin

lemma ok_emplace_all: "ok t \<Longrightarrow> ok (fold (\<lambda>(k, v). emplace k v) kvs t)"
  by (induction kvs arbitrary: t) (auto intro: ok_emplace)

text \<open>Of several insertions under one key the first one wins.\<close>

lemma lookup_emplace_all:
  "ok t \<Longrightarrow> lookup (fold (\<lambda>(k, v). emplace k v) kvs t) x =
     (case lookup t x of Some v \<Rightarrow> Some v | None \<Rightarrow> map_of kvs x)"
  by (induction kvs arbitrary: t) (auto simp: lookup_emplace ok_emplace split: option.splits if_splits)

lemma erase_emplace: "ok t \<Longrightarrow> lookup t k = None \<Longrightarrow> lookup (erase k (emplace k v t)) = lookup t"
  by (auto simp: lookup_erase lookup_emplace ok_emplace)

lemma keys_distinct: "ok t \<Longrightarrow> distinct (map fst (entries t))"
  using ordered strict_sorted_iff by blast

end

fun om_emplace :: "'k :: linorder \<Rightarrow> 'v \<Rightarrow> ('k \<times> 'v) list \<Rightarrow> ('k \<times> 'v) list" where
  "om_emplace k v [] = [(k, v)]"
| "om_emplace k v ((k', v') # r) =
     (if k < k' then (k, v) # (k', v') # r
      else if k = k' then (k', v') # r
      else (k', v') # om_emplace k v r)"

definition om_erase :: "'k \<Rightarrow> ('k \<times> 'v) list \<Rightarrow> ('k \<times> 'v) list" where
  "om_erase k t = filter (\<lambda>(k', _). k' \<noteq> k) t"

definition om_assign :: "'k \<Rightarrow> 'v \<Rightarrow> ('k \<times> 'v) list \<Rightarrow> ('k \<times> 'v) list" where
  "om_assign k v t = map (\<lambda>(k', v'). (k', if k' = k then v else v')) t"

definition om_ok :: "('k :: linorder \<times> 'v) list \<Rightarrow> bool" where
  "om_ok t \<longleftrightarrow> sorted_wrt (<) (map fst t)"

text \<open>\<open>lower_bound\<close> of a map ordered by \<open>std::greater\<close>: the entry with the greatest key not above.\<close>

definition om_floor :: "'k :: linorder \<Rightarrow> ('k \<times> 'v) list \<Rightarrow> ('k \<times> 'v) option" where
  "om_floor k t =
     (let xs = filter (\<lambda>(k', _). k' \<le> k) t in if xs = [] then None else Some (last xs))"

lemma om_emplace_keys: "set (map fst (om_emplace k v t)) = insert k (set (map fst t))"
  by (induction k v t rule: om_emplace.induct) auto

lemma om_ok_emplace: "om_ok t \<Longrightarrow> om_ok (om_emplace k v t)"
proof (induction k v t rule: om_emplace.induct)
  case (2 k v k' v' r)
  then show ?case
    using om_emplace_keys [of k v r] by (auto simp: om_ok_def)
qed (simp add: om_ok_def)

lemma map_of_om_emplace:
  "om_ok t \<Longrightarrow> map_of (om_emplace k v t) = (if map_of t k = None then (map_of t)(k \<mapsto> v) else map_of t)"
proof (induction k v t rule: om_emplace.induct)
  case (2 k v k' v' r)
  have "map_of r k = None" if "k < k'"
    using "2.prems" that by (force simp: om_ok_def map_of_eq_None_iff)
  with 2 show ?case by (auto simp: om_ok_def fun_eq_iff)
qed simp

lemma map_fst_om_assign [simp]: "map fst (om_assign k v t) = map fst t"
  by (auto simp: om_assign_def)

lemma map_of_om_assign:
  "map_of (om_assign k v t) = (if map_of t k = None then map_of t else (map_of t)(k \<mapsto> v))"
  unfolding om_assign_def by (induction t) (auto simp: fun_eq_iff)

lemma map_of_om_erase: "map_of (om_erase k t) = (map_of t)(k := None)"
  unfolding om_erase_def by (induction t) (auto simp: fun_eq_iff)

interpretation om: ordered_map "\<lambda>t. t" map_of om_emplace om_erase om_assign om_ok
proof
  fix t :: "('a :: linorder \<times> 'b) list" and k :: 'a and v :: 'b
  show "om_ok t \<Longrightarrow> sorted_wrt (<) (map fst t)" by (simp add: om_ok_def)
  show "map_of t k = Some v \<longleftrightarrow> (k, v) \<in> set t" if "om_ok t"
    using that by (simp add: om_ok_def strict_sorted_iff)
  show "om_ok t \<Longrightarrow> om_ok (om_emplace k v t)" by (rule om_ok_emplace)
  show "om_ok t \<Longrightarrow> om_ok (om_erase k t)"
    unfolding om_ok_def om_erase_def by (induction t) (auto simp: case_prod_beta)
  show "om_ok t \<Longrightarrow> om_ok (om_assign k v t)" by (simp add: om_ok_def)
qed (simp_all add: map_of_om_emplace map_of_om_assign map_of_om_erase)

lemma om_floor_Some:
  "om_floor k t = Some (k', v) \<Longrightarrow> (k', v) \<in> set t \<and> k' \<le> k"
proof -
  assume "om_floor k t = Some (k', v)"
  then have "(k', v) \<in> set (filter (\<lambda>(k', _). k' \<le> k) t)"
    unfolding om_floor_def Let_def by (metis last_in_set option.distinct(1) option.inject)
  then show ?thesis by auto
qed

section \<open>State\<close>

record RegisterInfo =
  reg_dev :: u64
  reg_inode :: nat
  range_lo :: u64
  range_hi :: u64
  symbol :: "u8 list"
  reg_callback :: u64
  reg_backup :: u64 \<comment> \<open>where the original pointer is stored; 0 is null\<close>

record HookInfo = map_info +
  hooks :: "(u64 \<times> u64) list"
  backup :: u64
  elf_ptr :: "elf option"
  is_self :: bool

type_synonym HookInfos = "(u64 \<times> HookInfo) list"

record lsp = ipc +
  mem :: bmem
  vacant :: bmem \<comment> \<open>what a range reads as after its pages were moved away\<close>
  vm_anon :: "u64 option list" \<comment> \<open>addresses given to anonymous mappings\<close>
  vm_fixed :: "bool list" \<comment> \<open>outcomes of the calls with a fixed address\<close>
  page_size :: u64
  abi :: machine_abi
  proc_maps :: "string option list" \<comment> \<open>readings of the memory map\<close>
  return_address :: nat
  kSelfInode :: nat
  kSelfDev :: u64
  register_info :: "RegisterInfo list"
  hook_info :: HookInfos

definition hstart :: "'a map_info_scheme \<Rightarrow> u64" where "hstart i = of_nat (mstart i)"
definition hend :: "'a map_info_scheme \<Rightarrow> u64" where "hend i = of_nat (mend i)"
definition hoffset :: "'a map_info_scheme \<Rightarrow> u64" where "hoffset i = of_nat (moffset i)"
definition hlen :: "'a map_info_scheme \<Rightarrow> u64" where "hlen i = hend i - hstart i"

section \<open>Memory and the memory calls\<close>

definition wr64 :: "bmem \<Rightarrow> u64 \<Rightarrow> u64 \<Rightarrow> bmem" where
  "wr64 m a v = (\<lambda>x. if x - a < 8 then ucast (drop_bit (8 * unat (x - a)) v) else m x)"

definition copy_range :: "bmem \<Rightarrow> u64 \<Rightarrow> u64 \<Rightarrow> u64 \<Rightarrow> bmem" where
  "copy_range m src dst n = (\<lambda>x. if x - dst < n then m (src + (x - dst)) else m x)"

definition sys_mmap_anon :: "u64 \<Rightarrow> 'a lsp_scheme \<Rightarrow> u64 option \<times> 'a lsp_scheme" where
  "sys_mmap_anon len s = (case vm_anon s of
      Some a # r \<Rightarrow> (Some a, s\<lparr>vm_anon := r, mem := (\<lambda>x. if x - a < len then 0 else mem s x)\<rparr>)
    | None # r \<Rightarrow> (None, s\<lparr>vm_anon := r\<rparr>)
    | [] \<Rightarrow> (None, s))"

definition vm_answer :: "'a lsp_scheme \<Rightarrow> bool \<times> 'a lsp_scheme" where
  "vm_answer s = (case vm_fixed s of b # r \<Rightarrow> (b, s\<lparr>vm_fixed := r\<rparr>) | [] \<Rightarrow> (False, s))"

text \<open>A successful \<open>mremap\<close> with \<open>MREMAP_FIXED\<close> moves the pages, with their contents, to \<open>dst\<close>.\<close>

definition sys_mremap :: "u64 \<Rightarrow> u64 \<Rightarrow> u64 \<Rightarrow> 'a lsp_scheme \<Rightarrow> bool \<times> 'a lsp_scheme" where
  "sys_mremap src len dst s =
     (let (good, s1) = vm_answer s in
      if good then
        (True, s1\<lparr>mem := (\<lambda>x. if x - dst < len then mem s (src + (x - dst))
                              else if x - src < len then vacant s x else mem s x)\<rparr>)
      else (False, s1))"

definition sys_mmap_fixed :: "u64 \<Rightarrow> u64 \<Rightarrow> 'a lsp_scheme \<Rightarrow> bool \<times> 'a lsp_scheme" where
  "sys_mmap_fixed a len s =
     (let (good, s1) = vm_answer s in
      if good then (True, s1\<lparr>mem := (\<lambda>x. if x - a < len then 0 else mem s x)\<rparr>) else (False, s1))"

text \<open>\<open>mprotect\<close> changes no contents.\<close>

definition sys_mprotect :: "'a lsp_scheme \<Rightarrow> bool \<times> 'a lsp_scheme" where
  "sys_mprotect s = vm_answer s"

text \<open>The page by page copy of \<open>DoHook\<close>: whole pages while the destination is below the end.\<close>

definition copy_pages :: "u64 \<Rightarrow> u64 \<Rightarrow> u64 \<Rightarrow> u64 \<Rightarrow> bmem \<Rightarrow> bmem" where
  "copy_pages ps src dst len m =
     fold (\<lambda>i m. copy_range m (src + of_nat i * ps) (dst + of_nat i * ps) ps)
       [0..<(unat len + unat ps - 1) div unat ps] m"

section \<open>Registrations and the hook table\<close>

definition Match :: "HookInfo \<Rightarrow> RegisterInfo \<Rightarrow> bool" where
  "Match i r \<longleftrightarrow> reg_dev r = dev i \<and> reg_inode r = inode i \<and>
     range_lo r \<le> hoffset i \<and> hoffset i < range_hi r"

definition self_entry :: "nat \<Rightarrow> map_info list \<Rightarrow> map_info option" where
  "self_entry pc maps = find (\<lambda>m. mstart m \<le> pc \<and> pc < mend m) maps"

definition hookable :: "map_info \<Rightarrow> bool" where
  "hookable m \<longleftrightarrow> is_private m \<and> perms m AND PROT_READ \<noteq> 0 \<and> mpath m \<noteq> [] \<and> hd (mpath m) \<noteq> CHR ''[''"

definition new_entry :: "nat \<Rightarrow> u64 \<Rightarrow> map_info \<Rightarrow> u64 \<times> HookInfo" where
  "new_entry ino d m =
     (hstart m, map_info.extend m
        \<lparr>hooks = [], backup = 0, elf_ptr = None, is_self = (inode m = ino \<and> dev m = d)\<rparr>)"

definition read_maps :: "'a lsp_scheme \<Rightarrow> map_info list \<times> 'a lsp_scheme" where
  "read_maps s = (case proc_maps s of
      f # r \<Rightarrow> (Scan f, s\<lparr>proc_maps := r\<rparr>) | [] \<Rightarrow> (Scan None, s))"

definition ScanHookInfo :: "'a lsp_scheme \<Rightarrow> HookInfos \<times> 'a lsp_scheme" where
  "ScanHookInfo s =
     (let (maps, s1) = read_maps s;
          s2 = (if kSelfInode s1 = 0 then
                  (case self_entry (return_address s1) maps of
                     Some m \<Rightarrow> s1\<lparr>kSelfInode := inode m, kSelfDev := dev m\<rparr>
                   | None \<Rightarrow> s1)
                else s1)
      in (fold (\<lambda>(k, v). om_emplace k v)
            (map (new_entry (kSelfInode s2) (kSelfDev s2)) (filter hookable maps)) [], s2))"

definition Filter :: "RegisterInfo list \<Rightarrow> HookInfos \<Rightarrow> HookInfos" where
  "Filter regs infos = filter (\<lambda>(_, i). list_ex (Match i) regs) infos"

text \<open>The iteration goes from the highest start address down.\<close>

definition merge_one :: "u64 \<times> HookInfo \<Rightarrow> HookInfos \<Rightarrow> HookInfos" where
  "merge_one kv t =
     (let (k, i) = kv;
          t1 = (if backup i \<noteq> 0 then om_erase (backup i) t else t)
      in if map_of t1 k \<noteq> None then om_assign k i t1
         else if backup i \<noteq> 0 then om_emplace k i t1
         else t1)"

definition Merge :: "HookInfos \<Rightarrow> HookInfos \<Rightarrow> HookInfos" where
  "Merge new old = fold merge_one (rev old) new"

section \<open>Patching one slot\<close>

text \<open>The private copy of a mapping: its pages move to the backup, a fresh mapping takes their place.\<close>

definition make_backup :: "HookInfo \<Rightarrow> 'a lsp_scheme \<Rightarrow> bool \<times> HookInfo \<times> 'a lsp_scheme" where
  "make_backup i s =
     (if backup i = 0 \<and> \<not> is_self i then
        (case sys_mmap_anon (hlen i) s of
           (None, s1) \<Rightarrow> (False, i, s1)
         | (Some b, s1) \<Rightarrow>
             (let (ok1, s2) = sys_mremap (hstart i) (hlen i) b s1;
                  (ok2, s3) = (if ok1 then (True, s2) else sys_mremap (hstart i) (hlen i) b s2)
              in if \<not> ok2 then (False, i, s3)
                 else
                   (let (ok3, s4) = sys_mmap_fixed (hstart i) (hlen i) s3 in
                    if \<not> ok3 then (False, i, s4)
                    else (True, i\<lparr>backup := b\<rparr>,
                      s4\<lparr>mem := copy_pages (page_size s4) b (hstart i) (hlen i) (mem s4)\<rparr>))))
      else (True, i, s))"

definition make_writable :: "HookInfo \<Rightarrow> 'a lsp_scheme \<Rightarrow> HookInfo \<times> 'a lsp_scheme" where
  "make_writable i s =
     (if is_self i \<and> perms i AND PROT_WRITE = 0
      then (i\<lparr>perms := perms i OR PROT_WRITE\<rparr>, snd (sys_mprotect s))
      else (i, s))"

definition patch_slot :: "u64 \<Rightarrow> u64 \<Rightarrow> u64 \<Rightarrow> 'a lsp_scheme \<Rightarrow> 'a lsp_scheme" where
  "patch_slot addr cb bk s =
     (let old = rd64 (mem s) addr in
      if old \<noteq> cb then
        (let m1 = wr64 (mem s) addr cb in s\<lparr>mem := (if bk \<noteq> 0 then wr64 m1 bk old else m1)\<rparr>)
      else s)"

definition track_hook :: "u64 \<Rightarrow> u64 \<Rightarrow> u64 \<Rightarrow> (u64 \<times> u64) list \<Rightarrow> (u64 \<times> u64) list" where
  "track_hook addr cb old hs = (case map_of hs addr of
      Some v \<Rightarrow> (if v = cb then om_erase addr hs else hs)
    | None \<Rightarrow> om_emplace addr old hs)"

definition drop_backup :: "HookInfo \<Rightarrow> 'a lsp_scheme \<Rightarrow> bool \<times> HookInfo \<times> 'a lsp_scheme" where
  "drop_backup i s =
     (if hooks i = [] \<and> \<not> is_self i then
        (let (good, s1) = sys_mremap (backup i) (hlen i) (hstart i) s in
         if good then (True, i\<lparr>backup := 0\<rparr>, s1) else (False, i, s1))
      else (True, i, s))"

definition hook_in :: "u64 \<Rightarrow> u64 \<Rightarrow> u64 \<Rightarrow> HookInfo \<Rightarrow> 'a lsp_scheme \<Rightarrow> bool \<times> HookInfo \<times> 'a lsp_scheme" where
  "hook_in addr cb bk i s =
     (let (ok1, i1, s1) = make_backup i s in
      if \<not> ok1 then (False, i1, s1)
      else
        (let (i2, s2) = make_writable i1 s1;
             old = rd64 (mem s2) addr;
             s3 = patch_slot addr cb bk s2;
             i3 = i2\<lparr>hooks := track_hook addr cb old (hooks i2)\<rparr>
         in drop_backup i3 s3))"

definition DoHook :: "u64 \<Rightarrow> u64 \<Rightarrow> u64 \<Rightarrow> 'a lsp_scheme \<Rightarrow> bool \<times> 'a lsp_scheme" where
  "DoHook addr cb bk s =
     (case om_floor addr (hook_info s) of
        None \<Rightarrow> (False, s)
      | Some (k, i) \<Rightarrow>
          if hend i \<le> addr then (False, s)
          else
            (let (res, i', s') = hook_in addr cb bk i s
             in (res, s'\<lparr>hook_info := om_assign k i' (hook_info s')\<rparr>)))"

section \<open>The operations\<close>

fun hook_addrs :: "u64 \<Rightarrow> u64 \<Rightarrow> u64 list \<Rightarrow> bool \<Rightarrow> 'a lsp_scheme \<Rightarrow> bool \<times> 'a lsp_scheme" where
  "hook_addrs cb bk [] res s = (res, s)"
| "hook_addrs cb bk (a # as) res s =
     (let (r, s') = DoHook a cb bk s in hook_addrs cb bk as (r \<and> res) s')"

text \<open>
  The inner loop for the mapping under key \<open>k\<close>: what remains of the registrations, the result so
  far and the state. It is \<open>None\<close> where the symbol lookup does not return.
\<close>

fun hook_regs :: "u64 \<Rightarrow> RegisterInfo list \<Rightarrow> bool \<Rightarrow> 'a lsp_scheme \<Rightarrow>
    (RegisterInfo list \<times> bool \<times> 'a lsp_scheme) option" where
  "hook_regs k [] res s = Some ([], res, s)"
| "hook_regs k (r # rs) res s =
     (case map_of (hook_info s) k of
        None \<Rightarrow> Some (r # rs, res, s)
      | Some i \<Rightarrow>
          if hoffset i \<noteq> range_lo r \<or> \<not> Match i r then
            do { (rs', res', s') \<leftarrow> hook_regs k rs res s; Some (r # rs', res', s') }
          else
            (let e = (case elf_ptr i of Some e \<Rightarrow> e | None \<Rightarrow> Elf (abi s) (mem s) (hstart i));
                 s1 = s\<lparr>hook_info := om_assign k (i\<lparr>elf_ptr := Some e\<rparr>) (hook_info s)\<rparr>
             in if valid e then
                  do { addrs \<leftarrow> FindPltAddr (abi s) (mem s1) e (symbol r);
                       let (res2, s2) = hook_addrs (reg_callback r) (reg_backup r) addrs res s1;
                       hook_regs k rs res2 s2 }
                else hook_regs k rs res s1))"

fun hook_maps :: "u64 list \<Rightarrow> RegisterInfo list \<Rightarrow> bool \<Rightarrow> 'a lsp_scheme \<Rightarrow>
    (RegisterInfo list \<times> bool \<times> 'a lsp_scheme) option" where
  "hook_maps [] rs res s = Some (rs, res, s)"
| "hook_maps (k # ks) rs res s =
     do { (rs', res', s') \<leftarrow> hook_regs k rs res s; hook_maps ks rs' res' s' }"

text \<open>\<open>DoHook(register_info)\<close>: mappings from the lowest start address up.\<close>

definition DoHook_all :: "'a lsp_scheme \<Rightarrow> (bool \<times> 'a lsp_scheme) option" where
  "DoHook_all s = do {
     (rs, res, s') \<leftarrow> hook_maps (map fst (hook_info s)) (register_info s) True s;
     Some (res, s'\<lparr>register_info := rs\<rparr>) }"

definition RegisterHook_range :: "u64 \<Rightarrow> nat \<Rightarrow> u64 \<Rightarrow> u64 \<Rightarrow> u8 list \<Rightarrow> u64 \<Rightarrow> u64 \<Rightarrow>
    'a lsp_scheme \<Rightarrow> bool \<times> 'a lsp_scheme" where
  "RegisterHook_range d ino off sz nm cb bk s =
     (if d = 0 \<or> ino = 0 \<or> nm = [] \<or> cb = 0 then (False, s)
      else (True, s\<lparr>register_info := register_info s @
        [\<lparr>reg_dev = d, reg_inode = ino, range_lo = off, range_hi = off + sz, symbol = nm,
          reg_callback = cb, reg_backup = bk\<rparr>]\<rparr>))"

definition RegisterHook :: "u64 \<Rightarrow> nat \<Rightarrow> u8 list \<Rightarrow> u64 \<Rightarrow> u64 \<Rightarrow> 'a lsp_scheme \<Rightarrow> bool \<times> 'a lsp_scheme" where
  "RegisterHook d ino nm cb bk s =
     (if d = 0 \<or> ino = 0 \<or> nm = [] \<or> cb = 0 then (False, s)
      else (True, s\<lparr>register_info := register_info s @
        [\<lparr>reg_dev = d, reg_inode = ino, range_lo = 0, range_hi = - 1, symbol = nm,
          reg_callback = cb, reg_backup = bk\<rparr>]\<rparr>))"

definition CommitHook :: "'a lsp_scheme \<Rightarrow> (bool \<times> 'a lsp_scheme) option" where
  "CommitHook s =
     (if register_info s = [] then Some (True, s)
      else
        (let (new, s1) = ScanHookInfo s in
         if new = [] then Some (False, s1)
         else DoHook_all (s1\<lparr>hook_info := Merge (Filter (register_info s1) new) (hook_info s1)\<rparr>)))"

text \<open>One mapping of \<open>InvalidateBackup\<close>: its outcome, its entry, the state.\<close>

definition invalidate_one :: "HookInfo \<Rightarrow> 'a lsp_scheme \<Rightarrow> bool \<times> HookInfo \<times> 'a lsp_scheme" where
  "invalidate_one i s =
     (if backup i = 0 then (True, i, s)
      else
        (let hs = map (\<lambda>(a, _). (a, rd64 (mem s) a)) (hooks i);
             (good, s1) = sys_mremap (backup i) (hlen i) (hstart i) s
         in if \<not> good then (False, i\<lparr>hooks := []\<rparr>, s1)
            else
              (let (writable, s2) = sys_mprotect s1;
                   s3 = (if writable
                         then snd (sys_mprotect (s2\<lparr>mem := fold (\<lambda>(a, v) m. wr64 m a v) hs (mem s2)\<rparr>))
                         else s2)
               in (True, i\<lparr>hooks := [], backup := 0\<rparr>, s3))))"

fun invalidate_all :: "HookInfos \<Rightarrow> bool \<Rightarrow> 'a lsp_scheme \<Rightarrow> bool \<times> HookInfos \<times> 'a lsp_scheme" where
  "invalidate_all [] res s = (res, [], s)"
| "invalidate_all ((k, i) # r) res s =
     (let (ok1, i', s') = invalidate_one i s;
          (res', r', s'') = invalidate_all r (res \<and> ok1) s'
      in (res', (k, i') # r', s''))"

definition InvalidateBackup :: "'a lsp_scheme \<Rightarrow> bool \<times> 'a lsp_scheme" where
  "InvalidateBackup s =
     (let (res, t, s') = invalidate_all (rev (hook_info s)) True s
      in (res, s'\<lparr>hook_info := rev t\<rparr>))"

end
