(* ===== verification/LspltProofs.thy ===== *)
theory LspltProofs
  imports Lsplt
begin

unbundle bit_operations_syntax

text \<open>
  Properties of the PLT hooker: what a sequence of hooks leaves in memory and in the table, that the
  last unhook restores the mapping bit for bit, that invalidating keeps the hooks in force, which
  registrations a commit consumes, and which entries a re-scan keeps.
\<close>

section \<open>Words in memory\<close>

text \<open>The addresses of \<open>n\<close> bytes from \<open>a\<close>.\<close>

definition region :: "u64 \<Rightarrow> u64 \<Rightarrow> u64 set" where
  "region a n = {x. x - a < n}"

lemma region_iff: "x \<in> region a n \<longleftrightarrow> x - a < n"
  by (simp add: region_def)

lemma rd64_cong: "(\<And>x. x \<in> region a 8 \<Longrightarrow> m x = m' x) \<Longrightarrow> rd64 m a = rd64 m' a"
  by (simp add: rd64_def rd32_def region_iff add.assoc)

lemma rd64_wr64 [simp]: "rd64 (wr64 m a v) a = v"
proof -
  have "rd64 (wr64 m a v) a =
      ucast (of_le32 (ucast v) (ucast (drop_bit 8 v)) (ucast (drop_bit 16 v)) (ucast (drop_bit 24 v))) OR
      push_bit 32 (ucast (of_le32 (ucast (drop_bit 32 v)) (ucast (drop_bit 40 v))
        (ucast (drop_bit 48 v)) (ucast (drop_bit 56 v))))"
    by (simp add: rd64_def rd32_def wr64_def add.assoc)
  also have "\<dots> = v"
  proof (rule bit_word_eqI)
    fix n :: nat
    assume "n < LENGTH(64)"
    then show "bit (ucast (of_le32 (ucast v) (ucast (drop_bit 8 v)) (ucast (drop_bit 16 v))
          (ucast (drop_bit 24 v))) OR
        push_bit 32 (ucast (of_le32 (ucast (drop_bit 32 v)) (ucast (drop_bit 40 v))
          (ucast (drop_bit 48 v)) (ucast (drop_bit 56 v)))) :: u64) n = bit v n"
      by (cases "n < 8"; cases "n < 16"; cases "n < 24"; cases "n < 32"; cases "n < 40";
          cases "n < 48"; cases "n < 56") (auto simp: of_le32_def bit_simps)
  qed
  finally show ?thesis .
qed

lemma rd64_halves: "ucast (rd64 m a) = rd32 m a" "ucast (drop_bit 32 (rd64 m a)) = rd32 m (a + 4)"
proof -
  have "\<not> bit (w :: u32) (32 + n)" for w n
    using bit_imp_le_length [of w "32 + n"] by auto
  then show "ucast (rd64 m a) = rd32 m a" "ucast (drop_bit 32 (rd64 m a)) = rd32 m (a + 4)"
    unfolding rd64_def by (auto intro!: bit_word_eqI simp: bit_simps)
qed

lemma rd32_inject:
  assumes "rd32 m a = rd32 m' a"
  shows "m a = m' a \<and> m (a + 1) = m' (a + 1) \<and> m (a + 2) = m' (a + 2) \<and> m (a + 3) = m' (a + 3)"
  using arg_cong [OF assms, of le32] by (simp add: rd32_def le32_of_le32)

lemma region_8_cases:
  assumes "x \<in> region a 8"
  shows "x = a \<or> x = a + 1 \<or> x = a + 2 \<or> x = a + 3 \<or> x = a + 4 \<or> x = a + 5 \<or> x = a + 6 \<or> x = a + 7"
proof -
  have "unat (x - a) < 8" using assms by (simp add: region_iff word_less_nat_alt)
  then have "unat (x - a) \<in> {0, 1, 2, 3, 4, 5, 6, 7}" by auto
  moreover have "x = a + of_nat (unat (x - a))" by simp
  ultimately have "\<exists>k\<in>{0 :: nat, 1, 2, 3, 4, 5, 6, 7}. x = a + of_nat k" by blast
  then show ?thesis by auto
qed

lemma rd64_inject:
  assumes "rd64 m a = rd64 m' a" "x \<in> region a 8"
  shows "m x = m' x"
  using rd32_inject [of m a m'] rd32_inject [of m "a + 4" m'] region_8_cases [OF assms(2)]
    rd64_halves [of m a] rd64_halves [of m' a] assms(1)
  by (elim disjE) (simp_all add: add.assoc)

lemma wr64_other: "x \<notin> region a 8 \<Longrightarrow> wr64 m a v x = m x"
  by (simp add: wr64_def region_iff)

lemma rd64_wr64_other: "region a 8 \<inter> region b 8 = {} \<Longrightarrow> rd64 (wr64 m a v) b = rd64 m b"
  by (rule rd64_cong) (auto intro: wr64_other)

lemma word_window:
  fixes d K P :: u64
  assumes "unat K + unat P < 2 ^ 64"
  shows "d - K < P \<longleftrightarrow> unat K \<le> unat d \<and> unat d < unat K + unat P"
  using assms unat_u64_bound [of d]
  by (auto simp: word_less_nat_alt unat_sub_if_size word_size)

lemma copy_pages_range:
  assumes len: "unat len = n * unat ps" and ps: "ps \<noteq> 0"
    and apart: "region src len \<inter> region dst len = {}"
  shows "copy_pages ps src dst len m x = (if x \<in> region dst len then m (src + (x - dst)) else m x)"
proof -
  let ?P = "unat ps"
  let ?go = "\<lambda>k. fold (\<lambda>i m. copy_range m (src + of_nat i * ps) (dst + of_nat i * ps) ps) [0..<k] m"
  have pos: "0 < ?P" using ps by (simp add: unat_gt_0)
  have "?go k y = (if unat (y - dst) < k * ?P then m (src + (y - dst)) else m y)" if "k \<le> n" for k y
    using that
  proof (induction k arbitrary: y)
    case 0
    then show ?case by simp
  next
    case (Suc k)
    have le: "Suc k * ?P \<le> unat len"
      using Suc.prems by (simp add: len mult_le_mono1 del: mult_Suc)
    have K: "unat (of_nat k * ps) = k * ?P"
      using le unat_u64_bound [of len] by (simp add: unat_word_ariths unat_of_nat mod_mult_left_eq)
    have win: "y - (dst + of_nat k * ps) < ps \<longleftrightarrow> k * ?P \<le> unat (y - dst) \<and> unat (y - dst) < Suc k * ?P"
    proof -
      have "unat (of_nat k * ps) + unat ps < 2 ^ 64"
        using le unat_u64_bound [of len] by (simp add: K)
      from word_window [OF this, of "y - dst"] show ?thesis
        unfolding K by (simp only: diff_diff_eq mult_Suc add.commute)
    qed
    have src: "?go k (src + (y - dst)) = m (src + (y - dst))" if "unat (y - dst) < Suc k * ?P"
    proof -
      have "src + (y - dst) \<in> region src len"
        using that le by (simp add: region_iff word_less_nat_alt)
      with apart have "src + (y - dst) \<notin> region dst len" by blast
      then have "unat len \<le> unat (src + (y - dst) - dst)"
        by (simp only: region_iff word_less_nat_alt not_less)
      with le have "\<not> unat (src + (y - dst) - dst) < k * ?P" by simp
      with Suc show ?thesis by simp
    qed
    have "?go (Suc k) y = (if y - (dst + of_nat k * ps) < ps then ?go k (src + (y - dst)) else ?go k y)"
      by (simp add: copy_range_def algebra_simps)
    with win src Suc show ?case by auto
  qed
  moreover have "(unat len + ?P - 1) div ?P = n"
  proof -
    have "(n * ?P + ?P - 1) div ?P = n"
    proof -
      have "n * ?P + ?P - 1 = n * ?P + (?P - 1)" using pos by simp
      moreover have "(?P - 1) div ?P = 0" using pos by (intro div_less) simp
      ultimately show ?thesis
        using pos by (metis add.right_neutral div_mult_self3 less_numeral_extra(3))
    qed
    with len show ?thesis by simp
  qed
  ultimately show ?thesis
    by (simp add: copy_pages_def region_iff word_less_nat_alt len)
qed

section \<open>The state of a hooked mapping\<close>

abbreviation body :: "HookInfo \<Rightarrow> u64 set" where "body i \<equiv> region (hstart i) (hlen i)"
abbreviation copy_at :: "u64 \<Rightarrow> HookInfo \<Rightarrow> u64 set" where "copy_at b i \<equiv> region b (hlen i)"

text \<open>
  The bytes \<open>orig\<close> of the mapping before any hook are in the backup, the copy in place differs from
  them at most in the hooked slots, and every hooked slot remembers its original word.
\<close>

definition copied :: "bmem \<Rightarrow> HookInfo \<Rightarrow> bmem \<Rightarrow> bool" where
  "copied orig i m \<longleftrightarrow> backup i \<noteq> 0 \<and> body i \<inter> copy_at (backup i) i = {} \<and>
     (\<forall>x\<in>body i. m (backup i + (x - hstart i)) = orig x) \<and>
     (\<forall>x\<in>body i. (\<forall>a\<in>fst ` set (hooks i). x \<notin> region a 8) \<longrightarrow> m x = orig x) \<and>
     (\<forall>(a, v)\<in>set (hooks i). region a 8 \<subseteq> body i \<and> v = rd64 orig a) \<and> om_ok (hooks i)"

definition pristine :: "bmem \<Rightarrow> HookInfo \<Rightarrow> bmem \<Rightarrow> bool" where
  "pristine orig i m \<longleftrightarrow> backup i = 0 \<and> hooks i = [] \<and> (\<forall>x\<in>body i. m x = orig x)"

definition hooked_ok :: "bmem \<Rightarrow> HookInfo \<Rightarrow> bmem \<Rightarrow> bool" where
  "hooked_ok orig i m \<longleftrightarrow> \<not> is_self i \<and> (pristine orig i m \<or> copied orig i m \<and> hooks i \<noteq> [])"

text \<open>
  What the kernel documents of anonymous mappings, for the mapping at hand and a slot \<open>bk\<close> of the
  program's own data (or null): a fresh range overlaps neither, and is not at address 0.
\<close>

definition fresh_ranges :: "HookInfo \<Rightarrow> u64 \<Rightarrow> 'a lsp_scheme \<Rightarrow> bool" where
  "fresh_ranges i bk s \<longleftrightarrow>
     (\<forall>b. Some b \<in> set (vm_anon s) \<longrightarrow>
        b \<noteq> 0 \<and> body i \<inter> copy_at b i = {} \<and> (bk \<noteq> 0 \<longrightarrow> region bk 8 \<inter> copy_at b i = {}))"

definition whole_pages :: "HookInfo \<Rightarrow> 'a lsp_scheme \<Rightarrow> bool" where
  "whole_pages i s \<longleftrightarrow> page_size s \<noteq> 0 \<and> (\<exists>n. unat (hlen i) = n * unat (page_size s))"

definition apart_from :: "u64 \<Rightarrow> HookInfo \<Rightarrow> bool" where
  "apart_from bk i \<longleftrightarrow> bk \<noteq> 0 \<longrightarrow> region bk 8 \<inter> body i = {} \<and>
     (backup i \<noteq> 0 \<longrightarrow> region bk 8 \<inter> copy_at (backup i) i = {})"

lemma vm_answer_frame: "mem (snd (vm_answer s)) = mem s" "vm_anon (snd (vm_answer s)) = vm_anon s"
  "page_size (snd (vm_answer s)) = page_size s" "hook_info (snd (vm_answer s)) = hook_info s"
  by (simp_all add: vm_answer_def split: list.split)

lemma sys_mremap_cases:
  assumes "sys_mremap src len dst s = (ok, s')"
  shows "page_size s' = page_size s \<and> vm_anon s' = vm_anon s \<and> hook_info s' = hook_info s \<and>
    mem s' = (if ok then (\<lambda>x. if x \<in> region dst len then mem s (src + (x - dst))
       else if x \<in> region src len then vacant s x else mem s x) else mem s)"
  using assms vm_answer_frame [of s]
  by (auto simp: sys_mremap_def region_iff split: prod.splits if_splits)

lemma sys_mmap_fixed_cases:
  assumes "sys_mmap_fixed a len s = (ok, s')"
  shows "page_size s' = page_size s \<and> vm_anon s' = vm_anon s \<and> hook_info s' = hook_info s \<and>
    mem s' = (if ok then (\<lambda>x. if x \<in> region a len then 0 else mem s x) else mem s)"
  using assms vm_answer_frame [of s]
  by (auto simp: sys_mmap_fixed_def region_iff split: prod.splits if_splits)

lemma sys_mmap_anon_cases:
  assumes "sys_mmap_anon len s = (Some b, s')"
  shows "page_size s' = page_size s \<and> hook_info s' = hook_info s \<and> Some b \<in> set (vm_anon s) \<and>
    set (vm_anon s') \<subseteq> set (vm_anon s) \<and>
    mem s' = (\<lambda>x. if x \<in> region b len then 0 else mem s x)"
  using assms by (auto simp: sys_mmap_anon_def region_iff split: list.splits option.splits)

lemma make_backup_copies:
  assumes inv: "hooked_ok orig i (mem s)" and fresh: "fresh_ranges i bk s"
    and pages: "whole_pages i s"
    and run: "make_backup i s = (True, i', s')"
  shows "copied orig i' (mem s') \<and> i' = i\<lparr>backup := backup i'\<rparr> \<and>
    (backup i \<noteq> 0 \<longrightarrow> backup i' = backup i \<and> mem s' = mem s) \<and>
    (backup i = 0 \<longrightarrow> Some (backup i') \<in> set (vm_anon s)) \<and>
    (\<forall>x\<in>body i. mem s' x = mem s x) \<and>
    (\<forall>x. x \<notin> body i \<and> x \<notin> copy_at (backup i') i \<longrightarrow> mem s' x = mem s x) \<and>
    set (vm_anon s') \<subseteq> set (vm_anon s) \<and> page_size s' = page_size s \<and> hook_info s' = hook_info s"
proof (cases "backup i = 0")
  case False
  with inv run show ?thesis
    by (auto simp: make_backup_def hooked_ok_def pristine_def)
next
  case True
  then have self: "\<not> is_self i" and hooks: "hooks i = []" and bytes: "\<forall>x\<in>body i. mem s x = orig x"
    using inv by (auto simp: hooked_ok_def pristine_def copied_def)
  obtain b s1 where anon: "sys_mmap_anon (hlen i) s = (Some b, s1)"
    using run True self by (auto simp: make_backup_def split: prod.splits option.splits)
  note m1 = sys_mmap_anon_cases [OF anon]
  have b: "b \<noteq> 0" "body i \<inter> copy_at b i = {}"
    using m1 fresh by (auto simp: fresh_ranges_def)
  obtain ok1 s2 where r1: "sys_mremap (hstart i) (hlen i) b s1 = (ok1, s2)" by fastforce
  obtain ok2 s3 where r2: "(if ok1 then (True, s2) else sys_mremap (hstart i) (hlen i) b s2) = (ok2, s3)"
    by fastforce
  obtain ok3 s4 where r3: "sys_mmap_fixed (hstart i) (hlen i) s3 = (ok3, s4)" by fastforce
  have oks: "ok2" "ok3" and i'_eq: "i' = i\<lparr>backup := b\<rparr>"
    and s'_eq: "s' = s4\<lparr>mem := copy_pages (page_size s4) b (hstart i) (hlen i) (mem s4)\<rparr>"
    using run True self anon r1 r2 r3 by (auto simp: make_backup_def split: if_splits)
  note m2 = sys_mremap_cases [OF r1]
  have s3: "vm_anon s3 = vm_anon s1" "page_size s3 = page_size s1" "hook_info s3 = hook_info s1"
    "x \<in> copy_at b i \<Longrightarrow> mem s3 x = mem s1 (hstart i + (x - b))"
    "x \<notin> copy_at b i \<Longrightarrow> x \<notin> body i \<Longrightarrow> mem s3 x = mem s1 x" for x
    using r2 oks(1) m2 sys_mremap_cases [of "hstart i" "hlen i" b s2 ok2 s3]
    by (auto split: if_splits)
  note m4 = sys_mmap_fixed_cases [OF r3]
  have moved: "mem s4 (b + (x - hstart i)) = mem s x" if "x \<in> body i" for x
  proof -
    have "b + (x - hstart i) \<in> copy_at b i" using that by (simp add: region_iff)
    moreover from this have "b + (x - hstart i) \<notin> body i" using b by blast
    ultimately have "mem s4 (b + (x - hstart i)) = mem s1 x"
      using m4 oks(2) s3(4) by simp
    also have "\<dots> = mem s x" using m1 that b by auto
    finally show ?thesis .
  qed
  obtain n where n: "unat (hlen i) = n * unat (page_size s)" and ps: "page_size s \<noteq> 0"
    using pages by (auto simp: whole_pages_def)
  have ps4: "page_size s4 = page_size s" using m1 s3(2) m4 by simp
  have apart: "copy_at b i \<inter> body i = {}" using b by blast
  have m': "mem s' x = (if x \<in> body i then mem s4 (b + (x - hstart i)) else mem s4 x)" for x
    unfolding s'_eq ps4 using copy_pages_range [OF n ps apart] by simp
  have kept: "mem s' x = mem s x" if "x \<in> body i" for x
    using m' moved that by simp
  have copy: "mem s' (b + (x - hstart i)) = orig x" if "x \<in> body i" for x
  proof -
    have "b + (x - hstart i) \<in> copy_at b i" using that by (simp add: region_iff)
    then have "b + (x - hstart i) \<notin> body i" using b by blast
    with m' moved bytes that show ?thesis by simp
  qed
  have rest: "mem s' x = mem s x" if "x \<notin> body i" "x \<notin> copy_at b i" for x
    using m' m4 oks(2) s3(5) m1 that by simp
  have eqs: "hstart i' = hstart i" "hlen i' = hlen i" "hooks i' = []" "backup i' = b"
    by (simp_all add: i'_eq hstart_def hlen_def hend_def hooks)
  have "copied orig i' (mem s')"
    using b kept copy bytes by (simp add: copied_def eqs om_ok_def)
  moreover have "hook_info s' = hook_info s" "page_size s' = page_size s"
    "set (vm_anon s') \<subseteq> set (vm_anon s)" "Some b \<in> set (vm_anon s)"
    using m1 s3(1-3) m4 by (simp_all add: s'_eq)
  ultimately show ?thesis
    using True kept rest by (simp add: i'_eq)
qed

lemma set_om_emplace: "k \<notin> fst ` set t \<Longrightarrow> set (om_emplace k v t) = insert (k, v) (set t)"
  by (induction k v t rule: om_emplace.induct) auto

lemma track_hook_cases:
  assumes "om_ok hs"
  obtains (added) "addr \<notin> fst ` set hs" "set (track_hook addr cb old hs) = insert (addr, old) (set hs)"
      "om_ok (track_hook addr cb old hs)"
  | (removed) "(addr, cb) \<in> set hs" "set (track_hook addr cb old hs) = {(a, v) \<in> set hs. a \<noteq> addr}"
      "om_ok (track_hook addr cb old hs)"
  | (kept) "addr \<in> fst ` set hs" "track_hook addr cb old hs = hs"
proof (cases "map_of hs addr")
  case None
  then have "addr \<notin> fst ` set hs" by (simp add: map_of_eq_None_iff)
  with None assms added show ?thesis
    by (simp add: track_hook_def set_om_emplace om.ok_emplace)
next
  case (Some v)
  then have "(addr, v) \<in> set hs" by (rule map_of_SomeD)
  with Some assms removed kept show ?thesis
    by (cases "v = cb") (force simp: track_hook_def om_erase_def om.ok_erase [unfolded om_erase_def])+
qed

lemma patch_slot_mem:
  assumes "region addr 8 \<subseteq> body i" "apart_from bk i"
  shows "rd64 (mem (patch_slot addr cb bk s)) addr = cb \<and>
    (bk \<noteq> 0 \<and> rd64 (mem s) addr \<noteq> cb \<longrightarrow> rd64 (mem (patch_slot addr cb bk s)) bk = rd64 (mem s) addr) \<and>
    (\<forall>x. x \<notin> region addr 8 \<and> (bk \<noteq> 0 \<longrightarrow> x \<notin> region bk 8) \<longrightarrow> mem (patch_slot addr cb bk s) x = mem s x)"
proof -
  have "region bk 8 \<inter> region addr 8 = {}" if "bk \<noteq> 0"
    using assms that by (auto simp: apart_from_def)
  then show ?thesis
    by (auto simp: patch_slot_def Let_def rd64_wr64_other wr64_other)
qed

lemma patch_track_copied:
  assumes inv: "copied orig i (mem s)" and slot: "region addr 8 \<subseteq> body i" and bk: "apart_from bk i"
    and other: "\<forall>a\<in>fst ` set (hooks i). a \<noteq> addr \<longrightarrow> region a 8 \<inter> region addr 8 = {}"
  shows "copied orig (i\<lparr>hooks := track_hook addr cb (rd64 (mem s) addr) (hooks i)\<rparr>)
    (mem (patch_slot addr cb bk s))"
proof -
  let ?hs = "track_hook addr cb (rd64 (mem s) addr) (hooks i)"
  let ?m = "mem (patch_slot addr cb bk s)"
  have ok: "om_ok (hooks i)" and b: "backup i \<noteq> 0" and dis: "body i \<inter> copy_at (backup i) i = {}"
    using inv by (simp_all add: copied_def)
  note m = patch_slot_mem [OF slot bk, of cb s]
  have out: "?m x = mem s x" if "x \<in> body i \<union> copy_at (backup i) i" "x \<notin> region addr 8" for x
    using that m bk b by (auto simp: apart_from_def)
  have copy: "?m (backup i + (x - hstart i)) = orig x" if "x \<in> body i" for x
  proof -
    have "backup i + (x - hstart i) \<in> copy_at (backup i) i" using that by (simp add: region_iff)
    with out dis slot have "?m (backup i + (x - hstart i)) = mem s (backup i + (x - hstart i))" by blast
    with inv that show ?thesis by (simp add: copied_def)
  qed
  have untouched: "?m x = orig x" if "x \<in> body i" "x \<notin> region addr 8" "\<forall>a\<in>fst ` set (hooks i). x \<notin> region a 8" for x
    using out that inv by (simp add: copied_def)
  have rest: "(\<forall>x\<in>body i. (\<forall>a\<in>fst ` set ?hs. x \<notin> region a 8) \<longrightarrow> ?m x = orig x) \<and>
      (\<forall>(a, v)\<in>set ?hs. region a 8 \<subseteq> body i \<and> v = rd64 orig a) \<and> om_ok ?hs"
  proof (rule track_hook_cases [OF ok, of addr cb "rd64 (mem s) addr"])
    assume new: "addr \<notin> fst ` set (hooks i)" "set ?hs = insert (addr, rd64 (mem s) addr) (set (hooks i))"
      "om_ok ?hs"
    have "rd64 (mem s) addr = rd64 orig addr"
    proof (rule rd64_cong)
      fix x assume x: "x \<in> region addr 8"
      have "\<forall>a\<in>fst ` set (hooks i). x \<notin> region a 8"
      proof
        fix a assume a: "a \<in> fst ` set (hooks i)"
        with new(1) have "a \<noteq> addr" by metis
        with other a have "region a 8 \<inter> region addr 8 = {}" by blast
        with x show "x \<notin> region a 8" by blast
      qed
      with x slot inv show "mem s x = orig x" by (auto simp: copied_def)
    qed
    with new untouched slot inv show ?thesis by (auto simp: copied_def)
  next
    assume del: "(addr, cb) \<in> set (hooks i)" "set ?hs = {(a, v) \<in> set (hooks i). a \<noteq> addr}" "om_ok ?hs"
    then have "cb = rd64 orig addr" using inv by (auto simp: copied_def)
    then have slot_back: "?m x = orig x" if "x \<in> region addr 8" for x
      using m that rd64_inject [of ?m addr orig] by simp
    have keys: "fst ` set ?hs = fst ` set (hooks i) - {addr}" unfolding del(2) by force
    have "?m x = orig x" if x: "x \<in> body i" "\<forall>a\<in>fst ` set ?hs. x \<notin> region a 8" for x
    proof (cases "x \<in> region addr 8")
      case True
      then show ?thesis by (rule slot_back)
    next
      case False
      with x(2) have "\<forall>a\<in>fst ` set (hooks i). x \<notin> region a 8" unfolding keys by blast
      with False x(1) show ?thesis by (intro untouched)
    qed
    moreover have "\<forall>(a, v)\<in>set ?hs. region a 8 \<subseteq> body i \<and> v = rd64 orig a"
      using inv unfolding del(2) copied_def by blast
    ultimately show ?thesis using del(3) by blast
  next
    assume "addr \<in> fst ` set (hooks i)" "?hs = hooks i"
    with untouched inv show ?thesis by (simp add: copied_def)
  qed
  have eqs: "hstart (i\<lparr>hooks := ?hs\<rparr>) = hstart i" "hlen (i\<lparr>hooks := ?hs\<rparr>) = hlen i"
    by (simp_all add: hstart_def hlen_def hend_def)
  show ?thesis
    using copy rest b dis unfolding copied_def eqs by simp
qed

lemma drop_backup_restores:
  assumes inv: "copied orig i (mem s)" and self: "\<not> is_self i" and run: "drop_backup i s = (True, i', s')"
  shows "hooked_ok orig i' (mem s') \<and> (\<forall>x\<in>body i. mem s' x = mem s x) \<and>
    (\<forall>x. x \<notin> body i \<and> x \<notin> copy_at (backup i) i \<longrightarrow> mem s' x = mem s x) \<and>
    i' = i\<lparr>backup := backup i'\<rparr> \<and> backup i' \<in> {0, backup i} \<and> vm_anon s' = vm_anon s \<and>
    page_size s' = page_size s \<and> hook_info s' = hook_info s"
proof (cases "hooks i = []")
  case False
  with assms show ?thesis by (simp add: drop_backup_def hooked_ok_def)
next
  case True
  obtain s1 where r: "sys_mremap (backup i) (hlen i) (hstart i) s = (True, s1)"
    and i': "i' = i\<lparr>backup := 0\<rparr>" and s': "s' = s1"
    using run True self by (auto simp: drop_backup_def split: prod.splits if_splits)
  note m = sys_mremap_cases [OF r]
  have bytes: "mem s1 x = orig x" if "x \<in> body i" for x
    using m inv that by (simp add: copied_def)
  moreover have "mem s x = orig x" if "x \<in> body i" for x
    using inv that True by (simp add: copied_def)
  moreover have eqs: "hstart i' = hstart i" "hlen i' = hlen i"
    by (simp_all add: i' hstart_def hlen_def hend_def)
  ultimately show ?thesis
    using m self True unfolding hooked_ok_def pristine_def eqs by (simp add: i' s')
qed

lemma same_body:
  "hstart (i\<lparr>backup := b\<rparr>) = hstart i" "hlen (i\<lparr>backup := b\<rparr>) = hlen i"
  "hend (i\<lparr>backup := b\<rparr>) = hend i"
  "hstart (i\<lparr>hooks := h\<rparr>) = hstart i" "hlen (i\<lparr>hooks := h\<rparr>) = hlen i" "hend (i\<lparr>hooks := h\<rparr>) = hend i"
  by (simp_all add: hstart_def hlen_def hend_def)

lemma hook_in_ok:
  assumes inv: "hooked_ok orig i (mem s)" and fresh: "fresh_ranges i bk s" and pages: "whole_pages i s"
    and slot: "region addr 8 \<subseteq> body i" and bk: "apart_from bk i"
    and other: "\<forall>a\<in>fst ` set (hooks i). a \<noteq> addr \<longrightarrow> region a 8 \<inter> region addr 8 = {}"
    and run: "hook_in addr cb bk i s = (True, i', s')"
  shows "hooked_ok orig i' (mem s') \<and> rd64 (mem s') addr = cb \<and>
    (\<forall>x\<in>body i. x \<notin> region addr 8 \<longrightarrow> mem s' x = mem s x) \<and>
    (bk \<noteq> 0 \<and> rd64 (mem s) addr \<noteq> cb \<longrightarrow> rd64 (mem s') bk = rd64 (mem s) addr) \<and>
    i' = i\<lparr>hooks := track_hook addr cb (rd64 (mem s) addr) (hooks i), backup := backup i'\<rparr> \<and>
    backup i' \<in> {0, backup i} \<union> {b. Some b \<in> set (vm_anon s)} \<and>
    set (vm_anon s') \<subseteq> set (vm_anon s) \<and> page_size s' = page_size s \<and> hook_info s' = hook_info s"
proof -
  have self: "\<not> is_self i" using inv by (simp add: hooked_ok_def)
  obtain i1 s1 where b: "make_backup i s = (True, i1, s1)"
    using run by (auto simp: hook_in_def split: prod.splits if_splits)
  note c = make_backup_copies [OF inv fresh pages b]
  have i1: "i1 = i\<lparr>backup := backup i1\<rparr>" using c by blast
  have len1: "hlen i1 = hlen i" "hstart i1 = hstart i" by (subst i1, simp add: same_body)+
  then have body1: "body i1 = body i" by simp
  have hooks1: "hooks i1 = hooks i" and self1: "\<not> is_self i1" by (subst i1, simp add: self)+
  have old: "rd64 (mem s1) addr = rd64 (mem s) addr"
    using c slot by (intro rd64_cong) blast
  let ?old = "rd64 (mem s) addr"
  let ?i2 = "i1\<lparr>hooks := track_hook addr cb ?old (hooks i)\<rparr>"
  let ?s2 = "patch_slot addr cb bk s1"
  have bk1: "apart_from bk i1"
    using bk fresh c unfolding apart_from_def len1 fresh_ranges_def by auto
  have drop: "drop_backup ?i2 ?s2 = (True, i', s')"
    using run b self1 by (simp add: hook_in_def make_writable_def old hooks1 Let_def)
  have slot1: "region addr 8 \<subseteq> body i1" using slot by (simp add: body1)
  have cop: "copied orig ?i2 (mem ?s2)"
    using patch_track_copied [of orig i1 s1 addr bk cb] c slot1 bk1 other by (simp add: old hooks1)
  note p = patch_slot_mem [OF slot1 bk1, of cb s1]
  have self2: "\<not> is_self ?i2" using self1 by simp
  note d = drop_backup_restores [OF cop self2 drop]
  have body2: "body ?i2 = body i" by (simp add: same_body body1)
  have kept: "mem s' x = mem ?s2 x" if "x \<in> body i" for x using d that unfolding body2 by blast
  have patch_frame: "vm_anon ?s2 = vm_anon s1" "page_size ?s2 = page_size s1" "hook_info ?s2 = hook_info s1"
    by (simp_all add: patch_slot_def Let_def)
  have 1: "rd64 (mem s') addr = cb"
    using p kept slot rd64_cong [of addr "mem s'" "mem ?s2"] by auto
  have 2: "mem s' x = mem s x" if "x \<in> body i" "x \<notin> region addr 8" for x
  proof -
    have "bk \<noteq> 0 \<longrightarrow> x \<notin> region bk 8" using bk that(1) by (auto simp: apart_from_def)
    with p that kept c show ?thesis by simp
  qed
  have 3: "rd64 (mem s') bk = ?old" if "bk \<noteq> 0" "?old \<noteq> cb"
  proof -
    have "mem s' x = mem ?s2 x" if "x \<in> region bk 8" for x
    proof -
      have "x \<notin> body ?i2" "x \<notin> copy_at (backup ?i2) ?i2"
        using bk1 \<open>bk \<noteq> 0\<close> that c by (auto simp: apart_from_def same_body copied_def)
      with d show ?thesis by blast
    qed
    then have "rd64 (mem s') bk = rd64 (mem ?s2) bk" by (rule rd64_cong)
    with p that show ?thesis by (simp add: old)
  qed
  have eq: "i' = i\<lparr>hooks := track_hook addr cb ?old (hooks i), backup := backup i'\<rparr>"
  proof -
    have "?i2\<lparr>backup := b\<rparr> = i\<lparr>hooks := track_hook addr cb ?old (hooks i), backup := b\<rparr>" for b
      by (subst i1) simp
    with d show ?thesis by metis
  qed
  have 4: "backup i' \<in> {0, backup i} \<union> {b. Some b \<in> set (vm_anon s)}"
    using d c by auto
  show ?thesis
    using d c 1 2 3 4 eq by (simp add: patch_frame)
qed

section \<open>Hooks through the table\<close>

text \<open>
  The mapping \<open>i\<close> is in the table under its start address \<open>k\<close> and no other mapping of the table
  starts inside it.
\<close>

definition listed :: "u64 \<Rightarrow> HookInfo \<Rightarrow> HookInfos \<Rightarrow> bool" where
  "listed k i t \<longleftrightarrow> om_ok t \<and> map_of t k = Some i \<and> k = hstart i \<and> hstart i < hend i \<and>
     (\<forall>k'\<in>fst ` set t. k' \<le> k \<or> hend i \<le> k')"

lemma last_of_sorted:
  "sorted_wrt (<) (map fst xs) \<Longrightarrow> (k, v) \<in> set xs \<Longrightarrow> \<forall>k'\<in>fst ` set xs. k' \<le> k \<Longrightarrow> last xs = (k, v)"
  for k :: "'a :: linorder"
proof (induction xs)
  case (Cons x xs)
  show ?case
  proof (cases "xs = []")
    case True
    with Cons show ?thesis by simp
  next
    case False
    have "(k, v) \<noteq> x"
      using Cons.prems False by (cases xs) force+
    with Cons False show ?thesis by simp
  qed
qed simp

lemma listed_floor:
  assumes "listed k i t" "k \<le> a" "a < hend i"
  shows "om_floor a t = Some (k, i)"
proof -
  let ?xs = "filter (\<lambda>(k', _). k' \<le> a) t"
  have "(k, i) \<in> set t"
    using assms(1) by (auto simp: listed_def dest: map_of_SomeD)
  then have mem: "(k, i) \<in> set ?xs" using assms(2) by simp
  have "sorted_wrt (<) (map fst t)" using assms(1) by (simp add: listed_def om_ok_def)
  then have "sorted_wrt (<) (map fst ?xs)"
    by (induction t) (auto simp: case_prod_beta)
  moreover have "\<forall>k'\<in>fst ` set ?xs. k' \<le> k"
    using assms by (fastforce simp: listed_def)
  ultimately have "last ?xs = (k, i)" using mem by (intro last_of_sorted)
  moreover have "?xs \<noteq> []" using mem by (metis empty_iff list.set(1))
  ultimately show ?thesis by (simp add: om_floor_def)
qed

lemma body_range:
  assumes "hstart i < hend i" "a \<in> body i"
  shows "hstart i \<le> a \<and> a < hend i"
proof -
  have "unat (hlen i) = unat (hend i) - unat (hstart i)"
    using assms(1) by (simp add: hlen_def unat_sub_if_size word_less_nat_alt)
  then show ?thesis
    using assms unat_u64_bound [of "hend i"]
    by (auto simp: region_iff word_less_nat_alt word_le_nat_alt unat_sub_if_size word_size split: if_splits)
qed

text \<open>
  Everything the hooks of one mapping rest on: the mapping is listed and in a good state, the slots
  \<open>S\<close> lie in it and do not overlap, and the pointers \<open>B\<close> that receive originals, where not null, lie
  outside of it and of its copies.
\<close>

definition ready :: "bmem \<Rightarrow> u64 \<Rightarrow> HookInfo \<Rightarrow> u64 set \<Rightarrow> u64 set \<Rightarrow> 'a lsp_scheme \<Rightarrow> bool" where
  "ready orig k i S B s \<longleftrightarrow>
     listed k i (hook_info s) \<and> hooked_ok orig i (mem s) \<and> whole_pages i s \<and>
     fst ` set (hooks i) \<subseteq> S \<and> (\<forall>a\<in>S. region a 8 \<subseteq> body i) \<and>
     (\<forall>a\<in>S. \<forall>b\<in>S. a \<noteq> b \<longrightarrow> region a 8 \<inter> region b 8 = {}) \<and>
     (\<forall>bk\<in>B. fresh_ranges i bk s \<and> apart_from bk i)"

lemma region_8_self: "a \<in> region a 8"
  by (simp add: region_iff)

lemma keys_track_hook: "om_ok hs \<Longrightarrow> fst ` set (track_hook a cb old hs) \<subseteq> insert a (fst ` set hs)"
  by (rule track_hook_cases [of hs a cb old]) auto

lemma listed_assign:
  assumes "listed k i t" "hstart i' = hstart i" "hend i' = hend i"
  shows "listed k i' (om_assign k i' t)"
proof -
  have "fst ` set (om_assign k i' t) = fst ` set t"
    by (metis map_fst_om_assign list.set_map)
  moreover have "map_of (om_assign k i' t) k = Some i'"
  proof -
    have "map_of t k = Some i" using assms(1) unfolding listed_def by blast
    then show ?thesis by (simp add: map_of_om_assign)
  qed
  ultimately show ?thesis
    using assms unfolding listed_def by (metis om.ok_assign)
qed

lemma fresh_ranges_mono:
  assumes "fresh_ranges i bk s" "set (vm_anon s') \<subseteq> set (vm_anon s)" "hstart i' = hstart i" "hlen i' = hlen i"
  shows "fresh_ranges i' bk s'"
  using assms(1,2) unfolding fresh_ranges_def assms(3,4) by (simp add: subset_iff)

lemma ready_entry: "ready orig k i S B s \<Longrightarrow> map_of (hook_info s) k = Some i \<and> hooked_ok orig i (mem s)"
  unfolding ready_def listed_def by blast

lemma DoHook_step:
  assumes r: "ready orig k i S B s" and a: "a \<in> S" and bk: "bk \<in> B" and run: "DoHook a cb bk s = (True, s')"
  shows "\<exists>i'. ready orig k i' S B s' \<and> rd64 (mem s') a = cb \<and>
    (\<forall>x\<in>body i. x \<notin> region a 8 \<longrightarrow> mem s' x = mem s x) \<and>
    (bk \<noteq> 0 \<and> rd64 (mem s) a \<noteq> cb \<longrightarrow> rd64 (mem s') bk = rd64 (mem s) a) \<and>
    hooks i' = track_hook a cb (rd64 (mem s) a) (hooks i) \<and> body i' = body i"
proof -
  have l: "listed k i (hook_info s)" and slot: "region a 8 \<subseteq> body i"
    using r a by (auto simp: ready_def)
  have range: "hstart i \<le> a" "a < hend i"
    using body_range [of i a] l slot region_8_self [of a] by (auto simp: listed_def)
  then have floor: "om_floor a (hook_info s) = Some (k, i)"
    using listed_floor [OF l] l by (simp add: listed_def)
  obtain i' s1 where h: "hook_in a cb bk i s = (True, i', s1)"
    and s': "s' = s1\<lparr>hook_info := om_assign k i' (hook_info s1)\<rparr>"
    using run floor range by (auto simp: DoHook_def not_le split: prod.splits if_splits)
  have other: "\<forall>x\<in>fst ` set (hooks i). x \<noteq> a \<longrightarrow> region x 8 \<inter> region a 8 = {}"
    using r a unfolding ready_def by blast
  have ok: "hooked_ok orig i (mem s)" "fresh_ranges i bk s" "whole_pages i s" "apart_from bk i"
    using r bk by (simp_all add: ready_def)
  note e = hook_in_ok [OF ok(1-3) slot ok(4) other h]
  have same: "hstart i' = hstart i" "hlen i' = hlen i" "hend i' = hend i"
    and hk: "hooks i' = track_hook a cb (rd64 (mem s) a) (hooks i)"
    using e by (metis same_body HookInfo.select_convs(1) HookInfo.update_convs(1,2) HookInfo.surjective)+
  have m': "mem s' = mem s1" "vm_anon s' = vm_anon s1" "page_size s' = page_size s1"
    "hook_info s' = om_assign k i' (hook_info s)"
    using e by (simp_all add: s')
  have "om_ok (hooks i)" using ok(1) by (auto simp: hooked_ok_def pristine_def copied_def om_ok_def)
  note keys_track_hook [OF this, of a cb "rd64 (mem s) a"]
  also have "insert a (fst ` set (hooks i)) \<subseteq> S" using r a by (simp add: ready_def)
  finally have "fst ` set (hooks i') \<subseteq> S" unfolding hk .
  moreover have "fresh_ranges i' b s' \<and> apart_from b i'" if "b \<in> B" for b
  proof -
    have f: "fresh_ranges i b s" and p: "apart_from b i" using r that by (simp_all add: ready_def)
    have "set (vm_anon s1) \<subseteq> set (vm_anon s)" using e by blast
    then have "fresh_ranges i' b s'"
      using f by (intro fresh_ranges_mono [OF f]) (simp_all add: same m')
    moreover have "backup i' = 0 \<or> backup i' = backup i \<or> Some (backup i') \<in> set (vm_anon s)"
      using e by auto
    then have "apart_from b i'"
      using f p unfolding fresh_ranges_def apart_from_def same by metis
    ultimately show ?thesis by blast
  qed
  moreover have "listed k i' (hook_info s')"
    unfolding m' by (rule listed_assign [OF l]) (simp_all add: same)
  ultimately have "ready orig k i' S B s'"
    using r e unfolding ready_def whole_pages_def same m' by simp
  with e hk same show ?thesis unfolding m' by auto
qed

lemma om_erase_emplace_fresh: "k \<notin> fst ` set t \<Longrightarrow> om_erase k (om_emplace k v t) = t"
proof -
  assume "k \<notin> fst ` set t"
  moreover have "om_erase k (om_emplace k v t) = om_erase k t"
    by (induction k v t rule: om_emplace.induct) (auto simp: om_erase_def)
  moreover have "om_erase k t = t" if "k \<notin> fst ` set t"
    using that unfolding om_erase_def by (induction t) auto
  ultimately show ?thesis by simp
qed

text \<open>
  C8: Hooking and unhooking. A slot of a mapping that is hooked with a new callback holds that
  callback and its original goes to the backup pointer; hooking it again with the original restores
  every byte of the mapping, takes the slot out of the table, and, if no other slot is hooked, gives
  the mapping its own pages back. This holds whenever the kernel lets both calls succeed.
\<close>

theorem hook_then_unhook:
  assumes "ready orig k i S B s" "a \<in> S" "a \<notin> fst ` set (hooks i)" "bk \<in> B" "0 \<in> B"
    and "cb \<noteq> rd64 (mem s) a"
    and "DoHook a cb bk s = (True, s1)" "DoHook a (rd64 (mem s) a) 0 s1 = (True, s2)"
  shows "rd64 (mem s1) a = cb \<and> (bk \<noteq> 0 \<longrightarrow> rd64 (mem s1) bk = rd64 (mem s) a) \<and>
    (\<forall>x\<in>body i. mem s2 x = mem s x) \<and>
    (\<exists>i2. map_of (hook_info s2) k = Some i2 \<and> hooks i2 = hooks i \<and> (hooks i = [] \<longrightarrow> backup i2 = 0))"
proof -
  let ?v = "rd64 (mem s) a"
  obtain i1 where 1: "ready orig k i1 S B s1" "rd64 (mem s1) a = cb"
    "\<forall>x\<in>body i. x \<notin> region a 8 \<longrightarrow> mem s1 x = mem s x"
    "bk \<noteq> 0 \<and> rd64 (mem s) a \<noteq> cb \<longrightarrow> rd64 (mem s1) bk = ?v"
    "hooks i1 = track_hook a cb ?v (hooks i)" "body i1 = body i"
    using DoHook_step [OF assms(1,2,4,7)] by metis
  obtain i2 where 2: "ready orig k i2 S B s2" "rd64 (mem s2) a = ?v"
    "\<forall>x\<in>body i. x \<notin> region a 8 \<longrightarrow> mem s2 x = mem s1 x"
    "hooks i2 = track_hook a ?v (rd64 (mem s1) a) (hooks i1)"
    using DoHook_step [OF 1(1) assms(2,5,8)] unfolding 1(6) by metis
  have "map_of (hooks i) a = None"
    using assms(3) by (simp add: map_of_eq_None_iff)
  then have h1: "hooks i1 = om_emplace a ?v (hooks i)"
    by (simp add: 1(5) track_hook_def)
  have ok: "om_ok (hooks i)"
    using assms(1) by (auto simp: ready_def hooked_ok_def pristine_def copied_def om_ok_def)
  have "map_of (hooks i1) a = Some ?v"
    using \<open>map_of (hooks i) a = None\<close> by (simp add: h1 map_of_om_emplace [OF ok])
  then have h2: "hooks i2 = hooks i"
    using om_erase_emplace_fresh [OF assms(3)] by (simp add: 2(4) track_hook_def h1)
  have "mem s2 x = mem s x" if "x \<in> body i" for x
  proof (cases "x \<in> region a 8")
    case True
    then show ?thesis by (rule rd64_inject [OF 2(2)])
  next
    case False
    with 1(3) 2(3) that show ?thesis by simp
  qed
  moreover have "map_of (hook_info s2) k = Some i2" "hooks i2 = [] \<longrightarrow> backup i2 = 0"
    using ready_entry [OF 2(1)] by (auto simp: hooked_ok_def pristine_def)
  ultimately show ?thesis using 1(2,4) h2 assms(6) by metis
qed

text \<open>A sequence of hooks (slot, callback, backup pointer), with the conjunction of the results.\<close>

fun hook_seq :: "(u64 \<times> u64 \<times> u64) list \<Rightarrow> 'a lsp_scheme \<Rightarrow> bool \<times> 'a lsp_scheme" where
  "hook_seq [] s = (True, s)"
| "hook_seq ((a, cb, bk) # r) s =
     (let (ok1, s1) = DoHook a cb bk s; (ok2, s2) = hook_seq r s1 in (ok1 \<and> ok2, s2))"

lemma hook_seq_ready:
  "ready orig k i S B s \<Longrightarrow> \<forall>(a, cb, bk)\<in>set rs. a \<in> S \<and> bk \<in> B \<Longrightarrow> hook_seq rs s = (True, s') \<Longrightarrow>
     \<exists>i'. ready orig k i' S B s' \<and> body i' = body i"
proof (induction rs s arbitrary: i rule: hook_seq.induct)
  case (2 a cb bk r s)
  obtain s1 where 1: "DoHook a cb bk s = (True, s1)" "hook_seq r s1 = (True, s')"
    using "2.prems"(3) by (auto split: prod.splits)
  obtain i1 where i1: "ready orig k i1 S B s1" "body i1 = body i"
    using DoHook_step [OF "2.prems"(1) _ _ 1(1)] "2.prems"(2) by auto
  show ?case
    using "2.IH" [OF 1(1) [symmetric] refl i1(1) _ 1(2)] "2.prems"(2) i1(2) by auto
qed auto

text \<open>
  C9: Hooks never lose the original. After any successful sequence of hooks on the slots of one
  mapping, with any callbacks in any order, the table holds for every hooked slot the word the
  mapping had at first, a mapping without hooked slots has all its original bytes and no backup, and
  the bytes outside the hooked slots are the original ones.
\<close>

theorem hook_seq_keeps_original:
  assumes "ready orig k i S B s" "\<forall>(a, cb, bk)\<in>set rs. a \<in> S \<and> bk \<in> B" "hook_seq rs s = (True, s')"
  shows "\<exists>i'. map_of (hook_info s') k = Some i' \<and> body i' = body i \<and>
    (\<forall>(a, v)\<in>set (hooks i'). v = rd64 orig a) \<and>
    (hooks i' = [] \<longrightarrow> backup i' = 0) \<and>
    (\<forall>x\<in>body i. (\<forall>a\<in>fst ` set (hooks i'). x \<notin> region a 8) \<longrightarrow> mem s' x = orig x)"
proof -
  obtain i' where i': "ready orig k i' S B s'" and same: "body i' = body i"
    using hook_seq_ready [OF assms] by blast
  then have "map_of (hook_info s') k = Some i'" "hooked_ok orig i' (mem s')"
    using ready_entry by blast+
  moreover from this(2) have "(\<forall>(a, v)\<in>set (hooks i'). v = rd64 orig a) \<and>
      (hooks i' = [] \<longrightarrow> backup i' = 0) \<and>
      (\<forall>x\<in>body i'. (\<forall>a\<in>fst ` set (hooks i'). x \<notin> region a 8) \<longrightarrow> mem s' x = orig x)"
    by (auto simp: hooked_ok_def pristine_def copied_def)
  ultimately show ?thesis using same by metis
qed

end
