(* ===== verification/LspltTable.thy ===== *)
theory LspltTable
  imports LspltProofs
begin

unbundle bit_operations_syntax

text \<open>
  The hook table over whole commits: a re-scan keeps exactly the entries it should, a commit consumes
  exactly the registrations that start at a listed mapping, the table stays well formed along every
  run, and invalidating the backups keeps the hooks in force.
\<close>

section \<open>Merging\<close>

definition backups :: "HookInfos \<Rightarrow> u64 set" where
  "backups t = {backup i | k i. (k, i) \<in> set t \<and> backup i \<noteq> 0}"

lemma om_ok_merge_one: "om_ok t \<Longrightarrow> om_ok (merge_one (k, i) t)"
  by (auto simp: merge_one_def Let_def om.ok_erase om.ok_assign om.ok_emplace split: prod.split)

lemma map_of_merge_one:
  assumes "om_ok t" "backup i \<noteq> 0 \<longrightarrow> backup i \<noteq> k"
  shows "map_of (merge_one (k, i) t) x =
    (if backup i \<noteq> 0 \<and> x = backup i then None
     else if x = k then (if map_of t k \<noteq> None \<or> backup i \<noteq> 0 then Some i else None)
     else map_of t x)"
  using assms by (auto simp: merge_one_def Let_def map_of_om_erase map_of_om_assign om.lookup_emplace om.ok_erase)

lemma map_of_fold_merge:
  assumes "om_ok t" "distinct (map fst es)" "backups es \<inter> fst ` set es = {}"
  shows "map_of (fold merge_one es t) x =
    (if x \<in> backups es then None
     else (case map_of es x of
             Some i \<Rightarrow> if map_of t x \<noteq> None \<or> backup i \<noteq> 0 then Some i else None
           | None \<Rightarrow> map_of t x))"
  using assms
proof (induction es arbitrary: t)
  case Nil
  then show ?case by (simp add: backups_def)
next
  case (Cons kv es)
  obtain k i where kv: "kv = (k, i)" by (cases kv)
  have b: "backups ((k, i) # es) = backups es \<union> (if backup i \<noteq> 0 then {backup i} else {})"
    by (auto simp: backups_def)
  have one: "map_of (merge_one (k, i) t) y =
    (if backup i \<noteq> 0 \<and> y = backup i then None
     else if y = k then (if map_of t k \<noteq> None \<or> backup i \<noteq> 0 then Some i else None)
     else map_of t y)" for y
    using Cons.prems by (intro map_of_merge_one) (auto simp: b kv)
  have k: "k \<notin> backups es" "map_of es k = None"
    using Cons.prems by (auto simp: b kv map_of_eq_None_iff)
  have bi: "map_of es (backup i) = None" if "backup i \<noteq> 0"
    using Cons.prems that by (auto simp: b kv map_of_eq_None_iff split: if_splits)
  have IH: "map_of (fold merge_one es (merge_one (k, i) t)) x =
    (if x \<in> backups es then None
     else (case map_of es x of
             Some i' \<Rightarrow> if map_of (merge_one (k, i) t) x \<noteq> None \<or> backup i' \<noteq> 0 then Some i' else None
           | None \<Rightarrow> map_of (merge_one (k, i) t) x))"
    using Cons.prems by (intro Cons.IH om_ok_merge_one) (auto simp: b kv)
  show ?case
    using k bi by (auto simp: IH one b kv split: option.split)
qed

text \<open>
  What a re-scan keeps. After \<open>Merge\<close> the table has, for every address: nothing if it is the
  backup of an old entry (the program's own anonymous copy is never hooked), the old entry with its
  hooks, backup and parsed image if the mapping is listed again or still has a backup, and otherwise
  the newly scanned mapping.
\<close>

theorem Merge_lookup:
  assumes "om_ok new" "om_ok old" "backups old \<inter> fst ` set old = {}"
  shows "map_of (Merge new old) x =
    (if x \<in> backups old then None
     else (case map_of old x of
             Some i \<Rightarrow> if map_of new x \<noteq> None \<or> backup i \<noteq> 0 then Some i else None
           | None \<Rightarrow> map_of new x))"
proof -
  have d: "distinct (map fst old)" using assms(2) by (rule om.keys_distinct)
  then have "map_of (rev old) y = Some v \<longleftrightarrow> map_of old y = Some v" for y v
    by (simp add: rev_map [symmetric])
  then have "map_of (rev old) = map_of old" by (metis not_Some_eq ext)
  moreover have "backups (rev old) = backups old" by (simp add: backups_def)
  ultimately show ?thesis
    using map_of_fold_merge [of new "rev old" x] assms d by (simp add: Merge_def rev_map [symmetric])
qed

section \<open>The mappings of the table\<close>

text \<open>The part of an entry that comes from the memory map and selects registrations.\<close>

definition place :: "HookInfo \<Rightarrow> nat \<times> nat \<times> nat \<times> u64 \<times> nat" where
  "place i = (mstart i, mend i, moffset i, dev i, inode i)"

definition places :: "HookInfos \<Rightarrow> (u64 \<times> nat \<times> nat \<times> nat \<times> u64 \<times> nat) list" where
  "places t = map (\<lambda>(k, i). (k, place i)) t"

lemma place_updates [simp]:
  "place (i\<lparr>backup := b\<rparr>) = place i" "place (i\<lparr>hooks := h\<rparr>) = place i"
  "place (i\<lparr>perms := p\<rparr>) = place i" "place (i\<lparr>elf_ptr := e\<rparr>) = place i"
  by (simp_all add: place_def)

lemma vm_frame:
  "hook_info (snd (vm_answer s)) = hook_info s" "register_info (snd (vm_answer s)) = register_info s"
  "hook_info (snd (sys_mremap a l b s)) = hook_info s"
  "register_info (snd (sys_mremap a l b s)) = register_info s"
  "hook_info (snd (sys_mmap_fixed a l s)) = hook_info s"
  "register_info (snd (sys_mmap_fixed a l s)) = register_info s"
  "hook_info (snd (sys_mmap_anon l s)) = hook_info s"
  "register_info (snd (sys_mmap_anon l s)) = register_info s"
  "hook_info (snd (sys_mprotect s)) = hook_info s"
  "register_info (snd (sys_mprotect s)) = register_info s"
  by (simp_all add: vm_answer_def sys_mremap_def sys_mmap_fixed_def sys_mmap_anon_def sys_mprotect_def
      split: list.splits option.splits prod.splits)

lemma make_backup_frame:
  "place (fst (snd (make_backup i s))) = place i" "hooks (fst (snd (make_backup i s))) = hooks i"
  "hook_info (snd (snd (make_backup i s))) = hook_info s"
  "register_info (snd (snd (make_backup i s))) = register_info s"
  by (simp_all add: make_backup_def Let_def case_prod_beta vm_frame split: option.split)

lemma make_writable_frame:
  "place (fst (make_writable i s)) = place i" "hooks (fst (make_writable i s)) = hooks i"
  "hook_info (snd (make_writable i s)) = hook_info s"
  "register_info (snd (make_writable i s)) = register_info s"
  by (simp_all add: make_writable_def vm_frame)

lemma drop_backup_frame:
  "place (fst (snd (drop_backup i s))) = place i" "hooks (fst (snd (drop_backup i s))) = hooks i"
  "hook_info (snd (snd (drop_backup i s))) = hook_info s"
  "register_info (snd (snd (drop_backup i s))) = register_info s"
  by (simp_all add: drop_backup_def Let_def case_prod_beta vm_frame)

lemma patch_slot_frame:
  "hook_info (patch_slot a cb bk s) = hook_info s" "register_info (patch_slot a cb bk s) = register_info s"
  by (simp_all add: patch_slot_def Let_def)

lemmas hook_frames = make_backup_frame make_writable_frame drop_backup_frame patch_slot_frame

lemma om_ok_track_hook: "om_ok hs \<Longrightarrow> om_ok (track_hook a cb old hs)"
  by (rule track_hook_cases [of hs a cb old]) auto

lemma hook_in_frame:
  "place (fst (snd (hook_in a cb bk i s))) = place i"
  "hook_info (snd (snd (hook_in a cb bk i s))) = hook_info s"
  "register_info (snd (snd (hook_in a cb bk i s))) = register_info s"
  "om_ok (hooks i) \<Longrightarrow> om_ok (hooks (fst (snd (hook_in a cb bk i s))))"
  by (simp_all add: hook_in_def Let_def case_prod_beta hook_frames om_ok_track_hook)

text \<open>A well-formed table: sorted, every entry under its start address, its slots sorted.\<close>

definition table_ok :: "HookInfos \<Rightarrow> bool" where
  "table_ok t \<longleftrightarrow> om_ok t \<and> (\<forall>(k, i)\<in>set t. k = hstart i \<and> om_ok (hooks i))"

lemma places_assign:
  assumes "om_ok t" "map_of t k = Some i" "place i' = place i"
  shows "places (om_assign k i' t) = places t"
proof -
  have "place v = place i'" if "(k, v) \<in> set t" for v
    using assms that om.lookup_entries [of t k v] by simp
  then show ?thesis by (auto simp: places_def om_assign_def)
qed

lemma hstart_place: "place i' = place i \<Longrightarrow> hstart i' = hstart i"
  by (simp add: place_def hstart_def)

lemma table_ok_assign:
  assumes "table_ok t" "map_of t k = Some i" "place i' = place i" "om_ok (hooks i')"
  shows "table_ok (om_assign k i' t)"
proof -
  have "k = hstart i" using assms(1,2) by (auto simp: table_ok_def dest: map_of_SomeD)
  then have k: "k = hstart i'" using hstart_place [OF assms(3)] by simp
  have "x = hstart j \<and> om_ok (hooks j)" if "(x, j) \<in> set (om_assign k i' t)" for x j
  proof (cases "x = k")
    case True
    then have "j = i'" using that by (auto simp: om_assign_def)
    with True k assms(4) show ?thesis by simp
  next
    case False
    then have "(x, j) \<in> set t" using that by (auto simp: om_assign_def)
    with assms(1) show ?thesis by (auto simp: table_ok_def)
  qed
  moreover have "om_ok (om_assign k i' t)" using assms(1) by (simp add: table_ok_def om.ok_assign)
  ultimately show ?thesis by (auto simp: table_ok_def)
qed

lemma table_ok_lookup: "table_ok t \<Longrightarrow> map_of t k = Some i \<Longrightarrow> k = hstart i \<and> om_ok (hooks i)"
  by (auto simp: table_ok_def dest: map_of_SomeD)

lemma DoHook_frame:
  assumes "table_ok (hook_info s)"
  shows "table_ok (hook_info (snd (DoHook a cb bk s))) \<and>
    places (hook_info (snd (DoHook a cb bk s))) = places (hook_info s) \<and>
    register_info (snd (DoHook a cb bk s)) = register_info s"
proof (cases "om_floor a (hook_info s)")
  case None
  with assms show ?thesis by (simp add: DoHook_def)
next
  case (Some ki)
  obtain k i where ki: "ki = (k, i)" by (cases ki)
  have ok: "om_ok (hook_info s)" using assms by (simp add: table_ok_def)
  have at: "map_of (hook_info s) k = Some i"
    using om_floor_Some [of a "hook_info s" k i] Some ki om.lookup_entries [OF ok] by simp
  with assms have "om_ok (hooks i)" using table_ok_lookup by blast
  with at ok assms Some ki show ?thesis
    by (simp add: DoHook_def case_prod_beta hook_in_frame table_ok_assign places_assign)
qed

lemma hook_addrs_frame:
  "table_ok (hook_info s) \<Longrightarrow> hook_addrs cb bk as res s = (r, s') \<Longrightarrow>
    table_ok (hook_info s') \<and> places (hook_info s') = places (hook_info s) \<and>
    register_info s' = register_info s"
proof (induction cb bk as res s rule: hook_addrs.induct)
  case (2 cb bk a as res s)
  obtain r1 s1 where 1: "DoHook a cb bk s = (r1, s1)" by fastforce
  have f: "table_ok (hook_info s1)" "places (hook_info s1) = places (hook_info s)"
    "register_info s1 = register_info s"
    using DoHook_frame [OF "2.prems"(1), of a cb bk] by (simp_all add: 1)
  have "hook_addrs cb bk as (r1 \<and> res) s1 = (r, s')" using "2.prems"(2) by (simp add: 1)
  from "2.IH" [OF 1 [symmetric] refl f(1) this] f show ?case by simp
qed simp

section \<open>Commits\<close>

text \<open>The registration starts at the mapping, and the mapping is one it asks for.\<close>

definition starts_at :: "RegisterInfo \<Rightarrow> HookInfo \<Rightarrow> bool" where
  "starts_at r i \<longleftrightarrow> hoffset i = range_lo r \<and> Match i r"

lemma starts_at_place: "place i' = place i \<Longrightarrow> starts_at r i' = starts_at r i"
  by (simp add: starts_at_def Match_def place_def hoffset_def)

lemma map_of_places: "map_of (places t) k = map_option place (map_of t k)"
  unfolding places_def by (induction t) auto

lemma places_starts:
  assumes "places t' = places t"
  shows "(\<forall>j. map_of t' x = Some j \<longrightarrow> \<not> starts_at r j) = (\<forall>j. map_of t x = Some j \<longrightarrow> \<not> starts_at r j)"
proof -
  have eq: "map_option place (map_of t' x) = map_option place (map_of t x)"
    using map_of_places [of t' x] map_of_places [of t x] assms by simp
  show ?thesis
  proof (cases "map_of t x")
    case None
    with eq show ?thesis by simp
  next
    case (Some i)
    with eq obtain i' where i': "map_of t' x = Some i'" "place i' = place i" by auto
    with Some show ?thesis using starts_at_place [OF i'(2), of r] by simp
  qed
qed

lemma places_lookup:
  assumes "places t' = places t" "map_of t k = Some i"
  shows "\<exists>i'. map_of t' k = Some i' \<and> place i' = place i"
proof -
  have "map_option place (map_of t' k) = map_option place (map_of t k)"
    using map_of_places [of t' k] map_of_places [of t k] assms(1) by simp
  with assms(2) show ?thesis by (cases "map_of t' k") auto
qed

lemma hook_regs_frame:
  "hook_regs k rs res s = Some (rs', res', s') \<Longrightarrow> table_ok (hook_info s) \<Longrightarrow>
     map_of (hook_info s) k = Some i \<Longrightarrow>
     rs' = filter (\<lambda>r. \<not> starts_at r i) rs \<and> table_ok (hook_info s') \<and>
     places (hook_info s') = places (hook_info s)"
proof (induction rs arbitrary: i res s rs' res' s')
  case Nil
  then show ?case by simp
next
  case (Cons r rs)
  show ?case
  proof (cases "starts_at r i")
    case False
    then have "hoffset i \<noteq> range_lo r \<or> \<not> Match i r" by (auto simp: starts_at_def)
    with Cons.prems(1,3) obtain rs1 where "hook_regs k rs res s = Some (rs1, res', s')" "rs' = r # rs1"
      by (auto simp: Let_def split: Option.bind_splits if_splits)
    with Cons.IH [OF this(1) Cons.prems(2,3)] False show ?thesis by simp
  next
    case True
    then have stay: "hoffset i = range_lo r \<and> Match i r" by (simp add: starts_at_def)
    define e where "e = (case elf_ptr i of Some e \<Rightarrow> e | None \<Rightarrow> Elf (abi s) (mem s) (hstart i))"
    define j where "j = i\<lparr>elf_ptr := Some e\<rparr>"
    define s1 where "s1 = s\<lparr>hook_info := om_assign k j (hook_info s)\<rparr>"
    have ok: "om_ok (hook_info s)" "om_ok (hooks i)"
      using Cons.prems(2) table_ok_lookup [OF Cons.prems(2,3)] by (simp_all add: table_ok_def)
    have j: "place j = place i" "hooks j = hooks i" by (simp_all add: j_def)
    have s1: "table_ok (hook_info s1)" "places (hook_info s1) = places (hook_info s)"
      using table_ok_assign [OF Cons.prems(2,3) j(1)] places_assign [OF ok(1) Cons.prems(3) j(1)] ok j(2)
      by (simp_all add: s1_def)
    obtain res2 s2 where s2: "table_ok (hook_info s2)" "places (hook_info s2) = places (hook_info s1)"
      "hook_regs k rs res2 s2 = Some (rs', res', s')"
    proof (cases "valid e")
      case False
      with Cons.prems(1,3) stay have "hook_regs k rs res s1 = Some (rs', res', s')"
        by (simp add: Let_def e_def [symmetric] j_def [symmetric] s1_def [symmetric])
      with s1(1) that show ?thesis by blast
    next
      case True
      with Cons.prems(1,3) stay obtain as where
        "hook_regs k rs (fst (hook_addrs (reg_callback r) (reg_backup r) as res s1))
           (snd (hook_addrs (reg_callback r) (reg_backup r) as res s1)) = Some (rs', res', s')"
        by (auto simp: Let_def e_def [symmetric] j_def [symmetric] s1_def [symmetric] case_prod_beta
            split: Option.bind_splits)
      with hook_addrs_frame [OF s1(1)] that show ?thesis by (metis prod.collapse)
    qed
    obtain i2 where i2: "map_of (hook_info s2) k = Some i2" "place i2 = place i"
      using places_lookup [of "hook_info s2" "hook_info s" k i] s1(2) s2(2) Cons.prems(3) by auto
    from Cons.IH [OF s2(3,1) i2(1)] True s1(2) s2(2) starts_at_place [OF i2(2)]
    show ?thesis by simp
  qed
qed

lemma hook_maps_frame:
  "hook_maps ks rs res s = Some (rs', res', s') \<Longrightarrow> table_ok (hook_info s) \<Longrightarrow>
     set ks \<subseteq> fst ` set (hook_info s) \<Longrightarrow>
     rs' = filter (\<lambda>r. \<forall>k\<in>set ks. \<forall>i. map_of (hook_info s) k = Some i \<longrightarrow> \<not> starts_at r i) rs \<and>
     table_ok (hook_info s') \<and> places (hook_info s') = places (hook_info s)"
proof (induction ks arbitrary: rs res s)
  case Nil
  then show ?case by simp
next
  case (Cons k ks)
  obtain rs1 res1 s1 where 1: "hook_regs k rs res s = Some (rs1, res1, s1)"
    "hook_maps ks rs1 res1 s1 = Some (rs', res', s')"
    using Cons.prems(1) by (auto split: Option.bind_splits)
  obtain i where i: "map_of (hook_info s) k = Some i"
    using Cons.prems(3) by (cases "map_of (hook_info s) k") (auto simp: map_of_eq_None_iff)
  note f = hook_regs_frame [OF 1(1) Cons.prems(2) i]
  have keys: "fst ` set (hook_info s1) = fst ` set (hook_info s)"
  proof -
    have "map fst t = map fst (places t)" for t by (auto simp: places_def)
    with f show ?thesis by (metis list.set_map)
  qed
  have sub: "set ks \<subseteq> fst ` set (hook_info s1)" using Cons.prems(3) unfolding keys by simp
  have f1: "table_ok (hook_info s1)" using f by blast
  have pl: "places (hook_info s1) = places (hook_info s)" using f by blast
  note same = places_starts [OF pl]
  note IH = Cons.IH [OF 1(2) f1 sub, unfolded same]
  have "rs1 = filter (\<lambda>r. \<not> starts_at r i) rs" using f by blast
  with IH have "rs' = filter (\<lambda>r. \<forall>x\<in>set (k # ks). \<forall>j. map_of (hook_info s) x = Some j \<longrightarrow> \<not> starts_at r j) rs"
    by (simp add: i)
  with IH pl show ?case by simp
qed

lemma table_ok_insert:
  assumes "table_ok t" "om_ok t'" "set t' \<subseteq> insert (k, i) (set t)" "k = hstart i" "om_ok (hooks i)"
  shows "table_ok t'"
  using assms by (auto simp: table_ok_def)

lemma set_om_emplace_sub: "set (om_emplace k v t) \<subseteq> insert (k, v) (set t)"
  by (induction k v t rule: om_emplace.induct) auto

lemma table_ok_emplace:
  "table_ok t \<Longrightarrow> k = hstart i \<Longrightarrow> om_ok (hooks i) \<Longrightarrow> table_ok (om_emplace k i t)"
  using table_ok_insert [of t "om_emplace k i t" k i] set_om_emplace_sub [of k i t]
  by (simp add: table_ok_def om.ok_emplace)

lemma new_entry_ok: "fst (new_entry ino d m) = hstart (snd (new_entry ino d m))"
  "om_ok (hooks (snd (new_entry ino d m)))"
  by (simp_all add: new_entry_def hstart_def om_ok_def map_info.extend_def)

lemma table_ok_new: "table_ok t \<Longrightarrow> table_ok (fold (\<lambda>(k, v). om_emplace k v) (map (new_entry ino d) ms) t)"
proof (induction ms arbitrary: t)
  case (Cons m ms)
  obtain k v where kv: "new_entry ino d m = (k, v)" by fastforce
  then have "table_ok (om_emplace k v t)"
    using new_entry_ok [of ino d m] Cons.prems by (simp add: table_ok_emplace)
  with Cons.IH kv show ?case by simp
qed simp

lemma table_ok_scan:
  "table_ok (fst (ScanHookInfo s)) \<and> hook_info (snd (ScanHookInfo s)) = hook_info s \<and>
   register_info (snd (ScanHookInfo s)) = register_info s"
proof -
  have "table_ok []" by (simp add: table_ok_def om_ok_def)
  then show ?thesis
    by (simp add: ScanHookInfo_def Let_def case_prod_beta table_ok_new read_maps_def
        split: option.split list.split)
qed

lemma table_ok_filter: "table_ok t \<Longrightarrow> table_ok (Filter rs t)"
proof -
  have "om_ok (filter P t)" if "om_ok t" for P and t :: HookInfos
    using that unfolding om_ok_def by (induction t) auto
  then show "table_ok t \<Longrightarrow> table_ok (Filter rs t)"
    by (auto simp: table_ok_def Filter_def)
qed

lemma table_ok_merge: "table_ok new \<Longrightarrow> table_ok old \<Longrightarrow> table_ok (Merge new old)"
proof -
  assume new: "table_ok new" and old: "table_ok old"
  have one: "table_ok (merge_one (k, i) t)" if "table_ok t" "k = hstart i" "om_ok (hooks i)" for k i t
  proof (rule table_ok_insert [OF that(1) om_ok_merge_one _ that(2,3)])
    show "om_ok t" using that(1) by (simp add: table_ok_def)
    define t1 where "t1 = (if backup i \<noteq> 0 then om_erase (backup i) t else t)"
    have "set t1 \<subseteq> set t" by (auto simp: t1_def om_erase_def)
    then have t1: "insert (k, i) (set t1) \<subseteq> insert (k, i) (set t)" by (rule insert_mono)
    have "set (om_assign k i t1) \<subseteq> insert (k, i) (set t1)"
      by (auto simp: om_assign_def split: if_splits)
    moreover have "merge_one (k, i) t = (if map_of t1 k \<noteq> None then om_assign k i t1
        else if backup i \<noteq> 0 then om_emplace k i t1 else t1)"
      by (simp only: merge_one_def Let_def t1_def prod.case)
    ultimately have "set (merge_one (k, i) t) \<subseteq> insert (k, i) (set t1)"
      using set_om_emplace_sub [of k i t1] by (simp add: subset_insertI)
    with t1 show "set (merge_one (k, i) t) \<subseteq> insert (k, i) (set t)" by (rule order_trans [rotated])
  qed
  have "table_ok (fold merge_one es t)" if "table_ok t" "\<forall>(k, i)\<in>set es. k = hstart i \<and> om_ok (hooks i)" for es t
    using that
  proof (induction es arbitrary: t)
    case (Cons ki es)
    obtain k i where "ki = (k, i)" by (cases ki)
    with Cons one [of t k i] show ?case by simp
  qed simp
  from this [OF new, of "rev old"] old show ?thesis
    unfolding Merge_def table_ok_def by simp
qed

text \<open>
  C15: What a commit consumes. Unless nothing is registered or the scan finds no hookable mapping
  (then nothing changes), a commit that returns leaves registered exactly the registrations for which
  the table has no mapping of their library that starts at the first offset of their range; the
  others are consumed, whether or not their hooks succeeded.
\<close>

theorem CommitHook_consumes:
  assumes "CommitHook s = Some (res, s')" "table_ok (hook_info s)" "register_info s \<noteq> []"
    and "fst (ScanHookInfo s) \<noteq> []"
  shows "register_info s' =
      filter (\<lambda>r. \<forall>(k, i)\<in>set (hook_info s'). \<not> starts_at r i) (register_info s) \<and>
    table_ok (hook_info s')"
proof -
  obtain new s1 where scan: "ScanHookInfo s = (new, s1)" by fastforce
  define t where "t = Merge (Filter (register_info s) new) (hook_info s)"
  have t: "table_ok t"
    using table_ok_scan [of s] assms(2) by (simp add: t_def scan table_ok_merge table_ok_filter)
  let ?s2 = "s1\<lparr>hook_info := t\<rparr>"
  obtain rs s3 where run: "hook_maps (map fst t) (register_info s) True ?s2 = Some (rs, res, s3)"
    and s': "s' = s3\<lparr>register_info := rs\<rparr>"
    using assms table_ok_scan [of s]
    by (auto simp: CommitHook_def scan DoHook_all_def t_def split: Option.bind_splits)
  have ok2: "table_ok (hook_info ?s2)" using t by simp
  note f = hook_maps_frame [OF run ok2]
  have pl: "places (hook_info s3) = places t" and ok3: "table_ok (hook_info s3)" using f by simp_all
  have "(\<forall>k\<in>set (map fst t). \<forall>i. map_of t k = Some i \<longrightarrow> \<not> starts_at r i) =
      (\<forall>(k, i)\<in>set (hook_info s3). \<not> starts_at r i)" for r
  proof -
    have "(\<forall>k\<in>set (map fst t). \<forall>i. map_of t k = Some i \<longrightarrow> \<not> starts_at r i) =
        (\<forall>k i. map_of t k = Some i \<longrightarrow> \<not> starts_at r i)"
      by (metis (no_types, lifting) map_of_SomeD list.set_map imageI fst_conv)
    also have "\<dots> = (\<forall>k i. map_of (hook_info s3) k = Some i \<longrightarrow> \<not> starts_at r i)"
      by (intro all_cong1 places_starts [OF pl, symmetric])
    also have "\<dots> = (\<forall>(k, i)\<in>set (hook_info s3). \<not> starts_at r i)"
      using om.lookup_entries [of "hook_info s3"] ok3 by (auto simp: table_ok_def)
    finally show ?thesis .
  qed
  with f ok3 show ?thesis by (simp add: s')
qed

section \<open>Invalidating the backups\<close>

lemma fold_wr64:
  "fold (\<lambda>(a, v) m. wr64 m a v) (map (\<lambda>(a, _). (a, rd64 M a)) hs) m x =
     (if \<exists>a\<in>fst ` set hs. x \<in> region a 8 then M x else m x)"
proof (induction hs arbitrary: m)
  case (Cons h hs)
  obtain a v where h: "h = (a, v)" by (cases h)
  have "wr64 m a (rd64 M a) x = (if x \<in> region a 8 then M x else m x)"
    using rd64_inject [of "wr64 m a (rd64 M a)" a M x] by (simp add: wr64_other)
  with Cons h show ?case by auto
qed simp

text \<open>
  C25: Invalidating a backup either leaves memory alone or gives the mapping its own pages back, and
  keeps the hooks in force exactly if those pages can be written. A refused move reports failure,
  changes no byte and only forgets the slots. Otherwise the backup is gone, no slot is tracked any more
  and success is reported: with writable pages every hooked slot is rewritten to its current value, so
  each byte of the mapping reads as before; if the mapping cannot be made writable it is back to its
  original bytes and the hooks are lost, although the header file documents a failed result for that.
\<close>

theorem invalidate_keeps_hooks:
  assumes "hooked_ok orig i (mem s)" "backup i \<noteq> 0" "invalidate_one i s = (res, i', s')"
  shows "res = (case vm_fixed s of moved # _ \<Rightarrow> moved | [] \<Rightarrow> False) \<and> hooks i' = [] \<and>
    (if res
     then backup i' = 0 \<and>
       (\<forall>x\<in>body i. mem s' x =
         (if (case vm_fixed s of _ # w # _ \<Rightarrow> w | _ \<Rightarrow> False) then mem s x else orig x))
     else backup i' = backup i \<and> mem s' = mem s)"
proof -
  have c: "copied orig i (mem s)" using assms(1,2) by (auto simp: hooked_ok_def pristine_def)
  obtain good s1 where r: "sys_mremap (backup i) (hlen i) (hstart i) s = (good, s1)" by fastforce
  have good_eq: "good = (case vm_fixed s of moved # _ \<Rightarrow> moved | [] \<Rightarrow> False)"
    using r by (auto simp: sys_mremap_def vm_answer_def split: list.splits prod.splits if_splits)
  show ?thesis
  proof (cases good)
    case False
    then have "invalidate_one i s = (False, i\<lparr>hooks := []\<rparr>, s1)"
      using assms(2) by (simp add: invalidate_one_def r Let_def)
    moreover have "mem s1 = mem s" using sys_mremap_cases [OF r] False by simp
    ultimately show ?thesis using assms(3) good_eq False by auto
  next
    case True
    have i': "res" "backup i' = 0" "hooks i' = []"
      using assms(2,3) True by (auto simp: invalidate_one_def r Let_def split: prod.splits if_splits)
    have bytes: "mem s1 x = orig x" if "x \<in> body i" for x
      using sys_mremap_cases [OF r] True c that by (simp add: copied_def)
    have s1: "vm_fixed s = True # vm_fixed s1"
      using r True by (auto simp: sys_mremap_def vm_answer_def split: list.splits prod.splits if_splits)
    let ?hs = "map (\<lambda>(a, _). (a, rd64 (mem s) a)) (hooks i)"
    have "mem s' = (if fst (sys_mprotect s1) then fold (\<lambda>(a, v) m. wr64 m a v) ?hs (mem s1) else mem s1)"
    proof -
      have "s' = snd (snd (invalidate_one i s))" by (simp add: assms(3))
      also have "\<dots> = (if fst (sys_mprotect s1)
          then snd (sys_mprotect (snd (sys_mprotect s1)
            \<lparr>mem := fold (\<lambda>(a, v) m. wr64 m a v) ?hs (mem (snd (sys_mprotect s1)))\<rparr>))
          else snd (sys_mprotect s1))"
        using assms(2) True by (simp add: invalidate_one_def r Let_def case_prod_beta)
      finally show ?thesis by (simp add: sys_mprotect_def vm_answer_frame)
    qed
    moreover have "fst (sys_mprotect s1) = (case vm_fixed s of _ # w # _ \<Rightarrow> w | _ \<Rightarrow> False)"
      by (simp add: s1 sys_mprotect_def vm_answer_def split: list.split)
    moreover have "mem s x = orig x" if "x \<in> body i" "\<forall>a\<in>fst ` set (hooks i). x \<notin> region a 8" for x
      using c that by (simp add: copied_def)
    ultimately show ?thesis
      using bytes i' good_eq True by (auto simp: fold_wr64)
  qed
qed

section \<open>The table along a run\<close>

datatype hook_event =
    EvRegister u64 nat "u8 list" u64 u64
  | EvRegisterRange u64 nat u64 u64 "u8 list" u64 u64
  | EvCommit
  | EvInvalidate

fun hook_step :: "hook_event \<Rightarrow> 'a lsp_scheme \<Rightarrow> 'a lsp_scheme" where
  "hook_step (EvRegister d n nm cb bk) s = snd (RegisterHook d n nm cb bk s)"
| "hook_step (EvRegisterRange d n off sz nm cb bk) s = snd (RegisterHook_range d n off sz nm cb bk s)"
| "hook_step EvCommit s = (case CommitHook s of Some (_, s') \<Rightarrow> s' | None \<Rightarrow> s)"
| "hook_step EvInvalidate s = snd (InvalidateBackup s)"

lemma invalidate_one_frame:
  "place (fst (snd (invalidate_one i s))) = place i"
  "om_ok (hooks i) \<Longrightarrow> om_ok (hooks (fst (snd (invalidate_one i s))))"
  by (simp_all add: invalidate_one_def Let_def case_prod_beta om_ok_def)

lemma invalidate_all_frame:
  "invalidate_all t res s = (r, t', s') \<Longrightarrow>
     map (\<lambda>(k, i). (k, place i)) t' = map (\<lambda>(k, i). (k, place i)) t \<and>
     ((\<forall>(k, i)\<in>set t. om_ok (hooks i)) \<longrightarrow> (\<forall>(k, i)\<in>set t'. om_ok (hooks i)))"
proof (induction t res s arbitrary: r t' s' rule: invalidate_all.induct)
  case (2 k i t res s)
  obtain r1 i1 s1 where 1: "invalidate_one i s = (r1, i1, s1)" by (metis prod_cases3)
  obtain r2 t2 s2 where 2: "invalidate_all t (res \<and> r1) s1 = (r2, t2, s2)" by (metis prod_cases3)
  have t': "t' = (k, i1) # t2" using "2.prems" by (simp add: 1 2)
  show ?case
    using "2.IH" [OF 1 [symmetric] refl refl 2] invalidate_one_frame [of i s] by (simp add: t' 1)
qed simp

lemma table_ok_places:
  assumes "places t' = places t" "table_ok t" "\<forall>(k, i)\<in>set t'. om_ok (hooks i)"
  shows "table_ok t'"
proof -
  have fst_places: "map fst u = map fst (places u)" for u by (auto simp: places_def)
  have "map fst t' = map fst t"
    unfolding fst_places [of t'] fst_places [of t] assms(1) ..
  with assms(2) have "om_ok t'" by (simp add: om_ok_def table_ok_def)
  moreover have "k = hstart i" if "(k, i) \<in> set t'" for k i
  proof -
    have "(k, place i) \<in> set (places t)"
      using that unfolding assms(1) [symmetric] by (force simp: places_def)
    then obtain j where "(k, j) \<in> set t" "place j = place i" by (auto simp: places_def)
    then have "k = hstart j" using assms(2) by (auto simp: table_ok_def)
    with hstart_place [OF \<open>place j = place i\<close>] show ?thesis by simp
  qed
  ultimately show ?thesis using assms(3) by (auto simp: table_ok_def)
qed

lemma table_ok_InvalidateBackup:
  assumes "table_ok (hook_info s)"
  shows "table_ok (hook_info (snd (InvalidateBackup s)))"
proof -
  obtain r t s1 where run: "invalidate_all (rev (hook_info s)) True s = (r, t, s1)"
    by (metis prod_cases3)
  note f = invalidate_all_frame [OF run]
  have "places (rev t) = places (hook_info s)"
    using f by (simp add: places_def rev_map [symmetric])
  moreover have "\<forall>(k, i)\<in>set (rev t). om_ok (hooks i)"
    using f assms by (fastforce simp: table_ok_def)
  ultimately show ?thesis
    using table_ok_places assms by (simp add: InvalidateBackup_def run)
qed

lemma table_ok_CommitHook:
  assumes "CommitHook s = Some (res, s')" "table_ok (hook_info s)"
  shows "table_ok (hook_info s')"
proof (cases "register_info s = [] \<or> fst (ScanHookInfo s) = []")
  case True
  with assms table_ok_scan [of s] show ?thesis
    by (auto simp: CommitHook_def case_prod_beta split: if_splits)
next
  case False
  define t where "t = Merge (Filter (register_info s) (fst (ScanHookInfo s))) (hook_info s)"
  have t: "table_ok t"
    using table_ok_scan [of s] assms(2) by (simp add: t_def table_ok_merge table_ok_filter)
  obtain rs s3 where run: "hook_maps (map fst t) (register_info s) True
      (snd (ScanHookInfo s)\<lparr>hook_info := t\<rparr>) = Some (rs, res, s3)"
    and s': "s' = s3\<lparr>register_info := rs\<rparr>"
    using assms table_ok_scan [of s] False
    by (auto simp: CommitHook_def case_prod_beta DoHook_all_def t_def split: Option.bind_splits)
  show ?thesis using hook_maps_frame [OF run] t by (simp add: s')
qed

interpretation hooker: machine hook_step "\<lambda>s. table_ok (hook_info s)"
proof
  fix s :: "'a lsp_scheme" and e
  assume ok: "table_ok (hook_info s)"
  then show "table_ok (hook_info (hook_step e s))"
    by (cases e) (auto simp: RegisterHook_def RegisterHook_range_def table_ok_InvalidateBackup
        split: option.split intro: table_ok_CommitHook)
qed

text \<open>
  C17: The hook table stays well formed along every run of registrations, commits and invalidations,
  whatever the kernel answers: entries in strictly increasing order, each under the start address of
  its mapping, and the slots of each entry in strictly increasing order.
\<close>

theorem table_always_ok:
  "table_ok (hook_info s) \<Longrightarrow> table_ok (hook_info (fold hook_step es s))"
  by (rule hooker.inv_fold)

text \<open>
  A ranged registration whose offset and size overflow the address type is accepted and can never
  match: no mapping satisfies it, so no commit hooks it. The size is read as an upper bound, so every
  mapping from the offset up to (not including) offset plus size matches.
\<close>

theorem RegisterHook_range_matches:
  assumes "d \<noteq> 0" "ino \<noteq> 0" "nm \<noteq> []" "cb \<noteq> 0"
  shows "RegisterHook_range d ino off sz nm cb bk s =
      (True, s\<lparr>register_info := register_info s @ [last (register_info (snd (RegisterHook_range d ino off sz nm cb bk s)))]\<rparr>) \<and>
    (\<forall>i. Match i (last (register_info (snd (RegisterHook_range d ino off sz nm cb bk s)))) \<longleftrightarrow>
       dev i = d \<and> inode i = ino \<and> unat off \<le> unat (hoffset i) \<and>
       unat (hoffset i) < unat off + unat sz \<and> unat off + unat sz < 2 ^ 64)"
proof -
  have "off \<le> h \<and> h < off + sz \<longleftrightarrow>
      unat off \<le> unat h \<and> unat h < unat off + unat sz \<and> unat off + unat sz < 2 ^ 64" for h :: u64
    using unat_u64_bound [of off] unat_u64_bound [of sz] unat_u64_bound [of h]
    by (auto simp: word_le_nat_alt word_less_nat_alt unat_word_ariths mod_if split: if_splits)
  with assms show ?thesis
    by (auto simp: RegisterHook_range_def Match_def)
qed

end
