(* ===== verification/LspltDemo.thy ===== *)
theory LspltDemo
  imports LspltTable
begin

unbundle bit_operations_syntax

text \<open>
  Concrete states of the PLT hooker: one private page at 0x2000, a kernel that grants every call and
  puts fresh pages at 0x10000. The properties of the hooker are applied to them.
\<close>

lemma region_apart:
  assumes "unat a + unat n \<le> unat b" "unat b + unat m \<le> 2 ^ 64"
  shows "region a n \<inter> region b m = {}"
proof -
  have "\<not> (x - a < n \<and> x - b < m)" for x
    using word_window [of a n x] assms unat_u64_bound [of x] unat_u64_bound [of a] unat_u64_bound [of b]
    by (auto simp: word_less_nat_alt unat_sub_if_size word_size split: if_splits)
  then show ?thesis by (auto simp: region_iff)
qed

lemma region_inside:
  assumes "unat b \<le> unat a" "unat a + unat n \<le> unat b + unat m" "unat b + unat m < 2 ^ 64"
  shows "region a n \<subseteq> region b m"
proof
  fix x assume "x \<in> region a n"
  then have "x - a < n" by (simp add: region_iff)
  with assms have "x - b < m"
    using unat_u64_bound [of x] unat_u64_bound [of a] unat_u64_bound [of b]
    by (auto simp: word_less_nat_alt unat_sub_if_size word_size split: if_splits)
  then show "x \<in> region b m" by (simp add: region_iff)
qed

definition page_info :: HookInfo where
  "page_info = \<lparr>mstart = 0x2000, mend = 0x3000, perms = 3, is_private = True, moffset = 0, dev = 5,
     inode = 7, mpath = ''/lib'', hooks = [], backup = 0, elf_ptr = None, is_self = False\<rparr>"

definition page_state :: lsp where
  "page_state = \<lparr>fdtab = [], net = [], oslog = [], g_sock = -1, g_available = True,
     mem = (\<lambda>_. 0), vacant = (\<lambda>_. 0), vm_anon = [Some 0x10000],
     vm_fixed = [True, True, True, True], page_size = 0x1000, abi = Aarch64, proc_maps = [],
     return_address = 0, kSelfInode = 1, kSelfDev = 1, register_info = [],
     hook_info = [(0x2000, page_info)]\<rparr>"

lemma page_range: "hstart page_info = 0x2000" "hend page_info = 0x3000" "hlen page_info = 0x1000"
  by (simp_all add: page_info_def hstart_def hend_def hlen_def)

lemma page_ready: "ready (\<lambda>_. 0) 0x2000 page_info {0x2010, 0x2018} {0, 0x8000} page_state"
proof -
  have "listed 0x2000 page_info (hook_info page_state)"
    by (simp add: listed_def page_state_def om_ok_def page_range)
  moreover have "hooked_ok (\<lambda>_. 0) page_info (mem page_state)"
    by (simp add: hooked_ok_def pristine_def page_info_def page_state_def)
  moreover have "whole_pages page_info page_state"
    by (auto simp: whole_pages_def page_range page_state_def intro: exI [of _ 1])
  moreover have "region 0x2010 8 \<subseteq> body page_info" "region 0x2018 8 \<subseteq> body page_info"
    unfolding page_range by (rule region_inside; simp)+
  moreover have "region 0x2010 8 \<inter> region 0x2018 8 = {}" by (rule region_apart) simp_all
  moreover have "body page_info \<inter> copy_at 0x10000 page_info = {}" "body page_info \<inter> region 0x8000 8 = {}"
    "region 0x8000 8 \<inter> copy_at 0x10000 page_info = {}"
    unfolding page_range by (rule region_apart; simp)+
  ultimately show ?thesis
    by (auto simp: ready_def fresh_ranges_def apart_from_def page_state_def page_info_def)
qed

definition page_hooked :: lsp where "page_hooked = snd (DoHook 0x2010 0x9999 0x8000 page_state)"

lemma page_backup: "fst (make_backup page_info page_state)"
  by (simp add: make_backup_def sys_mmap_anon_def sys_mremap_def sys_mmap_fixed_def vm_answer_def
      page_state_def page_range Let_def)

lemma page_old: "rd64 (mem (snd (snd (make_backup page_info page_state)))) 0x2010 = 0"
proof -
  obtain i' s' where run: "make_backup page_info page_state = (True, i', s')"
    using page_backup by (metis prod.collapse)
  have "hooked_ok (\<lambda>_. 0) page_info (mem page_state)" "fresh_ranges page_info 0 page_state"
    "whole_pages page_info page_state" "region 0x2010 8 \<subseteq> body page_info"
    using page_ready by (simp_all add: ready_def)
  with make_backup_copies [OF this(1-3) run]
  have "rd64 (mem s') 0x2010 = rd64 (mem page_state) 0x2010"
    by (intro rd64_cong) blast
  also have "\<dots> = 0" by (simp add: page_state_def rd64_def rd32_def of_le32_def)
  finally show ?thesis by (simp add: run)
qed

lemmas hook_eval = DoHook_def om_floor_def hook_in_def make_backup_def make_writable_def drop_backup_def
  sys_mmap_anon_def sys_mremap_def sys_mmap_fixed_def vm_answer_def track_hook_def om_assign_def
  om_erase_def patch_slot_def page_state_def page_range Let_def

lemma page_hook: "DoHook 0x2010 0x9999 0x8000 page_state = (True, page_hooked)"
proof -
  have "fst (DoHook 0x2010 0x9999 0x8000 page_state)"
    by (simp add: hook_eval)
  then show ?thesis unfolding page_hooked_def by (metis prod.collapse)
qed

lemma page_hooked_table:
  "hook_info page_hooked = [(0x2000, page_info\<lparr>hooks := [(0x2010, 0)], backup := 0x10000\<rparr>)] \<and>
   vm_fixed page_hooked = [True, True]"
proof -
  have "hook_info page_hooked =
      [(0x2000, page_info\<lparr>hooks := [(0x2010, rd64 (mem (snd (snd (make_backup page_info page_state)))) 0x2010)],
        backup := 0x10000\<rparr>)] \<and> vm_fixed page_hooked = [True, True]"
    unfolding page_hooked_def
    by (simp add: hook_eval) (simp add: page_info_def)
  then show ?thesis by (simp add: page_old)
qed

lemma page_unhook: "fst (DoHook 0x2010 0 0 page_hooked)"
  using page_hooked_table
  by (simp add: DoHook_def om_floor_def hook_in_def make_backup_def make_writable_def drop_backup_def
      sys_mremap_def vm_answer_def track_hook_def om_erase_def patch_slot_def Let_def page_range same_body)

theorem hook_then_unhook_witness:
  "\<exists>s2. DoHook 0x2010 0x9999 0x8000 page_state = (True, page_hooked) \<and>
     DoHook 0x2010 0 0 page_hooked = (True, s2) \<and> rd64 (mem page_hooked) 0x2010 = 0x9999 \<and>
     (\<forall>x\<in>body page_info. mem s2 x = mem page_state x)"
proof -
  obtain s2 where s2: "DoHook 0x2010 0 0 page_hooked = (True, s2)"
    using page_unhook by (metis prod.collapse)
  have zero: "rd64 (mem page_state) 0x2010 = 0"
    by (simp add: page_state_def rd64_def rd32_def of_le32_def)
  show ?thesis
    using hook_then_unhook [OF page_ready, where a = "0x2010" and bk = "0x8000" and cb = "0x9999" and
        ?s1.0 = page_hooked and ?s2.0 = s2] page_hook s2
    by (auto simp: zero page_info_def)
qed

theorem hook_seq_keeps_original_witness:
  "\<exists>s'. hook_seq [(0x2010, 0x9999, 0x8000), (0x2010, 0, 0)] page_state = (True, s') \<and>
     (\<exists>i'. map_of (hook_info s') 0x2000 = Some i')"
proof -
  obtain s2 where s2: "DoHook 0x2010 0 0 page_hooked = (True, s2)"
    using page_unhook by (metis prod.collapse)
  then have run: "hook_seq [(0x2010, 0x9999, 0x8000), (0x2010, 0, 0)] page_state = (True, s2)"
    by (simp add: page_hook)
  from hook_seq_keeps_original [OF page_ready _ run] run show ?thesis by auto
qed

text \<open>The hooked page of the example, invalidated as it is and with the pages' protection refused.\<close>

theorem invalidate_keeps_hooks_witness:
  "\<exists>i i' s' i'' s''. map_of (hook_info page_hooked) 0x2000 = Some i \<and>
     invalidate_one i page_hooked = (True, i', s') \<and> (\<forall>x\<in>body i. mem s' x = mem page_hooked x) \<and>
     invalidate_one i (page_hooked\<lparr>vm_fixed := [True, False]\<rparr>) = (True, i'', s'') \<and>
     backup i'' = 0 \<and> (\<forall>x\<in>body i. mem s'' x = 0)"
proof -
  let ?i = "page_info\<lparr>hooks := [(0x2010, 0)], backup := 0x10000\<rparr>"
  let ?bad = "page_hooked\<lparr>vm_fixed := [True, False]\<rparr>"
  obtain i where i: "ready (\<lambda>_. 0) 0x2000 i {0x2010, 0x2018} {0, 0x8000} page_hooked"
    using DoHook_step [OF page_ready _ _ page_hook] by blast
  then have here: "map_of (hook_info page_hooked) 0x2000 = Some i" "hooked_ok (\<lambda>_. 0) i (mem page_hooked)"
    using ready_entry by blast+
  then have eq: "i = ?i" using page_hooked_table by simp
  have b: "backup i \<noteq> 0" by (simp add: eq)
  obtain res i' s' where run: "invalidate_one i page_hooked = (res, i', s')" by (metis prod.collapse)
  obtain res2 i'' s'' where bad: "invalidate_one i ?bad = (res2, i'', s'')" by (metis prod.collapse)
  have "hooked_ok (\<lambda>_. 0) i (mem ?bad)" using here(2) by simp
  from invalidate_keeps_hooks [OF this b bad]
  have 2: "res2" "backup i'' = 0" "\<forall>x\<in>body i. mem s'' x = 0" by simp_all
  from invalidate_keeps_hooks [OF here(2) b run] page_hooked_table
  have 1: "res" "\<forall>x\<in>body i. mem s' x = mem page_hooked x" by (auto split: list.splits if_splits)
  from 1(1) run have "invalidate_one i page_hooked = (True, i', s')" by simp
  moreover from 2(1) bad have "invalidate_one i ?bad = (True, i'', s'')" by simp
  ultimately show ?thesis using here(1) 1(2) 2(2,3) by (intro exI conjI)
qed

theorem Merge_lookup_witness:
  "let old = [(0x2000, page_info\<lparr>backup := 0x10000\<rparr>)];
       new = [(0x2000, page_info), (0x10000, page_info)]
   in map_of (Merge new old) 0x10000 = None \<and> map_of (Merge new old) 0x2000 = map_of old 0x2000"
  using Merge_lookup [of "[(0x2000, page_info), (0x10000, page_info)]"
      "[(0x2000, page_info\<lparr>backup := 0x10000\<rparr>)]"]
  by (simp add: om_ok_def backups_def)

theorem table_always_ok_witness:
  "table_ok (hook_info (fold hook_step [EvRegister 5 7 [97] 1 0, EvCommit, EvInvalidate] page_state))"
proof (rule table_always_ok)
  show "table_ok (hook_info page_state)"
    by (simp add: table_ok_def om_ok_def page_state_def page_range) (simp add: page_info_def)
qed

theorem RegisterHook_range_matches_witness:
  "fst (RegisterHook_range 5 7 0x1000 (- 1) [97] 1 0 page_state) \<and>
   \<not> Match page_info (last (register_info (snd (RegisterHook_range 5 7 0x1000 (- 1) [97] 1 0 page_state))))"
  using RegisterHook_range_matches [of 5 7 "[97]" 1 "0x1000" "- 1" 0 page_state]
  by (simp add: page_info_def hoffset_def) (simp add: RegisterHook_range_def)

text \<open>A scan of one line, and a commit whose mapping holds no ELF image.\<close>

definition scan_text :: string where "scan_text = show_map 253 1 '' '' demo_map @ [CHR 0x0A]"

lemma scan_one: "Scan (Some scan_text) = [demo_map]"
proof -
  have ok: "map_ok 253 1 '' '' demo_map" by (simp add: map_ok_def demo_map_def is_space_def)
  show ?thesis
    using getlines_line [OF show_map_no_newline [OF ok], of "[]"] parse_show_map [OF ok]
    by (simp add: Scan_def scan_text_def map_filter_simps getlines.simps [of "[]"])
qed

definition commit_state :: lsp where
  "commit_state = page_state\<lparr>proc_maps := [Some scan_text], hook_info := [], register_info :=
     [\<lparr>reg_dev = makedev 253 1, reg_inode = 42, range_lo = 0, range_hi = - 1, symbol = [97],
       reg_callback = 1, reg_backup = 0\<rparr>,
      \<lparr>reg_dev = 5, reg_inode = 7, range_lo = 0, range_hi = - 1, symbol = [97],
       reg_callback = 1, reg_backup = 0\<rparr>]\<rparr>"

lemma commit_scan: "ScanHookInfo commit_state =
    ([(0x7f0000, map_info.extend demo_map \<lparr>hooks = [], backup = 0, elf_ptr = None, is_self = False\<rparr>)],
     commit_state\<lparr>proc_maps := []\<rparr>)"
  by (simp add: ScanHookInfo_def read_maps_def commit_state_def page_state_def scan_one hookable_def
      new_entry_def demo_map_def PROT_READ_def hstart_def Let_def)

lemma commit_elf: "Elf Aarch64 (\<lambda>_. 0) b = elf_zero b"
  by (simp add: Elf_def header_ok_def)

lemma commit_run: "\<exists>s'. CommitHook commit_state = Some (True, s') \<and> map reg_inode (register_info s') = [7]"
  by (simp add: CommitHook_def commit_scan DoHook_all_def Filter_def Merge_def)
    (simp add: commit_state_def page_state_def Match_def hoffset_def map_info.extend_def demo_map_def
      om_assign_def commit_elf elf_zero_def Let_def word_greater_zero_iff)

theorem CommitHook_consumes_witness:
  "\<exists>s'. CommitHook commit_state = Some (True, s') \<and> map reg_inode (register_info s') = [7] \<and>
     register_info s' =
       filter (\<lambda>r. \<forall>(k, i)\<in>set (hook_info s'). \<not> starts_at r i) (register_info commit_state)"
proof -
  obtain s' where "CommitHook commit_state = Some (True, s') \<and> map reg_inode (register_info s') = [7]"
    using commit_run by (rule exE)
  then have s': "CommitHook commit_state = Some (True, s')" "map reg_inode (register_info s') = [7]"
    by simp_all
  have "hook_info commit_state = []" by (simp add: commit_state_def)
  then have t: "table_ok (hook_info commit_state)" by (simp add: table_ok_def om_ok_def)
  have r: "register_info commit_state \<noteq> []" by (simp add: commit_state_def)
  have n: "fst (ScanHookInfo commit_state) \<noteq> []" by (simp add: commit_scan)
  have "register_info s' =
       filter (\<lambda>r. \<forall>(k, i)\<in>set (hook_info s'). \<not> starts_at r i) (register_info commit_state)"
    using CommitHook_consumes [OF s'(1) t r n] by (rule conjunct1)
  with s' show ?thesis by (intro exI [of _ s'] conjI)
qed

end
