(* ===== verification/JniHooks.thy ===== *)
theory JniHooks
  imports Prelude
begin

text \<open>
  \<^verbatim>\<open>libzygisk/src/jni_hooks.hpp\<close>: the 21 replacement methods for the three natives of
  \<open>com.android.internal.os.Zygote\<close>, one definition per entry with everything the entry states: the
  signature it is registered with, its parameters, which of them the argument object refers to and
  which optional members it sets, the context calls it makes, the original it calls with which
  arguments and through which function type, and whether it returns the context's pid.
\<close>

text \<open>The C types of the parameters, and the parameters by name.\<close>

datatype jtype =
  Jint | Jboolean | Jlong | Jstring | JintArray | JbooleanArray | JlongArray | JobjectArray | Jvoid

datatype jparam =
    P_uid | P_gid | P_gids | P_runtime_flags | P_rlimits | P_mount_external | P_se_info | P_nice_name
  | P_fds_to_close | P_fds_to_ignore | P_is_child_zygote | P_instruction_set | P_app_data_dir
  | P_is_top_app | P_is_perception_app | P_use_fifo_ui | P_pkg_data_info_list
  | P_whitelisted_data_info_list | P_mount_data_dirs | P_mount_storage_dirs | P_mount_sysprop_overrides
  | P_permitted_capabilities | P_effective_capabilities | P_anon nat

text \<open>The argument object's class with the constructor's arguments in order.\<close>

datatype jargs = App_args "jparam list" | Server_args "jparam list"

datatype jcall = ForkAndSpecialize | SpecializeAppProcess | ForkSystemServer

datatype jtable = Fork_app | Specialize_app | Fork_server

record jni_hook =
  jh_name :: string
  jh_sig :: string
  jh_params :: "(jparam \<times> jtype) list"
  jh_ret :: jtype
  jh_args :: jargs
  jh_set :: "(jparam \<times> jparam) list" \<comment> \<open>member, and the parameter whose address it gets\<close>
  jh_pre :: jcall
  jh_post :: jcall
  jh_orig :: "jtable \<times> nat" \<comment> \<open>the entry whose function pointer is called\<close>
  jh_cast :: "jtype list"
  jh_cast_ret :: jtype
  jh_forward :: "jparam list"
  jh_returns_pid :: bool

section \<open>The entries\<close>

definition ForkAndSpecialize_l :: jni_hook where
  "ForkAndSpecialize_l = \<lparr>
     jh_name = ''nativeForkAndSpecialize'',
     jh_sig = ''(II[II[[IILjava/lang/String;Ljava/lang/String;[ILjava/lang/String;Ljava/lang/String;)I'',
     jh_params =
       [(P_uid, Jint), (P_gid, Jint), (P_gids, JintArray), (P_runtime_flags, Jint),
        (P_rlimits, JobjectArray), (P_mount_external, Jint), (P_se_info, Jstring),
        (P_nice_name, Jstring), (P_fds_to_close, JintArray),
        (P_instruction_set, Jstring), (P_app_data_dir, Jstring)],
     jh_ret = Jint,
     jh_args = App_args
       [P_uid, P_gid, P_gids, P_runtime_flags, P_rlimits, P_mount_external, P_se_info,
        P_nice_name, P_instruction_set, P_app_data_dir],
     jh_set =
       [],
     jh_pre = ForkAndSpecialize, jh_post = ForkAndSpecialize,
     jh_orig = (Fork_app, 0),
     jh_cast =
       [Jint, Jint, JintArray, Jint, JobjectArray, Jint, Jstring, Jstring, JintArray,
        Jstring, Jstring],
     jh_cast_ret = Jint,
     jh_forward =
       [P_uid, P_gid, P_gids, P_runtime_flags, P_rlimits, P_mount_external, P_se_info,
        P_nice_name, P_fds_to_close, P_instruction_set, P_app_data_dir],
     jh_returns_pid = True\<rparr>"

definition ForkAndSpecialize_o :: jni_hook where
  "ForkAndSpecialize_o = \<lparr>
     jh_name = ''nativeForkAndSpecialize'',
     jh_sig = ''(II[II[[IILjava/lang/String;Ljava/lang/String;[I[ILjava/lang/String;Ljava/lang/String;)I'',
     jh_params =
       [(P_uid, Jint), (P_gid, Jint), (P_gids, JintArray), (P_runtime_flags, Jint),
        (P_rlimits, JobjectArray), (P_mount_external, Jint), (P_se_info, Jstring),
        (P_nice_name, Jstring), (P_fds_to_close, JintArray),
        (P_fds_to_ignore, JintArray), (P_instruction_set, Jstring),
        (P_app_data_dir, Jstring)],
     jh_ret = Jint,
     jh_args = App_args
       [P_uid, P_gid, P_gids, P_runtime_flags, P_rlimits, P_mount_external, P_se_info,
        P_nice_name, P_instruction_set, P_app_data_dir],
     jh_set =
       [(P_fds_to_ignore, P_fds_to_ignore)],
     jh_pre = ForkAndSpecialize, jh_post = ForkAndSpecialize,
     jh_orig = (Fork_app, 1),
     jh_cast =
       [Jint, Jint, JintArray, Jint, JobjectArray, Jint, Jstring, Jstring, JintArray,
        JintArray, Jstring, Jstring],
     jh_cast_ret = Jint,
     jh_forward =
       [P_uid, P_gid, P_gids, P_runtime_flags, P_rlimits, P_mount_external, P_se_info,
        P_nice_name, P_fds_to_close, P_fds_to_ignore, P_instruction_set, P_app_data_dir],
     jh_returns_pid = True\<rparr>"

definition ForkAndSpecialize_p :: jni_hook where
  "ForkAndSpecialize_p = \<lparr>
     jh_name = ''nativeForkAndSpecialize'',
     jh_sig = ''(II[II[[IILjava/lang/String;Ljava/lang/String;[I[IZLjava/lang/String;Ljava/lang/String;)I'',
     jh_params =
       [(P_uid, Jint), (P_gid, Jint), (P_gids, JintArray), (P_runtime_flags, Jint),
        (P_rlimits, JobjectArray), (P_mount_external, Jint), (P_se_info, Jstring),
        (P_nice_name, Jstring), (P_fds_to_close, JintArray),
        (P_fds_to_ignore, JintArray), (P_is_child_zygote, Jboolean),
        (P_instruction_set, Jstring), (P_app_data_dir, Jstring)],
     jh_ret = Jint,
     jh_args = App_args
       [P_uid, P_gid, P_gids, P_runtime_flags, P_rlimits, P_mount_external, P_se_info,
        P_nice_name, P_instruction_set, P_app_data_dir],
     jh_set =
       [(P_fds_to_ignore, P_fds_to_ignore), (P_is_child_zygote, P_is_child_zygote)],
     jh_pre = ForkAndSpecialize, jh_post = ForkAndSpecialize,
     jh_orig = (Fork_app, 2),
     jh_cast =
       [Jint, Jint, JintArray, Jint, JobjectArray, Jint, Jstring, Jstring, JintArray,
        JintArray, Jboolean, Jstring, Jstring],
     jh_cast_ret = Jint,
     jh_forward =
       [P_uid, P_gid, P_gids, P_runtime_flags, P_rlimits, P_mount_external, P_se_info,
        P_nice_name, P_fds_to_close, P_fds_to_ignore, P_is_child_zygote,
        P_instruction_set, P_app_data_dir],
     jh_returns_pid = True\<rparr>"

definition ForkAndSpecialize_q_alt :: jni_hook where
  "ForkAndSpecialize_q_alt = \<lparr>
     jh_name = ''nativeForkAndSpecialize'',
     jh_sig = ''(II[II[[IILjava/lang/String;Ljava/lang/String;[I[IZLjava/lang/String;Ljava/lang/String;Z)I'',
     jh_params =
       [(P_uid, Jint), (P_gid, Jint), (P_gids, JintArray), (P_runtime_flags, Jint),
        (P_rlimits, JobjectArray), (P_mount_external, Jint), (P_se_info, Jstring),
        (P_nice_name, Jstring), (P_fds_to_close, JintArray),
        (P_fds_to_ignore, JintArray), (P_is_child_zygote, Jboolean),
        (P_instruction_set, Jstring), (P_app_data_dir, Jstring),
        (P_is_top_app, Jboolean)],
     jh_ret = Jint,
     jh_args = App_args
       [P_uid, P_gid, P_gids, P_runtime_flags, P_rlimits, P_mount_external, P_se_info,
        P_nice_name, P_instruction_set, P_app_data_dir],
     jh_set =
       [(P_fds_to_ignore, P_fds_to_ignore), (P_is_child_zygote, P_is_child_zygote),
        (P_is_top_app, P_is_top_app)],
     jh_pre = ForkAndSpecialize, jh_post = ForkAndSpecialize,
     jh_orig = (Fork_app, 3),
     jh_cast =
       [Jint, Jint, JintArray, Jint, JobjectArray, Jint, Jstring, Jstring, JintArray,
        JintArray, Jboolean, Jstring, Jstring, Jboolean],
     jh_cast_ret = Jint,
     jh_forward =
       [P_uid, P_gid, P_gids, P_runtime_flags, P_rlimits, P_mount_external, P_se_info,
        P_nice_name, P_fds_to_close, P_fds_to_ignore, P_is_child_zygote,
        P_instruction_set, P_app_data_dir, P_is_top_app],
     jh_returns_pid = True\<rparr>"

definition ForkAndSpecialize_r :: jni_hook where
  "ForkAndSpecialize_r = \<lparr>
     jh_name = ''nativeForkAndSpecialize'',
     jh_sig = ''(II[II[[IILjava/lang/String;Ljava/lang/String;[I[IZLjava/lang/String;Ljava/lang/String;Z[Ljava/lang/String;[Ljava/lang/String;ZZ)I'',
     jh_params =
       [(P_uid, Jint), (P_gid, Jint), (P_gids, JintArray), (P_runtime_flags, Jint),
        (P_rlimits, JobjectArray), (P_mount_external, Jint), (P_se_info, Jstring),
        (P_nice_name, Jstring), (P_fds_to_close, JintArray),
        (P_fds_to_ignore, JintArray), (P_is_child_zygote, Jboolean),
        (P_instruction_set, Jstring), (P_app_data_dir, Jstring),
        (P_is_top_app, Jboolean), (P_pkg_data_info_list, JobjectArray),
        (P_whitelisted_data_info_list, JobjectArray), (P_mount_data_dirs, Jboolean),
        (P_mount_storage_dirs, Jboolean)],
     jh_ret = Jint,
     jh_args = App_args
       [P_uid, P_gid, P_gids, P_runtime_flags, P_rlimits, P_mount_external, P_se_info,
        P_nice_name, P_instruction_set, P_app_data_dir],
     jh_set =
       [(P_fds_to_ignore, P_fds_to_ignore), (P_is_child_zygote, P_is_child_zygote),
        (P_is_top_app, P_is_top_app), (P_pkg_data_info_list, P_pkg_data_info_list),
        (P_whitelisted_data_info_list, P_whitelisted_data_info_list),
        (P_mount_data_dirs, P_mount_data_dirs),
        (P_mount_storage_dirs, P_mount_storage_dirs)],
     jh_pre = ForkAndSpecialize, jh_post = ForkAndSpecialize,
     jh_orig = (Fork_app, 4),
     jh_cast =
       [Jint, Jint, JintArray, Jint, JobjectArray, Jint, Jstring, Jstring, JintArray,
        JintArray, Jboolean, Jstring, Jstring, Jboolean, JobjectArray, JobjectArray,
        Jboolean, Jboolean],
     jh_cast_ret = Jint,
     jh_forward =
       [P_uid, P_gid, P_gids, P_runtime_flags, P_rlimits, P_mount_external, P_se_info,
        P_nice_name, P_fds_to_close, P_fds_to_ignore, P_is_child_zygote,
        P_instruction_set, P_app_data_dir, P_is_top_app, P_pkg_data_info_list,
        P_whitelisted_data_info_list, P_mount_data_dirs, P_mount_storage_dirs],
     jh_returns_pid = True\<rparr>"

definition ForkAndSpecialize_u :: jni_hook where
  "ForkAndSpecialize_u = \<lparr>
     jh_name = ''nativeForkAndSpecialize'',
     jh_sig = ''(II[II[[IILjava/lang/String;Ljava/lang/String;[I[IZLjava/lang/String;Ljava/lang/String;Z[Ljava/lang/String;[Ljava/lang/String;ZZZ)I'',
     jh_params =
       [(P_uid, Jint), (P_gid, Jint), (P_gids, JintArray), (P_runtime_flags, Jint),
        (P_rlimits, JobjectArray), (P_mount_external, Jint), (P_se_info, Jstring),
        (P_nice_name, Jstring), (P_fds_to_close, JintArray),
        (P_fds_to_ignore, JintArray), (P_is_child_zygote, Jboolean),
        (P_instruction_set, Jstring), (P_app_data_dir, Jstring),
        (P_is_top_app, Jboolean), (P_pkg_data_info_list, JobjectArray),
        (P_whitelisted_data_info_list, JobjectArray), (P_mount_data_dirs, Jboolean),
        (P_mount_storage_dirs, Jboolean), (P_mount_sysprop_overrides, Jboolean)],
     jh_ret = Jint,
     jh_args = App_args
       [P_uid, P_gid, P_gids, P_runtime_flags, P_rlimits, P_mount_external, P_se_info,
        P_nice_name, P_instruction_set, P_app_data_dir],
     jh_set =
       [(P_fds_to_ignore, P_fds_to_ignore), (P_is_child_zygote, P_is_child_zygote),
        (P_is_top_app, P_is_top_app), (P_pkg_data_info_list, P_pkg_data_info_list),
        (P_whitelisted_data_info_list, P_whitelisted_data_info_list),
        (P_mount_data_dirs, P_mount_data_dirs),
        (P_mount_storage_dirs, P_mount_storage_dirs),
        (P_mount_sysprop_overrides, P_mount_sysprop_overrides)],
     jh_pre = ForkAndSpecialize, jh_post = ForkAndSpecialize,
     jh_orig = (Fork_app, 5),
     jh_cast =
       [Jint, Jint, JintArray, Jint, JobjectArray, Jint, Jstring, Jstring, JintArray,
        JintArray, Jboolean, Jstring, Jstring, Jboolean, JobjectArray, JobjectArray,
        Jboolean, Jboolean, Jboolean],
     jh_cast_ret = Jint,
     jh_forward =
       [P_uid, P_gid, P_gids, P_runtime_flags, P_rlimits, P_mount_external, P_se_info,
        P_nice_name, P_fds_to_close, P_fds_to_ignore, P_is_child_zygote,
        P_instruction_set, P_app_data_dir, P_is_top_app, P_pkg_data_info_list,
        P_whitelisted_data_info_list, P_mount_data_dirs, P_mount_storage_dirs,
        P_mount_sysprop_overrides],
     jh_returns_pid = True\<rparr>"

definition ForkAndSpecialize_b :: jni_hook where
  "ForkAndSpecialize_b = \<lparr>
     jh_name = ''nativeForkAndSpecialize'',
     jh_sig = ''(II[II[[IILjava/lang/String;Ljava/lang/String;[I[IZLjava/lang/String;Ljava/lang/String;ZZ[Ljava/lang/String;[Ljava/lang/String;ZZZ)I'',
     jh_params =
       [(P_uid, Jint), (P_gid, Jint), (P_gids, JintArray), (P_runtime_flags, Jint),
        (P_rlimits, JobjectArray), (P_mount_external, Jint), (P_se_info, Jstring),
        (P_nice_name, Jstring), (P_fds_to_close, JintArray),
        (P_fds_to_ignore, JintArray), (P_is_child_zygote, Jboolean),
        (P_instruction_set, Jstring), (P_app_data_dir, Jstring),
        (P_is_top_app, Jboolean), (P_use_fifo_ui, Jboolean),
        (P_pkg_data_info_list, JobjectArray),
        (P_whitelisted_data_info_list, JobjectArray), (P_mount_data_dirs, Jboolean),
        (P_mount_storage_dirs, Jboolean), (P_mount_sysprop_overrides, Jboolean)],
     jh_ret = Jint,
     jh_args = App_args
       [P_uid, P_gid, P_gids, P_runtime_flags, P_rlimits, P_mount_external, P_se_info,
        P_nice_name, P_instruction_set, P_app_data_dir],
     jh_set =
       [(P_fds_to_ignore, P_fds_to_ignore), (P_is_child_zygote, P_is_child_zygote),
        (P_is_top_app, P_is_top_app), (P_pkg_data_info_list, P_pkg_data_info_list),
        (P_whitelisted_data_info_list, P_whitelisted_data_info_list),
        (P_mount_data_dirs, P_mount_data_dirs),
        (P_mount_storage_dirs, P_mount_storage_dirs),
        (P_mount_sysprop_overrides, P_mount_sysprop_overrides)],
     jh_pre = ForkAndSpecialize, jh_post = ForkAndSpecialize,
     jh_orig = (Fork_app, 6),
     jh_cast =
       [Jint, Jint, JintArray, Jint, JobjectArray, Jint, Jstring, Jstring, JintArray,
        JintArray, Jboolean, Jstring, Jstring, Jboolean, Jboolean, JobjectArray,
        JobjectArray, Jboolean, Jboolean, Jboolean],
     jh_cast_ret = Jint,
     jh_forward =
       [P_uid, P_gid, P_gids, P_runtime_flags, P_rlimits, P_mount_external, P_se_info,
        P_nice_name, P_fds_to_close, P_fds_to_ignore, P_is_child_zygote,
        P_instruction_set, P_app_data_dir, P_is_top_app, P_use_fifo_ui,
        P_pkg_data_info_list, P_whitelisted_data_info_list, P_mount_data_dirs,
        P_mount_storage_dirs, P_mount_sysprop_overrides],
     jh_returns_pid = True\<rparr>"

definition ForkAndSpecialize_samsung_m :: jni_hook where
  "ForkAndSpecialize_samsung_m = \<lparr>
     jh_name = ''nativeForkAndSpecialize'',
     jh_sig = ''(II[II[[IILjava/lang/String;IILjava/lang/String;[ILjava/lang/String;Ljava/lang/String;)I'',
     jh_params =
       [(P_uid, Jint), (P_gid, Jint), (P_gids, JintArray), (P_runtime_flags, Jint),
        (P_rlimits, JobjectArray), (P_mount_external, Jint), (P_se_info, Jstring),
        (P_anon 0, Jint), (P_anon 1, Jint), (P_nice_name, Jstring),
        (P_fds_to_close, JintArray), (P_instruction_set, Jstring),
        (P_app_data_dir, Jstring)],
     jh_ret = Jint,
     jh_args = App_args
       [P_uid, P_gid, P_gids, P_runtime_flags, P_rlimits, P_mount_external, P_se_info,
        P_nice_name, P_instruction_set, P_app_data_dir],
     jh_set =
       [],
     jh_pre = ForkAndSpecialize, jh_post = ForkAndSpecialize,
     jh_orig = (Fork_app, 7),
     jh_cast =
       [Jint, Jint, JintArray, Jint, JobjectArray, Jint, Jstring, Jint, Jint, Jstring,
        JintArray, Jstring, Jstring],
     jh_cast_ret = Jint,
     jh_forward =
       [P_uid, P_gid, P_gids, P_runtime_flags, P_rlimits, P_mount_external, P_se_info,
        P_anon 0, P_anon 1, P_nice_name, P_fds_to_close, P_instruction_set,
        P_app_data_dir],
     jh_returns_pid = True\<rparr>"

definition ForkAndSpecialize_samsung_n :: jni_hook where
  "ForkAndSpecialize_samsung_n = \<lparr>
     jh_name = ''nativeForkAndSpecialize'',
     jh_sig = ''(II[II[[IILjava/lang/String;IILjava/lang/String;[ILjava/lang/String;Ljava/lang/String;I)I'',
     jh_params =
       [(P_uid, Jint), (P_gid, Jint), (P_gids, JintArray), (P_runtime_flags, Jint),
        (P_rlimits, JobjectArray), (P_mount_external, Jint), (P_se_info, Jstring),
        (P_anon 2, Jint), (P_anon 3, Jint), (P_nice_name, Jstring),
        (P_fds_to_close, JintArray), (P_instruction_set, Jstring),
        (P_app_data_dir, Jstring), (P_anon 4, Jint)],
     jh_ret = Jint,
     jh_args = App_args
       [P_uid, P_gid, P_gids, P_runtime_flags, P_rlimits, P_mount_external, P_se_info,
        P_nice_name, P_instruction_set, P_app_data_dir],
     jh_set =
       [],
     jh_pre = ForkAndSpecialize, jh_post = ForkAndSpecialize,
     jh_orig = (Fork_app, 8),
     jh_cast =
       [Jint, Jint, JintArray, Jint, JobjectArray, Jint, Jstring, Jint, Jint, Jstring,
        JintArray, Jstring, Jstring, Jint],
     jh_cast_ret = Jint,
     jh_forward =
       [P_uid, P_gid, P_gids, P_runtime_flags, P_rlimits, P_mount_external, P_se_info,
        P_anon 2, P_anon 3, P_nice_name, P_fds_to_close, P_instruction_set,
        P_app_data_dir, P_anon 4],
     jh_returns_pid = True\<rparr>"

definition ForkAndSpecialize_samsung_o :: jni_hook where
  "ForkAndSpecialize_samsung_o = \<lparr>
     jh_name = ''nativeForkAndSpecialize'',
     jh_sig = ''(II[II[[IILjava/lang/String;IILjava/lang/String;[I[ILjava/lang/String;Ljava/lang/String;)I'',
     jh_params =
       [(P_uid, Jint), (P_gid, Jint), (P_gids, JintArray), (P_runtime_flags, Jint),
        (P_rlimits, JobjectArray), (P_mount_external, Jint), (P_se_info, Jstring),
        (P_anon 5, Jint), (P_anon 6, Jint), (P_nice_name, Jstring),
        (P_fds_to_close, JintArray), (P_fds_to_ignore, JintArray),
        (P_instruction_set, Jstring), (P_app_data_dir, Jstring)],
     jh_ret = Jint,
     jh_args = App_args
       [P_uid, P_gid, P_gids, P_runtime_flags, P_rlimits, P_mount_external, P_se_info,
        P_nice_name, P_instruction_set, P_app_data_dir],
     jh_set =
       [(P_fds_to_ignore, P_fds_to_ignore)],
     jh_pre = ForkAndSpecialize, jh_post = ForkAndSpecialize,
     jh_orig = (Fork_app, 9),
     jh_cast =
       [Jint, Jint, JintArray, Jint, JobjectArray, Jint, Jstring, Jint, Jint, Jstring,
        JintArray, JintArray, Jstring, Jstring],
     jh_cast_ret = Jint,
     jh_forward =
       [P_uid, P_gid, P_gids, P_runtime_flags, P_rlimits, P_mount_external, P_se_info,
        P_anon 5, P_anon 6, P_nice_name, P_fds_to_close, P_fds_to_ignore,
        P_instruction_set, P_app_data_dir],
     jh_returns_pid = True\<rparr>"

definition ForkAndSpecialize_samsung_p :: jni_hook where
  "ForkAndSpecialize_samsung_p = \<lparr>
     jh_name = ''nativeForkAndSpecialize'',
     jh_sig = ''(II[II[[IILjava/lang/String;IILjava/lang/String;[I[IZLjava/lang/String;Ljava/lang/String;)I'',
     jh_params =
       [(P_uid, Jint), (P_gid, Jint), (P_gids, JintArray), (P_runtime_flags, Jint),
        (P_rlimits, JobjectArray), (P_mount_external, Jint), (P_se_info, Jstring),
        (P_anon 7, Jint), (P_anon 8, Jint), (P_nice_name, Jstring),
        (P_fds_to_close, JintArray), (P_fds_to_ignore, JintArray),
        (P_is_child_zygote, Jboolean), (P_instruction_set, Jstring),
        (P_app_data_dir, Jstring)],
     jh_ret = Jint,
     jh_args = App_args
       [P_uid, P_gid, P_gids, P_runtime_flags, P_rlimits, P_mount_external, P_se_info,
        P_nice_name, P_instruction_set, P_app_data_dir],
     jh_set =
       [(P_fds_to_ignore, P_fds_to_ignore), (P_is_child_zygote, P_is_child_zygote)],
     jh_pre = ForkAndSpecialize, jh_post = ForkAndSpecialize,
     jh_orig = (Fork_app, 10),
     jh_cast =
       [Jint, Jint, JintArray, Jint, JobjectArray, Jint, Jstring, Jint, Jint, Jstring,
        JintArray, JintArray, Jboolean, Jstring, Jstring],
     jh_cast_ret = Jint,
     jh_forward =
       [P_uid, P_gid, P_gids, P_runtime_flags, P_rlimits, P_mount_external, P_se_info,
        P_anon 7, P_anon 8, P_nice_name, P_fds_to_close, P_fds_to_ignore,
        P_is_child_zygote, P_instruction_set, P_app_data_dir],
     jh_returns_pid = True\<rparr>"

definition ForkAndSpecialize_nubia_u :: jni_hook where
  "ForkAndSpecialize_nubia_u = \<lparr>
     jh_name = ''nativeForkAndSpecialize'',
     jh_sig = ''(II[II[[IILjava/lang/String;Ljava/lang/String;[I[IZLjava/lang/String;Ljava/lang/String;ZZ[Ljava/lang/String;[Ljava/lang/String;ZZZLjava/lang/String;)I'',
     jh_params =
       [(P_uid, Jint), (P_gid, Jint), (P_gids, JintArray), (P_runtime_flags, Jint),
        (P_rlimits, JobjectArray), (P_mount_external, Jint), (P_se_info, Jstring),
        (P_nice_name, Jstring), (P_fds_to_close, JintArray),
        (P_fds_to_ignore, JintArray), (P_is_child_zygote, Jboolean),
        (P_instruction_set, Jstring), (P_app_data_dir, Jstring),
        (P_is_top_app, Jboolean), (P_use_fifo_ui, Jboolean),
        (P_pkg_data_info_list, JobjectArray),
        (P_whitelisted_data_info_list, JobjectArray), (P_mount_data_dirs, Jboolean),
        (P_mount_storage_dirs, Jboolean), (P_mount_sysprop_overrides, Jboolean),
        (P_anon 9, Jstring)],
     jh_ret = Jint,
     jh_args = App_args
       [P_uid, P_gid, P_gids, P_runtime_flags, P_rlimits, P_mount_external, P_se_info,
        P_nice_name, P_instruction_set, P_app_data_dir],
     jh_set =
       [(P_fds_to_ignore, P_fds_to_ignore), (P_is_child_zygote, P_is_child_zygote),
        (P_is_top_app, P_is_top_app), (P_pkg_data_info_list, P_pkg_data_info_list),
        (P_whitelisted_data_info_list, P_whitelisted_data_info_list),
        (P_mount_data_dirs, P_mount_data_dirs),
        (P_mount_storage_dirs, P_mount_storage_dirs),
        (P_mount_sysprop_overrides, P_mount_sysprop_overrides)],
     jh_pre = ForkAndSpecialize, jh_post = ForkAndSpecialize,
     jh_orig = (Fork_app, 11),
     jh_cast =
       [Jint, Jint, JintArray, Jint, JobjectArray, Jint, Jstring, Jstring, JintArray,
        JintArray, Jboolean, Jstring, Jstring, Jboolean, Jboolean, JobjectArray,
        JobjectArray, Jboolean, Jboolean, Jboolean, Jstring],
     jh_cast_ret = Jint,
     jh_forward =
       [P_uid, P_gid, P_gids, P_runtime_flags, P_rlimits, P_mount_external, P_se_info,
        P_nice_name, P_fds_to_close, P_fds_to_ignore, P_is_child_zygote,
        P_instruction_set, P_app_data_dir, P_is_top_app, P_use_fifo_ui,
        P_pkg_data_info_list, P_whitelisted_data_info_list, P_mount_data_dirs,
        P_mount_storage_dirs, P_mount_sysprop_overrides, P_anon 9],
     jh_returns_pid = True\<rparr>"

definition SpecializeAppProcess_q :: jni_hook where
  "SpecializeAppProcess_q = \<lparr>
     jh_name = ''nativeSpecializeAppProcess'',
     jh_sig = ''(II[II[[IILjava/lang/String;Ljava/lang/String;ZLjava/lang/String;Ljava/lang/String;)V'',
     jh_params =
       [(P_uid, Jint), (P_gid, Jint), (P_gids, JintArray), (P_runtime_flags, Jint),
        (P_rlimits, JobjectArray), (P_mount_external, Jint), (P_se_info, Jstring),
        (P_nice_name, Jstring), (P_is_child_zygote, Jboolean),
        (P_instruction_set, Jstring), (P_app_data_dir, Jstring)],
     jh_ret = Jvoid,
     jh_args = App_args
       [P_uid, P_gid, P_gids, P_runtime_flags, P_rlimits, P_mount_external, P_se_info,
        P_nice_name, P_instruction_set, P_app_data_dir],
     jh_set =
       [(P_is_child_zygote, P_is_child_zygote)],
     jh_pre = SpecializeAppProcess, jh_post = SpecializeAppProcess,
     jh_orig = (Specialize_app, 0),
     jh_cast =
       [Jint, Jint, JintArray, Jint, JobjectArray, Jint, Jstring, Jstring, Jboolean,
        Jstring, Jstring],
     jh_cast_ret = Jvoid,
     jh_forward =
       [P_uid, P_gid, P_gids, P_runtime_flags, P_rlimits, P_mount_external, P_se_info,
        P_nice_name, P_is_child_zygote, P_instruction_set, P_app_data_dir],
     jh_returns_pid = False\<rparr>"

definition SpecializeAppProcess_q_alt :: jni_hook where
  "SpecializeAppProcess_q_alt = \<lparr>
     jh_name = ''nativeSpecializeAppProcess'',
     jh_sig = ''(II[II[[IILjava/lang/String;Ljava/lang/String;ZLjava/lang/String;Ljava/lang/String;Z)V'',
     jh_params =
       [(P_uid, Jint), (P_gid, Jint), (P_gids, JintArray), (P_runtime_flags, Jint),
        (P_rlimits, JobjectArray), (P_mount_external, Jint), (P_se_info, Jstring),
        (P_nice_name, Jstring), (P_is_child_zygote, Jboolean),
        (P_instruction_set, Jstring), (P_app_data_dir, Jstring),
        (P_is_top_app, Jboolean)],
     jh_ret = Jvoid,
     jh_args = App_args
       [P_uid, P_gid, P_gids, P_runtime_flags, P_rlimits, P_mount_external, P_se_info,
        P_nice_name, P_instruction_set, P_app_data_dir],
     jh_set =
       [(P_is_child_zygote, P_is_child_zygote), (P_is_top_app, P_is_top_app)],
     jh_pre = SpecializeAppProcess, jh_post = SpecializeAppProcess,
     jh_orig = (Specialize_app, 1),
     jh_cast =
       [Jint, Jint, JintArray, Jint, JobjectArray, Jint, Jstring, Jstring, Jboolean,
        Jstring, Jstring, Jboolean],
     jh_cast_ret = Jvoid,
     jh_forward =
       [P_uid, P_gid, P_gids, P_runtime_flags, P_rlimits, P_mount_external, P_se_info,
        P_nice_name, P_is_child_zygote, P_instruction_set, P_app_data_dir, P_is_top_app],
     jh_returns_pid = False\<rparr>"

definition SpecializeAppProcess_r :: jni_hook where
  "SpecializeAppProcess_r = \<lparr>
     jh_name = ''nativeSpecializeAppProcess'',
     jh_sig = ''(II[II[[IILjava/lang/String;Ljava/lang/String;ZLjava/lang/String;Ljava/lang/String;Z[Ljava/lang/String;[Ljava/lang/String;ZZ)V'',
     jh_params =
       [(P_uid, Jint), (P_gid, Jint), (P_gids, JintArray), (P_runtime_flags, Jint),
        (P_rlimits, JobjectArray), (P_mount_external, Jint), (P_se_info, Jstring),
        (P_nice_name, Jstring), (P_is_child_zygote, Jboolean),
        (P_instruction_set, Jstring), (P_app_data_dir, Jstring),
        (P_is_top_app, Jboolean), (P_pkg_data_info_list, JobjectArray),
        (P_whitelisted_data_info_list, JobjectArray), (P_mount_data_dirs, Jboolean),
        (P_mount_storage_dirs, Jboolean)],
     jh_ret = Jvoid,
     jh_args = App_args
       [P_uid, P_gid, P_gids, P_runtime_flags, P_rlimits, P_mount_external, P_se_info,
        P_nice_name, P_instruction_set, P_app_data_dir],
     jh_set =
       [(P_is_child_zygote, P_is_child_zygote), (P_is_top_app, P_is_top_app),
        (P_pkg_data_info_list, P_pkg_data_info_list),
        (P_whitelisted_data_info_list, P_whitelisted_data_info_list),
        (P_mount_data_dirs, P_mount_data_dirs),
        (P_mount_storage_dirs, P_mount_storage_dirs)],
     jh_pre = SpecializeAppProcess, jh_post = SpecializeAppProcess,
     jh_orig = (Specialize_app, 2),
     jh_cast =
       [Jint, Jint, JintArray, Jint, JobjectArray, Jint, Jstring, Jstring, Jboolean,
        Jstring, Jstring, Jboolean, JobjectArray, JobjectArray, Jboolean, Jboolean],
     jh_cast_ret = Jvoid,
     jh_forward =
       [P_uid, P_gid, P_gids, P_runtime_flags, P_rlimits, P_mount_external, P_se_info,
        P_nice_name, P_is_child_zygote, P_instruction_set, P_app_data_dir,
        P_is_top_app, P_pkg_data_info_list, P_whitelisted_data_info_list,
        P_mount_data_dirs, P_mount_storage_dirs],
     jh_returns_pid = False\<rparr>"

definition SpecializeAppProcess_u :: jni_hook where
  "SpecializeAppProcess_u = \<lparr>
     jh_name = ''nativeSpecializeAppProcess'',
     jh_sig = ''(II[II[[IILjava/lang/String;Ljava/lang/String;ZLjava/lang/String;Ljava/lang/String;Z[Ljava/lang/String;[Ljava/lang/String;ZZZ)V'',
     jh_params =
       [(P_uid, Jint), (P_gid, Jint), (P_gids, JintArray), (P_runtime_flags, Jint),
        (P_rlimits, JobjectArray), (P_mount_external, Jint), (P_se_info, Jstring),
        (P_nice_name, Jstring), (P_is_child_zygote, Jboolean),
        (P_instruction_set, Jstring), (P_app_data_dir, Jstring),
        (P_is_top_app, Jboolean), (P_pkg_data_info_list, JobjectArray),
        (P_whitelisted_data_info_list, JobjectArray), (P_mount_data_dirs, Jboolean),
        (P_mount_storage_dirs, Jboolean), (P_mount_sysprop_overrides, Jboolean)],
     jh_ret = Jvoid,
     jh_args = App_args
       [P_uid, P_gid, P_gids, P_runtime_flags, P_rlimits, P_mount_external, P_se_info,
        P_nice_name, P_instruction_set, P_app_data_dir],
     jh_set =
       [(P_is_child_zygote, P_is_child_zygote), (P_is_top_app, P_is_top_app),
        (P_pkg_data_info_list, P_pkg_data_info_list),
        (P_whitelisted_data_info_list, P_whitelisted_data_info_list),
        (P_mount_data_dirs, P_mount_data_dirs),
        (P_mount_storage_dirs, P_mount_storage_dirs),
        (P_mount_sysprop_overrides, P_mount_sysprop_overrides)],
     jh_pre = SpecializeAppProcess, jh_post = SpecializeAppProcess,
     jh_orig = (Specialize_app, 3),
     jh_cast =
       [Jint, Jint, JintArray, Jint, JobjectArray, Jint, Jstring, Jstring, Jboolean,
        Jstring, Jstring, Jboolean, JobjectArray, JobjectArray, Jboolean, Jboolean,
        Jboolean],
     jh_cast_ret = Jvoid,
     jh_forward =
       [P_uid, P_gid, P_gids, P_runtime_flags, P_rlimits, P_mount_external, P_se_info,
        P_nice_name, P_is_child_zygote, P_instruction_set, P_app_data_dir,
        P_is_top_app, P_pkg_data_info_list, P_whitelisted_data_info_list,
        P_mount_data_dirs, P_mount_storage_dirs, P_mount_sysprop_overrides],
     jh_returns_pid = False\<rparr>"

definition SpecializeAppProcess_xr_u :: jni_hook where
  "SpecializeAppProcess_xr_u = \<lparr>
     jh_name = ''nativeSpecializeAppProcess'',
     jh_sig = ''(II[II[[IILjava/lang/String;Ljava/lang/String;ZLjava/lang/String;Ljava/lang/String;ZZ[Ljava/lang/String;[Ljava/lang/String;ZZ)V'',
     jh_params =
       [(P_uid, Jint), (P_gid, Jint), (P_gids, JintArray), (P_runtime_flags, Jint),
        (P_rlimits, JobjectArray), (P_mount_external, Jint), (P_se_info, Jstring),
        (P_nice_name, Jstring), (P_is_child_zygote, Jboolean),
        (P_instruction_set, Jstring), (P_app_data_dir, Jstring),
        (P_is_top_app, Jboolean), (P_is_perception_app, Jboolean),
        (P_pkg_data_info_list, JobjectArray),
        (P_whitelisted_data_info_list, JobjectArray), (P_mount_data_dirs, Jboolean),
        (P_mount_storage_dirs, Jboolean)],
     jh_ret = Jvoid,
     jh_args = App_args
       [P_uid, P_gid, P_gids, P_runtime_flags, P_rlimits, P_mount_external, P_se_info,
        P_nice_name, P_instruction_set, P_app_data_dir],
     jh_set =
       [(P_is_child_zygote, P_is_child_zygote), (P_is_top_app, P_is_top_app),
        (P_pkg_data_info_list, P_pkg_data_info_list),
        (P_whitelisted_data_info_list, P_whitelisted_data_info_list),
        (P_mount_data_dirs, P_mount_data_dirs),
        (P_mount_storage_dirs, P_mount_storage_dirs)],
     jh_pre = SpecializeAppProcess, jh_post = SpecializeAppProcess,
     jh_orig = (Specialize_app, 4),
     jh_cast =
       [Jint, Jint, JintArray, Jint, JobjectArray, Jint, Jstring, Jstring, Jboolean,
        Jstring, Jstring, Jboolean, Jboolean, JobjectArray, JobjectArray, Jboolean,
        Jboolean],
     jh_cast_ret = Jvoid,
     jh_forward =
       [P_uid, P_gid, P_gids, P_runtime_flags, P_rlimits, P_mount_external, P_se_info,
        P_nice_name, P_is_child_zygote, P_instruction_set, P_app_data_dir,
        P_is_top_app, P_is_perception_app, P_pkg_data_info_list,
        P_whitelisted_data_info_list, P_mount_data_dirs, P_mount_storage_dirs],
     jh_returns_pid = False\<rparr>"

definition SpecializeAppProcess_samsung_q :: jni_hook where
  "SpecializeAppProcess_samsung_q = \<lparr>
     jh_name = ''nativeSpecializeAppProcess'',
     jh_sig = ''(II[II[[IILjava/lang/String;IILjava/lang/String;ZLjava/lang/String;Ljava/lang/String;)V'',
     jh_params =
       [(P_uid, Jint), (P_gid, Jint), (P_gids, JintArray), (P_runtime_flags, Jint),
        (P_rlimits, JobjectArray), (P_mount_external, Jint), (P_se_info, Jstring),
        (P_anon 10, Jint), (P_anon 11, Jint), (P_nice_name, Jstring),
        (P_is_child_zygote, Jboolean), (P_instruction_set, Jstring),
        (P_app_data_dir, Jstring)],
     jh_ret = Jvoid,
     jh_args = App_args
       [P_uid, P_gid, P_gids, P_runtime_flags, P_rlimits, P_mount_external, P_se_info,
        P_nice_name, P_instruction_set, P_app_data_dir],
     jh_set =
       [(P_is_child_zygote, P_is_child_zygote)],
     jh_pre = SpecializeAppProcess, jh_post = SpecializeAppProcess,
     jh_orig = (Specialize_app, 5),
     jh_cast =
       [Jint, Jint, JintArray, Jint, JobjectArray, Jint, Jstring, Jint, Jint, Jstring,
        Jboolean, Jstring, Jstring],
     jh_cast_ret = Jvoid,
     jh_forward =
       [P_uid, P_gid, P_gids, P_runtime_flags, P_rlimits, P_mount_external, P_se_info,
        P_anon 10, P_anon 11, P_nice_name, P_is_child_zygote, P_instruction_set,
        P_app_data_dir],
     jh_returns_pid = False\<rparr>"

definition SpecializeAppProcess_nubia_u :: jni_hook where
  "SpecializeAppProcess_nubia_u = \<lparr>
     jh_name = ''nativeSpecializeAppProcess'',
     jh_sig = ''(II[II[[IILjava/lang/String;Ljava/lang/String;ZLjava/lang/String;Ljava/lang/String;Z[Ljava/lang/String;[Ljava/lang/String;ZZZLjava/lang/String;)V'',
     jh_params =
       [(P_uid, Jint), (P_gid, Jint), (P_gids, JintArray), (P_runtime_flags, Jint),
        (P_rlimits, JobjectArray), (P_mount_external, Jint), (P_se_info, Jstring),
        (P_nice_name, Jstring), (P_is_child_zygote, Jboolean),
        (P_instruction_set, Jstring), (P_app_data_dir, Jstring),
        (P_is_top_app, Jboolean), (P_pkg_data_info_list, JobjectArray),
        (P_whitelisted_data_info_list, JobjectArray), (P_mount_data_dirs, Jboolean),
        (P_mount_storage_dirs, Jboolean), (P_mount_sysprop_overrides, Jboolean),
        (P_anon 12, Jstring)],
     jh_ret = Jvoid,
     jh_args = App_args
       [P_uid, P_gid, P_gids, P_runtime_flags, P_rlimits, P_mount_external, P_se_info,
        P_nice_name, P_instruction_set, P_app_data_dir],
     jh_set =
       [(P_is_child_zygote, P_is_child_zygote), (P_is_top_app, P_is_top_app),
        (P_pkg_data_info_list, P_pkg_data_info_list),
        (P_whitelisted_data_info_list, P_whitelisted_data_info_list),
        (P_mount_data_dirs, P_mount_data_dirs),
        (P_mount_storage_dirs, P_mount_storage_dirs),
        (P_mount_sysprop_overrides, P_mount_sysprop_overrides)],
     jh_pre = SpecializeAppProcess, jh_post = SpecializeAppProcess,
     jh_orig = (Specialize_app, 6),
     jh_cast =
       [Jint, Jint, JintArray, Jint, JobjectArray, Jint, Jstring, Jstring, Jboolean,
        Jstring, Jstring, Jboolean, JobjectArray, JobjectArray, Jboolean, Jboolean,
        Jboolean, Jstring],
     jh_cast_ret = Jvoid,
     jh_forward =
       [P_uid, P_gid, P_gids, P_runtime_flags, P_rlimits, P_mount_external, P_se_info,
        P_nice_name, P_is_child_zygote, P_instruction_set, P_app_data_dir,
        P_is_top_app, P_pkg_data_info_list, P_whitelisted_data_info_list,
        P_mount_data_dirs, P_mount_storage_dirs, P_mount_sysprop_overrides, P_anon 12],
     jh_returns_pid = False\<rparr>"

definition ForkSystemServer_l :: jni_hook where
  "ForkSystemServer_l = \<lparr>
     jh_name = ''nativeForkSystemServer'',
     jh_sig = ''(II[II[[IJJ)I'',
     jh_params =
       [(P_uid, Jint), (P_gid, Jint), (P_gids, JintArray), (P_runtime_flags, Jint),
        (P_rlimits, JobjectArray), (P_permitted_capabilities, Jlong),
        (P_effective_capabilities, Jlong)],
     jh_ret = Jint,
     jh_args = Server_args
       [P_uid, P_gid, P_gids, P_runtime_flags, P_permitted_capabilities,
        P_effective_capabilities],
     jh_set =
       [],
     jh_pre = ForkSystemServer, jh_post = ForkSystemServer,
     jh_orig = (Fork_server, 0),
     jh_cast =
       [Jint, Jint, JintArray, Jint, JobjectArray, Jlong, Jlong],
     jh_cast_ret = Jint,
     jh_forward =
       [P_uid, P_gid, P_gids, P_runtime_flags, P_rlimits, P_permitted_capabilities,
        P_effective_capabilities],
     jh_returns_pid = True\<rparr>"

definition ForkSystemServer_samsung_q :: jni_hook where
  "ForkSystemServer_samsung_q = \<lparr>
     jh_name = ''nativeForkSystemServer'',
     jh_sig = ''(II[IIII[[IJJ)I'',
     jh_params =
       [(P_uid, Jint), (P_gid, Jint), (P_gids, JintArray), (P_runtime_flags, Jint),
        (P_anon 13, Jint), (P_anon 14, Jint), (P_rlimits, JobjectArray),
        (P_permitted_capabilities, Jlong), (P_effective_capabilities, Jlong)],
     jh_ret = Jint,
     jh_args = Server_args
       [P_uid, P_gid, P_gids, P_runtime_flags, P_permitted_capabilities,
        P_effective_capabilities],
     jh_set =
       [],
     jh_pre = ForkSystemServer, jh_post = ForkSystemServer,
     jh_orig = (Fork_server, 1),
     jh_cast =
       [Jint, Jint, JintArray, Jint, Jint, Jint, JobjectArray, Jlong, Jlong],
     jh_cast_ret = Jint,
     jh_forward =
       [P_uid, P_gid, P_gids, P_runtime_flags, P_anon 13, P_anon 14, P_rlimits,
        P_permitted_capabilities, P_effective_capabilities],
     jh_returns_pid = True\<rparr>"

definition src_fork_app_methods :: "jni_hook list" where
  "src_fork_app_methods =
     [ForkAndSpecialize_l, ForkAndSpecialize_o, ForkAndSpecialize_p,
      ForkAndSpecialize_q_alt, ForkAndSpecialize_r, ForkAndSpecialize_u,
      ForkAndSpecialize_b, ForkAndSpecialize_samsung_m, ForkAndSpecialize_samsung_n,
      ForkAndSpecialize_samsung_o, ForkAndSpecialize_samsung_p,
      ForkAndSpecialize_nubia_u]"

definition src_specialize_app_methods :: "jni_hook list" where
  "src_specialize_app_methods =
     [SpecializeAppProcess_q, SpecializeAppProcess_q_alt, SpecializeAppProcess_r,
      SpecializeAppProcess_u, SpecializeAppProcess_xr_u,
      SpecializeAppProcess_samsung_q, SpecializeAppProcess_nubia_u]"

definition src_fork_server_methods :: "jni_hook list" where
  "src_fork_server_methods =
     [ForkSystemServer_l, ForkSystemServer_samsung_q]"

fun src_methods :: "jtable \<Rightarrow> jni_hook list" where
  "src_methods Fork_app = src_fork_app_methods"
| "src_methods Specialize_app = src_specialize_app_methods"
| "src_methods Fork_server = src_fork_server_methods"

text \<open>The parameters the fields of the argument object refer to, by field.\<close>

definition app_fields :: "jparam list" where
  "app_fields = [P_uid, P_gid, P_gids, P_runtime_flags, P_rlimits, P_mount_external, P_se_info,
     P_nice_name, P_instruction_set, P_app_data_dir]"

definition server_fields :: "jparam list" where
  "server_fields = [P_uid, P_gid, P_gids, P_runtime_flags, P_permitted_capabilities,
     P_effective_capabilities]"

definition arg_binding :: "jni_hook \<Rightarrow> (jparam \<times> jparam) list" where
  "arg_binding h =
     (case jh_args h of App_args ps \<Rightarrow> zip app_fields ps | Server_args ps \<Rightarrow> zip server_fields ps)
     @ jh_set h"

end
