(* ===== verification/JniGen.thy ===== *)
theory JniGen
  imports JniHooks
begin

text \<open>
  \<^verbatim>\<open>src/gen_jni_hooks.py\<close>, the script that writes \<^verbatim>\<open>jni_hooks.hpp\<close>: its types with their C and
  JNI spelling, the numbering of anonymous arguments, the methods' argument lists and what it prints
  for one method. The checked-in table is compared with its output, and the signatures with a parser
  of JNI method descriptors.
\<close>

section \<open>Types and arguments\<close>

datatype gtype = G_int | G_boolean | G_long | G_string | G_void | G_array gtype

fun cpp :: "gtype \<Rightarrow> jtype" where
  "cpp G_int = Jint" | "cpp G_boolean = Jboolean" | "cpp G_long = Jlong" | "cpp G_string = Jstring"
| "cpp G_void = Jvoid"
| "cpp (G_array t) = (case t of G_int \<Rightarrow> JintArray | G_boolean \<Rightarrow> JbooleanArray
     | G_long \<Rightarrow> JlongArray | _ \<Rightarrow> JobjectArray)"

fun jni :: "gtype \<Rightarrow> string" where
  "jni G_int = ''I''" | "jni G_boolean = ''Z''" | "jni G_long = ''J''"
| "jni G_string = ''Ljava/lang/String;''" | "jni G_void = ''V''"
| "jni (G_array t) = ''['' @ jni t"

datatype garg = Arg jparam gtype bool | Anon gtype

definition A_uid :: garg where "A_uid = Arg P_uid G_int False"
definition A_gid :: garg where "A_gid = Arg P_gid G_int False"
definition A_gids :: garg where "A_gids = Arg P_gids (G_array G_int) False"
definition A_runtime_flags :: garg where "A_runtime_flags = Arg P_runtime_flags G_int False"
definition A_rlimits :: garg where "A_rlimits = Arg P_rlimits (G_array (G_array G_int)) False"
definition A_mount_external :: garg where "A_mount_external = Arg P_mount_external G_int False"
definition A_se_info :: garg where "A_se_info = Arg P_se_info G_string False"
definition A_nice_name :: garg where "A_nice_name = Arg P_nice_name G_string False"
definition A_fds_to_close :: garg where "A_fds_to_close = Arg P_fds_to_close (G_array G_int) False"
definition A_instruction_set :: garg where "A_instruction_set = Arg P_instruction_set G_string False"
definition A_app_data_dir :: garg where "A_app_data_dir = Arg P_app_data_dir G_string False"
definition A_fds_to_ignore :: garg where "A_fds_to_ignore = Arg P_fds_to_ignore (G_array G_int) True"
definition A_is_child_zygote :: garg where "A_is_child_zygote = Arg P_is_child_zygote G_boolean True"
definition A_is_top_app :: garg where "A_is_top_app = Arg P_is_top_app G_boolean True"
definition A_is_perception_app :: garg where "A_is_perception_app = Arg P_is_perception_app G_boolean False"
definition A_pkg_data_info_list :: garg where "A_pkg_data_info_list = Arg P_pkg_data_info_list (G_array G_string) True"
definition A_whitelisted_data_info_list :: garg where "A_whitelisted_data_info_list = Arg P_whitelisted_data_info_list (G_array G_string) True"
definition A_mount_data_dirs :: garg where "A_mount_data_dirs = Arg P_mount_data_dirs G_boolean True"
definition A_mount_storage_dirs :: garg where "A_mount_storage_dirs = Arg P_mount_storage_dirs G_boolean True"
definition A_mount_sysprop_overrides :: garg where "A_mount_sysprop_overrides = Arg P_mount_sysprop_overrides G_boolean True"
definition A_use_fifo_ui :: garg where "A_use_fifo_ui = Arg P_use_fifo_ui G_boolean False"
definition A_permitted_capabilities :: garg where "A_permitted_capabilities = Arg P_permitted_capabilities G_long False"
definition A_effective_capabilities :: garg where "A_effective_capabilities = Arg P_effective_capabilities G_long False"

definition fas_l :: "garg list" where
  "fas_l =
     [A_uid, A_gid, A_gids, A_runtime_flags, A_rlimits, A_mount_external, A_se_info,
      A_nice_name, A_fds_to_close, A_instruction_set, A_app_data_dir]"

definition fas_o :: "garg list" where
  "fas_o =
     [A_uid, A_gid, A_gids, A_runtime_flags, A_rlimits, A_mount_external, A_se_info,
      A_nice_name, A_fds_to_close, A_fds_to_ignore, A_instruction_set, A_app_data_dir]"

definition fas_p :: "garg list" where
  "fas_p =
     [A_uid, A_gid, A_gids, A_runtime_flags, A_rlimits, A_mount_external, A_se_info,
      A_nice_name, A_fds_to_close, A_fds_to_ignore, A_is_child_zygote, A_instruction_set,
      A_app_data_dir]"

definition fas_q_alt :: "garg list" where
  "fas_q_alt =
     [A_uid, A_gid, A_gids, A_runtime_flags, A_rlimits, A_mount_external, A_se_info,
      A_nice_name, A_fds_to_close, A_fds_to_ignore, A_is_child_zygote, A_instruction_set,
      A_app_data_dir, A_is_top_app]"

definition fas_r :: "garg list" where
  "fas_r =
     [A_uid, A_gid, A_gids, A_runtime_flags, A_rlimits, A_mount_external, A_se_info,
      A_nice_name, A_fds_to_close, A_fds_to_ignore, A_is_child_zygote, A_instruction_set,
      A_app_data_dir, A_is_top_app, A_pkg_data_info_list, A_whitelisted_data_info_list,
      A_mount_data_dirs, A_mount_storage_dirs]"

definition fas_u :: "garg list" where
  "fas_u =
     [A_uid, A_gid, A_gids, A_runtime_flags, A_rlimits, A_mount_external, A_se_info,
      A_nice_name, A_fds_to_close, A_fds_to_ignore, A_is_child_zygote, A_instruction_set,
      A_app_data_dir, A_is_top_app, A_pkg_data_info_list, A_whitelisted_data_info_list,
      A_mount_data_dirs, A_mount_storage_dirs, A_mount_sysprop_overrides]"

definition fas_b :: "garg list" where
  "fas_b =
     [A_uid, A_gid, A_gids, A_runtime_flags, A_rlimits, A_mount_external, A_se_info,
      A_nice_name, A_fds_to_close, A_fds_to_ignore, A_is_child_zygote, A_instruction_set,
      A_app_data_dir, A_is_top_app, A_use_fifo_ui, A_pkg_data_info_list,
      A_whitelisted_data_info_list, A_mount_data_dirs, A_mount_storage_dirs,
      A_mount_sysprop_overrides]"

definition fas_samsung_m :: "garg list" where
  "fas_samsung_m =
     [A_uid, A_gid, A_gids, A_runtime_flags, A_rlimits, A_mount_external, A_se_info,
      Anon G_int, Anon G_int, A_nice_name, A_fds_to_close, A_instruction_set,
      A_app_data_dir]"

definition fas_samsung_n :: "garg list" where
  "fas_samsung_n =
     [A_uid, A_gid, A_gids, A_runtime_flags, A_rlimits, A_mount_external, A_se_info,
      Anon G_int, Anon G_int, A_nice_name, A_fds_to_close, A_instruction_set,
      A_app_data_dir, Anon G_int]"

definition fas_samsung_o :: "garg list" where
  "fas_samsung_o =
     [A_uid, A_gid, A_gids, A_runtime_flags, A_rlimits, A_mount_external, A_se_info,
      Anon G_int, Anon G_int, A_nice_name, A_fds_to_close, A_fds_to_ignore,
      A_instruction_set, A_app_data_dir]"

definition fas_samsung_p :: "garg list" where
  "fas_samsung_p =
     [A_uid, A_gid, A_gids, A_runtime_flags, A_rlimits, A_mount_external, A_se_info,
      Anon G_int, Anon G_int, A_nice_name, A_fds_to_close, A_fds_to_ignore,
      A_is_child_zygote, A_instruction_set, A_app_data_dir]"

definition fas_nubia_u :: "garg list" where
  "fas_nubia_u =
     [A_uid, A_gid, A_gids, A_runtime_flags, A_rlimits, A_mount_external, A_se_info,
      A_nice_name, A_fds_to_close, A_fds_to_ignore, A_is_child_zygote, A_instruction_set,
      A_app_data_dir, A_is_top_app, A_use_fifo_ui, A_pkg_data_info_list,
      A_whitelisted_data_info_list, A_mount_data_dirs, A_mount_storage_dirs,
      A_mount_sysprop_overrides, Anon G_string]"

definition spec_q :: "garg list" where
  "spec_q =
     [A_uid, A_gid, A_gids, A_runtime_flags, A_rlimits, A_mount_external, A_se_info,
      A_nice_name, A_is_child_zygote, A_instruction_set, A_app_data_dir]"

definition spec_q_alt :: "garg list" where
  "spec_q_alt =
     [A_uid, A_gid, A_gids, A_runtime_flags, A_rlimits, A_mount_external, A_se_info,
      A_nice_name, A_is_child_zygote, A_instruction_set, A_app_data_dir, A_is_top_app]"

definition spec_r :: "garg list" where
  "spec_r =
     [A_uid, A_gid, A_gids, A_runtime_flags, A_rlimits, A_mount_external, A_se_info,
      A_nice_name, A_is_child_zygote, A_instruction_set, A_app_data_dir, A_is_top_app,
      A_pkg_data_info_list, A_whitelisted_data_info_list, A_mount_data_dirs,
      A_mount_storage_dirs]"

definition spec_u :: "garg list" where
  "spec_u =
     [A_uid, A_gid, A_gids, A_runtime_flags, A_rlimits, A_mount_external, A_se_info,
      A_nice_name, A_is_child_zygote, A_instruction_set, A_app_data_dir, A_is_top_app,
      A_pkg_data_info_list, A_whitelisted_data_info_list, A_mount_data_dirs,
      A_mount_storage_dirs, A_mount_sysprop_overrides]"

definition spec_xr_u :: "garg list" where
  "spec_xr_u =
     [A_uid, A_gid, A_gids, A_runtime_flags, A_rlimits, A_mount_external, A_se_info,
      A_nice_name, A_is_child_zygote, A_instruction_set, A_app_data_dir, A_is_top_app,
      A_is_perception_app, A_pkg_data_info_list, A_whitelisted_data_info_list,
      A_mount_data_dirs, A_mount_storage_dirs]"

definition spec_samsung_q :: "garg list" where
  "spec_samsung_q =
     [A_uid, A_gid, A_gids, A_runtime_flags, A_rlimits, A_mount_external, A_se_info,
      Anon G_int, Anon G_int, A_nice_name, A_is_child_zygote, A_instruction_set,
      A_app_data_dir]"

definition spec_nubia_u :: "garg list" where
  "spec_nubia_u =
     [A_uid, A_gid, A_gids, A_runtime_flags, A_rlimits, A_mount_external, A_se_info,
      A_nice_name, A_is_child_zygote, A_instruction_set, A_app_data_dir, A_is_top_app,
      A_pkg_data_info_list, A_whitelisted_data_info_list, A_mount_data_dirs,
      A_mount_storage_dirs, A_mount_sysprop_overrides, Anon G_string]"

definition server_l :: "garg list" where
  "server_l =
     [A_uid, A_gid, A_gids, A_runtime_flags, A_rlimits, A_permitted_capabilities,
      A_effective_capabilities]"

definition server_samsung_q :: "garg list" where
  "server_samsung_q =
     [A_uid, A_gid, A_gids, A_runtime_flags, Anon G_int, Anon G_int, A_rlimits,
      A_permitted_capabilities, A_effective_capabilities]"

section \<open>What the script prints for a method\<close>

text \<open>Anonymous arguments are numbered in the order they are made, across all methods.\<close>

fun number :: "nat \<Rightarrow> garg list \<Rightarrow> (jparam \<times> gtype \<times> bool) list \<times> nat" where
  "number n [] = ([], n)"
| "number n (Arg p t b # r) = (let (l, m) = number n r in ((p, t, b) # l, m))"
| "number n (Anon t # r) = (let (l, m) = number (Suc n) r in ((P_anon n, t, False) # l, m))"

fun number_all :: "nat \<Rightarrow> garg list list \<Rightarrow> (jparam \<times> gtype \<times> bool) list list" where
  "number_all n [] = []"
| "number_all n (a # r) = (let (l, m) = number n a in l # number_all m r)"

definition jni_sig :: "gtype list \<Rightarrow> gtype \<Rightarrow> string" where
  "jni_sig ts r = ''('' @ concat (map jni ts) @ '')'' @ jni r"

datatype hook_class = ForkApp | SpecializeApp | ForkServer

fun hook_target :: "hook_class \<Rightarrow> string" where
  "hook_target ForkApp = ''nativeForkAndSpecialize''"
| "hook_target SpecializeApp = ''nativeSpecializeAppProcess''"
| "hook_target ForkServer = ''nativeForkSystemServer''"

fun target_call :: "hook_class \<Rightarrow> jcall" where
  "target_call ForkApp = ForkAndSpecialize"
| "target_call SpecializeApp = SpecializeAppProcess"
| "target_call ForkServer = ForkSystemServer"

fun init_args :: "hook_class \<Rightarrow> jargs" where
  "init_args ForkServer = Server_args [P_uid, P_gid, P_gids, P_runtime_flags,
     P_permitted_capabilities, P_effective_capabilities]"
| "init_args _ = App_args [P_uid, P_gid, P_gids, P_runtime_flags, P_rlimits, P_mount_external,
     P_se_info, P_nice_name, P_instruction_set, P_app_data_dir]"

definition ret_type :: "hook_class \<Rightarrow> gtype" where
  "ret_type c = (case c of SpecializeApp \<Rightarrow> G_void | _ \<Rightarrow> G_int)"

definition gen_method :: "hook_class \<Rightarrow> jtable \<Rightarrow> nat \<Rightarrow> (jparam \<times> gtype \<times> bool) list \<Rightarrow> jni_hook" where
  "gen_method c field i as = \<lparr>
     jh_name = hook_target c,
     jh_sig = jni_sig (map (fst \<circ> snd) as) (ret_type c),
     jh_params = map (\<lambda>(p, t, _). (p, cpp t)) as,
     jh_ret = cpp (ret_type c),
     jh_args = init_args c,
     jh_set = map (\<lambda>(p, _). (p, p)) (filter (\<lambda>(_, _, b). b) as),
     jh_pre = target_call c, jh_post = target_call c,
     jh_orig = (field, i),
     jh_cast = map (\<lambda>(_, t, _). cpp t) as,
     jh_cast_ret = cpp (ret_type c),
     jh_forward = map fst as,
     jh_returns_pid = (c \<noteq> SpecializeApp)\<rparr>"

definition gen_jni_def :: "hook_class \<Rightarrow> jtable \<Rightarrow> (jparam \<times> gtype \<times> bool) list list \<Rightarrow> jni_hook list" where
  "gen_jni_def c field ms = map (\<lambda>(i, as). gen_method c field i as) (enumerate 0 ms)"

text \<open>All argument lists in the order the script makes them; the tables it writes.\<close>

definition all_methods :: "(jparam \<times> gtype \<times> bool) list list" where
  "all_methods = number_all 0
     [fas_l, fas_o, fas_p, fas_q_alt, fas_r, fas_u, fas_b, fas_samsung_m, fas_samsung_n,
      fas_samsung_o, fas_samsung_p, fas_nubia_u, spec_q, spec_q_alt, spec_r, spec_u, spec_xr_u,
      spec_samsung_q, spec_nubia_u, server_l, server_samsung_q]"

fun generated :: "jtable \<Rightarrow> jni_hook list" where
  "generated Fork_app = gen_jni_def ForkApp Fork_app (take 12 all_methods)"
| "generated Specialize_app = gen_jni_def SpecializeApp Specialize_app (take 7 (drop 12 all_methods))"
| "generated Fork_server = gen_jni_def ForkServer Fork_server (drop 19 all_methods)"

lemmas A_defs = A_uid_def A_gid_def A_gids_def A_runtime_flags_def A_rlimits_def A_mount_external_def
  A_se_info_def A_nice_name_def A_fds_to_close_def A_instruction_set_def A_app_data_dir_def
  A_fds_to_ignore_def A_is_child_zygote_def A_is_top_app_def A_is_perception_app_def
  A_pkg_data_info_list_def A_whitelisted_data_info_list_def A_mount_data_dirs_def
  A_mount_storage_dirs_def A_mount_sysprop_overrides_def A_use_fifo_ui_def
  A_permitted_capabilities_def A_effective_capabilities_def

lemma tables_equal:
  "src_methods Fork_app = generated Fork_app" "src_methods Specialize_app = generated Specialize_app"
  "src_methods Fork_server = generated Fork_server"
  by code_simp+

section \<open>Reading a signature\<close>

fun parse_type :: "string \<Rightarrow> (gtype \<times> string) option" where
  "parse_type [] = None"
| "parse_type (c # s) =
     (if c = CHR ''I'' then Some (G_int, s)
      else if c = CHR ''Z'' then Some (G_boolean, s)
      else if c = CHR ''J'' then Some (G_long, s)
      else if c = CHR ''V'' then Some (G_void, s)
      else if c = CHR ''['' then
        (case parse_type s of Some (t, r) \<Rightarrow> Some (G_array t, r) | None \<Rightarrow> None)
      else if c = CHR ''L'' then
        (if takeWhile (\<lambda>x. x \<noteq> CHR '';'') s = ''java/lang/String''
         then Some (G_string, tl (dropWhile (\<lambda>x. x \<noteq> CHR '';'') s)) else None)
      else None)"

lemma parse_type_shorter: "parse_type s = Some (t, r) \<Longrightarrow> length r < length s"
proof (induction s arbitrary: t r rule: parse_type.induct)
  case (2 c s)
  have "length (tl (dropWhile (\<lambda>x. x \<noteq> CHR '';'') s)) \<le> length s"
    using length_dropWhile_le [of "\<lambda>x. x \<noteq> CHR '';''" s] by simp
  with 2 show ?case
    by (force split: if_splits option.splits prod.splits)
qed simp

function parse_args :: "string \<Rightarrow> (gtype list \<times> string) option" where
  "parse_args s =
     (if take 1 s = '')'' then Some ([], tl s)
      else (case parse_type s of
              None \<Rightarrow> None
            | Some (t, r) \<Rightarrow> map_option (\<lambda>(ts, r'). (t # ts, r')) (parse_args r)))"
  by pat_completeness auto
termination
  by (relation "measure length") (auto dest: parse_type_shorter)

declare parse_args.simps [simp del]

definition parse_sig :: "string \<Rightarrow> (gtype list \<times> gtype) option" where
  "parse_sig s =
     (if take 1 s \<noteq> ''('' then None
      else do { (ts, r) \<leftarrow> parse_args (tl s); (t, r') \<leftarrow> parse_type r;
                if r' = [] then Some (ts, t) else None })"

lemma parse_jni: "parse_type (jni t @ r) = Some (t, r)"
  by (induction t) simp_all

lemma jni_start: "\<exists>c s. jni t = c # s \<and> c \<noteq> CHR '')''"
  by (cases t) simp_all

lemma parse_args_jni: "parse_args (concat (map jni ts) @ CHR '')'' # r) = Some (ts, r)"
proof (induction ts)
  case Nil
  show ?case by (simp add: parse_args.simps)
next
  case (Cons t ts)
  obtain c s where c: "jni t = c # s" "c \<noteq> CHR '')''" using jni_start [of t] by auto
  have p: "parse_type (c # s @ q) = Some (t, q)" for q
    using parse_jni [of t q] c by simp
  show ?case
    using Cons c by (simp add: parse_args.simps [of "c # s @ concat (map jni ts) @ CHR '')'' # r"] p
        del: parse_type.simps)
qed

lemma parse_jni_sig: "parse_sig (jni_sig ts r) = Some (ts, r)"
  using parse_jni [of r "[]"] by (simp add: parse_sig_def jni_sig_def parse_args_jni)

text \<open>
  The signatures the script prints are read back: a parser of JNI method descriptors recovers
  from \<open>jni_sig\<close> exactly the argument types and the return type, for every list of types.
\<close>

theorem jni_sig_roundtrip: "parse_sig (jni_sig ts r) = Some (ts, r)"
  by (rule parse_jni_sig)

lemma parse_gen: "parse_sig (jh_sig (gen_method c f i as)) = Some (map (fst \<circ> snd) as, ret_type c)"
  by (simp only: gen_method_def jni_hook.select_convs parse_jni_sig)

text \<open>
  What makes an entry safe to install as the \<open>i\<close>-th of its table: the function's C type is the one
  the registered signature prescribes, the original is called through the same type, with all
  parameters in order, and it is the entry's own original; the argument object's fields refer to
  distinct parameters, each field to the parameter of its name.
\<close>

definition entry_safe :: "jtable \<Rightarrow> nat \<Rightarrow> jni_hook \<Rightarrow> bool" where
  "entry_safe t i h \<longleftrightarrow>
     (case parse_sig (jh_sig h) of None \<Rightarrow> False
      | Some (ts, r) \<Rightarrow> map snd (jh_params h) = map cpp ts \<and> jh_ret h = cpp r) \<and>
     jh_cast h = map snd (jh_params h) \<and> jh_cast_ret h = jh_ret h \<and>
     jh_forward h = map fst (jh_params h) \<and> distinct (map fst (jh_params h)) \<and>
     jh_orig h = (t, i) \<and> jh_pre h = jh_post h \<and>
     (\<forall>(f, p)\<in>set (arg_binding h). f = p \<and> p \<in> fst ` set (jh_params h)) \<and>
     distinct (map fst (arg_binding h))"

lemma gen_entry_safe:
  assumes "distinct (map fst as)"
    and "\<forall>f\<in>set (if c = ForkServer then server_fields else app_fields). f \<in> fst ` set as"
    and "\<forall>(p, t, b)\<in>set as. b \<longrightarrow> p \<notin> set (if c = ForkServer then server_fields else app_fields)"
  shows "entry_safe t i (gen_method c t i as)"
proof -
  have own: "arg_binding (gen_method c t i as) =
      map (\<lambda>p. (p, p)) (if c = ForkServer then server_fields else app_fields) @
      map (\<lambda>(p, _). (p, p)) (filter (\<lambda>(_, _, b). b) as)"
    by (cases c) (simp_all add: gen_method_def arg_binding_def app_fields_def server_fields_def)
  have names: "map fst (map (\<lambda>(p, _). (p, p)) (filter (\<lambda>(_, _, b). b) as)) =
      map fst (filter (\<lambda>(_, _, b). b) as)"
    by (induction as) auto
  have "distinct (map fst (filter (\<lambda>(_, _, b). b) as))"
    using assms(1) by (induction as) auto
  moreover have "distinct (if c = ForkServer then server_fields else app_fields)"
    by (simp add: app_fields_def server_fields_def)
  ultimately have "distinct (map fst (arg_binding (gen_method c t i as)))"
    using assms(3) unfolding own map_append names by (auto simp: comp_def)
  moreover have "f = p \<and> p \<in> fst ` set as" if "(f, p) \<in> set (arg_binding (gen_method c t i as))" for f p
    using that assms(2) unfolding own by force
  ultimately show ?thesis
    unfolding entry_safe_def parse_gen
    using assms(1) by (auto simp: gen_method_def comp_def case_prod_beta image_image)
qed

fun method_ok :: "hook_class \<Rightarrow> (jparam \<times> gtype \<times> bool) list \<Rightarrow> bool" where
  "method_ok c as \<longleftrightarrow>
     (let fs = (if c = ForkServer then server_fields else app_fields) in
      distinct (map fst as) \<and> list_all (\<lambda>f. f \<in> set (map fst as)) fs \<and>
      list_all (\<lambda>(p, t, b). b \<longrightarrow> p \<notin> set fs) as)"

lemma method_ok_safe: "method_ok c as \<Longrightarrow> entry_safe t i (gen_method c t i as)"
  by (rule gen_entry_safe) (auto simp: list_all_iff Let_def)

lemma gen_jni_def_nth:
  "i < length ms \<Longrightarrow> gen_jni_def c t ms ! i = gen_method c t i (ms ! i)"
  by (simp add: gen_jni_def_def nth_enumerate_eq)

lemma length_gen_jni_def [simp]: "length (gen_jni_def c t ms) = length ms"
  by (simp add: gen_jni_def_def)

lemma gen_jni_def_safe:
  "list_all (method_ok c) ms \<Longrightarrow> i < length ms \<Longrightarrow> entry_safe t i (gen_jni_def c t ms ! i)"
  by (simp add: gen_jni_def_nth list_all_length method_ok_safe del: method_ok.simps)

lemma methods_ok:
  "list_all (method_ok ForkApp) (take 12 all_methods)"
  "list_all (method_ok SpecializeApp) (take 7 (drop 12 all_methods))"
  "list_all (method_ok ForkServer) (drop 19 all_methods)"
  by code_simp+

text \<open>
  C31: Every entry of the three tables is safe to register: its C type is the one its signature
  prescribes, the original is reached through the entry's own index and called through the same type
  with all parameters in order, and every field of the argument object refers to the parameter of its
  name, no field twice.
\<close>

theorem jni_table_safe:
  assumes "i < length (src_methods t)"
  shows "entry_safe t i (src_methods t ! i)"
  using assms methods_ok by (cases t) (simp_all only: tables_equal generated.simps gen_jni_def_safe
    length_gen_jni_def)

theorem jni_table_safe_witness:
  "entry_safe Fork_app 11 (src_methods Fork_app ! 11) \<and> length (src_methods Fork_app) = 12"
proof -
  have "length (src_methods Fork_app) = 12" by code_simp
  then show ?thesis using jni_table_safe [of 11 Fork_app] by simp
qed

end
