(* ===== verification/JniText.thy ===== *)
theory JniText
  imports JniGen
begin

text \<open>
  The text \<^verbatim>\<open>src/gen_jni_hooks.py\<close> writes to \<^verbatim>\<open>jni_hooks.hpp\<close>, character by character, and the
  C++ text of an entry of the tables of \<open>JniHooks\<close>.
\<close>

section \<open>Names\<close>

fun type_name :: "jtype \<Rightarrow> string" where
  "type_name Jint = ''jint''" | "type_name Jboolean = ''jboolean''" | "type_name Jlong = ''jlong''"
| "type_name Jstring = ''jstring''" | "type_name JintArray = ''jintArray''"
| "type_name JbooleanArray = ''jbooleanArray''" | "type_name JlongArray = ''jlongArray''"
| "type_name JobjectArray = ''jobjectArray''" | "type_name Jvoid = ''void''"

fun param_name :: "jparam \<Rightarrow> string" where
  "param_name P_uid = ''uid''" | "param_name P_gid = ''gid''" | "param_name P_gids = ''gids''"
| "param_name P_runtime_flags = ''runtime_flags''" | "param_name P_rlimits = ''rlimits''"
| "param_name P_mount_external = ''mount_external''" | "param_name P_se_info = ''se_info''"
| "param_name P_nice_name = ''nice_name''" | "param_name P_fds_to_close = ''fds_to_close''"
| "param_name P_fds_to_ignore = ''fds_to_ignore''" | "param_name P_is_child_zygote = ''is_child_zygote''"
| "param_name P_instruction_set = ''instruction_set''" | "param_name P_app_data_dir = ''app_data_dir''"
| "param_name P_is_top_app = ''is_top_app''" | "param_name P_is_perception_app = ''is_perception_app''"
| "param_name P_use_fifo_ui = ''use_fifo_ui''" | "param_name P_pkg_data_info_list = ''pkg_data_info_list''"
| "param_name P_whitelisted_data_info_list = ''whitelisted_data_info_list''"
| "param_name P_mount_data_dirs = ''mount_data_dirs''" | "param_name P_mount_storage_dirs = ''mount_storage_dirs''"
| "param_name P_mount_sysprop_overrides = ''mount_sysprop_overrides''"
| "param_name P_permitted_capabilities = ''permitted_capabilities''"
| "param_name P_effective_capabilities = ''effective_capabilities''"
| "param_name (P_anon n) = ''_'' @ show_num 10 n"

fun field_name :: "jtable \<Rightarrow> string" where
  "field_name Fork_app = ''fork_app_methods''"
| "field_name Specialize_app = ''specialize_app_methods''"
| "field_name Fork_server = ''fork_server_methods''"

text \<open>\<open>str.join\<close> with a comma.\<close>

fun commas :: "string list \<Rightarrow> string" where
  "commas [] = ''''"
| "commas [x] = x"
| "commas (x # y # r) = x @ '', '' @ commas (y # r)"

section \<open>What the script writes\<close>

type_synonym gparam = "jparam \<times> gtype \<times> bool"

fun arg_cpp :: "gparam \<Rightarrow> string" where
  "arg_cpp (p, t, b) = type_name (cpp t) @ '' '' @ param_name p"

definition arg_list_name :: "gparam list \<Rightarrow> string" where
  "arg_list_name as = ''env, clazz, '' @ commas (map (\<lambda>(p, _). param_name p) as)"

definition arg_list_cpp :: "gparam list \<Rightarrow> string" where
  "arg_list_cpp as = ''JNIEnv *env, jclass clazz, '' @ commas (map arg_cpp as)"

definition cpp_fn_type :: "gtype \<Rightarrow> gparam list \<Rightarrow> string" where
  "cpp_fn_type r as = type_name (cpp r) @ ''(*)('' @ arg_list_cpp as"

definition cpp_lambda_sig :: "gtype \<Rightarrow> gparam list \<Rightarrow> string" where
  "cpp_lambda_sig r as =
     ''[] [[clang::no_stack_protector]] ('' @ arg_list_cpp as @ '') static -> '' @ type_name (cpp r)"

definition ind :: "nat \<Rightarrow> string" where
  "ind i = CHR 0x0A # concat (replicate i ''    '')"

fun init_args_text :: "hook_class \<Rightarrow> string" where
  "init_args_text ForkServer = ''ServerSpecializeArgs_v1 args(uid, gid, gids, runtime_flags, permitted_capabilities, effective_capabilities);''"
| "init_args_text _ = ''AppSpecializeArgs_v5 args(uid, gid, gids, runtime_flags, rlimits, mount_external, se_info, nice_name, instruction_set, app_data_dir);''"

definition ret_value :: "hook_class \<Rightarrow> string" where
  "ret_value c = (if c = SpecializeApp then '''' else ''ctx.pid'')"

definition hook_body :: "hook_class \<Rightarrow> gparam list \<Rightarrow> string \<Rightarrow> string" where
  "hook_body c as orig_fn_ptr =
     ind 3 @ init_args_text c @
     concat (map (\<lambda>(p, t, b). if b then ind 3 @ ''args.'' @ param_name p @ '' = &'' @ param_name p @ '';'' else '''') as) @
     ind 3 @ ''ZygiskContext ctx(env, &args);'' @
     ind 3 @ ''ctx.'' @ hook_target c @ ''_pre();'' @
     ind 3 @ ''reinterpret_cast<'' @ cpp_fn_type (ret_type c) as @ '')>('' @ orig_fn_ptr @ '')('' @
     ind 4 @ arg_list_name as @
     ind 3 @ '');'' @
     ind 3 @ ''ctx.'' @ hook_target c @ ''_post();'' @
     (if ret_value c \<noteq> '''' then ind 3 @ ''return '' @ ret_value c @ '';'' else '''')"

text \<open>A method is given by its version and its arguments.\<close>

definition method_text :: "hook_class \<Rightarrow> string \<Rightarrow> nat \<Rightarrow> string \<times> gparam list \<Rightarrow> string" where
  "method_text c field i m =
     (case m of (ver, as) \<Rightarrow>
     ind 1 @ ''// '' @ hook_target c @ ''_'' @ ver @
     ind 1 @ ''{'' @
     ind 2 @ CHR 0x22 # hook_target c @ CHR 0x22 # '','' @
     ind 2 @ CHR 0x22 # jni_sig (map (fst \<circ> snd) as) (ret_type c) @ CHR 0x22 # '','' @
     ind 2 @ ''(void *) +'' @ cpp_lambda_sig (ret_type c) as @ '' {'' @
     hook_body c as (''get_defs()->'' @ field @ ''['' @ show_num 10 i @ ''].fnPtr'') @
     ind 2 @ ''}'' @
     ind 1 @ ''},'')"

definition jni_def_text :: "hook_class \<Rightarrow> string \<Rightarrow> (string \<times> gparam list) list \<Rightarrow> string" where
  "jni_def_text c field ms =
     ind 0 @ ''std::array<JNINativeMethod, '' @ show_num 10 (length ms) @ ''> '' @ field @ '' = {{'' @
     concat (map (\<lambda>(i, m). method_text c field i m) (enumerate 0 ms)) @
     ind 0 @ ''}};'' @ ind 0"

definition versions :: "jtable \<Rightarrow> string list" where
  "versions t = (case t of
     Fork_app \<Rightarrow> [''l'', ''o'', ''p'', ''q_alt'', ''r'', ''u'', ''b'', ''samsung_m'', ''samsung_n'', ''samsung_o'',
       ''samsung_p'', ''nubia_u'']
   | Specialize_app \<Rightarrow> [''q'', ''q_alt'', ''r'', ''u'', ''xr_u'', ''samsung_q'', ''nubia_u'']
   | Fork_server \<Rightarrow> [''l'', ''samsung_q''])"

definition preamble :: string where
  "preamble = ''// Generated by gen_jni_hooks.py'' @ [CHR 0x0A] @ ''#pragma once'' @ [CHR 0x0A, CHR 0x0A] @
     ''struct JniHookDefinitions;'' @ [CHR 0x0A] @ ''static JniHookDefinitions *get_defs();'' @ [CHR 0x0A, CHR 0x0A] @
     ''struct JniHookDefinitions {'' @ [CHR 0x0A]"

definition header_text :: string where
  "header_text = preamble @
     jni_def_text ForkApp ''fork_app_methods'' (zip (versions Fork_app) (take 12 all_methods)) @
     jni_def_text SpecializeApp ''specialize_app_methods'' (zip (versions Specialize_app) (take 7 (drop 12 all_methods))) @
     jni_def_text ForkServer ''fork_server_methods'' (zip (versions Fork_server) (drop 19 all_methods)) @
     CHR 0x0A # ''};'' @ [CHR 0x0A]"

section \<open>The text of an entry\<close>

text \<open>
  An entry of the tables as C++ text, each part from the field of the record that stands for it.
\<close>

fun jcall_name :: "jcall \<Rightarrow> string" where
  "jcall_name ForkAndSpecialize = ''nativeForkAndSpecialize''"
| "jcall_name SpecializeAppProcess = ''nativeSpecializeAppProcess''"
| "jcall_name ForkSystemServer = ''nativeForkSystemServer''"

fun jargs_text :: "jargs \<Rightarrow> string" where
  "jargs_text (App_args ps) = ''AppSpecializeArgs_v5 args('' @ commas (map param_name ps) @ '');''"
| "jargs_text (Server_args ps) = ''ServerSpecializeArgs_v1 args('' @ commas (map param_name ps) @ '');''"

definition params_text :: "(jparam \<times> jtype) list \<Rightarrow> string" where
  "params_text ps = ''JNIEnv *env, jclass clazz, '' @ commas (map (\<lambda>(p, t). type_name t @ '' '' @ param_name p) ps)"

definition entry_text :: "string \<Rightarrow> jni_hook \<Rightarrow> string" where
  "entry_text ver h =
     ind 1 @ ''// '' @ jh_name h @ ''_'' @ ver @
     ind 1 @ ''{'' @
     ind 2 @ CHR 0x22 # jh_name h @ CHR 0x22 # '','' @
     ind 2 @ CHR 0x22 # jh_sig h @ CHR 0x22 # '','' @
     ind 2 @ ''(void *) +[] [[clang::no_stack_protector]] ('' @ params_text (jh_params h) @
       '') static -> '' @ type_name (jh_ret h) @ '' {'' @
     ind 3 @ jargs_text (jh_args h) @
     concat (map (\<lambda>(m, p). ind 3 @ ''args.'' @ param_name m @ '' = &'' @ param_name p @ '';'') (jh_set h)) @
     ind 3 @ ''ZygiskContext ctx(env, &args);'' @
     ind 3 @ ''ctx.'' @ jcall_name (jh_pre h) @ ''_pre();'' @
     ind 3 @ ''reinterpret_cast<'' @ type_name (jh_cast_ret h) @ ''(*)('' @
       params_text (zip (jh_forward h) (jh_cast h)) @ '')>(get_defs()->'' @ field_name (fst (jh_orig h)) @ ''['' @
       show_num 10 (snd (jh_orig h)) @ ''].fnPtr)('' @
     ind 4 @ ''env, clazz, '' @ commas (map param_name (jh_forward h)) @
     ind 3 @ '');'' @
     ind 3 @ ''ctx.'' @ jcall_name (jh_post h) @ ''_post();'' @
     (if jh_returns_pid h then ind 3 @ ''return ctx.pid;'' else '''') @
     ind 2 @ ''}'' @
     ind 1 @ ''},''"

definition table_text :: "jtable \<Rightarrow> jni_hook list \<Rightarrow> string" where
  "table_text t hs =
     ind 0 @ ''std::array<JNINativeMethod, '' @ show_num 10 (length hs) @ ''> '' @ field_name t @ '' = {{'' @
     concat (map2 entry_text (versions t) hs) @
     ind 0 @ ''}};'' @ ind 0"

definition tables_text :: "(jtable \<Rightarrow> jni_hook list) \<Rightarrow> string" where
  "tables_text ts = preamble @ table_text Fork_app (ts Fork_app) @ table_text Specialize_app (ts Specialize_app) @
     table_text Fork_server (ts Fork_server) @ CHR 0x0A # ''};'' @ [CHR 0x0A]"

lemma target_call_name: "jcall_name (target_call c) = hook_target c"
  by (cases c) simp_all

lemma init_args_name: "jargs_text (init_args c) = init_args_text c"
  by (cases c) simp_all

lemma params_text_args:
  "params_text (map (\<lambda>(p, t, _). (p, cpp t)) as) = arg_list_cpp as"
  "params_text (zip (map fst as) (map (\<lambda>(_, t, _). cpp t) as)) = arg_list_cpp as"
proof -
  have z: "zip (map fst as) (map (\<lambda>(_, t, _). cpp t) as) = map (\<lambda>(p, t, _). (p, cpp t)) as"
    by (induction as) auto
  have m: "map (\<lambda>(p, t). type_name t @ '' '' @ param_name p) (map (\<lambda>(p, t, _). (p, cpp t)) as) = map arg_cpp as"
    by (induction as) auto
  show "params_text (map (\<lambda>(p, t, _). (p, cpp t)) as) = arg_list_cpp as"
    unfolding params_text_def arg_list_cpp_def m ..
  then show "params_text (zip (map fst as) (map (\<lambda>(_, t, _). cpp t) as)) = arg_list_cpp as"
    unfolding z .
qed

lemma set_text:
  "concat (map (\<lambda>(m, p). f m p) (map (\<lambda>(p, _). (p, p)) (filter (\<lambda>(_, _, b). b) as))) =
   concat (map (\<lambda>(p, t, b). if b then f p p else []) as)"
  by (induction as) auto

lemma entry_method: "entry_text ver (gen_method c t i as) = method_text c (field_name t) i (ver, as)"
proof -
  have f: "map param_name (map fst as) = map (\<lambda>(p, _). param_name p) as" by (induction as) auto
  show ?thesis
    unfolding entry_text_def gen_method_def method_text_def hook_body_def cpp_fn_type_def cpp_lambda_sig_def
      jni_hook.select_convs prod.case params_text_args set_text target_call_name init_args_name fst_conv snd_conv f
      arg_list_name_def
    by (simp add: ret_value_def)
qed

lemma table_def_text:
  assumes "length ms = length (versions t)"
  shows "table_text t (gen_jni_def c t ms) = jni_def_text c (field_name t) (zip (versions t) ms)"
proof -
  have "map2 entry_text (versions t) (gen_jni_def c t ms) =
      map (\<lambda>(i, m). method_text c (field_name t) i m) (enumerate 0 (zip (versions t) ms))"
    using assms by (intro nth_equalityI) (simp_all add: gen_jni_def_nth entry_method nth_enumerate_eq)
  then show ?thesis
    using assms by (simp add: table_text_def jni_def_text_def)
qed

lemma header_is_tables: "header_text = tables_text generated"
proof -
  have l: "length (take 12 all_methods) = length (versions Fork_app)"
    "length (take 7 (drop 12 all_methods)) = length (versions Specialize_app)"
    "length (drop 19 all_methods) = length (versions Fork_server)"
    by code_simp+
  show ?thesis
    unfolding header_text_def tables_text_def generated.simps
    by (simp only: table_def_text [OF l(1)] table_def_text [OF l(2)] table_def_text [OF l(3)] field_name.simps)
qed

end
