(* ===== verification/JniHeader.thy ===== *)
theory JniHeader
  imports JniText
begin

text \<open>
  The file \<^verbatim>\<open>libzygisk/src/jni_hooks.hpp\<close> itself, line by line, compared with what the generator
  writes and with the text of the entries of \<open>JniHooks\<close>.
\<close>

section \<open>The checked-in file\<close>

definition hpp_top :: "string list" where
  \<open>hpp_top = [
     ''// Generated by gen_jni_hooks.py'',
     ''#pragma once'',
     '''',
     ''struct JniHookDefinitions;'',
     ''static JniHookDefinitions *get_defs();'',
     '''',
     ''struct JniHookDefinitions {'',
     '''']\<close>

definition hpp_ForkAndSpecialize_l :: "string list" where
  \<open>hpp_ForkAndSpecialize_l = [
     ''    // nativeForkAndSpecialize_l'',
     ''    {'',
     ''        "nativeForkAndSpecialize",'',
     ''        "(II[II[[IILjava/lang/String;Ljava/lang/String;[ILjava/lang/String;Ljava/lang/String;)I",'',
     ''        (void *) +[] [[clang::no_stack_protector]] (JNIEnv *env, jclass clazz, jint uid, jint gid, jintArray gids, jint runtime_flags, jobjectArray rlimits, jint mount_external, jstring se_info, jstring nice_name, jintArray fds_to_close, jstring instruction_set, jstring app_data_dir) static -> jint {'',
     ''            AppSpecializeArgs_v5 args(uid, gid, gids, runtime_flags, rlimits, mount_external, se_info, nice_name, instruction_set, app_data_dir);'',
     ''            ZygiskContext ctx(env, &args);'',
     ''            ctx.nativeForkAndSpecialize_pre();'',
     ''            reinterpret_cast<jint(*)(JNIEnv *env, jclass clazz, jint uid, jint gid, jintArray gids, jint runtime_flags, jobjectArray rlimits, jint mount_external, jstring se_info, jstring nice_name, jintArray fds_to_close, jstring instruction_set, jstring app_data_dir)>(get_defs()->fork_app_methods[0].fnPtr)('',
     ''                env, clazz, uid, gid, gids, runtime_flags, rlimits, mount_external, se_info, nice_name, fds_to_close, instruction_set, app_data_dir'',
     ''            );'',
     ''            ctx.nativeForkAndSpecialize_post();'',
     ''            return ctx.pid;'',
     ''        }'',
     ''    },'']\<close>

definition hpp_ForkAndSpecialize_o :: "string list" where
  \<open>hpp_ForkAndSpecialize_o = [
     ''    // nativeForkAndSpecialize_o'',
     ''    {'',
     ''        "nativeForkAndSpecialize",'',
     ''        "(II[II[[IILjava/lang/String;Ljava/lang/String;[I[ILjava/lang/String;Ljava/lang/String;)I",'',
     ''        (void *) +[] [[clang::no_stack_protector]] (JNIEnv *env, jclass clazz, jint uid, jint gid, jintArray gids, jint runtime_flags, jobjectArray rlimits, jint mount_external, jstring se_info, jstring nice_name, jintArray fds_to_close, jintArray fds_to_ignore, jstring instruction_set, jstring app_data_dir) static -> jint {'',
     ''            AppSpecializeArgs_v5 args(uid, gid, gids, runtime_flags, rlimits, mount_external, se_info, nice_name, instruction_set, app_data_dir);'',
     ''            args.fds_to_ignore = &fds_to_ignore;'',
     ''            ZygiskContext ctx(env, &args);'',
     ''            ctx.nativeForkAndSpecialize_pre();'',
     ''            reinterpret_cast<jint(*)(JNIEnv *env, jclass clazz, jint uid, jint gid, jintArray gids, jint runtime_flags, jobjectArray rlimits, jint mount_external, jstring se_info, jstring nice_name, jintArray fds_to_close, jintArray fds_to_ignore, jstring instruction_set, jstring app_data_dir)>(get_defs()->fork_app_methods[1].fnPtr)('',
     ''                env, clazz, uid, gid, gids, runtime_flags, rlimits, mount_external, se_info, nice_name, fds_to_close, fds_to_ignore, instruction_set, app_data_dir'',
     ''            );'',
     ''            ctx.nativeForkAndSpecialize_post();'',
     ''            return ctx.pid;'',
     ''        }'',
     ''    },'']\<close>

definition hpp_ForkAndSpecialize_p :: "string list" where
  \<open>hpp_ForkAndSpecialize_p = [
     ''    // nativeForkAndSpecialize_p'',
     ''    {'',
     ''        "nativeForkAndSpecialize",'',
     ''        "(II[II[[IILjava/lang/String;Ljava/lang/String;[I[IZLjava/lang/String;Ljava/lang/String;)I",'',
     ''        (void *) +[] [[clang::no_stack_protector]] (JNIEnv *env, jclass clazz, jint uid, jint gid, jintArray gids, jint runtime_flags, jobjectArray rlimits, jint mount_external, jstring se_info, jstring nice_name, jintArray fds_to_close, jintArray fds_to_ignore, jboolean is_child_zygote, jstring instruction_set, jstring app_data_dir) static -> jint {'',
     ''            AppSpecializeArgs_v5 args(uid, gid, gids, runtime_flags, rlimits, mount_external, se_info, nice_name, instruction_set, app_data_dir);'',
     ''            args.fds_to_ignore = &fds_to_ignore;'',
     ''            args.is_child_zygote = &is_child_zygote;'',
     ''            ZygiskContext ctx(env, &args);'',
     ''            ctx.nativeForkAndSpecialize_pre();'',
     ''            reinterpret_cast<jint(*)(JNIEnv *env, jclass clazz, jint uid, jint gid, jintArray gids, jint runtime_flags, jobjectArray rlimits, jint mount_external, jstring se_info, jstring nice_name, jintArray fds_to_close, jintArray fds_to_ignore, jboolean is_child_zygote, jstring instruction_set, jstring app_data_dir)>(get_defs()->fork_app_methods[2].fnPtr)('',
     ''                env, clazz, uid, gid, gids, runtime_flags, rlimits, mount_external, se_info, nice_name, fds_to_close, fds_to_ignore, is_child_zygote, instruction_set, app_data_dir'',
     ''            );'',
     ''            ctx.nativeForkAndSpecialize_post();'',
     ''            return ctx.pid;'',
     ''        }'',
     ''    },'']\<close>

definition hpp_ForkAndSpecialize_q_alt :: "string list" where
  \<open>hpp_ForkAndSpecialize_q_alt = [
     ''    // nativeForkAndSpecialize_q_alt'',
     ''    {'',
     ''        "nativeForkAndSpecialize",'',
     ''        "(II[II[[IILjava/lang/String;Ljava/lang/String;[I[IZLjava/lang/String;Ljava/lang/String;Z)I",'',
     ''        (void *) +[] [[clang::no_stack_protector]] (JNIEnv *env, jclass clazz, jint uid, jint gid, jintArray gids, jint runtime_flags, jobjectArray rlimits, jint mount_external, jstring se_info, jstring nice_name, jintArray fds_to_close, jintArray fds_to_ignore, jboolean is_child_zygote, jstring instruction_set, jstring app_data_dir, jboolean is_top_app) static -> jint {'',
     ''            AppSpecializeArgs_v5 args(uid, gid, gids, runtime_flags, rlimits, mount_external, se_info, nice_name, instruction_set, app_data_dir);'',
     ''            args.fds_to_ignore = &fds_to_ignore;'',
     ''            args.is_child_zygote = &is_child_zygote;'',
     ''            args.is_top_app = &is_top_app;'',
     ''            ZygiskContext ctx(env, &args);'',
     ''            ctx.nativeForkAndSpecialize_pre();'',
     ''            reinterpret_cast<jint(*)(JNIEnv *env, jclass clazz, jint uid, jint gid, jintArray gids, jint runtime_flags, jobjectArray rlimits, jint mount_external, jstring se_info, jstring nice_name, jintArray fds_to_close, jintArray fds_to_ignore, jboolean is_child_zygote, jstring instruction_set, jstring app_data_dir, jboolean is_top_app)>(get_defs()->fork_app_methods[3].fnPtr)('',
     ''                env, clazz, uid, gid, gids, runtime_flags, rlimits, mount_external, se_info, nice_name, fds_to_close, fds_to_ignore, is_child_zygote, instruction_set, app_data_dir, is_top_app'',
     ''            );'',
     ''            ctx.nativeForkAndSpecialize_post();'',
     ''            return ctx.pid;'',
     ''        }'',
     ''    },'']\<close>

definition hpp_ForkAndSpecialize_r :: "string list" where
  \<open>hpp_ForkAndSpecialize_r = [
     ''    // nativeForkAndSpecialize_r'',
     ''    {'',
     ''        "nativeForkAndSpecialize",'',
     ''        "(II[II[[IILjava/lang/String;Ljava/lang/String;[I[IZLjava/lang/String;Ljava/lang/String;Z[Ljava/lang/String;[Ljava/lang/String;ZZ)I",'',
     ''        (void *) +[] [[clang::no_stack_protector]] (JNIEnv *env, jclass clazz, jint uid, jint gid, jintArray gids, jint runtime_flags, jobjectArray rlimits, jint mount_external, jstring se_info, jstring nice_name, jintArray fds_to_close, jintArray fds_to_ignore, jboolean is_child_zygote, jstring instruction_set, jstring app_data_dir, jboolean is_top_app, jobjectArray pkg_data_info_list, jobjectArray whitelisted_data_info_list, jboolean mount_data_dirs, jboolean mount_storage_dirs) static -> jint {'',
     ''            AppSpecializeArgs_v5 args(uid, gid, gids, runtime_flags, rlimits, mount_external, se_info, nice_name, instruction_set, app_data_dir);'',
     ''            args.fds_to_ignore = &fds_to_ignore;'',
     ''            args.is_child_zygote = &is_child_zygote;'',
     ''            args.is_top_app = &is_top_app;'',
     ''            args.pkg_data_info_list = &pkg_data_info_list;'',
     ''            args.whitelisted_data_info_list = &whitelisted_data_info_list;'',
     ''            args.mount_data_dirs = &mount_data_dirs;'',
     ''            args.mount_storage_dirs = &mount_storage_dirs;'',
     ''            ZygiskContext ctx(env, &args);'',
     ''            ctx.nativeForkAndSpecialize_pre();'',
     ''            reinterpret_cast<jint(*)(JNIEnv *env, jclass clazz, jint uid, jint gid, jintArray gids, jint runtime_flags, jobjectArray rlimits, jint mount_external, jstring se_info, jstring nice_name, jintArray fds_to_close, jintArray fds_to_ignore, jboolean is_child_zygote, jstring instruction_set, jstring app_data_dir, jboolean is_top_app, jobjectArray pkg_data_info_list, jobjectArray whitelisted_data_info_list, jboolean mount_data_dirs, jboolean mount_storage_dirs)>(get_defs()->fork_app_methods[4].fnPtr)('',
     ''                env, clazz, uid, gid, gids, runtime_flags, rlimits, mount_external, se_info, nice_name, fds_to_close, fds_to_ignore, is_child_zygote, instruction_set, app_data_dir, is_top_app, pkg_data_info_list, whitelisted_data_info_list, mount_data_dirs, mount_storage_dirs'',
     ''            );'',
     ''            ctx.nativeForkAndSpecialize_post();'',
     ''            return ctx.pid;'',
     ''        }'',
     ''    },'']\<close>

definition hpp_ForkAndSpecialize_u :: "string list" where
  \<open>hpp_ForkAndSpecialize_u = [
     ''    // nativeForkAndSpecialize_u'',
     ''    {'',
     ''        "nativeForkAndSpecialize",'',
     ''        "(II[II[[IILjava/lang/String;Ljava/lang/String;[I[IZLjava/lang/String;Ljava/lang/String;Z[Ljava/lang/String;[Ljava/lang/String;ZZZ)I",'',
     ''        (void *) +[] [[clang::no_stack_protector]] (JNIEnv *env, jclass clazz, jint uid, jint gid, jintArray gids, jint runtime_flags, jobjectArray rlimits, jint mount_external, jstring se_info, jstring nice_name, jintArray fds_to_close, jintArray fds_to_ignore, jboolean is_child_zygote, jstring instruction_set, jstring app_data_dir, jboolean is_top_app, jobjectArray pkg_data_info_list, jobjectArray whitelisted_data_info_list, jboolean mount_data_dirs, jboolean mount_storage_dirs, jboolean mount_sysprop_overrides) static -> jint {'',
     ''            AppSpecializeArgs_v5 args(uid, gid, gids, runtime_flags, rlimits, mount_external, se_info, nice_name, instruction_set, app_data_dir);'',
     ''            args.fds_to_ignore = &fds_to_ignore;'',
     ''            args.is_child_zygote = &is_child_zygote;'',
     ''            args.is_top_app = &is_top_app;'',
     ''            args.pkg_data_info_list = &pkg_data_info_list;'',
     ''            args.whitelisted_data_info_list = &whitelisted_data_info_list;'',
     ''            args.mount_data_dirs = &mount_data_dirs;'',
     ''            args.mount_storage_dirs = &mount_storage_dirs;'',
     ''            args.mount_sysprop_overrides = &mount_sysprop_overrides;'',
     ''            ZygiskContext ctx(env, &args);'',
     ''            ctx.nativeForkAndSpecialize_pre();'',
     ''            reinterpret_cast<jint(*)(JNIEnv *env, jclass clazz, jint uid, jint gid, jintArray gids, jint runtime_flags, jobjectArray rlimits, jint mount_external, jstring se_info, jstring nice_name, jintArray fds_to_close, jintArray fds_to_ignore, jboolean is_child_zygote, jstring instruction_set, jstring app_data_dir, jboolean is_top_app, jobjectArray pkg_data_info_list, jobjectArray whitelisted_data_info_list, jboolean mount_data_dirs, jboolean mount_storage_dirs, jboolean mount_sysprop_overrides)>(get_defs()->fork_app_methods[5].fnPtr)('',
     ''                env, clazz, uid, gid, gids, runtime_flags, rlimits, mount_external, se_info, nice_name, fds_to_close, fds_to_ignore, is_child_zygote, instruction_set, app_data_dir, is_top_app, pkg_data_info_list, whitelisted_data_info_list, mount_data_dirs, mount_storage_dirs, mount_sysprop_overrides'',
     ''            );'',
     ''            ctx.nativeForkAndSpecialize_post();'',
     ''            return ctx.pid;'',
     ''        }'',
     ''    },'']\<close>

definition hpp_ForkAndSpecialize_b :: "string list" where
  \<open>hpp_ForkAndSpecialize_b = [
     ''    // nativeForkAndSpecialize_b'',
     ''    {'',
     ''        "nativeForkAndSpecialize",'',
     ''        "(II[II[[IILjava/lang/String;Ljava/lang/String;[I[IZLjava/lang/String;Ljava/lang/String;ZZ[Ljava/lang/String;[Ljava/lang/String;ZZZ)I",'',
     ''        (void *) +[] [[clang::no_stack_protector]] (JNIEnv *env, jclass clazz, jint uid, jint gid, jintArray gids, jint runtime_flags, jobjectArray rlimits, jint mount_external, jstring se_info, jstring nice_name, jintArray fds_to_close, jintArray fds_to_ignore, jboolean is_child_zygote, jstring instruction_set, jstring app_data_dir, jboolean is_top_app, jboolean use_fifo_ui, jobjectArray pkg_data_info_list, jobjectArray whitelisted_data_info_list, jboolean mount_data_dirs, jboolean mount_storage_dirs, jboolean mount_sysprop_overrides) static -> jint {'',
     ''            AppSpecializeArgs_v5 args(uid, gid, gids, runtime_flags, rlimits, mount_external, se_info, nice_name, instruction_set, app_data_dir);'',
     ''            args.fds_to_ignore = &fds_to_ignore;'',
     ''            args.is_child_zygote = &is_child_zygote;'',
     ''            args.is_top_app = &is_top_app;'',
     ''            args.pkg_data_info_list = &pkg_data_info_list;'',
     ''            args.whitelisted_data_info_list = &whitelisted_data_info_list;'',
     ''            args.mount_data_dirs = &mount_data_dirs;'',
     ''            args.mount_storage_dirs = &mount_storage_dirs;'',
     ''            args.mount_sysprop_overrides = &mount_sysprop_overrides;'',
     ''            ZygiskContext ctx(env, &args);'',
     ''            ctx.nativeForkAndSpecialize_pre();'',
     ''            reinterpret_cast<jint(*)(JNIEnv *env, jclass clazz, jint uid, jint gid, jintArray gids, jint runtime_flags, jobjectArray rlimits, jint mount_external, jstring se_info, jstring nice_name, jintArray fds_to_close, jintArray fds_to_ignore, jboolean is_child_zygote, jstring instruction_set, jstring app_data_dir, jboolean is_top_app, jboolean use_fifo_ui, jobjectArray pkg_data_info_list, jobjectArray whitelisted_data_info_list, jboolean mount_data_dirs, jboolean mount_storage_dirs, jboolean mount_sysprop_overrides)>(get_defs()->fork_app_methods[6].fnPtr)('',
     ''                env, clazz, uid, gid, gids, runtime_flags, rlimits, mount_external, se_info, nice_name, fds_to_close, fds_to_ignore, is_child_zygote, instruction_set, app_data_dir, is_top_app, use_fifo_ui, pkg_data_info_list, whitelisted_data_info_list, mount_data_dirs, mount_storage_dirs, mount_sysprop_overrides'',
     ''            );'',
     ''            ctx.nativeForkAndSpecialize_post();'',
     ''            return ctx.pid;'',
     ''        }'',
     ''    },'']\<close>

definition hpp_ForkAndSpecialize_samsung_m :: "string list" where
  \<open>hpp_ForkAndSpecialize_samsung_m = [
     ''    // nativeForkAndSpecialize_samsung_m'',
     ''    {'',
     ''        "nativeForkAndSpecialize",'',
     ''        "(II[II[[IILjava/lang/String;IILjava/lang/String;[ILjava/lang/String;Ljava/lang/String;)I",'',
     ''        (void *) +[] [[clang::no_stack_protector]] (JNIEnv *env, jclass clazz, jint uid, jint gid, jintArray gids, jint runtime_flags, jobjectArray rlimits, jint mount_external, jstring se_info, jint _0, jint _1, jstring nice_name, jintArray fds_to_close, jstring instruction_set, jstring app_data_dir) static -> jint {'',
     ''            AppSpecializeArgs_v5 args(uid, gid, gids, runtime_flags, rlimits, mount_external, se_info, nice_name, instruction_set, app_data_dir);'',
     ''            ZygiskContext ctx(env, &args);'',
     ''            ctx.nativeForkAndSpecialize_pre();'',
     ''            reinterpret_cast<jint(*)(JNIEnv *env, jclass clazz, jint uid, jint gid, jintArray gids, jint runtime_flags, jobjectArray rlimits, jint mount_external, jstring se_info, jint _0, jint _1, jstring nice_name, jintArray fds_to_close, jstring instruction_set, jstring app_data_dir)>(get_defs()->fork_app_methods[7].fnPtr)('',
     ''                env, clazz, uid, gid, gids, runtime_flags, rlimits, mount_external, se_info, _0, _1, nice_name, fds_to_close, instruction_set, app_data_dir'',
     ''            );'',
     ''            ctx.nativeForkAndSpecialize_post();'',
     ''            return ctx.pid;'',
     ''        }'',
     ''    },'']\<close>

definition hpp_ForkAndSpecialize_samsung_n :: "string list" where
  \<open>hpp_ForkAndSpecialize_samsung_n = [
     ''    // nativeForkAndSpecialize_samsung_n'',
     ''    {'',
     ''        "nativeForkAndSpecialize",'',
     ''        "(II[II[[IILjava/lang/String;IILjava/lang/String;[ILjava/lang/String;Ljava/lang/String;I)I",'',
     ''        (void *) +[] [[clang::no_stack_protector]] (JNIEnv *env, jclass clazz, jint uid, jint gid, jintArray gids, jint runtime_flags, jobjectArray rlimits, jint mount_external, jstring se_info, jint _2, jint _3, jstring nice_name, jintArray fds_to_close, jstring instruction_set, jstring app_data_dir, jint _4) static -> jint {'',
     ''            AppSpecializeArgs_v5 args(uid, gid, gids, runtime_flags, rlimits, mount_external, se_info, nice_name, instruction_set, app_data_dir);'',
     ''            ZygiskContext ctx(env, &args);'',
     ''            ctx.nativeForkAndSpecialize_pre();'',
     ''            reinterpret_cast<jint(*)(JNIEnv *env, jclass clazz, jint uid, jint gid, jintArray gids, jint runtime_flags, jobjectArray rlimits, jint mount_external, jstring se_info, jint _2, jint _3, jstring nice_name, jintArray fds_to_close, jstring instruction_set, jstring app_data_dir, jint _4)>(get_defs()->fork_app_methods[8].fnPtr)('',
     ''                env, clazz, uid, gid, gids, runtime_flags, rlimits, mount_external, se_info, _2, _3, nice_name, fds_to_close, instruction_set, app_data_dir, _4'',
     ''            );'',
     ''            ctx.nativeForkAndSpecialize_post();'',
     ''            return ctx.pid;'',
     ''        }'',
     ''    },'']\<close>

definition hpp_ForkAndSpecialize_samsung_o :: "string list" where
  \<open>hpp_ForkAndSpecialize_samsung_o = [
     ''    // nativeForkAndSpecialize_samsung_o'',
     ''    {'',
     ''        "nativeForkAndSpecialize",'',
     ''        "(II[II[[IILjava/lang/String;IILjava/lang/String;[I[ILjava/lang/String;Ljava/lang/String;)I",'',
     ''        (void *) +[] [[clang::no_stack_protector]] (JNIEnv *env, jclass clazz, jint uid, jint gid, jintArray gids, jint runtime_flags, jobjectArray rlimits, jint mount_external, jstring se_info, jint _5, jint _6, jstring nice_name, jintArray fds_to_close, jintArray fds_to_ignore, jstring instruction_set, jstring app_data_dir) static -> jint {'',
     ''            AppSpecializeArgs_v5 args(uid, gid, gids, runtime_flags, rlimits, mount_external, se_info, nice_name, instruction_set, app_data_dir);'',
     ''            args.fds_to_ignore = &fds_to_ignore;'',
     ''            ZygiskContext ctx(env, &args);'',
     ''            ctx.nativeForkAndSpecialize_pre();'',
     ''            reinterpret_cast<jint(*)(JNIEnv *env, jclass clazz, jint uid, jint gid, jintArray gids, jint runtime_flags, jobjectArray rlimits, jint mount_external, jstring se_info, jint _5, jint _6, jstring nice_name, jintArray fds_to_close, jintArray fds_to_ignore, jstring instruction_set, jstring app_data_dir)>(get_defs()->fork_app_methods[9].fnPtr)('',
     ''                env, clazz, uid, gid, gids, runtime_flags, rlimits, mount_external, se_info, _5, _6, nice_name, fds_to_close, fds_to_ignore, instruction_set, app_data_dir'',
     ''            );'',
     ''            ctx.nativeForkAndSpecialize_post();'',
     ''            return ctx.pid;'',
     ''        }'',
     ''    },'']\<close>

definition hpp_ForkAndSpecialize_samsung_p :: "string list" where
  \<open>hpp_ForkAndSpecialize_samsung_p = [
     ''    // nativeForkAndSpecialize_samsung_p'',
     ''    {'',
     ''        "nativeForkAndSpecialize",'',
     ''        "(II[II[[IILjava/lang/String;IILjava/lang/String;[I[IZLjava/lang/String;Ljava/lang/String;)I",'',
     ''        (void *) +[] [[clang::no_stack_protector]] (JNIEnv *env, jclass clazz, jint uid, jint gid, jintArray gids, jint runtime_flags, jobjectArray rlimits, jint mount_external, jstring se_info, jint _7, jint _8, jstring nice_name, jintArray fds_to_close, jintArray fds_to_ignore, jboolean is_child_zygote, jstring instruction_set, jstring app_data_dir) static -> jint {'',
     ''            AppSpecializeArgs_v5 args(uid, gid, gids, runtime_flags, rlimits, mount_external, se_info, nice_name, instruction_set, app_data_dir);'',
     ''            args.fds_to_ignore = &fds_to_ignore;'',
     ''            args.is_child_zygote = &is_child_zygote;'',
     ''            ZygiskContext ctx(env, &args);'',
     ''            ctx.nativeForkAndSpecialize_pre();'',
     ''            reinterpret_cast<jint(*)(JNIEnv *env, jclass clazz, jint uid, jint gid, jintArray gids, jint runtime_flags, jobjectArray rlimits, jint mount_external, jstring se_info, jint _7, jint _8, jstring nice_name, jintArray fds_to_close, jintArray fds_to_ignore, jboolean is_child_zygote, jstring instruction_set, jstring app_data_dir)>(get_defs()->fork_app_methods[10].fnPtr)('',
     ''                env, clazz, uid, gid, gids, runtime_flags, rlimits, mount_external, se_info, _7, _8, nice_name, fds_to_close, fds_to_ignore, is_child_zygote, instruction_set, app_data_dir'',
     ''            );'',
     ''            ctx.nativeForkAndSpecialize_post();'',
     ''            return ctx.pid;'',
     ''        }'',
     ''    },'']\<close>

definition hpp_ForkAndSpecialize_nubia_u :: "string list" where
  \<open>hpp_ForkAndSpecialize_nubia_u = [
     ''    // nativeForkAndSpecialize_nubia_u'',
     ''    {'',
     ''        "nativeForkAndSpecialize",'',
     ''        "(II[II[[IILjava/lang/String;Ljava/lang/String;[I[IZLjava/lang/String;Ljava/lang/String;ZZ[Ljava/lang/String;[Ljava/lang/String;ZZZLjava/lang/String;)I",'',
     ''        (void *) +[] [[clang::no_stack_protector]] (JNIEnv *env, jclass clazz, jint uid, jint gid, jintArray gids, jint runtime_flags, jobjectArray rlimits, jint mount_external, jstring se_info, jstring nice_name, jintArray fds_to_close, jintArray fds_to_ignore, jboolean is_child_zygote, jstring instruction_set, jstring app_data_dir, jboolean is_top_app, jboolean use_fifo_ui, jobjectArray pkg_data_info_list, jobjectArray whitelisted_data_info_list, jboolean mount_data_dirs, jboolean mount_storage_dirs, jboolean mount_sysprop_overrides, jstring _9) static -> jint {'',
     ''            AppSpecializeArgs_v5 args(uid, gid, gids, runtime_flags, rlimits, mount_external, se_info, nice_name, instruction_set, app_data_dir);'',
     ''            args.fds_to_ignore = &fds_to_ignore;'',
     ''            args.is_child_zygote = &is_child_zygote;'',
     ''            args.is_top_app = &is_top_app;'',
     ''            args.pkg_data_info_list = &pkg_data_info_list;'',
     ''            args.whitelisted_data_info_list = &whitelisted_data_info_list;'',
     ''            args.mount_data_dirs = &mount_data_dirs;'',
     ''            args.mount_storage_dirs = &mount_storage_dirs;'',
     ''            args.mount_sysprop_overrides = &mount_sysprop_overrides;'',
     ''            ZygiskContext ctx(env, &args);'',
     ''            ctx.nativeForkAndSpecialize_pre();'',
     ''            reinterpret_cast<jint(*)(JNIEnv *env, jclass clazz, jint uid, jint gid, jintArray gids, jint runtime_flags, jobjectArray rlimits, jint mount_external, jstring se_info, jstring nice_name, jintArray fds_to_close, jintArray fds_to_ignore, jboolean is_child_zygote, jstring instruction_set, jstring app_data_dir, jboolean is_top_app, jboolean use_fifo_ui, jobjectArray pkg_data_info_list, jobjectArray whitelisted_data_info_list, jboolean mount_data_dirs, jboolean mount_storage_dirs, jboolean mount_sysprop_overrides, jstring _9)>(get_defs()->fork_app_methods[11].fnPtr)('',
     ''                env, clazz, uid, gid, gids, runtime_flags, rlimits, mount_external, se_info, nice_name, fds_to_close, fds_to_ignore, is_child_zygote, instruction_set, app_data_dir, is_top_app, use_fifo_ui, pkg_data_info_list, whitelisted_data_info_list, mount_data_dirs, mount_storage_dirs, mount_sysprop_overrides, _9'',
     ''            );'',
     ''            ctx.nativeForkAndSpecialize_post();'',
     ''            return ctx.pid;'',
     ''        }'',
     ''    },'']\<close>

definition hpp_SpecializeAppProcess_q :: "string list" where
  \<open>hpp_SpecializeAppProcess_q = [
     ''    // nativeSpecializeAppProcess_q'',
     ''    {'',
     ''        "nativeSpecializeAppProcess",'',
     ''        "(II[II[[IILjava/lang/String;Ljava/lang/String;ZLjava/lang/String;Ljava/lang/String;)V",'',
     ''        (void *) +[] [[clang::no_stack_protector]] (JNIEnv *env, jclass clazz, jint uid, jint gid, jintArray gids, jint runtime_flags, jobjectArray rlimits, jint mount_external, jstring se_info, jstring nice_name, jboolean is_child_zygote, jstring instruction_set, jstring app_data_dir) static -> void {'',
     ''            AppSpecializeArgs_v5 args(uid, gid, gids, runtime_flags, rlimits, mount_external, se_info, nice_name, instruction_set, app_data_dir);'',
     ''            args.is_child_zygote = &is_child_zygote;'',
     ''            ZygiskContext ctx(env, &args);'',
     ''            ctx.nativeSpecializeAppProcess_pre();'',
     ''            reinterpret_cast<void(*)(JNIEnv *env, jclass clazz, jint uid, jint gid, jintArray gids, jint runtime_flags, jobjectArray rlimits, jint mount_external, jstring se_info, jstring nice_name, jboolean is_child_zygote, jstring instruction_set, jstring app_data_dir)>(get_defs()->specialize_app_methods[0].fnPtr)('',
     ''                env, clazz, uid, gid, gids, runtime_flags, rlimits, mount_external, se_info, nice_name, is_child_zygote, instruction_set, app_data_dir'',
     ''            );'',
     ''            ctx.nativeSpecializeAppProcess_post();'',
     ''        }'',
     ''    },'']\<close>

definition hpp_SpecializeAppProcess_q_alt :: "string list" where
  \<open>hpp_SpecializeAppProcess_q_alt = [
     ''    // nativeSpecializeAppProcess_q_alt'',
     ''    {'',
     ''        "nativeSpecializeAppProcess",'',
     ''        "(II[II[[IILjava/lang/String;Ljava/lang/String;ZLjava/lang/String;Ljava/lang/String;Z)V",'',
     ''        (void *) +[] [[clang::no_stack_protector]] (JNIEnv *env, jclass clazz, jint uid, jint gid, jintArray gids, jint runtime_flags, jobjectArray rlimits, jint mount_external, jstring se_info, jstring nice_name, jboolean is_child_zygote, jstring instruction_set, jstring app_data_dir, jboolean is_top_app) static -> void {'',
     ''            AppSpecializeArgs_v5 args(uid, gid, gids, runtime_flags, rlimits, mount_external, se_info, nice_name, instruction_set, app_data_dir);'',
     ''            args.is_child_zygote = &is_child_zygote;'',
     ''            args.is_top_app = &is_top_app;'',
     ''            ZygiskContext ctx(env, &args);'',
     ''            ctx.nativeSpecializeAppProcess_pre();'',
     ''            reinterpret_cast<void(*)(JNIEnv *env, jclass clazz, jint uid, jint gid, jintArray gids, jint runtime_flags, jobjectArray rlimits, jint mount_external, jstring se_info, jstring nice_name, jboolean is_child_zygote, jstring instruction_set, jstring app_data_dir, jboolean is_top_app)>(get_defs()->specialize_app_methods[1].fnPtr)('',
     ''                env, clazz, uid, gid, gids, runtime_flags, rlimits, mount_external, se_info, nice_name, is_child_zygote, instruction_set, app_data_dir, is_top_app'',
     ''            );'',
     ''            ctx.nativeSpecializeAppProcess_post();'',
     ''        }'',
     ''    },'']\<close>

definition hpp_SpecializeAppProcess_r :: "string list" where
  \<open>hpp_SpecializeAppProcess_r = [
     ''    // nativeSpecializeAppProcess_r'',
     ''    {'',
     ''        "nativeSpecializeAppProcess",'',
     ''        "(II[II[[IILjava/lang/String;Ljava/lang/String;ZLjava/lang/String;Ljava/lang/String;Z[Ljava/lang/String;[Ljava/lang/String;ZZ)V",'',
     ''        (void *) +[] [[clang::no_stack_protector]] (JNIEnv *env, jclass clazz, jint uid, jint gid, jintArray gids, jint runtime_flags, jobjectArray rlimits, jint mount_external, jstring se_info, jstring nice_name, jboolean is_child_zygote, jstring instruction_set, jstring app_data_dir, jboolean is_top_app, jobjectArray pkg_data_info_list, jobjectArray whitelisted_data_info_list, jboolean mount_data_dirs, jboolean mount_storage_dirs) static -> void {'',
     ''            AppSpecializeArgs_v5 args(uid, gid, gids, runtime_flags, rlimits, mount_external, se_info, nice_name, instruction_set, app_data_dir);'',
     ''            args.is_child_zygote = &is_child_zygote;'',
     ''            args.is_top_app = &is_top_app;'',
     ''            args.pkg_data_info_list = &pkg_data_info_list;'',
     ''            args.whitelisted_data_info_list = &whitelisted_data_info_list;'',
     ''            args.mount_data_dirs = &mount_data_dirs;'',
     ''            args.mount_storage_dirs = &mount_storage_dirs;'',
     ''            ZygiskContext ctx(env, &args);'',
     ''            ctx.nativeSpecializeAppProcess_pre();'',
     ''            reinterpret_cast<void(*)(JNIEnv *env, jclass clazz, jint uid, jint gid, jintArray gids, jint runtime_flags, jobjectArray rlimits, jint mount_external, jstring se_info, jstring nice_name, jboolean is_child_zygote, jstring instruction_set, jstring app_data_dir, jboolean is_top_app, jobjectArray pkg_data_info_list, jobjectArray whitelisted_data_info_list, jboolean mount_data_dirs, jboolean mount_storage_dirs)>(get_defs()->specialize_app_methods[2].fnPtr)('',
     ''                env, clazz, uid, gid, gids, runtime_flags, rlimits, mount_external, se_info, nice_name, is_child_zygote, instruction_set, app_data_dir, is_top_app, pkg_data_info_list, whitelisted_data_info_list, mount_data_dirs, mount_storage_dirs'',
     ''            );'',
     ''            ctx.nativeSpecializeAppProcess_post();'',
     ''        }'',
     ''    },'']\<close>

definition hpp_SpecializeAppProcess_u :: "string list" where
  \<open>hpp_SpecializeAppProcess_u = [
     ''    // nativeSpecializeAppProcess_u'',
     ''    {'',
     ''        "nativeSpecializeAppProcess",'',
     ''        "(II[II[[IILjava/lang/String;Ljava/lang/String;ZLjava/lang/String;Ljava/lang/String;Z[Ljava/lang/String;[Ljava/lang/String;ZZZ)V",'',
     ''        (void *) +[] [[clang::no_stack_protector]] (JNIEnv *env, jclass clazz, jint uid, jint gid, jintArray gids, jint runtime_flags, jobjectArray rlimits, jint mount_external, jstring se_info, jstring nice_name, jboolean is_child_zygote, jstring instruction_set, jstring app_data_dir, jboolean is_top_app, jobjectArray pkg_data_info_list, jobjectArray whitelisted_data_info_list, jboolean mount_data_dirs, jboolean mount_storage_dirs, jboolean mount_sysprop_overrides) static -> void {'',
     ''            AppSpecializeArgs_v5 args(uid, gid, gids, runtime_flags, rlimits, mount_external, se_info, nice_name, instruction_set, app_data_dir);'',
     ''            args.is_child_zygote = &is_child_zygote;'',
     ''            args.is_top_app = &is_top_app;'',
     ''            args.pkg_data_info_list = &pkg_data_info_list;'',
     ''            args.whitelisted_data_info_list = &whitelisted_data_info_list;'',
     ''            args.mount_data_dirs = &mount_data_dirs;'',
     ''            args.mount_storage_dirs = &mount_storage_dirs;'',
     ''            args.mount_sysprop_overrides = &mount_sysprop_overrides;'',
     ''            ZygiskContext ctx(env, &args);'',
     ''            ctx.nativeSpecializeAppProcess_pre();'',
     ''            reinterpret_cast<void(*)(JNIEnv *env, jclass clazz, jint uid, jint gid, jintArray gids, jint runtime_flags, jobjectArray rlimits, jint mount_external, jstring se_info, jstring nice_name, jboolean is_child_zygote, jstring instruction_set, jstring app_data_dir, jboolean is_top_app, jobjectArray pkg_data_info_list, jobjectArray whitelisted_data_info_list, jboolean mount_data_dirs, jboolean mount_storage_dirs, jboolean mount_sysprop_overrides)>(get_defs()->specialize_app_methods[3].fnPtr)('',
     ''                env, clazz, uid, gid, gids, runtime_flags, rlimits, mount_external, se_info, nice_name, is_child_zygote, instruction_set, app_data_dir, is_top_app, pkg_data_info_list, whitelisted_data_info_list, mount_data_dirs, mount_storage_dirs, mount_sysprop_overrides'',
     ''            );'',
     ''            ctx.nativeSpecializeAppProcess_post();'',
     ''        }'',
     ''    },'']\<close>

definition hpp_SpecializeAppProcess_xr_u :: "string list" where
  \<open>hpp_SpecializeAppProcess_xr_u = [
     ''    // nativeSpecializeAppProcess_xr_u'',
     ''    {'',
     ''        "nativeSpecializeAppProcess",'',
     ''        "(II[II[[IILjava/lang/String;Ljava/lang/String;ZLjava/lang/String;Ljava/lang/String;ZZ[Ljava/lang/String;[Ljava/lang/String;ZZ)V",'',
     ''        (void *) +[] [[clang::no_stack_protector]] (JNIEnv *env, jclass clazz, jint uid, jint gid, jintArray gids, jint runtime_flags, jobjectArray rlimits, jint mount_external, jstring se_info, jstring nice_name, jboolean is_child_zygote, jstring instruction_set, jstring app_data_dir, jboolean is_top_app, jboolean is_perception_app, jobjectArray pkg_data_info_list, jobjectArray whitelisted_data_info_list, jboolean mount_data_dirs, jboolean mount_storage_dirs) static -> void {'',
     ''            AppSpecializeArgs_v5 args(uid, gid, gids, runtime_flags, rlimits, mount_external, se_info, nice_name, instruction_set, app_data_dir);'',
     ''            args.is_child_zygote = &is_child_zygote;'',
     ''            args.is_top_app = &is_top_app;'',
     ''            args.pkg_data_info_list = &pkg_data_info_list;'',
     ''            args.whitelisted_data_info_list = &whitelisted_data_info_list;'',
     ''            args.mount_data_dirs = &mount_data_dirs;'',
     ''            args.mount_storage_dirs = &mount_storage_dirs;'',
     ''            ZygiskContext ctx(env, &args);'',
     ''            ctx.nativeSpecializeAppProcess_pre();'',
     ''            reinterpret_cast<void(*)(JNIEnv *env, jclass clazz, jint uid, jint gid, jintArray gids, jint runtime_flags, jobjectArray rlimits, jint mount_external, jstring se_info, jstring nice_name, jboolean is_child_zygote, jstring instruction_set, jstring app_data_dir, jboolean is_top_app, jboolean is_perception_app, jobjectArray pkg_data_info_list, jobjectArray whitelisted_data_info_list, jboolean mount_data_dirs, jboolean mount_storage_dirs)>(get_defs()->specialize_app_methods[4].fnPtr)('',
     ''                env, clazz, uid, gid, gids, runtime_flags, rlimits, mount_external, se_info, nice_name, is_child_zygote, instruction_set, app_data_dir, is_top_app, is_perception_app, pkg_data_info_list, whitelisted_data_info_list, mount_data_dirs, mount_storage_dirs'',
     ''            );'',
     ''            ctx.nativeSpecializeAppProcess_post();'',
     ''        }'',
     ''    },'']\<close>

definition hpp_SpecializeAppProcess_samsung_q :: "string list" where
  \<open>hpp_SpecializeAppProcess_samsung_q = [
     ''    // nativeSpecializeAppProcess_samsung_q'',
     ''    {'',
     ''        "nativeSpecializeAppProcess",'',
     ''        "(II[II[[IILjava/lang/String;IILjava/lang/String;ZLjava/lang/String;Ljava/lang/String;)V",'',
     ''        (void *) +[] [[clang::no_stack_protector]] (JNIEnv *env, jclass clazz, jint uid, jint gid, jintArray gids, jint runtime_flags, jobjectArray rlimits, jint mount_external, jstring se_info, jint _10, jint _11, jstring nice_name, jboolean is_child_zygote, jstring instruction_set, jstring app_data_dir) static -> void {'',
     ''            AppSpecializeArgs_v5 args(uid, gid, gids, runtime_flags, rlimits, mount_external, se_info, nice_name, instruction_set, app_data_dir);'',
     ''            args.is_child_zygote = &is_child_zygote;'',
     ''            ZygiskContext ctx(env, &args);'',
     ''            ctx.nativeSpecializeAppProcess_pre();'',
     ''            reinterpret_cast<void(*)(JNIEnv *env, jclass clazz, jint uid, jint gid, jintArray gids, jint runtime_flags, jobjectArray rlimits, jint mount_external, jstring se_info, jint _10, jint _11, jstring nice_name, jboolean is_child_zygote, jstring instruction_set, jstring app_data_dir)>(get_defs()->specialize_app_methods[5].fnPtr)('',
     ''                env, clazz, uid, gid, gids, runtime_flags, rlimits, mount_external, se_info, _10, _11, nice_name, is_child_zygote, instruction_set, app_data_dir'',
     ''            );'',
     ''            ctx.nativeSpecializeAppProcess_post();'',
     ''        }'',
     ''    },'']\<close>

definition hpp_SpecializeAppProcess_nubia_u :: "string list" where
  \<open>hpp_SpecializeAppProcess_nubia_u = [
     ''    // nativeSpecializeAppProcess_nubia_u'',
     ''    {'',
     ''        "nativeSpecializeAppProcess",'',
     ''        "(II[II[[IILjava/lang/String;Ljava/lang/String;ZLjava/lang/String;Ljava/lang/String;Z[Ljava/lang/String;[Ljava/lang/String;ZZZLjava/lang/String;)V",'',
     ''        (void *) +[] [[clang::no_stack_protector]] (JNIEnv *env, jclass clazz, jint uid, jint gid, jintArray gids, jint runtime_flags, jobjectArray rlimits, jint mount_external, jstring se_info, jstring nice_name, jboolean is_child_zygote, jstring instruction_set, jstring app_data_dir, jboolean is_top_app, jobjectArray pkg_data_info_list, jobjectArray whitelisted_data_info_list, jboolean mount_data_dirs, jboolean mount_storage_dirs, jboolean mount_sysprop_overrides, jstring _12) static -> void {'',
     ''            AppSpecializeArgs_v5 args(uid, gid, gids, runtime_flags, rlimits, mount_external, se_info, nice_name, instruction_set, app_data_dir);'',
     ''            args.is_child_zygote = &is_child_zygote;'',
     ''            args.is_top_app = &is_top_app;'',
     ''            args.pkg_data_info_list = &pkg_data_info_list;'',
     ''            args.whitelisted_data_info_list = &whitelisted_data_info_list;'',
     ''            args.mount_data_dirs = &mount_data_dirs;'',
     ''            args.mount_storage_dirs = &mount_storage_dirs;'',
     ''            args.mount_sysprop_overrides = &mount_sysprop_overrides;'',
     ''            ZygiskContext ctx(env, &args);'',
     ''            ctx.nativeSpecializeAppProcess_pre();'',
     ''            reinterpret_cast<void(*)(JNIEnv *env, jclass clazz, jint uid, jint gid, jintArray gids, jint runtime_flags, jobjectArray rlimits, jint mount_external, jstring se_info, jstring nice_name, jboolean is_child_zygote, jstring instruction_set, jstring app_data_dir, jboolean is_top_app, jobjectArray pkg_data_info_list, jobjectArray whitelisted_data_info_list, jboolean mount_data_dirs, jboolean mount_storage_dirs, jboolean mount_sysprop_overrides, jstring _12)>(get_defs()->specialize_app_methods[6].fnPtr)('',
     ''                env, clazz, uid, gid, gids, runtime_flags, rlimits, mount_external, se_info, nice_name, is_child_zygote, instruction_set, app_data_dir, is_top_app, pkg_data_info_list, whitelisted_data_info_list, mount_data_dirs, mount_storage_dirs, mount_sysprop_overrides, _12'',
     ''            );'',
     ''            ctx.nativeSpecializeAppProcess_post();'',
     ''        }'',
     ''    },'']\<close>

definition hpp_ForkSystemServer_l :: "string list" where
  \<open>hpp_ForkSystemServer_l = [
     ''    // nativeForkSystemServer_l'',
     ''    {'',
     ''        "nativeForkSystemServer",'',
     ''        "(II[II[[IJJ)I",'',
     ''        (void *) +[] [[clang::no_stack_protector]] (JNIEnv *env, jclass clazz, jint uid, jint gid, jintArray gids, jint runtime_flags, jobjectArray rlimits, jlong permitted_capabilities, jlong effective_capabilities) static -> jint {'',
     ''            ServerSpecializeArgs_v1 args(uid, gid, gids, runtime_flags, permitted_capabilities, effective_capabilities);'',
     ''            ZygiskContext ctx(env, &args);'',
     ''            ctx.nativeForkSystemServer_pre();'',
     ''            reinterpret_cast<jint(*)(JNIEnv *env, jclass clazz, jint uid, jint gid, jintArray gids, jint runtime_flags, jobjectArray rlimits, jlong permitted_capabilities, jlong effective_capabilities)>(get_defs()->fork_server_methods[0].fnPtr)('',
     ''                env, clazz, uid, gid, gids, runtime_flags, rlimits, permitted_capabilities, effective_capabilities'',
     ''            );'',
     ''            ctx.nativeForkSystemServer_post();'',
     ''            return ctx.pid;'',
     ''        }'',
     ''    },'']\<close>

definition hpp_ForkSystemServer_samsung_q :: "string list" where
  \<open>hpp_ForkSystemServer_samsung_q = [
     ''    // nativeForkSystemServer_samsung_q'',
     ''    {'',
     ''        "nativeForkSystemServer",'',
     ''        "(II[IIII[[IJJ)I",'',
     ''        (void *) +[] [[clang::no_stack_protector]] (JNIEnv *env, jclass clazz, jint uid, jint gid, jintArray gids, jint runtime_flags, jint _13, jint _14, jobjectArray rlimits, jlong permitted_capabilities, jlong effective_capabilities) static -> jint {'',
     ''            ServerSpecializeArgs_v1 args(uid, gid, gids, runtime_flags, permitted_capabilities, effective_capabilities);'',
     ''            ZygiskContext ctx(env, &args);'',
     ''            ctx.nativeForkSystemServer_pre();'',
     ''            reinterpret_cast<jint(*)(JNIEnv *env, jclass clazz, jint uid, jint gid, jintArray gids, jint runtime_flags, jint _13, jint _14, jobjectArray rlimits, jlong permitted_capabilities, jlong effective_capabilities)>(get_defs()->fork_server_methods[1].fnPtr)('',
     ''                env, clazz, uid, gid, gids, runtime_flags, _13, _14, rlimits, permitted_capabilities, effective_capabilities'',
     ''            );'',
     ''            ctx.nativeForkSystemServer_post();'',
     ''            return ctx.pid;'',
     ''        }'',
     ''    },'']\<close>

definition hpp_fork_app :: "string list" where
  \<open>hpp_fork_app = ''std::array<JNINativeMethod, 12> fork_app_methods = {{'' #
     hpp_ForkAndSpecialize_l @ hpp_ForkAndSpecialize_o @ hpp_ForkAndSpecialize_p @ hpp_ForkAndSpecialize_q_alt @ hpp_ForkAndSpecialize_r @ hpp_ForkAndSpecialize_u @ hpp_ForkAndSpecialize_b @ hpp_ForkAndSpecialize_samsung_m @ hpp_ForkAndSpecialize_samsung_n @ hpp_ForkAndSpecialize_samsung_o @ hpp_ForkAndSpecialize_samsung_p @ hpp_ForkAndSpecialize_nubia_u @ [''}};'', '''']\<close>

definition hpp_specialize_app :: "string list" where
  \<open>hpp_specialize_app = ''std::array<JNINativeMethod, 7> specialize_app_methods = {{'' #
     hpp_SpecializeAppProcess_q @ hpp_SpecializeAppProcess_q_alt @ hpp_SpecializeAppProcess_r @ hpp_SpecializeAppProcess_u @ hpp_SpecializeAppProcess_xr_u @ hpp_SpecializeAppProcess_samsung_q @ hpp_SpecializeAppProcess_nubia_u @ [''}};'', '''']\<close>

definition hpp_fork_server :: "string list" where
  \<open>hpp_fork_server = ''std::array<JNINativeMethod, 2> fork_server_methods = {{'' #
     hpp_ForkSystemServer_l @ hpp_ForkSystemServer_samsung_q @ [''}};'', '''']\<close>

definition jni_hooks_hpp :: "string list" where
  "jni_hooks_hpp = hpp_top @ hpp_fork_app @ hpp_specialize_app @ hpp_fork_server @ [''};'', '''']"

text \<open>The contents of a file from its lines, as they stand between its newlines.\<close>

definition later_lines :: "string list \<Rightarrow> string" where
  "later_lines ls = concat (map (\<lambda>l. CHR 0x0A # l) ls)"

definition join_lines :: "string list \<Rightarrow> string" where
  "join_lines ls = hd ls @ later_lines (tl ls)"

lemma later_append: "later_lines (xs @ ys) = later_lines xs @ later_lines ys"
  by (simp add: later_lines_def)

lemma later_Cons: "later_lines (l # ls) = CHR 0x0A # l @ later_lines ls"
  by (simp add: later_lines_def)

section \<open>Entry by entry\<close>

lemma text_ForkAndSpecialize_l: "entry_text ''l'' ForkAndSpecialize_l = later_lines hpp_ForkAndSpecialize_l"
  by code_simp

lemma text_ForkAndSpecialize_o: "entry_text ''o'' ForkAndSpecialize_o = later_lines hpp_ForkAndSpecialize_o"
  by code_simp

lemma text_ForkAndSpecialize_p: "entry_text ''p'' ForkAndSpecialize_p = later_lines hpp_ForkAndSpecialize_p"
  by code_simp

lemma text_ForkAndSpecialize_q_alt: "entry_text ''q_alt'' ForkAndSpecialize_q_alt = later_lines hpp_ForkAndSpecialize_q_alt"
  by code_simp

lemma text_ForkAndSpecialize_r: "entry_text ''r'' ForkAndSpecialize_r = later_lines hpp_ForkAndSpecialize_r"
  by code_simp

lemma text_ForkAndSpecialize_u: "entry_text ''u'' ForkAndSpecialize_u = later_lines hpp_ForkAndSpecialize_u"
  by code_simp

lemma text_ForkAndSpecialize_b: "entry_text ''b'' ForkAndSpecialize_b = later_lines hpp_ForkAndSpecialize_b"
  by code_simp

lemma text_ForkAndSpecialize_samsung_m: "entry_text ''samsung_m'' ForkAndSpecialize_samsung_m = later_lines hpp_ForkAndSpecialize_samsung_m"
  by code_simp

lemma text_ForkAndSpecialize_samsung_n: "entry_text ''samsung_n'' ForkAndSpecialize_samsung_n = later_lines hpp_ForkAndSpecialize_samsung_n"
  by code_simp

lemma text_ForkAndSpecialize_samsung_o: "entry_text ''samsung_o'' ForkAndSpecialize_samsung_o = later_lines hpp_ForkAndSpecialize_samsung_o"
  by code_simp

lemma text_ForkAndSpecialize_samsung_p: "entry_text ''samsung_p'' ForkAndSpecialize_samsung_p = later_lines hpp_ForkAndSpecialize_samsung_p"
  by code_simp

lemma text_ForkAndSpecialize_nubia_u: "entry_text ''nubia_u'' ForkAndSpecialize_nubia_u = later_lines hpp_ForkAndSpecialize_nubia_u"
  by code_simp

lemma text_SpecializeAppProcess_q: "entry_text ''q'' SpecializeAppProcess_q = later_lines hpp_SpecializeAppProcess_q"
  by code_simp

lemma text_SpecializeAppProcess_q_alt: "entry_text ''q_alt'' SpecializeAppProcess_q_alt = later_lines hpp_SpecializeAppProcess_q_alt"
  by code_simp

lemma text_SpecializeAppProcess_r: "entry_text ''r'' SpecializeAppProcess_r = later_lines hpp_SpecializeAppProcess_r"
  by code_simp

lemma text_SpecializeAppProcess_u: "entry_text ''u'' SpecializeAppProcess_u = later_lines hpp_SpecializeAppProcess_u"
  by code_simp

lemma text_SpecializeAppProcess_xr_u: "entry_text ''xr_u'' SpecializeAppProcess_xr_u = later_lines hpp_SpecializeAppProcess_xr_u"
  by code_simp

lemma text_SpecializeAppProcess_samsung_q: "entry_text ''samsung_q'' SpecializeAppProcess_samsung_q = later_lines hpp_SpecializeAppProcess_samsung_q"
  by code_simp

lemma text_SpecializeAppProcess_nubia_u: "entry_text ''nubia_u'' SpecializeAppProcess_nubia_u = later_lines hpp_SpecializeAppProcess_nubia_u"
  by code_simp

lemma text_ForkSystemServer_l: "entry_text ''l'' ForkSystemServer_l = later_lines hpp_ForkSystemServer_l"
  by code_simp

lemma text_ForkSystemServer_samsung_q: "entry_text ''samsung_q'' ForkSystemServer_samsung_q = later_lines hpp_ForkSystemServer_samsung_q"
  by code_simp

lemmas entry_texts =
  text_ForkAndSpecialize_l
  text_ForkAndSpecialize_o
  text_ForkAndSpecialize_p
  text_ForkAndSpecialize_q_alt
  text_ForkAndSpecialize_r
  text_ForkAndSpecialize_u
  text_ForkAndSpecialize_b
  text_ForkAndSpecialize_samsung_m
  text_ForkAndSpecialize_samsung_n
  text_ForkAndSpecialize_samsung_o
  text_ForkAndSpecialize_samsung_p
  text_ForkAndSpecialize_nubia_u
  text_SpecializeAppProcess_q
  text_SpecializeAppProcess_q_alt
  text_SpecializeAppProcess_r
  text_SpecializeAppProcess_u
  text_SpecializeAppProcess_xr_u
  text_SpecializeAppProcess_samsung_q
  text_SpecializeAppProcess_nubia_u
  text_ForkSystemServer_l
  text_ForkSystemServer_samsung_q

definition array_line :: "jtable \<Rightarrow> nat \<Rightarrow> string" where
  "array_line t n = ''std::array<JNINativeMethod, '' @ show_num 10 n @ ''> '' @ field_name t @ '' = {{''"

lemma array_lines:
  "array_line Fork_app (length (src_methods Fork_app)) = ''std::array<JNINativeMethod, 12> fork_app_methods = {{''"
  "array_line Specialize_app (length (src_methods Specialize_app)) = ''std::array<JNINativeMethod, 7> specialize_app_methods = {{''"
  "array_line Fork_server (length (src_methods Fork_server)) = ''std::array<JNINativeMethod, 2> fork_server_methods = {{''"
  by code_simp+

lemma table_frame:
  "table_text t hs = later_lines [array_line t (length hs)] @ concat (map2 entry_text (versions t) hs) @
     later_lines [''}};'', []]"
  by (simp add: table_text_def later_lines_def ind_def array_line_def)

lemma table_texts:
  "table_text Fork_app (src_methods Fork_app) = later_lines hpp_fork_app"
  "table_text Specialize_app (src_methods Specialize_app) = later_lines hpp_specialize_app"
  "table_text Fork_server (src_methods Fork_server) = later_lines hpp_fork_server"
  unfolding table_frame array_lines hpp_fork_app_def hpp_specialize_app_def hpp_fork_server_def
  unfolding src_methods.simps src_fork_app_methods_def src_specialize_app_methods_def src_fork_server_methods_def
    versions_def
  by (simp_all add: entry_texts later_append later_Cons [of _ "_ @ _"])
    (simp_all add: later_lines_def)

lemma join_append: "xs \<noteq> [] \<Longrightarrow> join_lines (xs @ ys) = join_lines xs @ later_lines ys"
  by (simp add: join_lines_def later_append)

lemma top_text: "preamble = join_lines hpp_top"
  by code_simp

text \<open>
  C40: The checked-in \<^verbatim>\<open>jni_hooks.hpp\<close> is, character for character, what the generator writes, and it is
  the text of the tables of hooks this library reasons about: each entry's lines spell exactly its
  record (signature, parameters, argument object, calls, cast, original, forwarded arguments), and the
  records are the ones the generator makes from its argument lists.
\<close>

theorem header_verbatim:
  "join_lines jni_hooks_hpp = header_text \<and> join_lines jni_hooks_hpp = tables_text src_methods \<and>
   src_methods = generated"
proof -
  have g: "src_methods = generated"
  proof
    fix t
    show "src_methods t = generated t" by (cases t) (simp_all only: tables_equal)
  qed
  have "join_lines jni_hooks_hpp = join_lines hpp_top @ later_lines (hpp_fork_app @ hpp_specialize_app @ hpp_fork_server @ [''};'', []])"
    unfolding jni_hooks_hpp_def by (rule join_append) (simp add: hpp_top_def)
  also have "\<dots> = tables_text src_methods"
    unfolding tables_text_def top_text table_texts later_append by (simp add: later_lines_def)
  finally show ?thesis using g header_is_tables by simp
qed

end
