(* ===== verification/ZygiskState.thy ===== *)
theory ZygiskState
  imports Lsplt JniHooks
begin

text \<open>
  The data of \<^verbatim>\<open>libzygisk/src/module.hpp\<close>, \<^verbatim>\<open>api.hpp\<close> and of the two global contexts of
  \<^verbatim>\<open>hook.cpp\<close>: argument objects, the module's and the API's function tables, \<open>ZygiskModule\<close>,
  \<open>ZygiskContext\<close> and \<open>HookContext\<close>, and the process state that holds them. What the code calls outside
  the repository (the JVM, the dynamic linker, the regex functions, the file system, the original
  native methods) is a record of functions in the state that no operation changes.
\<close>

section \<open>Values and argument objects\<close>

text \<open>A parameter's value; a reference is a number, 0 is null.\<close>

datatype jval = JInt int | JLong int | JBool bool | JRef nat

text \<open>
  A member that is a C++ reference, or a pointer, to a parameter of the hooking function is that
  parameter's name. A null pointer is \<open>None\<close>.
\<close>

record AppSpecializeArgs_v3 =
  uid :: jparam
  gid :: jparam
  gids :: jparam
  runtime_flags :: jparam
  rlimits :: jparam
  mount_external :: jparam
  se_info :: jparam
  nice_name :: jparam
  instruction_set :: jparam
  app_data_dir :: jparam
  fds_to_ignore :: "jparam option"
  is_child_zygote :: "jparam option"
  is_top_app :: "jparam option"
  pkg_data_info_list :: "jparam option"
  whitelisted_data_info_list :: "jparam option"
  mount_data_dirs :: "jparam option"
  mount_storage_dirs :: "jparam option"

record AppSpecializeArgs_v5 = AppSpecializeArgs_v3 +
  mount_sysprop_overrides :: "jparam option"

record AppSpecializeArgs_v1 =
  v1_uid :: jparam
  v1_gid :: jparam
  v1_gids :: jparam
  v1_runtime_flags :: jparam
  v1_mount_external :: jparam
  v1_se_info :: jparam
  v1_nice_name :: jparam
  v1_instruction_set :: jparam
  v1_app_data_dir :: jparam
  v1_is_child_zygote :: "jparam option"
  v1_is_top_app :: "jparam option"
  v1_pkg_data_info_list :: "jparam option"
  v1_whitelisted_data_info_list :: "jparam option"
  v1_mount_data_dirs :: "jparam option"
  v1_mount_storage_dirs :: "jparam option"

record ServerSpecializeArgs_v1 =
  s_uid :: jparam
  s_gid :: jparam
  s_gids :: jparam
  s_runtime_flags :: jparam
  s_permitted_capabilities :: jparam
  s_effective_capabilities :: jparam

text \<open>The constructors: references as given, every optional pointer null.\<close>

fun new_AppSpecializeArgs_v5 :: "jparam list \<Rightarrow> AppSpecializeArgs_v5 option" where
  "new_AppSpecializeArgs_v5 [u, g, gs, rf, rl, me, se, nn, is, ad] = Some
     \<lparr>uid = u, gid = g, gids = gs, runtime_flags = rf, rlimits = rl, mount_external = me, se_info = se,
      nice_name = nn, instruction_set = is, app_data_dir = ad, fds_to_ignore = None,
      is_child_zygote = None, is_top_app = None, pkg_data_info_list = None,
      whitelisted_data_info_list = None, mount_data_dirs = None, mount_storage_dirs = None,
      mount_sysprop_overrides = None\<rparr>"
| "new_AppSpecializeArgs_v5 _ = None"

definition AppSpecializeArgs_v1_of :: "AppSpecializeArgs_v5 \<Rightarrow> AppSpecializeArgs_v1" where
  "AppSpecializeArgs_v1_of a =
     \<lparr>v1_uid = uid a, v1_gid = gid a, v1_gids = gids a, v1_runtime_flags = runtime_flags a,
      v1_mount_external = mount_external a, v1_se_info = se_info a, v1_nice_name = nice_name a,
      v1_instruction_set = instruction_set a, v1_app_data_dir = app_data_dir a,
      v1_is_child_zygote = is_child_zygote a, v1_is_top_app = is_top_app a,
      v1_pkg_data_info_list = pkg_data_info_list a,
      v1_whitelisted_data_info_list = whitelisted_data_info_list a,
      v1_mount_data_dirs = mount_data_dirs a, v1_mount_storage_dirs = mount_storage_dirs a\<rparr>"

fun new_ServerSpecializeArgs_v1 :: "jparam list \<Rightarrow> ServerSpecializeArgs_v1 option" where
  "new_ServerSpecializeArgs_v1 [u, g, gs, rf, pc, ec] = Some
     \<lparr>s_uid = u, s_gid = g, s_gids = gs, s_runtime_flags = rf, s_permitted_capabilities = pc,
      s_effective_capabilities = ec\<rparr>"
| "new_ServerSpecializeArgs_v1 _ = None"

text \<open>The assignments \<open>args.member = &parameter\<close> of the hooking functions.\<close>

fun set_optional :: "jparam \<Rightarrow> jparam \<Rightarrow> AppSpecializeArgs_v5 \<Rightarrow> AppSpecializeArgs_v5 option" where
  "set_optional P_fds_to_ignore p a = Some (a\<lparr>fds_to_ignore := Some p\<rparr>)"
| "set_optional P_is_child_zygote p a = Some (a\<lparr>is_child_zygote := Some p\<rparr>)"
| "set_optional P_is_top_app p a = Some (a\<lparr>is_top_app := Some p\<rparr>)"
| "set_optional P_pkg_data_info_list p a = Some (a\<lparr>pkg_data_info_list := Some p\<rparr>)"
| "set_optional P_whitelisted_data_info_list p a = Some (a\<lparr>whitelisted_data_info_list := Some p\<rparr>)"
| "set_optional P_mount_data_dirs p a = Some (a\<lparr>mount_data_dirs := Some p\<rparr>)"
| "set_optional P_mount_storage_dirs p a = Some (a\<lparr>mount_storage_dirs := Some p\<rparr>)"
| "set_optional P_mount_sysprop_overrides p a = Some (a\<lparr>mount_sysprop_overrides := Some p\<rparr>)"
| "set_optional _ p a = None"

fun set_optionals :: "(jparam \<times> jparam) list \<Rightarrow> AppSpecializeArgs_v5 \<Rightarrow> AppSpecializeArgs_v5 option" where
  "set_optionals [] a = Some a"
| "set_optionals ((m, p) # r) a = do { a' \<leftarrow> set_optional m p a; set_optionals r a' }"

datatype spec_args = App_spec AppSpecializeArgs_v5 | Server_spec ServerSpecializeArgs_v1

definition make_args :: "jni_hook \<Rightarrow> spec_args option" where
  "make_args h = (case jh_args h of
      App_args ps \<Rightarrow> do { a \<leftarrow> new_AppSpecializeArgs_v5 ps; a' \<leftarrow> set_optionals (jh_set h) a;
                        Some (App_spec a') }
    | Server_args ps \<Rightarrow> do { a \<leftarrow> new_ServerSpecializeArgs_v1 ps; Some (Server_spec a) })"

text \<open>What a module is handed, and the parameter behind each of its members.\<close>

datatype mod_args =
  No_args | Args_v1 AppSpecializeArgs_v1 | Args_v5 AppSpecializeArgs_v5 | Args_server ServerSpecializeArgs_v1

fun v1_member :: "AppSpecializeArgs_v1 \<Rightarrow> jparam \<Rightarrow> jparam option" where
  "v1_member a P_uid = Some (v1_uid a)"
| "v1_member a P_gid = Some (v1_gid a)"
| "v1_member a P_gids = Some (v1_gids a)"
| "v1_member a P_runtime_flags = Some (v1_runtime_flags a)"
| "v1_member a P_mount_external = Some (v1_mount_external a)"
| "v1_member a P_se_info = Some (v1_se_info a)"
| "v1_member a P_nice_name = Some (v1_nice_name a)"
| "v1_member a P_instruction_set = Some (v1_instruction_set a)"
| "v1_member a P_app_data_dir = Some (v1_app_data_dir a)"
| "v1_member a P_is_child_zygote = v1_is_child_zygote a"
| "v1_member a P_is_top_app = v1_is_top_app a"
| "v1_member a P_pkg_data_info_list = v1_pkg_data_info_list a"
| "v1_member a P_whitelisted_data_info_list = v1_whitelisted_data_info_list a"
| "v1_member a P_mount_data_dirs = v1_mount_data_dirs a"
| "v1_member a P_mount_storage_dirs = v1_mount_storage_dirs a"
| "v1_member a _ = None"

fun v5_member :: "AppSpecializeArgs_v5 \<Rightarrow> jparam \<Rightarrow> jparam option" where
  "v5_member a P_uid = Some (uid a)"
| "v5_member a P_gid = Some (gid a)"
| "v5_member a P_gids = Some (gids a)"
| "v5_member a P_runtime_flags = Some (runtime_flags a)"
| "v5_member a P_rlimits = Some (rlimits a)"
| "v5_member a P_mount_external = Some (mount_external a)"
| "v5_member a P_se_info = Some (se_info a)"
| "v5_member a P_nice_name = Some (nice_name a)"
| "v5_member a P_instruction_set = Some (instruction_set a)"
| "v5_member a P_app_data_dir = Some (app_data_dir a)"
| "v5_member a P_fds_to_ignore = fds_to_ignore a"
| "v5_member a P_is_child_zygote = is_child_zygote a"
| "v5_member a P_is_top_app = is_top_app a"
| "v5_member a P_pkg_data_info_list = pkg_data_info_list a"
| "v5_member a P_whitelisted_data_info_list = whitelisted_data_info_list a"
| "v5_member a P_mount_data_dirs = mount_data_dirs a"
| "v5_member a P_mount_storage_dirs = mount_storage_dirs a"
| "v5_member a P_mount_sysprop_overrides = mount_sysprop_overrides a"
| "v5_member a _ = None"

fun server_member :: "ServerSpecializeArgs_v1 \<Rightarrow> jparam \<Rightarrow> jparam option" where
  "server_member a P_uid = Some (s_uid a)"
| "server_member a P_gid = Some (s_gid a)"
| "server_member a P_gids = Some (s_gids a)"
| "server_member a P_runtime_flags = Some (s_runtime_flags a)"
| "server_member a P_permitted_capabilities = Some (s_permitted_capabilities a)"
| "server_member a P_effective_capabilities = Some (s_effective_capabilities a)"
| "server_member a _ = None"

fun arg_member :: "mod_args \<Rightarrow> jparam \<Rightarrow> jparam option" where
  "arg_member No_args m = None"
| "arg_member (Args_v1 a) m = v1_member a m"
| "arg_member (Args_v5 a) m = v5_member a m"
| "arg_member (Args_server a) m = server_member a m"

section \<open>The public header\<close>

definition ZYGISK_API_VERSION :: int where "ZYGISK_API_VERSION = 5"

datatype Option = FORCE_DENYLIST_UNMOUNT | DLCLOSE_MODULE_LIBRARY

datatype StateFlag = PROCESS_GRANTED_ROOT | PROCESS_ON_DENYLIST

fun StateFlag_value :: "StateFlag \<Rightarrow> u32" where
  "StateFlag_value PROCESS_GRANTED_ROOT = 1"
| "StateFlag_value PROCESS_ON_DENYLIST = 2"

text \<open>
  Structs as lists of members in memory order: a member is a reference or a pointer to a type. The
  public structs of \<^verbatim>\<open>api.hpp\<close>, which modules are compiled against, and the private ones.
\<close>

datatype member = Ref jtype jparam | Ptr jtype jparam

definition api_AppSpecializeArgs :: "member list" where
  "api_AppSpecializeArgs =
     [Ref Jint P_uid, Ref Jint P_gid, Ref JintArray P_gids, Ref Jint P_runtime_flags,
      Ref JobjectArray P_rlimits, Ref Jint P_mount_external, Ref Jstring P_se_info,
      Ref Jstring P_nice_name, Ref Jstring P_instruction_set, Ref Jstring P_app_data_dir,
      Ptr JintArray P_fds_to_ignore, Ptr Jboolean P_is_child_zygote, Ptr Jboolean P_is_top_app,
      Ptr JobjectArray P_pkg_data_info_list, Ptr JobjectArray P_whitelisted_data_info_list,
      Ptr Jboolean P_mount_data_dirs, Ptr Jboolean P_mount_storage_dirs,
      Ptr Jboolean P_mount_sysprop_overrides]"

definition api_ServerSpecializeArgs :: "member list" where
  "api_ServerSpecializeArgs =
     [Ref Jint P_uid, Ref Jint P_gid, Ref JintArray P_gids, Ref Jint P_runtime_flags,
      Ref Jlong P_permitted_capabilities, Ref Jlong P_effective_capabilities]"

definition v3_layout :: "member list" where
  "v3_layout =
     [Ref Jint P_uid, Ref Jint P_gid, Ref JintArray P_gids, Ref Jint P_runtime_flags,
      Ref JobjectArray P_rlimits, Ref Jint P_mount_external, Ref Jstring P_se_info,
      Ref Jstring P_nice_name, Ref Jstring P_instruction_set, Ref Jstring P_app_data_dir,
      Ptr JintArray P_fds_to_ignore, Ptr Jboolean P_is_child_zygote, Ptr Jboolean P_is_top_app,
      Ptr JobjectArray P_pkg_data_info_list, Ptr JobjectArray P_whitelisted_data_info_list,
      Ptr Jboolean P_mount_data_dirs, Ptr Jboolean P_mount_storage_dirs]"

definition v5_layout :: "member list" where
  "v5_layout = v3_layout @ [Ptr Jboolean P_mount_sysprop_overrides]"

definition server_layout :: "member list" where
  "server_layout =
     [Ref Jint P_uid, Ref Jint P_gid, Ref JintArray P_gids, Ref Jint P_runtime_flags,
      Ref Jlong P_permitted_capabilities, Ref Jlong P_effective_capabilities]"

section \<open>A module's side\<close>

record jni_method =
  mname :: string
  msig :: string
  fnPtr :: u64

text \<open>
  What a module's code does through the interface: calls of the API functions it finds in its table,
  by slot, with the arguments it passes, and writes to the members of the argument object. A callback
  is the sequence of these acts; statements about all sequences cover every behaviour of a module.
\<close>

datatype module_abi =
    Module_abi (abi_version: int) (abi_impl: nat)
      (abi_preApp: "act list option") (abi_postApp: "act list option")
      (abi_preServer: "act list option") (abi_postServer: "act list option")
and act =
    Call nat api_call
  | Set_arg jparam jval
and api_call =
    C_registerModule bool "module_abi option" \<comment> \<open>whether the table pointer is null; the module\<close>
  | C_hookJniNativeMethods bool "string option" "jni_method list" \<comment> \<open>whether the environment is null\<close>
  | C_pltHookRegister_regex "string option" "u8 list option" u64 u64
  | C_pltHookRegister_inode u64 nat "u8 list option" u64 u64
  | C_pltHookExclude "string option" "u8 list option"
  | C_exemptFd fd
  | C_pltHookCommit
  | C_connectCompanion
  | C_setOption Option
  | C_getModuleDir
  | C_getFlags

section \<open>The API table\<close>

text \<open>The types the slots of the table are declared with, and the functions the code stores in them.\<close>

datatype api_type =
    T_impl | T_registerModule | T_hookJniNativeMethods | T_pltHookRegister_regex
  | T_pltHookRegister_inode | T_pltHookExclude | T_exemptFd | T_pltHookCommit | T_connectCompanion
  | T_setOption | T_getModuleDir | T_getFlags

datatype api_fn =
    F_RegisterModuleImpl | F_hookJniNativeMethods | F_ctx_plt_hook_register | F_ctx_plt_hook_exclude
  | F_ctx_plt_hook_commit | F_lsplt_CommitHook | F_lsplt_RegisterHook | F_exempt_fd
  | F_connectCompanion | F_setOption | F_getModuleDir | F_getFlags

fun fn_type :: "api_fn \<Rightarrow> api_type" where
  "fn_type F_RegisterModuleImpl = T_registerModule"
| "fn_type F_hookJniNativeMethods = T_hookJniNativeMethods"
| "fn_type F_ctx_plt_hook_register = T_pltHookRegister_regex"
| "fn_type F_ctx_plt_hook_exclude = T_pltHookExclude"
| "fn_type F_ctx_plt_hook_commit = T_pltHookCommit"
| "fn_type F_lsplt_CommitHook = T_pltHookCommit"
| "fn_type F_lsplt_RegisterHook = T_pltHookRegister_inode"
| "fn_type F_exempt_fd = T_exemptFd"
| "fn_type F_connectCompanion = T_connectCompanion"
| "fn_type F_setOption = T_setOption"
| "fn_type F_getModuleDir = T_getModuleDir"
| "fn_type F_getFlags = T_getFlags"

definition api_abi_base :: "api_type list" where
  "api_abi_base = [T_impl, T_registerModule]"

definition api_abi_v1 :: "api_type list" where
  "api_abi_v1 = api_abi_base @
     [T_hookJniNativeMethods, T_pltHookRegister_regex, T_pltHookExclude, T_pltHookCommit,
      T_connectCompanion, T_setOption]"

definition api_abi_v2 :: "api_type list" where
  "api_abi_v2 = api_abi_v1 @ [T_getModuleDir, T_getFlags]"

definition api_abi_v4 :: "api_type list" where
  "api_abi_v4 = api_abi_base @
     [T_hookJniNativeMethods, T_pltHookRegister_inode, T_exemptFd, T_pltHookCommit,
      T_connectCompanion, T_setOption, T_getModuleDir, T_getFlags]"

text \<open>The union of the four structs: the pointer \<open>impl\<close> in slot 0 and the functions by slot.\<close>

record ApiTable =
  impl :: "nat option"
  slots :: "nat \<Rightarrow> api_fn option"

definition api_zero :: ApiTable where
  "api_zero = \<lparr>impl = None, slots = (\<lambda>_. None)\<rparr>"

text \<open>The slot of a member: the position of its declaration in its struct.\<close>

fun position :: "'a \<Rightarrow> 'a list \<Rightarrow> nat" where
  "position x [] = 0"
| "position x (y # r) = (if x = y then 0 else Suc (position x r))"

definition put :: "api_type list \<Rightarrow> api_type \<Rightarrow> api_fn \<Rightarrow> ApiTable \<Rightarrow> ApiTable" where
  "put st t f a = a\<lparr>slots := (slots a)(position t st \<mapsto> f)\<rparr>"

section \<open>Contexts\<close>

text \<open>
  \<open>ZygiskModule\<close>; its identity, which \<open>impl\<close> points to, is \<open>m_id\<close>: the index of its library among
  those opened, given to no other module of the context.
\<close>

record ZygiskModule =
  m_id :: nat
  m_unload :: bool
  m_handle :: nat
  m_entry :: "act list"
  m_api :: ApiTable
  m_mod :: "module_abi option"

record CtxRegisterInfo =
  r_regex :: string
  r_symbol :: "u8 list"
  r_callback :: u64
  r_backup :: u64

record IgnoreInfo =
  i_regex :: string
  i_symbol :: "u8 list"

definition POST_SPECIALIZE :: u32 where "POST_SPECIALIZE = 0x01"
definition APP_FORK_AND_SPECIALIZE :: u32 where "APP_FORK_AND_SPECIALIZE = 0x02"
definition APP_SPECIALIZE :: u32 where "APP_SPECIALIZE = 0x04"
definition SERVER_FORK_AND_SPECIALIZE :: u32 where "SERVER_FORK_AND_SPECIALIZE = 0x08"
definition DO_REVERT_UNMOUNT :: u32 where "DO_REVERT_UNMOUNT = 0x10"
definition SKIP_CLOSE_LOG_PIPE :: u32 where "SKIP_CLOSE_LOG_PIPE = 0x20"

record ZygiskContext =
  c_args :: spec_args
  c_process :: "string option"
  c_modules :: "ZygiskModule list"
  c_pid :: int
  c_flags :: u32
  c_info_flags :: u32
  c_allowed_fds :: "bool list"
  c_exempted_fds :: "fd list"
  c_register_info :: "CtxRegisterInfo list"
  c_ignore_info :: "IgnoreInfo list"

definition is_child :: "ZygiskContext \<Rightarrow> bool" where
  "is_child c \<longleftrightarrow> c_pid c \<le> 0"

text \<open>The PLT functions that are hooked, with the symbol each is registered under.\<close>

datatype plt_fn = Pf_dlclose | Pf_fork | Pf_unshare | Pf_setcontext | Pf_strdup | Pf_log_close | Pf_attr_destroy

record HookContext =
  plt_backup :: "(u64 \<times> nat \<times> plt_fn) list" \<comment> \<open>device, inode, and symbol with its \<open>old_\<close> pointer\<close>
  runtime_callbacks :: u64
  self_handle :: u64
  should_unmap :: bool
  jni_tables :: "jtable \<Rightarrow> jni_method list"

text \<open>\<open>g_hook\<close>: null, an object, or the address of a deleted object.\<close>

datatype 'a ptr = Null | Live 'a | Freed

section \<open>The world and the process state\<close>

text \<open>The calls into the JVM, over a state the code never looks into.\<close>

record 'j jvm_ops =
  FindClass :: "'j \<Rightarrow> string \<Rightarrow> nat"
  getNativeMethods :: "'j \<Rightarrow> nat \<Rightarrow> jni_method list"
  RegisterNative :: "'j \<Rightarrow> nat \<Rightarrow> jni_method \<Rightarrow> bool \<times> 'j" \<comment> \<open>one method; \<open>False\<close> on an error or exception\<close>
  NewIntArray :: "'j \<Rightarrow> nat \<Rightarrow> nat \<times> 'j"
  SetIntArrayRegion :: "'j \<Rightarrow> nat \<Rightarrow> nat \<Rightarrow> int list \<Rightarrow> 'j"
  GetIntArrayElements :: "'j \<Rightarrow> nat \<Rightarrow> int list"
  GetStringUTFChars :: "'j \<Rightarrow> nat \<Rightarrow> string option"

text \<open>The calls an original native method makes through the hooked functions, with their outcomes.\<close>

datatype plt_call =
    P_fork
  | P_unshare u32 int \<comment> \<open>the flags and the kernel's answer\<close>
  | P_setcontext
  | P_log_close

record frame =
  region_start :: u64
  frame_fname :: "string option"
  registers :: "nat \<Rightarrow> u64"
  stack_word :: u64 \<comment> \<open>the word three pointers above the frame's base\<close>

record 'j world =
  jvm :: "'j jvm_ops"
  regcomp :: "string \<Rightarrow> bool"
  regexec :: "string \<Rightarrow> string \<Rightarrow> bool"
  dir_entries :: "string \<Rightarrow> (bool \<times> string) list option" \<comment> \<open>\<open>readdir\<close>: whether a directory, name\<close>
  open_file :: "string \<Rightarrow> ofile option"
  proc_fd_ok :: bool \<comment> \<open>whether \<^verbatim>\<open>/proc/self/fd\<close> can be opened\<close>
  dlopen_fd :: "ofile \<Rightarrow> nat option"
  module_entry :: "nat \<Rightarrow> act list option" \<comment> \<open>the behaviour behind \<open>zygisk_module_entry\<close>\<close>
  uninit :: "u8 list" \<comment> \<open>the bytes of a response header that is not written\<close>
  rlim_max :: "nat option"
  old_addr :: "plt_fn \<Rightarrow> u64" \<comment> \<open>the addresses of the \<open>old_\<close> pointers\<close>
  new_addr :: "plt_fn \<Rightarrow> u64" \<comment> \<open>the addresses of the replacements\<close>
  hook_addr :: "jtable \<Rightarrow> nat \<Rightarrow> u64" \<comment> \<open>the addresses of the hooking functions\<close>
  native :: "u64 \<Rightarrow> jval list \<Rightarrow> plt_call list"
  backtrace :: "frame list"
  native_bridge_prop :: string
  get_vms_default :: bool \<comment> \<open>whether \<open>JNI_GetCreatedJavaVMs\<close> is found in the default scope\<close>
  helper_lib :: "string \<Rightarrow> (nat \<times> bool) option" \<comment> \<open>\<open>dlopen\<close>: handle, and whether the symbol is in it\<close>
  java_vm :: bool
  jni_env :: bool
  literal_writable :: bool \<comment> \<open>whether a string literal of the library can be stored into\<close>

record 'j zyg = lsp +
  w :: "'j world"
  jst :: 'j
  self_pid :: u32
  self_tid :: u32
  forks :: "(int \<times> u32) list" \<comment> \<open>the results of \<open>fork\<close> and the id of the process that goes on\<close>
  g_ctx :: "ZygiskContext option"
  g_hook :: "HookContext ptr"
  locals :: "jparam \<Rightarrow> jval"
  orig_calls :: "(u64 \<times> jval list) list" \<comment> \<open>calls of original native methods\<close>

definition upd_ctx :: "(ZygiskContext \<Rightarrow> ZygiskContext) \<Rightarrow> 'j zyg \<Rightarrow> 'j zyg" where
  "upd_ctx f s = s\<lparr>g_ctx := map_option f (g_ctx s)\<rparr>"

definition upd_module :: "nat \<Rightarrow> (ZygiskModule \<Rightarrow> ZygiskModule) \<Rightarrow> 'j zyg \<Rightarrow> 'j zyg" where
  "upd_module k f s =
     upd_ctx (\<lambda>c. c\<lparr>c_modules := map (\<lambda>m. if m_id m = k then f m else m) (c_modules c)\<rparr>) s"

definition get_module :: "nat \<Rightarrow> 'j zyg \<Rightarrow> ZygiskModule option" where
  "get_module k s = do { c \<leftarrow> g_ctx s; find (\<lambda>m. m_id m = k) (c_modules c) }"

definition get_hook :: "'j zyg \<Rightarrow> HookContext option" where
  "get_hook s = (case g_hook s of Live h \<Rightarrow> Some h | _ \<Rightarrow> None)"

definition upd_hook :: "(HookContext \<Rightarrow> HookContext) \<Rightarrow> 'j zyg \<Rightarrow> 'j zyg" where
  "upd_hook f s = (case g_hook s of Live h \<Rightarrow> s\<lparr>g_hook := Live (f h)\<rparr> | _ \<Rightarrow> s)"

definition read_ptr :: "plt_fn \<Rightarrow> 'j zyg \<Rightarrow> u64" where
  "read_ptr f s = rd64 (mem s) (old_addr (w s) f)"

text \<open>A call through an \<open>old_\<close> pointer, which faults when the pointer is null.\<close>

definition through :: "plt_fn \<Rightarrow> sysop \<Rightarrow> 'j zyg \<Rightarrow> 'j zyg option" where
  "through f e s = (if read_ptr f s = 0 then None else Some (logop e s))"

end
