(* ===== verification/JniMethods.thy ===== *)
theory JniMethods
  imports ZygiskState
begin

text \<open>
  \<^verbatim>\<open>libzygisk/src/hook.cpp\<close>, the replacement of native methods: reading the natives of a class,
  registering replacements one by one, exchanging each replacement's function pointer for the one it
  displaced, the replacement of the three natives of \<open>Zygote\<close> and their restoration.
\<close>

section \<open>Names\<close>

definition kZygoteInit :: string where "kZygoteInit = ''com.android.internal.os.ZygoteInit''"
definition kZygote :: string where "kZygote = ''com/android/internal/os/Zygote''"
definition kForkApp :: string where "kForkApp = ''nativeForkAndSpecialize''"
definition kSpecializeApp :: string where "kSpecializeApp = ''nativeSpecializeAppProcess''"
definition kForkServer :: string where "kForkServer = ''nativeForkSystemServer''"

section \<open>One class\<close>

text \<open>Without the runtime callbacks the read dereferences a null pointer; so does a null class.\<close>

definition get_jni_methods :: "nat \<Rightarrow> 'j zyg \<Rightarrow> jni_method list option" where
  "get_jni_methods clazz s = do {
     h \<leftarrow> get_hook s;
     if runtime_callbacks h = 0 \<or> clazz = 0 then None
     else Some (getNativeMethods (jvm (w s)) (jst s) clazz) }"

fun register_methods :: "'j jvm_ops \<Rightarrow> nat \<Rightarrow> jni_method list \<Rightarrow> 'j \<Rightarrow> jni_method list \<times> 'j" where
  "register_methods v clazz [] j = ([], j)"
| "register_methods v clazz (m # ms) j =
     (if fnPtr m = 0 then
        (let (ms', j') = register_methods v clazz ms j in (m # ms', j'))
      else
        (let (good, j1) = RegisterNative v j clazz m;
             (ms', j') = register_methods v clazz ms j1
         in ((if good then m else m\<lparr>fnPtr := 0\<rparr>) # ms', j')))"

definition register_jni_methods :: "nat \<Rightarrow> jni_method list \<Rightarrow> 'j zyg \<Rightarrow> jni_method list \<times> 'j zyg" where
  "register_jni_methods clazz ms s =
     (let (ms', j') = register_methods (jvm (w s)) clazz ms (jst s) in (ms', s\<lparr>jst := j'\<rparr>))"

text \<open>
  The search for the pointer a replacement displaced: through the new natives with the replacement's
  pointer, to an old native of the same name and (displayed) signature.
\<close>

fun find_original :: "jni_method list \<Rightarrow> jni_method list \<Rightarrow> u64 \<Rightarrow> u64 option" where
  "find_original [] old p = None"
| "find_original (n # ns) old p =
     (if fnPtr n = p then
        (case find (\<lambda>m. mname m = mname n \<and> msig m = msig n) old of
           Some m \<Rightarrow> Some (fnPtr m)
         | None \<Rightarrow> find_original ns old p)
      else find_original ns old p)"

fun take_originals :: "jni_method list \<Rightarrow> jni_method list \<Rightarrow> jni_method list \<Rightarrow> jni_method list \<times> nat" where
  "take_originals new old [] = ([], 0)"
| "take_originals new old (m # ms) =
     (let (ms', n) = take_originals new old ms in
      if fnPtr m = 0 then (m # ms', n)
      else (case find_original new old (fnPtr m) of
              None \<Rightarrow> (m # ms', n)
            | Some p \<Rightarrow> (m\<lparr>fnPtr := p\<rparr> # ms', Suc n)))"

definition hook_class_methods :: "nat \<Rightarrow> jni_method list \<Rightarrow> 'j zyg \<Rightarrow>
    (nat \<times> jni_method list \<times> 'j zyg) option" where
  "hook_class_methods clazz ms s = do {
     old \<leftarrow> get_jni_methods clazz s;
     let (ms1, s1) = register_jni_methods clazz ms s;
     new \<leftarrow> get_jni_methods clazz s1;
     let (ms2, n) = take_originals new old ms1;
     Some (n, ms2, s1) }"

definition clear_methods :: "jni_method list \<Rightarrow> jni_method list" where
  "clear_methods ms = map (\<lambda>m. m\<lparr>fnPtr := 0\<rparr>) ms"

definition hook_jni_methods :: "bool \<Rightarrow> string option \<Rightarrow> jni_method list \<Rightarrow> 'j zyg \<Rightarrow>
    (jni_method list \<times> 'j zyg) option" where
  "hook_jni_methods env_null clz ms s = do {
     h \<leftarrow> get_hook s;
     case clz of
       None \<Rightarrow> Some (clear_methods ms, s)
     | Some c \<Rightarrow>
         let clazz = FindClass (jvm (w s)) (jst s) c in
         if runtime_callbacks h = 0 \<or> env_null \<or> clazz = 0 then Some (clear_methods ms, s)
         else do { (n, ms', s') \<leftarrow> hook_class_methods clazz ms s; Some (ms', s') } }"

definition hookJniNativeMethods :: "bool \<Rightarrow> string option \<Rightarrow> jni_method list \<Rightarrow> 'j zyg \<Rightarrow>
    (jni_method list \<times> 'j zyg) option" where
  "hookJniNativeMethods env_null clz ms s = hook_jni_methods env_null clz ms s"

section \<open>The natives of Zygote\<close>

definition table_methods :: "jtable \<Rightarrow> 'j zyg \<Rightarrow> jni_method list" where
  "table_methods t s = (case get_hook s of Some h \<Rightarrow> jni_tables h t | None \<Rightarrow> [])"

definition set_table :: "jtable \<Rightarrow> jni_method list \<Rightarrow> 'j zyg \<Rightarrow> 'j zyg" where
  "set_table t ms s = upd_hook (\<lambda>h. h\<lparr>jni_tables := (jni_tables h)(t := ms)\<rparr>) s"

definition table_of :: "string \<Rightarrow> jtable option" where
  "table_of nm =
     (if nm = kForkApp then Some Fork_app
      else if nm = kSpecializeApp then Some Specialize_app
      else if nm = kForkServer then Some Fork_server
      else None)"

text \<open>The loop over the natives: the method that could not be hooked, the tables replaced, the state.\<close>

fun hook_zygote_methods :: "nat \<Rightarrow> jni_method list \<Rightarrow> jtable list \<Rightarrow> 'j zyg \<Rightarrow>
    (jni_method option \<times> jtable list \<times> 'j zyg) option" where
  "hook_zygote_methods clazz [] rep s = Some (None, rep, s)"
| "hook_zygote_methods clazz (m # ms) rep s =
     (case table_of (mname m) of
        None \<Rightarrow> hook_zygote_methods clazz ms rep s
      | Some t \<Rightarrow> do {
          (n, tab, s1) \<leftarrow> hook_class_methods clazz (table_methods t s) s;
          let s2 = set_table t tab s1;
          if n = 0 then Some (Some m, rep, s2)
          else hook_zygote_methods clazz ms (t # rep) s2 })"

definition register_table :: "nat \<Rightarrow> jtable \<Rightarrow> 'j zyg \<Rightarrow> 'j zyg" where
  "register_table clazz t s =
     (let (tab, s') = register_jni_methods clazz (table_methods t s) s in set_table t tab s')"

definition clear_table :: "jtable \<Rightarrow> 'j zyg \<Rightarrow> 'j zyg" where
  "clear_table t s = set_table t (clear_methods (table_methods t s)) s"

text \<open>Whether \<open>JNI_GetCreatedJavaVMs\<close> is found: in the default scope, or in the mapped helper library.\<close>

definition ends_with :: "string \<Rightarrow> string \<Rightarrow> bool" where
  "ends_with s suf \<longleftrightarrow> length suf \<le> length s \<and> drop (length s - length suf) s = suf"

definition find_get_vms :: "'j zyg \<Rightarrow> bool \<times> 'j zyg" where
  "find_get_vms s =
     (if get_vms_default (w s) then (True, s)
      else
        (let (maps, s1) = read_maps s in
         case find (\<lambda>m. ends_with (mpath m) ''/libnativehelper.so'') maps of
           None \<Rightarrow> (False, s1)
         | Some m \<Rightarrow> (case helper_lib (w s1) (mpath m) of
             None \<Rightarrow> (False, s1)
           | Some (h, found) \<Rightarrow> (found, logop (OpDlclose h) s1))))"

definition undo_zygote_hooks :: "nat \<Rightarrow> jtable list \<Rightarrow> 'j zyg \<Rightarrow> 'j zyg" where
  "undo_zygote_hooks clazz rep s =
     (let s1 = (if Fork_app \<in> set rep then register_table clazz Fork_app s else s);
          s2 = (if Specialize_app \<in> set rep then register_table clazz Specialize_app s1 else s1);
          s3 = (if Fork_server \<in> set rep then register_table clazz Fork_server s2 else s2)
      in clear_table Fork_server (clear_table Specialize_app (clear_table Fork_app s3)))"

text \<open>A missing environment is reported and then used, as the code has it.\<close>

definition hook_zygote_jni :: "'j zyg \<Rightarrow> 'j zyg option" where
  "hook_zygote_jni s =
     (let (found, s1) = find_get_vms s in
      if \<not> found \<or> \<not> java_vm (w s1) then Some s1
      else if \<not> jni_env (w s1) then None
      else do {
        let clazz = FindClass (jvm (w s1)) (jst s1) kZygote;
        natives \<leftarrow> get_jni_methods clazz s1;
        (missing, rep, s2) \<leftarrow> hook_zygote_methods clazz natives [] s1;
        Some (if missing = None then s2 else undo_zygote_hooks clazz rep s2) })"

definition restore_zygote_hook :: "'j zyg \<Rightarrow> 'j zyg option" where
  "restore_zygote_hook s = do {
     h \<leftarrow> get_hook s;
     let clazz = FindClass (jvm (w s)) (jst s) kZygote;
     Some (register_table clazz Fork_server
            (register_table clazz Specialize_app (register_table clazz Fork_app s))) }"

end
