(* ===== verification/PltHooks.thy ===== *)
theory PltHooks
  imports JniMethods
begin

text \<open>
  \<^verbatim>\<open>libzygisk/src/hook.cpp\<close>, the PLT side of \<open>HookContext\<close>: registering and committing the hooks,
  remembering them for the restoration, and finding the runtime callbacks in the registers of the
  native bridge's frame.
\<close>

section \<open>Symbols\<close>

definition bytes_of :: "string \<Rightarrow> u8 list" where
  "bytes_of s = map of_char s"

fun plt_symbol :: "plt_fn \<Rightarrow> string" where
  "plt_symbol Pf_dlclose = ''dlclose''"
| "plt_symbol Pf_fork = ''fork''"
| "plt_symbol Pf_unshare = ''unshare''"
| "plt_symbol Pf_setcontext = ''selinux_android_setcontext''"
| "plt_symbol Pf_strdup = ''strdup''"
| "plt_symbol Pf_log_close = ''__android_log_close''"
| "plt_symbol Pf_attr_destroy = ''pthread_attr_destroy''"

section \<open>Hooking and restoring\<close>

definition register_hook :: "u64 \<Rightarrow> nat \<Rightarrow> plt_fn \<Rightarrow> 'j zyg \<Rightarrow> 'j zyg" where
  "register_hook d ino f s =
     (let (good, s1) = RegisterHook d ino (bytes_of (plt_symbol f)) (new_addr (w s) f) (old_addr (w s) f) s
      in if good then upd_hook (\<lambda>h. h\<lparr>plt_backup := plt_backup h @ [(d, ino, f)]\<rparr>) s1 else s1)"

text \<open>The device and inode of the last mapping of a library; 0 and 0 when there is none.\<close>

definition last_library :: "string \<Rightarrow> map_info list \<Rightarrow> u64 \<times> nat" where
  "last_library lib maps =
     fold (\<lambda>m r. if ends_with (mpath m) lib then (dev m, inode m) else r) maps (0, 0)"

definition first_library :: "string \<Rightarrow> map_info list \<Rightarrow> u64 \<times> nat" where
  "first_library lib maps =
     (case find (\<lambda>m. ends_with (mpath m) lib) maps of Some m \<Rightarrow> (dev m, inode m) | None \<Rightarrow> (0, 0))"

definition drop_unhooked :: "'j zyg \<Rightarrow> 'j zyg" where
  "drop_unhooked s =
     upd_hook (\<lambda>h. h\<lparr>plt_backup := filter (\<lambda>(d, ino, f). read_ptr f s \<noteq> 0) (plt_backup h)\<rparr>) s"

definition hook_plt :: "'j zyg \<Rightarrow> 'j zyg option" where
  "hook_plt s = do {
     h \<leftarrow> get_hook s;
     let (maps, s1) = read_maps s;
     let (rt_dev, rt_ino) = last_library ''/libandroid_runtime.so'' maps;
     let (nb_dev, nb_ino) = last_library ''/libnativebridge.so'' maps;
     let s2 = register_hook nb_dev nb_ino Pf_dlclose s1;
     let s3 = fold (register_hook rt_dev rt_ino)
       [Pf_fork, Pf_unshare, Pf_setcontext, Pf_strdup, Pf_log_close] s2;
     (good, s4) \<leftarrow> CommitHook s3;
     Some (drop_unhooked s4) }"

definition hook_unloader :: "'j zyg \<Rightarrow> 'j zyg option" where
  "hook_unloader s = do {
     h \<leftarrow> get_hook s;
     let (maps, s1) = read_maps s;
     let (art_dev, art_ino) = first_library ''/libart.so'' maps;
     (good, s2) \<leftarrow> CommitHook (register_hook art_dev art_ino Pf_attr_destroy s1);
     Some s2 }"

fun restore_registrations :: "(u64 \<times> nat \<times> plt_fn) list \<Rightarrow> bool \<Rightarrow> 'j zyg \<Rightarrow> bool \<times> 'j zyg" where
  "restore_registrations [] ok s = (ok, s)"
| "restore_registrations ((d, ino, f) # r) ok s =
     (let (good, s') = RegisterHook d ino (bytes_of (plt_symbol f)) (read_ptr f s) 0 s
      in restore_registrations r (ok \<and> good) s')"

definition restore_plt_hook :: "'j zyg \<Rightarrow> 'j zyg option" where
  "restore_plt_hook s = do {
     h \<leftarrow> get_hook s;
     let (ok, s1) = restore_registrations (plt_backup h) True s;
     (good, s2) \<leftarrow> CommitHook s1;
     Some (if ok \<and> good then s2 else upd_hook (\<lambda>h. h\<lparr>should_unmap := False\<rparr>) s2) }"

section \<open>The runtime callbacks\<close>

text \<open>The first readable and writable, not executable, mapping of the runtime.\<close>

definition runtime_range :: "map_info list \<Rightarrow> u64 \<times> u64" where
  "runtime_range maps =
     (case find (\<lambda>m. ends_with (mpath m) ''/libart.so'' \<and> perms m = PROT_WRITE OR PROT_READ) maps of
        Some m \<Rightarrow> (hstart m, hend m) | None \<Rightarrow> (0, 0))"

text \<open>The registers looked into, in order, and the words found there.\<close>

fun callee_saved :: "machine_abi \<Rightarrow> nat list" where
  "callee_saved Aarch64 = [19, 20, 21, 22, 23, 24, 25, 26, 27, 28]"
| "callee_saved Arm = [4, 5, 6, 7, 8, 9, 10]"
| "callee_saved I386 = []"
| "callee_saved X86_64 = [3, 15, 14, 13, 12]"
| "callee_saved Riscv = [8, 9, 18, 19, 20, 21, 22, 23, 24, 25, 26, 27]"

definition candidates :: "machine_abi \<Rightarrow> frame \<Rightarrow> u64 list" where
  "candidates a f = (if a = I386 then [stack_word f] else map (registers f) (callee_saved a))"

definition find_runtime_callbacks :: "frame \<Rightarrow> 'j zyg \<Rightarrow> u64 \<times> 'j zyg" where
  "find_runtime_callbacks f s =
     (let (maps, s1) = read_maps s;
          (lo, hi) = runtime_range maps
      in (case find (\<lambda>v. lo \<le> v \<and> v < hi) (candidates (abi s1) f) of Some v \<Rightarrow> v | None \<Rightarrow> 0, s1))"

definition unwind_get_region_start :: "machine_abi \<Rightarrow> frame \<Rightarrow> u64" where
  "unwind_get_region_start a f =
     (if a = Arm \<and> registers f 15 AND 1 \<noteq> 0 then region_start f OR 1 else region_start f)"

text \<open>The backtrace's callback: it stops at the first frame of the native bridge library.\<close>

fun find_native_bridge :: "frame list \<Rightarrow> 'j zyg \<Rightarrow> (u64 \<times> u64) \<times> 'j zyg" where
  "find_native_bridge [] s = ((0, 0), s)"
| "find_native_bridge (f # fs) s =
     (case frame_fname f of
        None \<Rightarrow> find_native_bridge fs s
      | Some nm \<Rightarrow>
          if ends_with nm ''/libnativebridge.so'' then
            (let (cb, s') = find_runtime_callbacks f s
             in ((unwind_get_region_start (abi s) f, cb), s'))
          else find_native_bridge fs s)"

definition get_prop :: "string \<Rightarrow> string" where
  "get_prop v = take 91 v"

definition ZYGISKLDR :: string where "ZYGISKLDR = ''libzygisk.so''"

definition post_native_bridge_load :: "u64 \<Rightarrow> 'j zyg \<Rightarrow> 'j zyg" where
  "post_native_bridge_load handle s =
     (let s1 = upd_hook (\<lambda>h. h\<lparr>self_handle := handle\<rparr>) s;
          ((load, cb), s2) = find_native_bridge (backtrace (w s1)) s1
      in if load = 0 \<or> cb = 0 then s2
         else
           (let nb = get_prop (native_bridge_prop (w s2));
                len = length ZYGISKLDR;
                s3 = (if len < length nb then logop (OpLoadBridge (drop len nb)) s2 else s2)
            in upd_hook (\<lambda>h. h\<lparr>runtime_callbacks := cb\<rparr>) s3))"

section \<open>Starting\<close>

definition jni_definitions :: "'j world \<Rightarrow> jtable \<Rightarrow> jni_method list" where
  "jni_definitions wo t =
     map (\<lambda>(i, h). \<lparr>mname = jh_name h, msig = jh_sig h, fnPtr = hook_addr wo t i\<rparr>)
       (enumerate 0 (src_methods t))"

definition new_HookContext :: "'j world \<Rightarrow> HookContext" where
  "new_HookContext wo =
     \<lparr>plt_backup = [], runtime_callbacks = 0, self_handle = 0, should_unmap = False,
      jni_tables = jni_definitions wo\<rparr>"

definition hook_entry :: "'j zyg \<Rightarrow> 'j zyg option" where
  "hook_entry s = hook_plt (s\<lparr>g_hook := Live (new_HookContext (w s))\<rparr>)"

end
