(* ===== verification/ZygModule.thy ===== *)
theory ZygModule
  imports PltHooks
begin

text \<open>
  \<^verbatim>\<open>ZygiskModule\<close> and the interface it hands out (\<^verbatim>\<open>libzygisk/src/module.cpp\<close>): filling the API
  table for a version, the functions behind it, and running a module's callbacks against it.
\<close>

section \<open>Requests to the daemon\<close>

definition zygisk_request_fd :: "ZygiskRequest \<Rightarrow> 'j zyg \<Rightarrow> fd \<times> 'j zyg" where
  "zygisk_request_fd req s =
     (let (d, s1) = zygisk_connect s in
      if d < 0 then (d, s1)
      else (d, snd (sys_write d (enc_request \<lparr>opcode = request_code req, hpid = self_pid s1\<rparr>) s1)))"

section \<open>Registration\<close>

definition new_ZygiskModule :: "nat \<Rightarrow> nat \<Rightarrow> act list \<Rightarrow> ZygiskModule" where
  "new_ZygiskModule k h e =
     \<lparr>m_id = k, m_unload = False, m_handle = h, m_entry = e,
      m_api = put api_abi_base T_registerModule F_RegisterModuleImpl (api_zero\<lparr>impl := Some k\<rparr>),
      m_mod = None\<rparr>"

text \<open>The assignments of \<open>RegisterModuleImpl\<close>, in order.\<close>

definition fill_v1 :: "ApiTable \<Rightarrow> ApiTable" where
  "fill_v1 a =
     put api_abi_v1 T_setOption F_setOption
      (put api_abi_v1 T_connectCompanion F_connectCompanion
       (put api_abi_v1 T_pltHookCommit F_ctx_plt_hook_commit
        (put api_abi_v1 T_pltHookExclude F_ctx_plt_hook_exclude
         (put api_abi_v1 T_pltHookRegister_regex F_ctx_plt_hook_register
          (put api_abi_v1 T_hookJniNativeMethods F_hookJniNativeMethods a)))))"

definition fill_v2 :: "ApiTable \<Rightarrow> ApiTable" where
  "fill_v2 a = put api_abi_v2 T_getFlags F_getFlags (put api_abi_v2 T_getModuleDir F_getModuleDir a)"

definition fill_v4 :: "ApiTable \<Rightarrow> ApiTable" where
  "fill_v4 a =
     put api_abi_v4 T_exemptFd F_exempt_fd
      (put api_abi_v4 T_pltHookRegister_inode F_lsplt_RegisterHook
       (put api_abi_v4 T_pltHookCommit F_lsplt_CommitHook a))"

definition fill_api :: "int \<Rightarrow> ApiTable \<Rightarrow> ApiTable" where
  "fill_api v a =
     (let a1 = (if 1 \<le> v then fill_v1 a else a);
          a2 = (if 2 \<le> v then fill_v2 a1 else a1)
      in if 4 \<le> v then fill_v4 a2 else a2)"

text \<open>The table is the calling module's; a cleared one has no \<open>impl\<close> to write through.\<close>

definition RegisterModuleImpl :: "nat \<Rightarrow> bool \<Rightarrow> module_abi option \<Rightarrow> 'j zyg \<Rightarrow> (bool \<times> 'j zyg) option" where
  "RegisterModuleImpl k api_null md s =
     (case md of
        None \<Rightarrow> Some (False, s)
      | Some a \<Rightarrow>
          if api_null \<or> abi_version a > ZYGISK_API_VERSION then Some (False, s)
          else do {
            m \<leftarrow> get_module k s;
            self \<leftarrow> impl (m_api m);
            let s1 = upd_module self (\<lambda>m. m\<lparr>m_mod := Some a\<rparr>) s;
            Some (True, upd_module k (\<lambda>m. m\<lparr>m_api := fill_api (abi_version a) (m_api m)\<rparr>) s1) })"

definition valid_module :: "ZygiskModule \<Rightarrow> bool" where
  "valid_module m =
     (case m_mod m of
        None \<Rightarrow> False
      | Some a \<Rightarrow>
          if abi_version a \<in> {1, 2, 3, 4, 5} then
            abi_impl a \<noteq> 0 \<and> abi_preApp a \<noteq> None \<and> abi_postApp a \<noteq> None \<and>
            abi_preServer a \<noteq> None \<and> abi_postServer a \<noteq> None
          else False)"

section \<open>The functions behind the table\<close>

text \<open>On a 64-bit ABI the daemon is told with the byte 1.\<close>

definition connectCompanion :: "nat \<Rightarrow> 'j zyg \<Rightarrow> fd \<times> 'j zyg" where
  "connectCompanion k s =
     (let (d, s1) = zygisk_request_fd ConnectCompanion s in
      if 0 \<le> d then
        (d, write_int d (of_nat k)
              (write_any d [if abi s1 = Arm \<or> abi s1 = I386 then 0 else 1] s1))
      else (-1, s1))"

text \<open>
  One byte with one descriptor; the connection is closed on every way out. The byte is received into
  the literal \<^verbatim>\<open>""\<close>: where that cannot be written the call fails and takes nothing.
\<close>

definition receive_fd :: "fd \<Rightarrow> 'j zyg \<Rightarrow> fd \<times> 'j zyg" where
  "receive_fd d s =
     (case incoming d s of
        None \<Rightarrow> (-1, s)
      | Some rx \<Rightarrow>
          (case rx_recvmsg 1 rx of
             (RFail e, _, rx') \<Rightarrow> (-1, set_incoming d rx' s)
           | (REof, _, rx') \<Rightarrow> (-1, set_incoming d rx' s)
           | (RData b, f, rx') \<Rightarrow>
               if \<not> literal_writable (w s) then (-1, s)
               else (case f of
                  None \<Rightarrow> (-1, set_incoming d rx' s)
                | Some f \<Rightarrow> alloc_fd f (set_incoming d rx' s))))"

definition getModuleDir :: "nat \<Rightarrow> 'j zyg \<Rightarrow> fd \<times> 'j zyg" where
  "getModuleDir k s =
     (let (d, s1) = zygisk_request_fd ZygiskRequest.GetModuleDir s in
      if 0 \<le> d then
        (let (r, s2) = receive_fd d (write_int d (of_nat k) s1) in (r, sys_close d s2))
      else (-1, s1))"

definition setOption :: "nat \<Rightarrow> Option \<Rightarrow> 'j zyg \<Rightarrow> 'j zyg" where
  "setOption k opt s =
     (case g_ctx s of
        None \<Rightarrow> s
      | Some c \<Rightarrow> (case opt of
          FORCE_DENYLIST_UNMOUNT \<Rightarrow> upd_ctx (\<lambda>c. c\<lparr>c_flags := c_flags c OR DO_REVERT_UNMOUNT\<rparr>) s
        | DLCLOSE_MODULE_LIBRARY \<Rightarrow> upd_module k (\<lambda>m. m\<lparr>m_unload := True\<rparr>) s))"

definition getFlags :: "'j zyg \<Rightarrow> u32" where
  "getFlags s = (case g_ctx s of None \<Rightarrow> 0 | Some c \<Rightarrow> c_info_flags c AND NOT PRIVATE_MASK)"

definition tryUnload :: "ZygiskModule \<Rightarrow> 'j zyg \<Rightarrow> 'j zyg" where
  "tryUnload m s = (if m_unload m then logop (OpDlclose (m_handle m)) s else s)"

definition plt_hook_register :: "string option \<Rightarrow> u8 list option \<Rightarrow> u64 \<Rightarrow> u64 \<Rightarrow> 'j zyg \<Rightarrow> 'j zyg" where
  "plt_hook_register re sy fn bk s =
     (case (re, sy) of
        (Some r, Some y) \<Rightarrow>
          if fn = 0 \<or> \<not> regcomp (w s) r then s
          else upd_ctx (\<lambda>c. c\<lparr>c_register_info := c_register_info c @
                 [\<lparr>r_regex = r, r_symbol = y, r_callback = fn, r_backup = bk\<rparr>]\<rparr>) s
      | _ \<Rightarrow> s)"

definition plt_hook_exclude :: "string option \<Rightarrow> u8 list option \<Rightarrow> 'j zyg \<Rightarrow> 'j zyg" where
  "plt_hook_exclude re sy s =
     (case re of
        None \<Rightarrow> s
      | Some r \<Rightarrow>
          if \<not> regcomp (w s) r then s
          else upd_ctx (\<lambda>c. c\<lparr>c_ignore_info := c_ignore_info c @
                 [\<lparr>i_regex = r, i_symbol = (case sy of Some y \<Rightarrow> y | None \<Rightarrow> [])\<rparr>]\<rparr>) s)"

definition scannable :: "map_info \<Rightarrow> bool" where
  "scannable m \<longleftrightarrow> moffset m = 0 \<and> is_private m \<and> perms m AND PROT_READ \<noteq> 0"

definition ignored :: "(string \<Rightarrow> string \<Rightarrow> bool) \<Rightarrow> IgnoreInfo list \<Rightarrow> string \<Rightarrow> CtxRegisterInfo \<Rightarrow> bool" where
  "ignored ex igns path r =
     list_ex (\<lambda>i. ex (i_regex i) path \<and> (i_symbol i = [] \<or> i_symbol i = r_symbol r)) igns"

fun process_regs :: "IgnoreInfo list \<Rightarrow> map_info \<Rightarrow> CtxRegisterInfo list \<Rightarrow> 'j zyg \<Rightarrow> 'j zyg" where
  "process_regs igns m [] s = s"
| "process_regs igns m (r # rs) s =
     (if regexec (w s) (r_regex r) (mpath m) \<and> \<not> ignored (regexec (w s)) igns (mpath m) r
      then process_regs igns m rs
             (snd (RegisterHook (dev m) (inode m) (r_symbol r) (r_callback r) (r_backup r) s))
      else process_regs igns m rs s)"

definition plt_hook_process_regex :: "ZygiskContext \<Rightarrow> 'j zyg \<Rightarrow> 'j zyg" where
  "plt_hook_process_regex c s =
     (if c_register_info c = [] then s
      else (let (maps, s1) = read_maps s in
        fold (\<lambda>m s. process_regs (c_ignore_info c) m (c_register_info c) s) (filter scannable maps) s1))"

definition plt_hook_commit :: "'j zyg \<Rightarrow> (bool \<times> 'j zyg) option" where
  "plt_hook_commit s =
     (case g_ctx s of
        None \<Rightarrow> Some (False, s)
      | Some c \<Rightarrow>
          CommitHook (upd_ctx (\<lambda>c. c\<lparr>c_register_info := [], c_ignore_info := []\<rparr>)
            (plt_hook_process_regex c s)))"

text \<open>The inode interface of version 4.\<close>

definition register_by_inode :: "u64 \<Rightarrow> nat \<Rightarrow> u8 list option \<Rightarrow> u64 \<Rightarrow> u64 \<Rightarrow> 'j zyg \<Rightarrow> 'j zyg" where
  "register_by_inode d ino sy fn bk s =
     (case sy of
        None \<Rightarrow> s
      | Some y \<Rightarrow> if d = 0 \<or> ino = 0 \<or> fn = 0 then s else snd (RegisterHook d ino y fn bk s))"

definition can_exempt_fd :: "ZygiskContext \<Rightarrow> bool" where
  "can_exempt_fd c \<longleftrightarrow> has_flag (c_flags c) APP_FORK_AND_SPECIALIZE \<and>
     (case c_args c of App_spec a \<Rightarrow> fds_to_ignore a \<noteq> None | Server_spec _ \<Rightarrow> False)"

definition exempt_fd :: "fd \<Rightarrow> 'j zyg \<Rightarrow> bool \<times> 'j zyg" where
  "exempt_fd d s =
     (case g_ctx s of
        None \<Rightarrow> (False, s)
      | Some c \<Rightarrow>
          if has_flag (c_flags c) POST_SPECIALIZE \<or> has_flag (c_flags c) SKIP_CLOSE_LOG_PIPE then (True, s)
          else if \<not> can_exempt_fd c then (False, s)
          else (True, upd_ctx (\<lambda>c. c\<lparr>c_exempted_fds := c_exempted_fds c @ [d]\<rparr>) s))"

section \<open>Running a module\<close>

text \<open>
  A call through a slot of the table of module \<open>k\<close>: a null slot, or a function of another type than
  the call's, is a crash.
\<close>

definition run_api :: "api_fn \<Rightarrow> api_call \<Rightarrow> nat \<Rightarrow> 'j zyg \<Rightarrow> 'j zyg option" where
  "run_api f call k s =
     (case call of
        C_registerModule n a \<Rightarrow>
          if f = F_RegisterModuleImpl then map_option snd (RegisterModuleImpl k n a s) else None
      | C_hookJniNativeMethods e c ms \<Rightarrow>
          if f = F_hookJniNativeMethods then map_option snd (hookJniNativeMethods e c ms s) else None
      | C_pltHookRegister_regex re sy fn bk \<Rightarrow>
          if f = F_ctx_plt_hook_register
          then Some (if g_ctx s = None then s else plt_hook_register re sy fn bk s) else None
      | C_pltHookRegister_inode d ino sy fn bk \<Rightarrow>
          if f = F_lsplt_RegisterHook then Some (register_by_inode d ino sy fn bk s) else None
      | C_pltHookExclude re sy \<Rightarrow>
          if f = F_ctx_plt_hook_exclude
          then Some (if g_ctx s = None then s else plt_hook_exclude re sy s) else None
      | C_exemptFd d \<Rightarrow> if f = F_exempt_fd then Some (snd (exempt_fd d s)) else None
      | C_pltHookCommit \<Rightarrow>
          if f = F_ctx_plt_hook_commit then map_option snd (plt_hook_commit s)
          else if f = F_lsplt_CommitHook then map_option snd (CommitHook s) else None
      | C_connectCompanion \<Rightarrow> if f = F_connectCompanion then Some (snd (connectCompanion k s)) else None
      | C_setOption opt \<Rightarrow> if f = F_setOption then Some (setOption k opt s) else None
      | C_getModuleDir \<Rightarrow> if f = F_getModuleDir then Some (snd (getModuleDir k s)) else None
      | C_getFlags \<Rightarrow> if f = F_getFlags then Some s else None)"

definition run_call :: "nat \<Rightarrow> nat \<Rightarrow> api_call \<Rightarrow> 'j zyg \<Rightarrow> 'j zyg option" where
  "run_call k slot call s = do {
     m \<leftarrow> get_module k s;
     f \<leftarrow> slots (m_api m) slot;
     run_api f call k s }"

fun run_acts :: "nat \<Rightarrow> mod_args \<Rightarrow> act list \<Rightarrow> 'j zyg \<Rightarrow> 'j zyg option" where
  "run_acts k args [] s = Some s"
| "run_acts k args (Call i c # r) s = do { s' \<leftarrow> run_call k i c s; run_acts k args r s' }"
| "run_acts k args (Set_arg p v # r) s = do {
     q \<leftarrow> arg_member args p;
     run_acts k args r (s\<lparr>locals := (locals s)(q := v)\<rparr>) }"

definition run_callback :: "string \<Rightarrow> nat \<Rightarrow> mod_args \<Rightarrow> act list option \<Rightarrow> 'j zyg \<Rightarrow> 'j zyg option" where
  "run_callback nm k args f s = do { acts \<leftarrow> f; run_acts k args acts (logop (OpCallback nm k) s) }"

text \<open>\<open>call_app\<close>: modules of version 1 and 2 get a restricted copy, newer ones the object itself.\<close>

definition call_app :: "string \<Rightarrow> (module_abi \<Rightarrow> act list option) \<Rightarrow> AppSpecializeArgs_v5 \<Rightarrow>
    ZygiskModule \<Rightarrow> 'j zyg \<Rightarrow> 'j zyg option" where
  "call_app nm method a m s = do {
     md \<leftarrow> m_mod m;
     if abi_version md \<in> {1, 2} then
       run_callback nm (m_id m) (Args_v1 (AppSpecializeArgs_v1_of a)) (method md) s
     else if abi_version md \<in> {3, 4, 5} then run_callback nm (m_id m) (Args_v5 a) (method md) s
     else Some s }"

definition preAppSpecialize :: "AppSpecializeArgs_v5 \<Rightarrow> ZygiskModule \<Rightarrow> 'j zyg \<Rightarrow> 'j zyg option" where
  "preAppSpecialize = call_app ''preAppSpecialize'' abi_preApp"

definition postAppSpecialize :: "AppSpecializeArgs_v5 \<Rightarrow> ZygiskModule \<Rightarrow> 'j zyg \<Rightarrow> 'j zyg option" where
  "postAppSpecialize = call_app ''postAppSpecialize'' abi_postApp"

definition preServerSpecialize :: "ServerSpecializeArgs_v1 \<Rightarrow> ZygiskModule \<Rightarrow> 'j zyg \<Rightarrow> 'j zyg option" where
  "preServerSpecialize a m s = do {
     md \<leftarrow> m_mod m;
     run_callback ''preServerSpecialize'' (m_id m) (Args_server a) (abi_preServer md) s }"

definition postServerSpecialize :: "ServerSpecializeArgs_v1 \<Rightarrow> ZygiskModule \<Rightarrow> 'j zyg \<Rightarrow> 'j zyg option" where
  "postServerSpecialize a m s = do {
     md \<leftarrow> m_mod m;
     run_callback ''postServerSpecialize'' (m_id m) (Args_server a) (abi_postServer md) s }"

definition onLoad :: "ZygiskModule \<Rightarrow> 'j zyg \<Rightarrow> 'j zyg option" where
  "onLoad m s = run_callback ''onLoad'' (m_id m) No_args (Some (m_entry m)) s"

definition clearApi :: "ZygiskModule \<Rightarrow> ZygiskModule" where
  "clearApi m = m\<lparr>m_api := api_zero\<rparr>"

end
