(* ===== verification/ZygContext.thy ===== *)
theory ZygContext
  imports ZygModule
begin

text \<open>
  \<^verbatim>\<open>ZygiskContext\<close> (\<^verbatim>\<open>libzygisk/src/module.cpp\<close>, constructor and destructor in
  \<^verbatim>\<open>hook.cpp\<close>): finding and loading the modules, the descriptors a fork may keep, the fork itself and
  the steps around an app's or the system server's specialization. A fault of the code (a null
  directory stream, an index out of range) is \<open>None\<close>.
\<close>

section \<open>Directories\<close>

text \<open>An open directory stream holds a descriptor until it is closed.\<close>

definition xopen_dir :: "string \<Rightarrow> 'j zyg \<Rightarrow> ((bool \<times> string) list \<times> fd \<times> 'j zyg) option" where
  "xopen_dir path s = (case dir_entries (w s) path of
      None \<Rightarrow> None
    | Some es \<Rightarrow> (let (d, s') = alloc_fd DirStream s in Some (es, d, s')))"

text \<open>\<^verbatim>\<open>/proc/self/fd\<close>: the two dot entries and the open descriptors, the stream's own among them.\<close>

definition open_proc_fd :: "'j zyg \<Rightarrow> (string list \<times> fd \<times> 'j zyg) option" where
  "open_proc_fd s =
     (if proc_fd_ok (w s) then
        (let (d, s') = alloc_fd DirStream s in
         Some (''.'' # ''..'' # map (\<lambda>(k, _). show_num 10 (nat k)) (fdtab s'), d, s'))
      else None)"

text \<open>\<open>parse_int\<close>; a value above the range of \<open>int\<close> overflows, which is undefined.\<close>

fun parse_digits :: "int \<Rightarrow> string \<Rightarrow> int option" where
  "parse_digits v [] = Some v"
| "parse_digits v (c # r) =
     (if is_digit 10 c then
        (let v' = v * 10 + int (digit_value c) in
         if v' < 2 ^ 31 then parse_digits v' r else None)
      else Some v)"

definition parse_int :: "string \<Rightarrow> int option" where
  "parse_int s = parse_digits 0 s"

section \<open>Finding the modules\<close>

fun scan_zygisk_dir :: "string \<Rightarrow> (bool \<times> string) list \<Rightarrow> 'j zyg \<Rightarrow> fd list \<times> 'j zyg" where
  "scan_zygisk_dir path [] s = ([], s)"
| "scan_zygisk_dir path ((isdir, name) # r) s =
     (if length name < 3 \<or> drop (length name - 3) name \<noteq> ''.so'' then scan_zygisk_dir path r s
      else
        (case open_file (w s) (path @ ''/'' @ name) of
           None \<Rightarrow> scan_zygisk_dir path r s
         | Some f \<Rightarrow>
             (let (d, s1) = alloc_fd f s; (ds, s2) = scan_zygisk_dir path r s1 in (d # ds, s2))))"

fun scan_modules :: "(bool \<times> string) list \<Rightarrow> 'j zyg \<Rightarrow> fd list \<times> 'j zyg" where
  "scan_modules [] s = ([], s)"
| "scan_modules ((isdir, name) # r) s =
     (if \<not> isdir \<or> take 1 name = ''.'' then scan_modules r s
      else
        (let path = ''/data/adb/modules/'' @ name @ ''/zygisk'' in
         case xopen_dir path s of
           None \<Rightarrow> scan_modules r s
         | Some (es, zd, s1) \<Rightarrow>
             (let (ds, s2) = scan_zygisk_dir path es s1;
                  (ds', s3) = scan_modules r (sys_close zd s2)
              in (ds @ ds', s3))))"

text \<open>
  The response is read into an uninitialised header: what does not arrive keeps its old bytes, and
  the result of the read is not looked at. The flags are the last four of the twelve bytes.
\<close>

definition read_flags :: "fd \<Rightarrow> 'j zyg \<Rightarrow> u32 option \<times> 'j zyg" where
  "read_flags d s =
     (let (n, buf, s1) = sock_xxread d 12 s;
          bytes = buf @ drop (length buf) (uninit (w s))
      in (dec32 (drop 8 bytes), s1))"

definition get_module_info :: "'j zyg \<Rightarrow> (fd \<times> fd list \<times> 'j zyg) option" where
  "get_module_info s =
     (let (d, s1) = zygisk_request_fd GetInfo s in
      if 0 \<le> d then
        (case read_flags d s1 of
           (None, s2) \<Rightarrow> None
         | (Some fl, s2) \<Rightarrow>
             (let s3 = upd_ctx (\<lambda>c. c\<lparr>c_info_flags := fl\<rparr>) s2 in
              if has_all fl UNMOUNT_MASK then Some (d, [], s3)
              else (case xopen_dir ''/data/adb/modules'' s3 of
                  None \<Rightarrow> Some (d, [], s3)
                | Some (es, md, s4) \<Rightarrow>
                    (let (ds, s5) = scan_modules es s4 in Some (d, ds, sys_close md s5)))))
      else Some (-1, [], s1))"

section \<open>Descriptors a fork may keep\<close>

definition allow_one :: "fd \<Rightarrow> bool list \<Rightarrow> bool list" where
  "allow_one d al = (if 0 \<le> d \<and> d < int (length al) then al[nat d := True] else al)"

definition allow_fds :: "fd list \<Rightarrow> 'j zyg \<Rightarrow> 'j zyg" where
  "allow_fds ds s = upd_ctx (\<lambda>c. c\<lparr>c_allowed_fds := fold allow_one ds (c_allowed_fds c)\<rparr>) s"

text \<open>The closure \<open>update\<close>: a longer array with the exempted descriptors behind \<open>old_len\<close> entries.\<close>

definition update_ignored :: "jparam \<Rightarrow> nat \<Rightarrow> fd list \<Rightarrow> 'j zyg \<Rightarrow> nat \<times> 'j zyg" where
  "update_ignored p old_len ex s =
     (let (arr, j1) = NewIntArray (jvm (w s)) (jst s) (old_len + length ex);
          s1 = s\<lparr>jst := j1\<rparr>
      in if arr = 0 then (0, s1)
         else
           (let s2 = allow_fds ex (s1\<lparr>jst := SetIntArrayRegion (jvm (w s)) j1 arr old_len ex\<rparr>)
            in (arr, s2\<lparr>locals := (locals s2)(p := JRef arr)\<rparr>)))"

definition exempt_in_java :: "jparam \<Rightarrow> fd list \<Rightarrow> 'j zyg \<Rightarrow> 'j zyg option" where
  "exempt_in_java p ex s =
     (case locals s p of
        JRef a \<Rightarrow>
          if a \<noteq> 0 then
            (let els = GetIntArrayElements (jvm (w s)) (jst s) a;
                 (arr, s1) = update_ignored p (length els) ex (allow_fds els s)
             in Some (if arr = 0 then s1
                      else s1\<lparr>jst := SetIntArrayRegion (jvm (w s1)) (jst s1) arr 0 els\<rparr>))
          else Some (snd (update_ignored p 0 ex s))
      | _ \<Rightarrow> None)"

fun close_unlisted :: "bool list \<Rightarrow> fd \<Rightarrow> string list \<Rightarrow> 'j zyg \<Rightarrow> 'j zyg option" where
  "close_unlisted al dfd [] s = Some s"
| "close_unlisted al dfd (e # es) s = do {
     d \<leftarrow> parse_int e;
     if (d < 0 \<or> int (length al) \<le> d \<or> \<not> al ! nat d) \<and> d \<noteq> dfd
     then close_unlisted al dfd es (sys_close d s)
     else close_unlisted al dfd es s }"

definition sanitize_fds :: "'j zyg \<Rightarrow> 'j zyg option" where
  "sanitize_fds s = do {
     c \<leftarrow> g_ctx s;
     if \<not> is_child c then Some s
     else do {
       s1 \<leftarrow> (if can_exempt_fd c \<and> c_exempted_fds c \<noteq> [] then
                (case c_args c of
                   App_spec a \<Rightarrow> do { p \<leftarrow> fds_to_ignore a; exempt_in_java p (c_exempted_fds c) s }
                 | Server_spec _ \<Rightarrow> None)
              else Some s);
       c1 \<leftarrow> g_ctx s1;
       (es, dfd, s2) \<leftarrow> open_proc_fd s1;
       s3 \<leftarrow> close_unlisted (c_allowed_fds c1) dfd es s2;
       Some (sys_close dfd s3) } }"

section \<open>The fork\<close>

text \<open>The original \<open>fork\<close>: its result, and in the child the child's own id.\<close>

definition old_fork :: "'j zyg \<Rightarrow> (int \<times> 'j zyg) option" where
  "old_fork s = do {
     s1 \<leftarrow> through Pf_fork OpFork s;
     Some (case forks s1 of
        [] \<Rightarrow> (-1, s1)
      | (p, me) # r \<Rightarrow>
          (p, if p = 0 then s1\<lparr>forks := r, self_pid := me, self_tid := me\<rparr> else s1\<lparr>forks := r\<rparr>)) }"

fun list_open :: "string list \<Rightarrow> bool list \<Rightarrow> 'j zyg \<Rightarrow> (bool list \<times> 'j zyg) option" where
  "list_open [] al s = Some (al, s)"
| "list_open (e # es) al s = do {
     d \<leftarrow> parse_int e;
     if d < 0 \<or> int (length al) \<le> d then list_open es al (sys_close d s)
     else list_open es (al[nat d := True]) s }"

definition fork_pre :: "'j zyg \<Rightarrow> 'j zyg option" where
  "fork_pre s = do {
     (p, s1) \<leftarrow> old_fork (logop OpSigBlock s);
     let s2 = upd_ctx (\<lambda>c. c\<lparr>c_pid := p\<rparr>) s1;
     c \<leftarrow> g_ctx s2;
     if \<not> is_child c then Some s2
     else do {
       (es, dfd, s3) \<leftarrow> open_proc_fd s2;
       (al, s4) \<leftarrow> list_open es (c_allowed_fds c) s3;
       if int (length al) \<le> dfd then None
       else Some (sys_close dfd (upd_ctx (\<lambda>c. c\<lparr>c_allowed_fds := al[nat dfd := False]\<rparr>) s4)) } }"

definition fork_post :: "'j zyg \<Rightarrow> 'j zyg" where
  "fork_post s = logop OpSigUnblock s"

section \<open>Loading and running the modules\<close>

text \<open>One descriptor: what is left of it in the list, and the module it may add.\<close>

definition load_module :: "nat \<Rightarrow> fd \<Rightarrow> 'j zyg \<Rightarrow> fd \<times> 'j zyg" where
  "load_module i d s =
     (case map_of (fdtab s) d of
        Some (Reg n) \<Rightarrow>
          (case dlopen_fd (w s) (Reg n) of
             Some h \<Rightarrow>
               (d, sys_close d (case module_entry (w s) h of
                  Some e \<Rightarrow> upd_ctx (\<lambda>c. c\<lparr>c_modules := c_modules c @ [new_ZygiskModule i h e]\<rparr>) s
                | None \<Rightarrow> s))
           | None \<Rightarrow>
               (if (case g_ctx s of Some c \<Rightarrow> has_flag (c_flags c) SERVER_FORK_AND_SPECIALIZE
                    | None \<Rightarrow> False) then -1 else d, sys_close d s))
      | _ \<Rightarrow> (-1, if 0 \<le> d then sys_close d s else s))"

fun load_modules :: "nat \<Rightarrow> fd list \<Rightarrow> 'j zyg \<Rightarrow> fd list \<times> 'j zyg" where
  "load_modules i [] s = ([], s)"
| "load_modules i (d # ds) s =
     (let (d', s1) = load_module i d s;
          (ds', s2) = load_modules (Suc i) ds s1
      in (d' # ds', s2))"

fun load_all :: "nat list \<Rightarrow> 'j zyg \<Rightarrow> 'j zyg option" where
  "load_all [] s = Some s"
| "load_all (k # ks) s = do {
     m \<leftarrow> get_module k s;
     s1 \<leftarrow> onLoad m s;
     m1 \<leftarrow> get_module k s1;
     load_all ks
       (if valid_module m1 then s1
        else upd_ctx (\<lambda>c. c\<lparr>c_modules := filter (\<lambda>x. m_id x \<noteq> k) (c_modules c)\<rparr>) s1) }"

definition module_ids :: "'j zyg \<Rightarrow> nat list" where
  "module_ids s = (case g_ctx s of Some c \<Rightarrow> map m_id (c_modules c) | None \<Rightarrow> [])"

definition run_pre :: "ZygiskModule \<Rightarrow> 'j zyg \<Rightarrow> 'j zyg option" where
  "run_pre m s = do {
     c \<leftarrow> g_ctx s;
     if has_flag (c_flags c) APP_SPECIALIZE then
       (case c_args c of App_spec a \<Rightarrow> preAppSpecialize a m s | _ \<Rightarrow> None)
     else if has_flag (c_flags c) SERVER_FORK_AND_SPECIALIZE then
       (case c_args c of Server_spec a \<Rightarrow> preServerSpecialize a m s | _ \<Rightarrow> None)
     else Some s }"

definition run_post :: "ZygiskModule \<Rightarrow> 'j zyg \<Rightarrow> 'j zyg option" where
  "run_post m s = do {
     c \<leftarrow> g_ctx s;
     if has_flag (c_flags c) APP_SPECIALIZE then
       (case c_args c of App_spec a \<Rightarrow> postAppSpecialize a m s | _ \<Rightarrow> None)
     else if has_flag (c_flags c) SERVER_FORK_AND_SPECIALIZE then
       (case c_args c of Server_spec a \<Rightarrow> postServerSpecialize a m s | _ \<Rightarrow> None)
     else Some s }"

fun pre_all :: "nat list \<Rightarrow> 'j zyg \<Rightarrow> 'j zyg option" where
  "pre_all [] s = Some s"
| "pre_all (k # ks) s = do { m \<leftarrow> get_module k s; s1 \<leftarrow> run_pre m s; pre_all ks s1 }"

fun post_all :: "nat list \<Rightarrow> 'j zyg \<Rightarrow> 'j zyg option" where
  "post_all [] s = Some s"
| "post_all (k # ks) s = do {
     m \<leftarrow> get_module k s;
     s1 \<leftarrow> run_post m s;
     m1 \<leftarrow> get_module k s1;
     post_all ks (tryUnload m1 s1) }"

definition run_modules_pre :: "fd list \<Rightarrow> 'j zyg \<Rightarrow> 'j zyg option" where
  "run_modules_pre fds s = do {
     let (fds', s1) = load_modules 0 fds s;
     s2 \<leftarrow> load_all (module_ids s1) s1;
     pre_all (module_ids s2) s2 }"

definition run_modules_post :: "'j zyg \<Rightarrow> 'j zyg option" where
  "run_modules_post s =
     (let s1 = upd_ctx (\<lambda>c. c\<lparr>c_flags := c_flags c OR POST_SPECIALIZE\<rparr>) s in post_all (module_ids s1) s1)"

section \<open>Specialization\<close>

definition set_flag :: "u32 \<Rightarrow> 'j zyg \<Rightarrow> 'j zyg" where
  "set_flag f s = upd_ctx (\<lambda>c. c\<lparr>c_flags := c_flags c OR f\<rparr>) s"

text \<open>\<open>owned_fd\<close>: the descriptor is closed at the end of its scope.\<close>

definition drop_fd :: "fd \<Rightarrow> 'j zyg \<Rightarrow> 'j zyg" where
  "drop_fd d s = (if 0 \<le> d then sys_close d s else s)"

definition app_specialize_pre :: "'j zyg \<Rightarrow> 'j zyg option" where
  "app_specialize_pre s = do {
     (d, fds, s1) \<leftarrow> get_module_info (set_flag APP_SPECIALIZE s);
     c \<leftarrow> g_ctx s1;
     s2 \<leftarrow> (if has_all (c_info_flags c) UNMOUNT_MASK then Some (set_flag DO_REVERT_UNMOUNT s1)
            else if 0 \<le> d then run_modules_pre fds s1
            else Some s1);
     Some (drop_fd d s2) }"

definition app_specialize_post :: "'j zyg \<Rightarrow> 'j zyg option" where
  "app_specialize_post s = do {
     s1 \<leftarrow> run_modules_post s;
     c \<leftarrow> g_ctx s1;
     Some (if has_flag (c_info_flags c) (state_flag ProcessIsMagiskApp)
           then logop (OpSetenv ''ZYGISK_ENABLED'' ''1'') s1 else s1) }"

definition server_specialize_pre :: "'j zyg \<Rightarrow> 'j zyg option" where
  "server_specialize_pre s = do {
     (d, fds, s1) \<leftarrow> get_module_info s;
     if 0 \<le> d then do {
       s2 \<leftarrow> (if fds \<noteq> [] then run_modules_pre fds s1 else Some s1);
       Some (drop_fd d s2) }
     else Some s1 }"

definition server_specialize_post :: "'j zyg \<Rightarrow> 'j zyg option" where
  "server_specialize_post s = run_modules_post s"

section \<open>The entry points of the hooking functions\<close>

definition set_process :: "'j zyg \<Rightarrow> 'j zyg option" where
  "set_process s = do {
     c \<leftarrow> g_ctx s;
     case c_args c of
       App_spec a \<Rightarrow>
         (case locals s (nice_name a) of
            JRef r \<Rightarrow> Some (upd_ctx (\<lambda>c. c\<lparr>c_process := GetStringUTFChars (jvm (w s)) (jst s) r\<rparr>) s)
          | _ \<Rightarrow> None)
     | Server_spec _ \<Rightarrow> None }"

definition child_of :: "'j zyg \<Rightarrow> bool" where
  "child_of s = (case g_ctx s of Some c \<Rightarrow> is_child c | None \<Rightarrow> False)"

definition nativeSpecializeAppProcess_pre :: "'j zyg \<Rightarrow> 'j zyg option" where
  "nativeSpecializeAppProcess_pre s = do {
     s1 \<leftarrow> set_process s;
     app_specialize_pre (set_flag SKIP_CLOSE_LOG_PIPE s1) }"

definition nativeSpecializeAppProcess_post :: "'j zyg \<Rightarrow> 'j zyg option" where
  "nativeSpecializeAppProcess_post s = app_specialize_post s"

definition nativeForkSystemServer_pre :: "'j zyg \<Rightarrow> 'j zyg option" where
  "nativeForkSystemServer_pre s = do {
     let s1 = upd_ctx (\<lambda>c. c\<lparr>c_process := Some ''system_server''\<rparr>) (set_flag SERVER_FORK_AND_SPECIALIZE s);
     s2 \<leftarrow> fork_pre s1;
     s3 \<leftarrow> (if child_of s2 then server_specialize_pre s2 else Some s2);
     sanitize_fds s3 }"

definition nativeForkSystemServer_post :: "'j zyg \<Rightarrow> 'j zyg option" where
  "nativeForkSystemServer_post s = do {
     s1 \<leftarrow> (if child_of s then server_specialize_post s else Some s);
     Some (fork_post s1) }"

definition nativeForkAndSpecialize_pre :: "'j zyg \<Rightarrow> 'j zyg option" where
  "nativeForkAndSpecialize_pre s = do {
     s1 \<leftarrow> set_process s;
     s2 \<leftarrow> fork_pre (set_flag APP_FORK_AND_SPECIALIZE s1);
     s3 \<leftarrow> (if child_of s2 then app_specialize_pre s2 else Some s2);
     sanitize_fds s3 }"

definition nativeForkAndSpecialize_post :: "'j zyg \<Rightarrow> 'j zyg option" where
  "nativeForkAndSpecialize_post s = do {
     s1 \<leftarrow> (if child_of s then app_specialize_post s else Some s);
     Some (fork_post s1) }"

section \<open>Construction and destruction\<close>

definition get_fd_max :: "'j zyg \<Rightarrow> nat" where
  "get_fd_max s = (case rlim_max (w s) of Some m \<Rightarrow> m | None \<Rightarrow> 32768)"

definition new_ZygiskContext :: "spec_args \<Rightarrow> 'j zyg \<Rightarrow> 'j zyg" where
  "new_ZygiskContext a s = s\<lparr>g_ctx := Some
     \<lparr>c_args = a, c_process = None, c_modules = [], c_pid = -1, c_flags = 0, c_info_flags = 0,
      c_allowed_fds = replicate (get_fd_max s) False, c_exempted_fds = [], c_register_info = [],
      c_ignore_info = []\<rparr>\<rparr>"

text \<open>
  The destructor, with the modules as it leaves them. In the parent the context pointer is all that
  is reset.
\<close>

definition delete_ZygiskContext :: "'j zyg \<Rightarrow> (ZygiskModule list \<times> 'j zyg) option" where
  "delete_ZygiskContext s = do {
     c \<leftarrow> g_ctx s;
     let s1 = s\<lparr>g_ctx := None\<rparr>;
     if \<not> is_child c then Some (c_modules c, s1)
     else do {
       h \<leftarrow> get_hook s1;
       s2 \<leftarrow> restore_zygote_hook (upd_hook (\<lambda>h. h\<lparr>should_unmap := True\<rparr>) s1);
       s3 \<leftarrow> hook_unloader s2;
       Some (map clearApi (c_modules c), s3) } }"

end
