(* ===== verification/Lifecycle.thy ===== *)
theory Lifecycle
  imports ZygContext JniGen
begin

text \<open>
  The replacements of the PLT functions (\<^verbatim>\<open>libzygisk/src/hook.cpp\<close>), the native bridge interface
  (\<^verbatim>\<open>entry.cpp\<close>) and the body every hooking function of \<^verbatim>\<open>jni_hooks.hpp\<close> has: the operations
  through which the runtime drives the program.
\<close>

section \<open>Replacements of PLT functions\<close>

definition CLONE_NEWNS :: u32 where "CLONE_NEWNS = 0x00020000"

definition revert_unmount :: "'j zyg \<Rightarrow> 'j zyg" where
  "revert_unmount s =
     logop (OpUmount ''/data/adb/zygisk'') (logop (OpUmount ''/data/adb/modules'') s)"

definition new_strdup :: "string \<Rightarrow> 'j zyg \<Rightarrow> 'j zyg option" where
  "new_strdup str s = do {
     s1 \<leftarrow> (if str = kZygoteInit then hook_zygote_jni s else Some s);
     through Pf_strdup (OpOrigStrdup str) s1 }"

definition new_fork :: "'j zyg \<Rightarrow> (int \<times> 'j zyg) option" where
  "new_fork s = (case g_ctx s of
      Some c \<Rightarrow> if 0 \<le> c_pid c then Some (c_pid c, s) else old_fork s
    | None \<Rightarrow> old_fork s)"

text \<open>\<open>res\<close> is the kernel's answer.\<close>

definition new_unshare :: "u32 \<Rightarrow> int \<Rightarrow> 'j zyg \<Rightarrow> (int \<times> 'j zyg) option" where
  "new_unshare fl res s = do {
     s1 \<leftarrow> through Pf_unshare OpOrigUnshare s;
     Some (res, case g_ctx s1 of
        Some c \<Rightarrow>
          if has_flag fl CLONE_NEWNS \<and> res = 0 \<and> has_flag (c_flags c) DO_REVERT_UNMOUNT
          then revert_unmount s1 else s1
      | None \<Rightarrow> s1) }"

definition new_selinux_android_setcontext :: "'j zyg \<Rightarrow> 'j zyg option" where
  "new_selinux_android_setcontext s = through Pf_setcontext OpOrigSetcontext s"

definition new_android_log_close :: "'j zyg \<Rightarrow> 'j zyg option" where
  "new_android_log_close s = through Pf_log_close OpOrigLogClose s"

definition new_dlclose :: "u64 \<Rightarrow> 'j zyg \<Rightarrow> (int \<times> 'j zyg) option" where
  "new_dlclose handle s = do {
     h \<leftarrow> get_hook s;
     Some (0, if self_handle h = 0 then post_native_bridge_load handle s else s) }"

text \<open>
  The context is deleted on every way out of the main thread's call; the pointer to it is not reset.
\<close>

definition new_pthread_attr_destroy :: "'j zyg \<Rightarrow> 'j zyg option" where
  "new_pthread_attr_destroy s = do {
     s1 \<leftarrow> through Pf_attr_destroy OpOrigAttrDestroy s;
     if self_tid s1 \<noteq> self_pid s1 then Some s1
     else do {
       h \<leftarrow> get_hook s1;
       if should_unmap h then do {
         s2 \<leftarrow> restore_plt_hook s1;
         h2 \<leftarrow> get_hook s2;
         if should_unmap h2
         then Some (logop (OpDlclose (unat (self_handle h2))) (s2\<lparr>g_hook := Freed\<rparr>))
         else Some (s2\<lparr>g_hook := Freed\<rparr>) }
       else Some (s1\<lparr>g_hook := Freed\<rparr>) } }"

section \<open>The native bridge interface\<close>

definition on_load :: "string \<Rightarrow> u64" where "on_load lib = 0"

definition on_unload :: "'j zyg \<Rightarrow> 'j zyg" where "on_unload s = zygisk_disconnect s"

definition is_compatible :: "'j zyg \<Rightarrow> (bool \<times> 'j zyg) option" where
  "is_compatible s = do { s1 \<leftarrow> hook_entry s; Some (False, s1) }"

text \<open>The exported structure: which of its entries are set, and to what.\<close>

datatype bridge_fn = B_is_compatible | B_on_load | B_on_unload

record native_bridge =
  nb_version :: u32
  nb_isCompatible :: "bridge_fn option"
  nb_loadNativeBridge :: "bridge_fn option"
  nb_getTrampoline :: "bridge_fn option"
  nb_unloadNativeBridge :: "bridge_fn option"
  nb_isNativeBridgeLoaded :: "bridge_fn option"
  nb_onUnloadEvents :: "bridge_fn option"
  nb_getAppEnv :: "bridge_fn option"
  nb_isSupported :: "bridge_fn option"
  nb_loadNativeBridgeWithNamespace :: "bridge_fn option"
  nb_getVersion :: "bridge_fn option"

definition NativeBridgeItf :: native_bridge where
  "NativeBridgeItf = \<lparr>nb_version = 3, nb_isCompatible = Some B_is_compatible,
     nb_loadNativeBridge = Some B_on_load, nb_getTrampoline = None,
     nb_unloadNativeBridge = Some B_on_unload, nb_isNativeBridgeLoaded = None,
     nb_onUnloadEvents = None, nb_getAppEnv = None, nb_isSupported = None,
     nb_loadNativeBridgeWithNamespace = None, nb_getVersion = None\<rparr>"

section \<open>The hooking functions\<close>

text \<open>What the original native method does through the hooked functions.\<close>

fun run_plt_calls :: "plt_call list \<Rightarrow> 'j zyg \<Rightarrow> 'j zyg option" where
  "run_plt_calls [] s = Some s"
| "run_plt_calls (P_fork # r) s = do { (p, s') \<leftarrow> new_fork s; run_plt_calls r s' }"
| "run_plt_calls (P_unshare fl res # r) s = do { (x, s') \<leftarrow> new_unshare fl res s; run_plt_calls r s' }"
| "run_plt_calls (P_setcontext # r) s = do { s' \<leftarrow> new_selinux_android_setcontext s; run_plt_calls r s' }"
| "run_plt_calls (P_log_close # r) s = do { s' \<leftarrow> new_android_log_close s; run_plt_calls r s' }"

definition call_original :: "jni_hook \<Rightarrow> 'j zyg \<Rightarrow> 'j zyg option" where
  "call_original h s = do {
     let ms = table_methods (fst (jh_orig h)) s;
     let p = (if snd (jh_orig h) < length ms then fnPtr (ms ! snd (jh_orig h)) else 0);
     let vals = map (locals s) (jh_forward h);
     if p = 0 then None
     else run_plt_calls (native (w s) p vals) (s\<lparr>orig_calls := orig_calls s @ [(p, vals)]\<rparr>) }"

fun call_pre :: "jcall \<Rightarrow> 'j zyg \<Rightarrow> 'j zyg option" where
  "call_pre ForkAndSpecialize s = nativeForkAndSpecialize_pre s"
| "call_pre SpecializeAppProcess s = nativeSpecializeAppProcess_pre s"
| "call_pre ForkSystemServer s = nativeForkSystemServer_pre s"

fun call_post :: "jcall \<Rightarrow> 'j zyg \<Rightarrow> 'j zyg option" where
  "call_post ForkAndSpecialize s = nativeForkAndSpecialize_post s"
| "call_post SpecializeAppProcess s = nativeSpecializeAppProcess_post s"
| "call_post ForkSystemServer s = nativeForkSystemServer_post s"

text \<open>
  A call of a hooking function with the given arguments: its result (none from a void function), the
  modules left by the context's destructor, and the state.
\<close>

definition run_hook :: "jni_hook \<Rightarrow> (jparam \<Rightarrow> jval) \<Rightarrow> 'j zyg \<Rightarrow>
    (int option \<times> ZygiskModule list \<times> 'j zyg) option" where
  "run_hook h vals s = do {
     a \<leftarrow> make_args h;
     s1 \<leftarrow> call_pre (jh_pre h) (new_ZygiskContext a (s\<lparr>locals := vals\<rparr>));
     s2 \<leftarrow> call_original h s1;
     s3 \<leftarrow> call_post (jh_post h) s2;
     c \<leftarrow> g_ctx s3;
     (mods, s4) \<leftarrow> delete_ZygiskContext s3;
     Some (if jh_returns_pid h then Some (c_pid c) else None, mods, s4) }"

end
