(* ===== verification/ZygDemo.thy ===== *)
theory ZygDemo
  imports Lifecycle
begin

text \<open>
  A small concrete world and process for the witnesses: a JVM whose state is the list of natives of
  one class, a hook context with the source's tables, and no files, mappings or modules unless a
  witness adds them.
\<close>

definition demo_jvm :: "jni_method list jvm_ops" where
  "demo_jvm = \<lparr>
     FindClass = (\<lambda>j c. 1),
     getNativeMethods = (\<lambda>j c. j),
     RegisterNative = (\<lambda>j c m.
       if list_ex (\<lambda>x. mname x = mname m \<and> msig x = msig m) j
       then (True, map (\<lambda>x. if mname x = mname m \<and> msig x = msig m then x\<lparr>fnPtr := fnPtr m\<rparr> else x) j)
       else (False, j)),
     NewIntArray = (\<lambda>j n. (0, j)),
     SetIntArrayRegion = (\<lambda>j a i xs. j),
     GetIntArrayElements = (\<lambda>j a. []),
     GetStringUTFChars = (\<lambda>j r. Some ''app'')\<rparr>"

definition demo_world :: "jni_method list world" where
  "demo_world = \<lparr>
     jvm = demo_jvm,
     regcomp = (\<lambda>r. True),
     regexec = (\<lambda>r s. True),
     dir_entries = (\<lambda>p. None),
     open_file = (\<lambda>p. None),
     proc_fd_ok = True,
     dlopen_fd = (\<lambda>f. None),
     module_entry = (\<lambda>h. None),
     uninit = replicate 12 0,
     rlim_max = Some 8,
     old_addr = (\<lambda>f. 0),
     new_addr = (\<lambda>f. 1),
     hook_addr = (\<lambda>t i. 100 + of_nat i),
     native = (\<lambda>p vals. [P_fork]),
     backtrace = [],
     native_bridge_prop = ''0'',
     get_vms_default = True,
     helper_lib = (\<lambda>p. None),
     java_vm = True,
     jni_env = True,
     literal_writable = False\<rparr>"

definition demo_hook :: HookContext where
  "demo_hook = \<lparr>plt_backup = [], runtime_callbacks = 1, self_handle = 1, should_unmap = False,
     jni_tables = (\<lambda>t. replicate 12 \<lparr>mname = ''m'', msig = ''s'', fnPtr = 77\<rparr>)\<rparr>"

definition demo_zyg :: "jni_method list zyg" where
  "demo_zyg = \<lparr>
     fdtab = [(0, NonReg 0), (3, NonReg 1)], net = [], oslog = [],
     g_sock = -1, g_available = True,
     mem = (\<lambda>_. 1), vacant = (\<lambda>_. 0), vm_anon = [], vm_fixed = [], page_size = 4096, abi = Aarch64,
     proc_maps = [], return_address = 0, kSelfInode = 0, kSelfDev = 0, register_info = [],
     hook_info = [],
     w = demo_world, jst = [], self_pid = 50, self_tid = 50, forks = [(100, 51)], g_ctx = None,
     g_hook = Live demo_hook, locals = (\<lambda>p. JInt 0), orig_calls = []\<rparr>"

lemma demo_pointer: "rd64 (\<lambda>_. 1) a = 0x0101010101010101"
  by (simp add: rd64_def rd32_def of_le32_def push_bit_eq_mult)

lemmas demo_defs = demo_zyg_def demo_world_def demo_hook_def demo_jvm_def

lemma demo_through [simp]:
  "mem s = (\<lambda>_. 1) \<Longrightarrow> through f e s = Some (logop e s)"
  by (simp add: through_def read_ptr_def demo_pointer)

text \<open>The system server's fork in the parent.\<close>

definition demo_server_ctx :: ZygiskContext where
  "demo_server_ctx = \<lparr>
     c_args = Server_spec \<lparr>s_uid = P_uid, s_gid = P_gid, s_gids = P_gids, s_runtime_flags = P_runtime_flags,
       s_permitted_capabilities = P_permitted_capabilities,
       s_effective_capabilities = P_effective_capabilities\<rparr>,
     c_process = None, c_modules = [], c_pid = -1, c_flags = 0, c_info_flags = 0,
     c_allowed_fds = replicate 8 False, c_exempted_fds = [], c_register_info = [], c_ignore_info = []\<rparr>"

lemma demo_args: "make_args ForkSystemServer_l = Some (c_args demo_server_ctx)"
  by (simp add: make_args_def ForkSystemServer_l_def demo_server_ctx_def)

lemma demo_server_hook:
  "jh_pre ForkSystemServer_l = ForkSystemServer" "jh_post ForkSystemServer_l = ForkSystemServer"
  "jh_orig ForkSystemServer_l = (Fork_server, 0)" "jh_returns_pid ForkSystemServer_l"
  by (simp_all add: ForkSystemServer_l_def)

lemma demo_parent_run:
  "\<exists>s'. run_hook ForkSystemServer_l (\<lambda>p. JInt 0) demo_zyg = Some (Some 100, [], s')"
  by (simp add: run_hook_def demo_args demo_server_hook demo_defs Let_def nativeForkSystemServer_pre_def
      nativeForkSystemServer_post_def fork_pre_def old_fork_def sanitize_fds_def child_of_def
      is_child_def new_ZygiskContext_def upd_ctx_def set_flag_def logop_def call_original_def
      table_methods_def get_hook_def new_fork_def fork_post_def delete_ZygiskContext_def)

text \<open>A module and the arguments of an app.\<close>

definition demo_app :: AppSpecializeArgs_v5 where
  "demo_app = the (new_AppSpecializeArgs_v5 app_fields)"

lemma demo_app_args: "make_args ForkAndSpecialize_l = Some (App_spec demo_app)"
  by (simp add: make_args_def ForkAndSpecialize_l_def demo_app_def app_fields_def)

definition demo_abi :: "int \<Rightarrow> module_abi" where
  "demo_abi v = Module_abi v 1 (Some [Set_arg P_uid (JInt 7)]) (Some []) (Some []) (Some [])"

definition demo_module :: ZygiskModule where
  "demo_module = (new_ZygiskModule 0 9 [Call 1 (C_registerModule False (Some (demo_abi 2)))])
     \<lparr>m_mod := Some (demo_abi 2)\<rparr>"

definition demo_app_ctx :: ZygiskContext where
  "demo_app_ctx = demo_server_ctx\<lparr>c_args := App_spec demo_app, c_pid := 0\<rparr>"

lemma demo_app_eq:
  "demo_app = \<lparr>uid = P_uid, gid = P_gid, gids = P_gids, runtime_flags = P_runtime_flags,
     rlimits = P_rlimits, mount_external = P_mount_external, se_info = P_se_info,
     nice_name = P_nice_name, instruction_set = P_instruction_set, app_data_dir = P_app_data_dir,
     fds_to_ignore = None, is_child_zygote = None, is_top_app = None, pkg_data_info_list = None,
     whitelisted_data_info_list = None, mount_data_dirs = None, mount_storage_dirs = None,
     mount_sysprop_overrides = None\<rparr>"
  by (simp add: demo_app_def app_fields_def)

lemma demo_l_listed: "ForkAndSpecialize_l \<in> set (src_methods Fork_app)"
  "ForkSystemServer_l \<in> set (src_methods Fork_server)"
  by (simp_all add: src_fork_app_methods_def src_fork_server_methods_def)

end
