(* ===== verification/ZygFrames.thy ===== *)
theory ZygFrames
  imports LspltTable ZygModule
begin

text \<open>
  What the operations leave alone. The PLT hooker touches only its own state and the memory; a
  module, whatever it does through its API table, keeps the context's identity, the process, the
  hook context and all parameters that its argument object does not refer to.
\<close>

section \<open>The PLT hooker keeps everything else\<close>

definition outer :: "'a lsp_scheme \<Rightarrow> (fd \<times> ofile) list \<times> conn list \<times> sysop list \<times> fd \<times> bool \<times> 'a" where
  "outer s = (fdtab s, net s, oslog s, g_sock s, g_available s, lsp.more s)"

named_theorems outer_simps \<open>operations that keep the outer state\<close>

lemma outer_upd [outer_simps]:
  "outer (s\<lparr>mem := m\<rparr>) = outer s" "outer (s\<lparr>vm_anon := v\<rparr>) = outer s"
  "outer (s\<lparr>vm_fixed := f\<rparr>) = outer s" "outer (s\<lparr>proc_maps := p\<rparr>) = outer s"
  "outer (s\<lparr>kSelfInode := i\<rparr>) = outer s" "outer (s\<lparr>kSelfDev := d\<rparr>) = outer s"
  "outer (s\<lparr>register_info := r\<rparr>) = outer s" "outer (s\<lparr>hook_info := h\<rparr>) = outer s"
  by (simp_all add: outer_def)

lemma outer_vm [outer_simps]:
  "outer (snd (vm_answer s)) = outer s" "outer (snd (sys_mremap a l b s)) = outer s"
  "outer (snd (sys_mmap_fixed a l s)) = outer s" "outer (snd (sys_mmap_anon l s)) = outer s"
  "outer (snd (sys_mprotect s)) = outer s"
  by (simp_all add: vm_answer_def sys_mremap_def sys_mmap_fixed_def sys_mmap_anon_def sys_mprotect_def
      outer_def split: list.split option.split prod.split)

lemma outer_patch [outer_simps]:
  "outer (snd (snd (make_backup i s))) = outer s" "outer (snd (make_writable i s)) = outer s"
  "outer (snd (snd (drop_backup i s))) = outer s" "outer (patch_slot a cb bk s) = outer s"
  by (simp_all add: make_backup_def make_writable_def drop_backup_def patch_slot_def Let_def
      case_prod_beta outer_simps split: option.split)

lemma outer_hook_in [outer_simps]: "outer (snd (snd (hook_in a cb bk i s))) = outer s"
  by (simp add: hook_in_def Let_def case_prod_beta outer_simps)

lemma outer_DoHook [outer_simps]: "outer (snd (DoHook a cb bk s)) = outer s"
  by (simp add: DoHook_def Let_def case_prod_beta outer_simps split: option.split)

lemma outer_hook_addrs: "outer (snd (hook_addrs cb bk as res s)) = outer s"
  by (induction cb bk as res s rule: hook_addrs.induct) (simp_all add: case_prod_beta outer_simps)

lemma outer_hook_regs: "hook_regs k rs res s = Some (rs', res', s') \<Longrightarrow> outer s' = outer s"
proof (induction rs arbitrary: res s rs' res' s')
  case (Cons r rs)
  show ?case
  proof (cases "map_of (hook_info s) k")
    case (Some i)
    define e where "e = (case elf_ptr i of Some e \<Rightarrow> e | None \<Rightarrow> Elf (abi s) (mem s) (hstart i))"
    define s1 where "s1 = s\<lparr>hook_info := om_assign k (i\<lparr>elf_ptr := Some e\<rparr>) (hook_info s)\<rparr>"
    have s1: "outer s1 = outer s" by (simp add: s1_def outer_simps)
    have "\<exists>rs2 res2 s2. hook_regs k rs res2 s2 = Some (rs2, res', s') \<and> outer s2 = outer s"
    proof (cases "hoffset i \<noteq> range_lo r \<or> \<not> Match i r")
      case True
      with Some Cons.prems show ?thesis by (auto split: Option.bind_splits)
    next
      case stay: False
      show ?thesis
      proof (cases "valid e")
        case False
        with stay Some Cons.prems have "hook_regs k rs res s1 = Some (rs', res', s')"
          by (simp add: Let_def e_def [symmetric] s1_def [symmetric])
        with s1 show ?thesis by (intro exI conjI)
      next
        case True
        with stay Some Cons.prems obtain as where
          "hook_regs k rs (fst (hook_addrs (reg_callback r) (reg_backup r) as res s1))
             (snd (hook_addrs (reg_callback r) (reg_backup r) as res s1)) = Some (rs', res', s')"
          by (auto simp: Let_def e_def [symmetric] s1_def [symmetric] case_prod_beta
              split: Option.bind_splits)
        with s1 outer_hook_addrs [of "reg_callback r" "reg_backup r" as res s1] show ?thesis
          by (intro exI conjI) (assumption, simp)
      qed
    qed
    then obtain rs2 res2 s2 where "hook_regs k rs res2 s2 = Some (rs2, res', s')" "outer s2 = outer s"
      by (elim exE conjE)
    with Cons.IH [OF this(1)] show ?thesis by simp
  qed (use Cons.prems in simp)
qed simp

lemma outer_hook_maps: "hook_maps ks rs res s = Some (rs', res', s') \<Longrightarrow> outer s' = outer s"
  by (induction ks arbitrary: rs res s)
    (auto split: Option.bind_splits dest: outer_hook_regs)

lemma outer_read_maps [outer_simps]: "outer (snd (read_maps s)) = outer s"
  by (simp add: read_maps_def outer_simps split: list.split)

lemma outer_scan [outer_simps]: "outer (snd (ScanHookInfo s)) = outer s"
  by (simp add: ScanHookInfo_def Let_def case_prod_beta outer_simps split: option.split)

lemma outer_CommitHook: "CommitHook s = Some (res, s') \<Longrightarrow> outer s' = outer s"
  by (auto simp: CommitHook_def DoHook_all_def case_prod_beta outer_simps
      split: if_splits Option.bind_splits dest!: outer_hook_maps)

lemma outer_RegisterHook [outer_simps]: "outer (snd (RegisterHook d ino nm cb bk s)) = outer s"
  by (simp add: RegisterHook_def outer_simps)

text \<open>The process state above the hooker.\<close>

lemma outer_zyg:
  assumes "outer s' = outer (s :: 'j zyg)"
  shows "w s' = w s \<and> jst s' = jst s \<and> self_pid s' = self_pid s \<and> self_tid s' = self_tid s \<and>
    forks s' = forks s \<and> g_ctx s' = g_ctx s \<and> g_hook s' = g_hook s \<and> locals s' = locals s \<and>
    orig_calls s' = orig_calls s \<and> fdtab s' = fdtab s \<and> oslog s' = oslog s \<and> net s' = net s \<and>
    g_sock s' = g_sock s \<and> g_available s' = g_available s"
  using assms by (cases s; cases s') (simp add: outer_def)

section \<open>What a module cannot change\<close>

text \<open>The system calls an API function may make on its own behalf.\<close>

fun mundane :: "sysop \<Rightarrow> bool" where
  "mundane (OpClose d) = True"
| "mundane (OpUsleep n) = True"
| "mundane _ = False"

definition log_ext :: "(sysop \<Rightarrow> bool) \<Rightarrow> 'a os_scheme \<Rightarrow> 'b os_scheme \<Rightarrow> bool" where
  "log_ext P s s' \<longleftrightarrow> (\<exists>es. oslog s' = oslog s @ es \<and> list_all P es)"

lemma log_ext_refl [simp]: "oslog s' = oslog s \<Longrightarrow> log_ext P s s'"
  by (simp add: log_ext_def)

lemma log_ext_trans: "log_ext P a b \<Longrightarrow> log_ext P b c \<Longrightarrow> log_ext P a c"
  unfolding log_ext_def by (metis append.assoc list_all_append)

lemma log_ext_logop [simp]: "P e \<Longrightarrow> log_ext P s (logop e s)"
  by (auto simp: log_ext_def)

lemma log_ext_mono: "log_ext P s s' \<Longrightarrow> (\<And>e. P e \<Longrightarrow> Q e) \<Longrightarrow> log_ext Q s s'"
  unfolding log_ext_def by (metis list.pred_mono_strong)

definition ctx_core :: "ZygiskContext \<Rightarrow> spec_args \<times> string option \<times> int \<times> u32 \<times> bool list \<times> nat list" where
  "ctx_core c = (c_args c, c_process c, c_pid c, c_info_flags c, c_allowed_fds c, map m_id (c_modules c))"

text \<open>
  A module's table refers to the module itself or, once cleared, to nothing; modules outside \<open>K\<close> do
  not change.
\<close>

definition impl_ok :: "ZygiskModule \<Rightarrow> bool" where
  "impl_ok m \<longleftrightarrow> impl (m_api m) = None \<or> impl (m_api m) = Some (m_id m)"

definition hide :: "nat set \<Rightarrow> ZygiskModule \<Rightarrow> ZygiskModule option" where
  "hide K m = (if m_id m \<in> K then None else Some m)"

definition ctx_step :: "nat set \<Rightarrow> ZygiskContext option \<Rightarrow> ZygiskContext option \<Rightarrow> bool" where
  "ctx_step K x y \<longleftrightarrow>
     (case x of
        None \<Rightarrow> y = None
      | Some c \<Rightarrow> (case y of
          None \<Rightarrow> False
        | Some c' \<Rightarrow> ctx_core c' = ctx_core c \<and>
            (c_flags c' = c_flags c \<or> c_flags c' = c_flags c OR DO_REVERT_UNMOUNT) \<and>
            (list_all impl_ok (c_modules c) \<longrightarrow> list_all impl_ok (c_modules c') \<and>
               map (hide K) (c_modules c') = map (hide K) (c_modules c))))"

lemma ctx_step_refl [simp]: "ctx_step K x x"
  by (simp add: ctx_step_def split: option.split)

lemma ctx_step_trans: "ctx_step K x y \<Longrightarrow> ctx_step K y z \<Longrightarrow> ctx_step K x z"
  by (auto simp: ctx_step_def or.assoc split: option.splits)

definition keeps :: "nat set \<Rightarrow> jparam set \<Rightarrow> 'j zyg \<Rightarrow> 'j zyg \<Rightarrow> bool" where
  "keeps K L s s' \<longleftrightarrow>
     w s' = w s \<and> g_hook s' = g_hook s \<and> self_pid s' = self_pid s \<and> self_tid s' = self_tid s \<and>
     forks s' = forks s \<and> orig_calls s' = orig_calls s \<and> ctx_step K (g_ctx s) (g_ctx s') \<and>
     log_ext mundane s s' \<and> (\<forall>p. p \<notin> L \<longrightarrow> locals s' p = locals s p)"

lemma keeps_refl [simp]: "keeps K L s s"
  by (simp add: keeps_def)

lemma keeps_trans: "keeps K L a b \<Longrightarrow> keeps K L b c \<Longrightarrow> keeps K L a c"
  unfolding keeps_def by (metis log_ext_trans ctx_step_trans)

lemma keeps_mono: "keeps K L s s' \<Longrightarrow> L \<subseteq> M \<Longrightarrow> keeps K M s s'"
  by (auto simp: keeps_def)

lemma keeps_outer: "outer s' = outer s \<Longrightarrow> keeps K L s s'"
  using outer_zyg [of s' s] by (simp add: keeps_def)

lemma keeps_close [simp]: "keeps K L s (sys_close d s)"
  by (simp add: keeps_def sys_close_def logop_def log_ext_def)

lemma keeps_mundane [simp]: "mundane e \<Longrightarrow> keeps K L s (logop e s)"
  by (simp add: keeps_def logop_def log_ext_def)

lemma keeps_set_file [simp]: "keeps K L s (set_file d f s)"
  by (simp add: keeps_def set_file_def)

lemma keeps_set_incoming [simp]: "keeps K L s (set_incoming d rx s)"
  by (simp add: set_incoming_def split: option.split ofile.split)

lemma keeps_alloc [simp]: "keeps K L s (snd (alloc_fd f s))"
  by (simp add: keeps_def alloc_fd_def Let_def)

lemma keeps_write [simp]: "keeps K L s (snd (sys_write d bs s))"
  by (simp add: sys_write_def split: option.split ofile.split)

lemma keeps_upd [simp]:
  "keeps K L s (s\<lparr>net := n\<rparr>)" "keeps K L s (s\<lparr>g_sock := k\<rparr>)" "keeps K L s (s\<lparr>g_available := b\<rparr>)"
  "keeps K L s (s\<lparr>jst := j\<rparr>)"
  by (simp_all add: keeps_def)

lemma keeps_socket: "keeps K L s (snd (sys_socket s))" "keeps K L s (snd (sys_connect d s))"
  using keeps_trans [OF keeps_upd(1) keeps_set_file]
  by (auto simp: sys_socket_def sys_connect_def split: list.split conn.split)

lemma keeps_connect_loop: "keeps K L s (snd (connect_loop n s))"
proof (induction n s rule: connect_loop.induct)
  case (1 n s)
  define s1 where "s1 = snd (sys_socket s)"
  define sk where "sk = fst (sys_socket s)"
  have so: "sys_socket s = (sk, s1)" by (simp add: s1_def sk_def)
  define s2 where "s2 = s1\<lparr>g_sock := sk\<rparr>"
  define s3 where "s3 = snd (sys_connect sk s2)"
  define ok where "ok = fst (sys_connect sk s2)"
  have co: "sys_connect sk s2 = (ok, s3)" by (simp add: s3_def ok_def)
  define s5 where "s5 = logop (OpUsleep (n * 1000)) ((sys_close sk s3)\<lparr>g_sock := -1\<rparr>)"
  have k1: "keeps K L s s1" unfolding s1_def by (rule keeps_socket)
  have k2: "keeps K L s s2" unfolding s2_def by (rule keeps_trans [OF k1 keeps_upd(2)])
  have k3: "keeps K L s s3" unfolding s3_def by (rule keeps_trans [OF k2 keeps_socket(2)])
  have "keeps K L s3 s5"
    unfolding s5_def
    by (rule keeps_trans [OF keeps_trans [OF keeps_close keeps_upd(2)] keeps_mundane]) simp
  then have k5: "keeps K L s s5" by (rule keeps_trans [OF k3])
  have step: "keeps K L s (snd (connect_loop ((if n < 1600 then n else 3000) * 2) s5))"
    if "0 < n \<and> n \<le> 3000" "g_available s" "\<not> sk < 0" "\<not> ok"
    using "1.IH" [OF that(1) _ so [symmetric] s2_def that(3) co [symmetric] that(4) refl s5_def refl]
      that(2) keeps_trans [OF k5] by simp
  show ?case
    using step k2 k3 keeps_upd(3) [of K L s False]
    by (simp add: connect_loop.simps [of n s] so co Let_def s2_def [symmetric] s5_def [symmetric])
qed

lemma keeps_connect: "keeps K L s (snd (zygisk_connect s))"
  by (simp add: zygisk_connect_def keeps_connect_loop)

lemma keeps_request_fd: "keeps K L s (snd (zygisk_request_fd r s))"
  by (auto simp: zygisk_request_fd_def Let_def case_prod_beta
      intro: keeps_connect keeps_trans [OF keeps_connect keeps_write])

lemma keeps_write_any: "keeps K L s (write_any d bs s)"
  by (simp add: write_any_def)

lemma keeps_connectCompanion: "keeps K L s (snd (connectCompanion k s))"
  using keeps_request_fd [of K L s ConnectCompanion]
  by (auto simp: connectCompanion_def Let_def case_prod_beta write_int_def
      intro!: keeps_trans [OF _ keeps_write_any])

lemma keeps_receive_fd: "keeps K L s (snd (receive_fd d s))"
  by (auto simp: receive_fd_def split: option.split prod.split rres.split
      intro!: keeps_trans [OF keeps_set_incoming keeps_alloc])

lemma keeps_getModuleDir: "keeps K L s (snd (getModuleDir k s))"
  using keeps_request_fd [of K L s ZygiskRequest.GetModuleDir]
  by (auto simp: getModuleDir_def Let_def case_prod_beta write_int_def
      intro!: keeps_trans [OF _ keeps_close] keeps_trans [OF _ keeps_receive_fd]
        keeps_trans [OF _ keeps_write_any])

text \<open>Where literals are constants, no module is ever given its directory.\<close>

lemma getModuleDir_fails:
  assumes "\<not> literal_writable (w s)"
  shows "fst (getModuleDir k s) = -1"
proof -
  define s1 where "s1 = snd (zygisk_request_fd ZygiskRequest.GetModuleDir s)"
  define d where "d = fst (zygisk_request_fd ZygiskRequest.GetModuleDir s)"
  have rq: "zygisk_request_fd ZygiskRequest.GetModuleDir s = (d, s1)" by (simp add: d_def s1_def)
  have "keeps {} {} s (write_int d (of_nat k) s1)"
    unfolding s1_def write_int_def by (rule keeps_trans [OF keeps_request_fd keeps_write_any])
  then have "fst (receive_fd d (write_int d (of_nat k) s1)) = -1"
    using assms by (auto simp: receive_fd_def keeps_def split: option.split prod.split rres.split)
  then show ?thesis by (simp add: getModuleDir_def rq case_prod_beta)
qed

text \<open>The operations on the context.\<close>

lemma keeps_upd_ctx:
  assumes "\<And>c. ctx_core (f c) = ctx_core c \<and> c_modules (f c) = c_modules c"
    and "\<And>c. c_flags (f c) = c_flags c \<or> c_flags (f c) = c_flags c OR DO_REVERT_UNMOUNT"
  shows "keeps K L s (upd_ctx f s)"
  using assms by (simp add: keeps_def upd_ctx_def ctx_step_def split: option.split)

lemma keeps_upd_module:
  assumes "\<And>m. m_id (f m) = m_id m \<and> impl (m_api (f m)) = impl (m_api m)"
    and "(\<exists>c. g_ctx s = Some c \<and> list_all impl_ok (c_modules c)) \<Longrightarrow> k \<in> K"
  shows "keeps K L s (upd_module k f s)"
proof -
  have "ctx_step K (Some c) (Some (c\<lparr>c_modules := map (\<lambda>m. if m_id m = k then f m else m) (c_modules c)\<rparr>))"
    if "g_ctx s = Some c" for c
    using assms that
    by (auto simp: ctx_step_def ctx_core_def list_all_iff impl_ok_def hide_def)
  then show ?thesis
    by (cases "g_ctx s") (simp_all add: keeps_def upd_module_def upd_ctx_def)
qed

lemma get_module_in: "get_module k s = Some m \<Longrightarrow> \<exists>c. g_ctx s = Some c \<and> m \<in> set (c_modules c) \<and> m_id m = k"
  by (auto simp: get_module_def find_Some_iff split: Option.bind_splits)

lemma impl_fill [simp]: "impl (fill_api v a) = impl a"
  by (simp add: fill_api_def fill_v1_def fill_v2_def fill_v4_def put_def Let_def)

lemma keeps_RegisterModuleImpl:
  assumes "RegisterModuleImpl k n md s = Some (r, s')"
  shows "keeps {k} L s s'"
proof (cases "s' = s")
  case False
  then obtain a m self where m: "get_module k s = Some m" "impl (m_api m) = Some self"
    and s': "s' = upd_module k (\<lambda>m. m\<lparr>m_api := fill_api (abi_version a) (m_api m)\<rparr>)
      (upd_module self (\<lambda>m. m\<lparr>m_mod := Some a\<rparr>) s)"
    using assms
    by (auto simp: RegisterModuleImpl_def split: option.splits Option.bind_splits if_splits)
  have "self = k" if "\<exists>c. g_ctx s = Some c \<and> list_all impl_ok (c_modules c)"
    using that m get_module_in [OF m(1)] by (force simp: list_all_iff impl_ok_def)
  then have "keeps {k} L s (upd_module self (\<lambda>m. m\<lparr>m_mod := Some a\<rparr>) s)"
    by (intro keeps_upd_module) simp_all
  then show ?thesis unfolding s' by (rule keeps_trans) (rule keeps_upd_module, simp_all)
qed simp

lemma keeps_setOption: "keeps {k} L s (setOption k opt s)"
  by (auto simp: setOption_def ctx_core_def split: option.split Option.split
      intro!: keeps_upd_ctx keeps_upd_module)

lemma keeps_plt_hook_register: "keeps K L s (plt_hook_register re sy fn bk s)"
  by (auto simp: plt_hook_register_def ctx_core_def split: option.split intro!: keeps_upd_ctx)

lemma keeps_plt_hook_exclude: "keeps K L s (plt_hook_exclude re sy s)"
  by (auto simp: plt_hook_exclude_def ctx_core_def split: option.split intro!: keeps_upd_ctx)

lemma keeps_exempt_fd: "keeps K L s (snd (exempt_fd d s))"
  by (auto simp: exempt_fd_def ctx_core_def split: option.split intro!: keeps_upd_ctx)

lemma outer_process_regs: "outer (process_regs igns m rs s) = outer s"
  by (induction igns m rs s rule: process_regs.induct) (simp_all add: outer_simps)

lemma outer_process_maps:
  "outer (fold (\<lambda>m s. process_regs igns m rs s) ms s) = outer s"
  by (induction ms arbitrary: s) (simp_all add: outer_process_regs)

lemma outer_process_regex: "outer (plt_hook_process_regex c s) = outer s"
  by (simp add: plt_hook_process_regex_def Let_def case_prod_beta outer_process_maps outer_simps)

lemma keeps_CommitHook: "CommitHook s = Some (r, s') \<Longrightarrow> keeps K L s s'"
  by (rule keeps_outer [OF outer_CommitHook])

lemma keeps_plt_hook_commit: "plt_hook_commit s = Some (r, s') \<Longrightarrow> keeps K L s s'"
proof (cases "g_ctx s")
  case (Some c)
  assume "plt_hook_commit s = Some (r, s')"
  then have "keeps K L (upd_ctx (\<lambda>c. c\<lparr>c_register_info := [], c_ignore_info := []\<rparr>)
      (plt_hook_process_regex c s)) s'"
    by (intro keeps_CommitHook) (simp add: plt_hook_commit_def Some)
  moreover have "keeps K L x (upd_ctx (\<lambda>c. c\<lparr>c_register_info := [], c_ignore_info := []\<rparr>) x)"
    for x :: "'a zyg"
    by (rule keeps_upd_ctx) (simp_all add: ctx_core_def)
  ultimately show ?thesis
    using keeps_trans keeps_outer [OF outer_process_regex [of c s], of K L] by blast
qed (simp add: plt_hook_commit_def)

lemma keeps_register_by_inode: "keeps K L s (register_by_inode d ino sy fn bk s)"
  by (auto simp: register_by_inode_def split: option.split intro!: keeps_outer outer_simps)

lemma keeps_register_jni: "keeps K L s (snd (register_jni_methods c ms s))"
  by (simp add: register_jni_methods_def Let_def case_prod_beta)

lemma keeps_hook_class: "hook_class_methods c ms s = Some (n, ms', s') \<Longrightarrow> keeps K L s s'"
  using keeps_register_jni [of K L s c ms]
  by (auto simp: hook_class_methods_def Let_def case_prod_beta split: Option.bind_splits)

lemma keeps_hookJni: "hookJniNativeMethods e c ms s = Some (ms', s') \<Longrightarrow> keeps K L s s'"
  by (auto simp: hookJniNativeMethods_def hook_jni_methods_def Let_def
      split: Option.bind_splits option.splits if_splits dest: keeps_hook_class)

lemma keeps_run_api: "run_api f call k s = Some s' \<Longrightarrow> keeps {k} L s s'"
  by (cases call)
    (auto simp: run_api_def keeps_plt_hook_register keeps_plt_hook_exclude keeps_setOption
      keeps_register_by_inode
      intro: keeps_RegisterModuleImpl keeps_hookJni keeps_plt_hook_commit keeps_CommitHook
        keeps_exempt_fd keeps_connectCompanion keeps_getModuleDir
      split: if_splits)

lemma keeps_run_call: "run_call k i call s = Some s' \<Longrightarrow> keeps {k} L s s'"
  by (auto simp: run_call_def split: Option.bind_splits intro: keeps_run_api)

text \<open>The parameters an argument object refers to, and what a module's acts can change.\<close>

definition arg_targets :: "mod_args \<Rightarrow> jparam set" where
  "arg_targets a = {q. \<exists>m. arg_member a m = Some q}"

lemma keeps_run_acts: "run_acts k a acts s = Some s' \<Longrightarrow> keeps {k} (arg_targets a) s s'"
proof (induction k a acts s rule: run_acts.induct)
  case (2 k a i c r s)
  then show ?case by (auto split: Option.bind_splits intro: keeps_trans keeps_run_call)
next
  case (3 k a p v r s)
  then obtain q where q: "arg_member a p = Some q"
    and run: "run_acts k a r (s\<lparr>locals := (locals s)(q := v)\<rparr>) = Some s'"
    by (auto split: Option.bind_splits)
  have "keeps {k} (arg_targets a) s (s\<lparr>locals := (locals s)(q := v)\<rparr>)"
    using q by (auto simp: keeps_def arg_targets_def)
  with "3.IH" [OF q run] show ?case by (rule keeps_trans [rotated])
qed simp

end
