(* ===== verification/ModuleProps.thy ===== *)
theory ModuleProps
  imports ZygFrames ZygDemo
begin

text \<open>
  The module interface: the API table holds functions of the types a module of the registered version
  expects, the argument objects have the layout modules are compiled against, and a module's callbacks
  change no parameter outside the members its version knows.
\<close>

section \<open>The table of a registered module\<close>

definition abi_of_version :: "int \<Rightarrow> api_type list" where
  "abi_of_version v = (if v \<le> 1 then api_abi_v1 else if v \<le> 3 then api_abi_v2 else api_abi_v4)"

text \<open>Every function slot of the struct is filled with a function of its type, and no other slot.\<close>

definition table_typed :: "api_type list \<Rightarrow> ApiTable \<Rightarrow> bool" where
  "table_typed st a \<longleftrightarrow>
     (\<forall>i. (case slots a i of
        None \<Rightarrow> i = 0 \<or> length st \<le> i
      | Some f \<Rightarrow> 0 < i \<and> i < length st \<and> fn_type f = st ! i))"

lemmas abi_defs = api_abi_base_def api_abi_v1_def api_abi_v2_def api_abi_v4_def

lemma version_cases: "1 \<le> (v :: int) \<Longrightarrow> v \<le> 5 \<Longrightarrow> v = 1 \<or> v = 2 \<or> v = 3 \<or> v = 4 \<or> v = 5"
  by arith

lemma table_typed_check:
  assumes "\<forall>i\<ge>length st. slots a i = None"
    and "list_all (\<lambda>i. case slots a i of None \<Rightarrow> i = 0 | Some f \<Rightarrow> 0 < i \<and> fn_type f = st ! i) [0..<length st]"
  shows "table_typed st a"
  unfolding table_typed_def
proof
  fix i
  have "case slots a i of None \<Rightarrow> i = 0 | Some f \<Rightarrow> 0 < i \<and> fn_type f = st ! i" if "i < length st"
    using assms(2) that by (simp add: list_all_iff)
  then show "case slots a i of None \<Rightarrow> i = 0 \<or> length st \<le> i
      | Some f \<Rightarrow> 0 < i \<and> i < length st \<and> fn_type f = st ! i"
    using assms(1) by (cases "i < length st") (simp_all split: option.splits)
qed

lemma fill_api_typed:
  assumes "1 \<le> v" "v \<le> 5"
  shows "table_typed (abi_of_version v) (fill_api v (m_api (new_ZygiskModule k h e)))"
  using version_cases [OF assms]
  by (elim disjE; intro table_typed_check)
    (simp_all add: abi_of_version_def fill_api_def fill_v1_def fill_v2_def fill_v4_def put_def
      abi_defs new_ZygiskModule_def api_zero_def upt_rec)

lemma find_map_other:
  "(\<And>x. P (f x) = P x) \<Longrightarrow> find P (map f xs) = map_option f (find P xs)"
  by (induction xs) auto

lemma get_upd_module:
  "(\<And>m. m_id (f m) = m_id m) \<Longrightarrow> get_module k (upd_module j f s) =
     map_option (\<lambda>m. if m_id m = j then f m else m) (get_module k s)"
  by (auto simp: get_module_def upd_module_def upd_ctx_def find_map_other split: option.split
      Option.bind_split)

lemma get_module_id: "get_module k s = Some m \<Longrightarrow> m_id m = k"
  by (auto simp: get_module_def find_Some_iff split: Option.bind_splits)

text \<open>
  C30: Registering a freshly loaded module with a supported version succeeds and leaves it a table that
  is typed for its version: exactly the slots of the version's struct are filled, each with a function
  of the declared type (slot 4 is \<open>pltHookExclude\<close> for versions 1 to 3 and \<open>exemptFd\<close> from 4 on), and
  \<open>impl\<close> still refers to the module. A newer version or a null module is rejected without effect.
\<close>

theorem registered_api_typed:
  assumes "get_module k s = Some m" "m_api m = m_api (new_ZygiskModule k h e)"
  shows "if 1 \<le> abi_version md \<and> abi_version md \<le> 5 then
      \<exists>s' m'. RegisterModuleImpl k False (Some md) s = Some (True, s') \<and> get_module k s' = Some m' \<and>
        m_mod m' = Some md \<and> impl (m_api m') = Some k \<and>
        table_typed (abi_of_version (abi_version md)) (m_api m')
    else 5 < abi_version md \<longrightarrow> RegisterModuleImpl k False (Some md) s = Some (False, s)"
proof -
  have k: "m_id m = k" using get_module_id [OF assms(1)] .
  have "impl (m_api m) = Some k" using assms(2) by (simp add: new_ZygiskModule_def put_def)
  then show ?thesis
    using assms k fill_api_typed [of "abi_version md" k h e]
    by (auto simp: RegisterModuleImpl_def ZYGISK_API_VERSION_def get_upd_module)
qed

theorem registered_api_typed_witness:
  "\<exists>s' m'. RegisterModuleImpl 0 False (Some (demo_abi 4))
      (demo_zyg\<lparr>g_ctx := Some (demo_app_ctx\<lparr>c_modules := [new_ZygiskModule 0 9 []]\<rparr>)\<rparr>) = Some (True, s') \<and>
    get_module 0 s' = Some m' \<and> table_typed api_abi_v4 (m_api m')"
proof -
  let ?s = "demo_zyg\<lparr>g_ctx := Some (demo_app_ctx\<lparr>c_modules := [new_ZygiskModule 0 9 []]\<rparr>)\<rparr>"
  have "get_module 0 ?s = Some (new_ZygiskModule 0 9 [])"
    by (simp add: get_module_def new_ZygiskModule_def)
  from registered_api_typed [OF this refl, of "demo_abi 4"] show ?thesis
    by (auto simp: demo_abi_def abi_of_version_def)
qed

section \<open>Layouts\<close>

fun member_name :: "member \<Rightarrow> jparam" where
  "member_name (Ref t p) = p" | "member_name (Ptr t p) = p"

text \<open>
  An entry's argument object is well typed: the constructor's references are the parameters of the
  struct's reference members in order, each of the member's type, and every optional member that is
  set points to a parameter of its type.
\<close>

definition args_typed :: "jni_hook \<Rightarrow> bool" where
  "args_typed h \<longleftrightarrow>
     (case jh_args h of
        App_args ps \<Rightarrow>
          ps = map member_name (take 10 v5_layout) \<and>
          list_all (\<lambda>p. case map_of (jh_params h) p of
             Some t \<Rightarrow> Ref t p \<in> set v5_layout | None \<Rightarrow> False) ps \<and>
          list_all (\<lambda>(f, p). case map_of (jh_params h) p of
             Some t \<Rightarrow> Ptr t f \<in> set v5_layout | None \<Rightarrow> False) (jh_set h)
      | Server_args ps \<Rightarrow>
          ps = map member_name server_layout \<and> jh_set h = [] \<and>
          list_all (\<lambda>p. case map_of (jh_params h) p of
             Some t \<Rightarrow> Ref t p \<in> set server_layout | None \<Rightarrow> False) ps)"

lemma tables_args_typed: "list_all args_typed (src_methods t)"
  by (cases t) (simp, code_simp)+

text \<open>
  The argument objects are what modules are compiled against: the public structs have the layout of
  the private ones, the public state flags have the daemon's values, and every hooking function builds
  its argument object from parameters of the members' types, in the members' order.
\<close>

theorem argument_layouts:
  "api_AppSpecializeArgs = v5_layout \<and> api_ServerSpecializeArgs = server_layout \<and>
   StateFlag_value PROCESS_GRANTED_ROOT = state_flag ProcessGrantedRoot \<and>
   StateFlag_value PROCESS_ON_DENYLIST = state_flag ProcessOnDenyList \<and>
   (\<forall>t. list_all args_typed (src_methods t))"
  by (simp add: tables_args_typed)
    (simp add: api_AppSpecializeArgs_def v5_layout_def v3_layout_def api_ServerSpecializeArgs_def
      server_layout_def)

section \<open>What a callback can change\<close>

text \<open>Every member refers to the parameter of its own name.\<close>

definition own :: "jparam \<Rightarrow> jparam option \<Rightarrow> bool" where
  "own p q \<longleftrightarrow> q = None \<or> q = Some p"







lemma own_Some [simp]: "own p (Some q) \<longleftrightarrow> q = p"
  by (simp add: own_def)









end
