(* ===== verification/ContextFrames.thy ===== *)
theory ContextFrames
  imports ZygFrames Lifecycle
begin

text \<open>
  What the steps of a specialization leave alone: the arguments and the pid of the context, the
  process itself, the pending forks, and the log up to operations of a given kind. One relation, one lemma per operation.
\<close>

section \<open>The relation\<close>

definition quiet :: "(sysop \<Rightarrow> bool) \<Rightarrow> 'j zyg \<Rightarrow> 'j zyg \<Rightarrow> bool" where
  "quiet P s s' \<longleftrightarrow>
     w s' = w s \<and> forks s' = forks s \<and> g_hook s' = g_hook s \<and>
     self_pid s' = self_pid s \<and> self_tid s' = self_tid s \<and>
     map_option (\<lambda>c. (c_args c, c_pid c)) (g_ctx s') = map_option (\<lambda>c. (c_args c, c_pid c)) (g_ctx s) \<and>
     log_ext P s s'"

lemma quiet_refl [simp]: "quiet P s s"
  by (simp add: quiet_def)

lemma quiet_trans: "quiet P a b \<Longrightarrow> quiet P b c \<Longrightarrow> quiet P a c"
  unfolding quiet_def by (metis log_ext_trans)

lemma quiet_mono: "quiet P s s' \<Longrightarrow> (\<And>e. P e \<Longrightarrow> Q e) \<Longrightarrow> quiet Q s s'"
  unfolding quiet_def using log_ext_mono by metis

lemma quiet_logop: "P e \<Longrightarrow> quiet P s (logop e s)"
  by (simp add: quiet_def logop_def log_ext_def)

lemma quiet_upd_ctx:
  "(\<And>c. c_args (f c) = c_args c \<and> c_pid (f c) = c_pid c) \<Longrightarrow> quiet P s (upd_ctx f s)"
  by (simp add: quiet_def upd_ctx_def option.map_comp comp_def)

lemma quiet_upd [simp]: "quiet P s (s\<lparr>locals := l\<rparr>)" "quiet P s (s\<lparr>jst := j\<rparr>)"
  by (simp_all add: quiet_def)

lemma keeps_quiet:
  assumes "keeps K L s s'" and "\<And>e. mundane e \<Longrightarrow> P e"
  shows "quiet P s s'"
proof -
  have "map_option (\<lambda>c. (c_args c, c_pid c)) (g_ctx s') = map_option (\<lambda>c. (c_args c, c_pid c)) (g_ctx s)"
    using assms(1) by (auto simp: keeps_def ctx_step_def ctx_core_def split: option.splits)
  then show ?thesis
    using assms unfolding keeps_def quiet_def by (metis log_ext_mono)
qed

lemma quiet_ctx_Some:
  "quiet P s s' \<Longrightarrow> g_ctx s = Some c \<Longrightarrow> \<exists>c'. g_ctx s' = Some c' \<and> c_args c' = c_args c \<and> c_pid c' = c_pid c"
  by (auto simp: quiet_def)

section \<open>Finding and loading modules\<close>

lemma keeps_alloc': "alloc_fd f s = (d, s') \<Longrightarrow> keeps K L s s'"
  using keeps_alloc [of K L s f] by simp

lemma keeps_scan_dir: "keeps K L s (snd (scan_zygisk_dir path es s))"
proof (induction es arbitrary: s)
  case (Cons e es)
  obtain isdir name where e: "e = (isdir, name)" by (cases e)
  have "keeps K L s (snd (scan_zygisk_dir path es (snd (alloc_fd f s))))" for f
    by (rule keeps_trans [OF keeps_alloc Cons.IH])
  then show ?case
    using Cons.IH by (simp add: e case_prod_beta Let_def split: option.split)
qed simp

lemma keeps_xopen_dir: "xopen_dir path s = Some (es, d, s') \<Longrightarrow> keeps K L s s'"
  by (auto simp: xopen_dir_def Let_def split: option.splits prod.splits intro: keeps_alloc')

lemma keeps_scan_modules: "keeps K L s (snd (scan_modules es s))"
proof (induction es arbitrary: s)
  case (Cons e es)
  obtain isdir name where e: "e = (isdir, name)" by (cases e)
  define path where "path = ''/data/adb/modules/'' @ name @ ''/zygisk''"
  have "keeps K L s (snd (scan_modules es (sys_close d (snd (scan_zygisk_dir path zs s1)))))"
    if "xopen_dir path s = Some (zs, d, s1)" for zs d s1
    by (rule keeps_trans [OF keeps_trans [OF keeps_xopen_dir [OF that]
          keeps_trans [OF keeps_scan_dir keeps_close]] Cons.IH])
  then show ?case
    using Cons.IH
    by (simp add: e case_prod_beta Let_def path_def [symmetric] del: append.simps
        split: option.split)
qed simp

lemma keeps_read_flags: "keeps K L s (snd (read_flags d s))"
  by (auto simp: read_flags_def sock_xxread_def Let_def case_prod_beta split: option.split prod.split)

text \<open>Between the request and the end only the context's flags change.\<close>

lemma quiet_get_module_info:
  assumes "get_module_info s = Some (d, fds, s')" "\<And>e. mundane e \<Longrightarrow> P e"
  shows "quiet P s s'"
proof -
  define s1 where "s1 = snd (zygisk_request_fd GetInfo s)"
  define r where "r = fst (zygisk_request_fd GetInfo s)"
  have rq: "zygisk_request_fd GetInfo s = (r, s1)" by (simp add: s1_def r_def)
  have k1: "keeps {} {} s s1" unfolding s1_def by (rule keeps_request_fd)
  show ?thesis
  proof (cases "0 \<le> r")
    case False
    with assms(1) have "s' = s1" by (simp add: get_module_info_def rq)
    with keeps_quiet [OF k1 assms(2)] show ?thesis by simp
  next
    case True
    obtain fl s2 where rf: "read_flags r s1 = (Some fl, s2)"
      using assms(1) True by (auto simp: get_module_info_def rq Let_def split: prod.splits option.splits)
    have k2: "keeps {} {} s s2" using keeps_trans [OF k1 keeps_read_flags] rf by (metis snd_conv)
    define s3 where "s3 = upd_ctx (\<lambda>c. c\<lparr>c_info_flags := fl\<rparr>) s2"
    have q3: "quiet P s s3"
      unfolding s3_def by (rule quiet_trans [OF keeps_quiet [OF k2 assms(2)] quiet_upd_ctx]) simp_all
    have "s' = s3 \<or> (\<exists>es md s4. xopen_dir ''/data/adb/modules'' s3 = Some (es, md, s4) \<and>
        s' = sys_close md (snd (scan_modules es s4)))"
      using assms(1) True
      by (auto simp: get_module_info_def rq rf Let_def s3_def [symmetric] case_prod_beta
          split: if_splits option.splits)
    moreover have "keeps {} {} s3 (sys_close md (snd (scan_modules es s4)))"
      if "xopen_dir ''/data/adb/modules'' s3 = Some (es, md, s4)" for es md s4
      by (rule keeps_trans [OF keeps_xopen_dir [OF that] keeps_trans [OF keeps_scan_modules keeps_close]])
    ultimately have "s' = s3 \<or> keeps {} {} s3 s'" by (elim disjE exE conjE) simp_all
    then show ?thesis
      using q3 quiet_trans [OF q3 keeps_quiet [OF _ assms(2)]] by (elim disjE) simp_all
  qed
qed

lemma quiet_load_module:
  assumes "\<And>e. mundane e \<Longrightarrow> P e"
  shows "quiet P s (snd (load_module i d s))"
proof -
  have close: "quiet P x (sys_close d x)" for x :: "'a zyg"
    by (rule keeps_quiet [OF keeps_close [where K = "{}" and L = "{}"] assms])
  have "quiet P s (sys_close d (upd_ctx (\<lambda>c. c\<lparr>c_modules := c_modules c @ ms\<rparr>) s))" for ms
    by (rule quiet_trans [OF quiet_upd_ctx close]) simp_all
  with close show ?thesis by (simp add: load_module_def split: option.split ofile.split)
qed

lemma quiet_load_modules:
  assumes "\<And>e. mundane e \<Longrightarrow> P e"
  shows "quiet P s (snd (load_modules i ds s))"
proof (induction ds arbitrary: i s)
  case (Cons d ds)
  show ?case
    using quiet_trans [OF quiet_load_module [OF assms] Cons.IH] by (simp add: case_prod_beta Let_def)
qed simp

section \<open>Running modules\<close>

lemma quiet_callback:
  assumes "run_callback nm k a f s = Some s'" "P (OpCallback nm k)" "\<And>e. mundane e \<Longrightarrow> P e"
  shows "quiet P s s'"
  using assms
  by (auto simp: run_callback_def split: Option.bind_splits dest!: keeps_run_acts
      intro: quiet_trans [OF quiet_logop keeps_quiet])

definition callback_op :: "sysop \<Rightarrow> bool" where
  "callback_op e \<longleftrightarrow> (\<exists>nm k. e = OpCallback nm k)"

text \<open>The operations of a phase in which modules run.\<close>

definition module_op :: "sysop \<Rightarrow> bool" where
  "module_op e \<longleftrightarrow> mundane e \<or> callback_op e"

lemma module_op_simps [simp]: "module_op (OpCallback nm k)" "mundane e \<Longrightarrow> module_op e"
  by (simp_all add: module_op_def callback_op_def)

lemma quiet_onLoad: "onLoad m s = Some s' \<Longrightarrow> quiet module_op s s'"
  unfolding onLoad_def by (rule quiet_callback) simp_all

lemma quiet_call_app: "call_app nm f a m s = Some s' \<Longrightarrow> quiet module_op s s'"
  by (auto simp: call_app_def split: Option.bind_splits if_splits intro: quiet_callback)

lemma quiet_run_pre: "run_pre m s = Some s' \<Longrightarrow> quiet module_op s s'"
  by (auto simp: run_pre_def preAppSpecialize_def preServerSpecialize_def
      split: Option.bind_splits if_splits spec_args.splits intro: quiet_call_app quiet_callback)

lemma quiet_run_post: "run_post m s = Some s' \<Longrightarrow> quiet module_op s s'"
  by (auto simp: run_post_def postAppSpecialize_def postServerSpecialize_def
      split: Option.bind_splits if_splits spec_args.splits intro: quiet_call_app quiet_callback)

lemma quiet_load_all: "load_all ks s = Some s' \<Longrightarrow> quiet module_op s s'"
proof (induction ks arbitrary: s)
  case (Cons k ks)
  then obtain m s1 m1 where "onLoad m s = Some s1"
    and rest: "load_all ks (if valid_module m1 then s1
        else upd_ctx (\<lambda>c. c\<lparr>c_modules := filter (\<lambda>x. m_id x \<noteq> k) (c_modules c)\<rparr>) s1) = Some s'"
    by (auto split: Option.bind_splits)
  then have "quiet module_op s s1" by (simp add: quiet_onLoad)
  then have "quiet module_op s (if valid_module m1 then s1
        else upd_ctx (\<lambda>c. c\<lparr>c_modules := filter (\<lambda>x. m_id x \<noteq> k) (c_modules c)\<rparr>) s1)"
    by (auto intro: quiet_trans [OF _ quiet_upd_ctx])
  with Cons.IH [OF rest] show ?case by (rule quiet_trans [rotated])
qed simp

lemma quiet_pre_all: "pre_all ks s = Some s' \<Longrightarrow> quiet module_op s s'"
  by (induction ks arbitrary: s)
    (auto split: Option.bind_splits intro: quiet_trans quiet_run_pre)

lemma quiet_run_modules_pre: "run_modules_pre fds s = Some s' \<Longrightarrow> quiet module_op s s'"
  by (auto simp: run_modules_pre_def case_prod_beta split: Option.bind_splits
      intro: quiet_trans [OF quiet_load_modules quiet_trans [OF quiet_load_all quiet_pre_all]])

definition unload_op :: "sysop \<Rightarrow> bool" where
  "unload_op e \<longleftrightarrow> module_op e \<or> (\<exists>h. e = OpDlclose h)"

lemma unload_op_simps [simp]: "unload_op (OpDlclose h)" "module_op e \<Longrightarrow> unload_op e"
  by (simp_all add: unload_op_def)

lemma quiet_post_all: "post_all ks s = Some s' \<Longrightarrow> quiet unload_op s s'"
proof (induction ks arbitrary: s)
  case (Cons k ks)
  then obtain m s1 m1 where m: "run_post m s = Some s1" and rest: "post_all ks (tryUnload m1 s1) = Some s'"
    by (auto split: Option.bind_splits)
  have "quiet unload_op s s1" using quiet_run_post [OF m] by (rule quiet_mono) simp
  moreover have "quiet unload_op s1 (tryUnload m1 s1)" by (simp add: tryUnload_def quiet_logop)
  ultimately show ?case using Cons.IH [OF rest] quiet_trans by blast
qed simp

lemma quiet_run_modules_post: "run_modules_post s = Some s' \<Longrightarrow> quiet unload_op s s'"
  unfolding run_modules_post_def Let_def
  by (rule quiet_trans [OF quiet_upd_ctx quiet_post_all]) simp_all

end
