(* ===== verification/ContextProps.thy ===== *)
theory ContextProps
  imports ContextFrames ZygDemo
begin

text \<open>
  The fork and the specialization as a whole: one fork per hooking function, the deny list, and the
  descriptors a child keeps.
\<close>

section \<open>Steps that neither fork nor touch the signal mask\<close>

definition inner_op :: "sysop \<Rightarrow> bool" where
  "inner_op e \<longleftrightarrow> e \<notin> {OpFork, OpSigBlock, OpSigUnblock}"

lemma inner_mundane [simp]: "mundane e \<Longrightarrow> inner_op e"
  by (cases e) (simp_all add: inner_op_def)

lemma inner_module [simp]: "module_op e \<Longrightarrow> inner_op e"
  by (auto simp: module_op_def callback_op_def inner_op_def)

lemma inner_unload [simp]: "unload_op e \<Longrightarrow> inner_op e"
  by (auto simp: unload_op_def) (simp add: inner_op_def)

lemma keeps_open_proc: "open_proc_fd s = Some (es, d, s') \<Longrightarrow> keeps K L s s'"
  by (auto simp: open_proc_fd_def Let_def split: if_splits prod.splits intro: keeps_alloc')

lemma quiet_close [simp]: "quiet mundane s (sys_close d s)"
  by (rule keeps_quiet [OF keeps_close])

lemma quiet_allow_fds: "quiet P s (allow_fds ds s)"
  unfolding allow_fds_def by (rule quiet_upd_ctx) simp

lemma quiet_update_ignored: "quiet P s (snd (update_ignored p n ex s))"
proof -
  have "quiet P s (allow_fds ex (s\<lparr>jst := j\<rparr>)\<lparr>locals := l\<rparr>)" for j l
    by (rule quiet_trans [OF quiet_trans [OF quiet_upd(2) quiet_allow_fds] quiet_upd(1)])
  then show ?thesis by (simp add: update_ignored_def Let_def case_prod_beta)
qed

lemma quiet_exempt_in_java: "exempt_in_java p ex s = Some s' \<Longrightarrow> quiet P s s'"
  using quiet_update_ignored [of P s p 0 ex]
    quiet_trans [OF quiet_allow_fds quiet_update_ignored]
    quiet_trans [OF quiet_trans [OF quiet_allow_fds quiet_update_ignored] quiet_upd(2)]
  by (auto simp: exempt_in_java_def Let_def case_prod_beta split: jval.splits if_splits)

lemma quiet_close_unlisted: "close_unlisted al dfd es s = Some s' \<Longrightarrow> quiet mundane s s'"
  by (induction es arbitrary: s)
    (auto split: Option.bind_splits if_splits intro: quiet_trans [OF quiet_close])

lemma quiet_list_open: "list_open es al s = Some (al', s') \<Longrightarrow> keeps K L s s'"
  by (induction es arbitrary: al s)
    (auto split: Option.bind_splits if_splits intro: keeps_trans [OF keeps_close])

lemma quiet_sanitize:
  assumes "sanitize_fds s = Some s'"
  shows "quiet mundane s s'"
proof -
  obtain c where c: "g_ctx s = Some c" using assms by (cases "g_ctx s") (simp_all add: sanitize_fds_def)
  show ?thesis
  proof (cases "is_child c")
    case False
    with assms c show ?thesis by (simp add: sanitize_fds_def)
  next
    case True
    then obtain s1 and c1 :: ZygiskContext and es dfd s2 s3 where
      s1: "(if can_exempt_fd c \<and> c_exempted_fds c \<noteq> [] then
              (case c_args c of
                 App_spec a \<Rightarrow> Option.bind (fds_to_ignore a) (\<lambda>p. exempt_in_java p (c_exempted_fds c) s)
               | Server_spec _ \<Rightarrow> None)
            else Some s) = Some s1"
      and o: "open_proc_fd s1 = Some (es, dfd, s2)"
      and cl: "close_unlisted (c_allowed_fds c1) dfd es s2 = Some s3" and s': "s' = sys_close dfd s3"
      using assms c by (auto simp: sanitize_fds_def split: Option.bind_splits)
    have "quiet mundane s s1"
      using s1 by (auto split: if_splits spec_args.splits Option.bind_splits intro: quiet_exempt_in_java)
    moreover have "quiet mundane s1 s2" by (rule keeps_quiet [OF keeps_open_proc [OF o]])
    ultimately show ?thesis
      unfolding s' using quiet_close_unlisted [OF cl] quiet_close quiet_trans by metis
  qed
qed

lemma list_all_False: "list_all (\<lambda>_. False) es \<longleftrightarrow> es = []"
  by (cases es) simp_all

lemma quiet_set_process: "set_process s = Some s' \<Longrightarrow> quiet P s s'"
  by (auto simp: set_process_def split: Option.bind_splits spec_args.splits jval.splits
      intro: quiet_upd_ctx)

lemma quiet_set_flag: "quiet P s (set_flag f s)"
  unfolding set_flag_def by (rule quiet_upd_ctx) simp

lemma quiet_drop_fd: "quiet inner_op s (drop_fd d s)"
  by (auto simp: drop_fd_def intro: quiet_mono [OF quiet_close])

lemma quiet_pre_inner: "run_modules_pre fds s = Some s' \<Longrightarrow> quiet inner_op s s'"
  by (rule quiet_mono [OF quiet_run_modules_pre]) simp_all

lemma quiet_post_inner: "run_modules_post s = Some s' \<Longrightarrow> quiet inner_op s s'"
  by (rule quiet_mono [OF quiet_run_modules_post]) simp_all

lemma quiet_app_pre:
  assumes "app_specialize_pre s = Some s'"
  shows "quiet inner_op s s'"
proof -
  obtain d fds s1 and c :: ZygiskContext and s2 where g: "get_module_info (set_flag APP_SPECIALIZE s) = Some (d, fds, s1)"
    and s2: "(if has_all (c_info_flags c) UNMOUNT_MASK then Some (set_flag DO_REVERT_UNMOUNT s1)
       else if 0 \<le> d then run_modules_pre fds s1 else Some s1) = Some s2" and s': "s' = drop_fd d s2"
    using assms by (auto simp: app_specialize_pre_def split: Option.bind_splits)
  have "quiet inner_op s s1"
    by (rule quiet_trans [OF quiet_set_flag quiet_get_module_info [OF g]]) simp
  moreover have "quiet inner_op s1 s2"
    using s2 by (auto split: if_splits intro: quiet_set_flag quiet_pre_inner)
  ultimately show ?thesis unfolding s' using quiet_drop_fd quiet_trans by metis
qed

lemma quiet_server_pre:
  assumes "server_specialize_pre s = Some s'"
  shows "quiet inner_op s s'"
proof -
  obtain d fds s1 where g: "get_module_info s = Some (d, fds, s1)"
    and s': "s' = s1 \<or> (\<exists>s2. (if fds \<noteq> [] then run_modules_pre fds s1 else Some s1) = Some s2 \<and>
       s' = drop_fd d s2)"
    using assms by (auto simp: server_specialize_pre_def split: Option.bind_splits if_splits)
  have q: "quiet inner_op s s1" by (rule quiet_get_module_info [OF g]) simp
  have "quiet inner_op s1 s2" if "(if fds \<noteq> [] then run_modules_pre fds s1 else Some s1) = Some s2" for s2
    using that by (auto split: if_splits intro: quiet_pre_inner)
  then have "quiet inner_op s1 s'" using s' quiet_drop_fd quiet_trans quiet_refl by metis
  with q show ?thesis by (rule quiet_trans)
qed

lemma quiet_app_post: "app_specialize_post s = Some s' \<Longrightarrow> quiet inner_op s s'"
  by (auto simp: app_specialize_post_def split: Option.bind_splits if_splits
      intro: quiet_trans [OF quiet_post_inner quiet_logop] quiet_post_inner simp: inner_op_def)

section \<open>The fork\<close>

text \<open>After the fork itself, the child only lists its descriptors.\<close>

lemma fork_pre_rest:
  assumes run: "fork_pre s = Some s'" and fork: "old_fork (logop OpSigBlock s) = Some (p, s0)"
  shows "quiet inner_op (upd_ctx (\<lambda>c. c\<lparr>c_pid := p\<rparr>) s0) s'"
proof -
  define s1 where "s1 = upd_ctx (\<lambda>c. c\<lparr>c_pid := p\<rparr>) s0"
  obtain c where c: "g_ctx s1 = Some c"
    using run fork by (auto simp: fork_pre_def s1_def [symmetric] Let_def split: Option.bind_splits)
  show ?thesis
  proof (cases "is_child c")
    case False
    with run fork c show ?thesis by (simp add: fork_pre_def s1_def [symmetric] Let_def)
  next
    case True
    then obtain es dfd s3 al s4 where o: "open_proc_fd s1 = Some (es, dfd, s3)"
      and l: "list_open es (c_allowed_fds c) s3 = Some (al, s4)"
      and s': "s' = sys_close dfd (upd_ctx (\<lambda>c. c\<lparr>c_allowed_fds := al[nat dfd := False]\<rparr>) s4)"
      using run fork c
      by (auto simp: fork_pre_def s1_def [symmetric] Let_def split: Option.bind_splits if_splits)
    have "quiet inner_op s1 s4"
      by (rule keeps_quiet [OF keeps_trans [OF keeps_open_proc [OF o] quiet_list_open [OF l]]]) simp
    moreover have "quiet inner_op s4 s'"
      unfolding s' by (rule quiet_trans [OF quiet_upd_ctx quiet_mono [OF quiet_close]]) simp_all
    ultimately show ?thesis unfolding s1_def by (rule quiet_trans)
  qed
qed

lemma fork_pre_log:
  assumes "fork_pre s = Some s'" "forks s = (p, me) # r"
  shows "forks s' = r \<and> w s' = w s \<and>
    map_option (\<lambda>c. (c_args c, c_pid c)) (g_ctx s') = map_option (\<lambda>c. (c_args c, p)) (g_ctx s) \<and>
    (\<exists>es. oslog s' = oslog s @ OpSigBlock # OpFork # es \<and> list_all inner_op es)"
proof -
  obtain q s0 where of: "old_fork (logop OpSigBlock s) = Some (q, s0)"
    using assms(1) by (auto simp: fork_pre_def split: Option.bind_splits)
  have fr: "q = p" "forks s0 = r" "w s0 = w s" "g_ctx s0 = g_ctx s"
    "oslog s0 = oslog s @ [OpSigBlock, OpFork]"
    using of assms(2)
    by (auto simp: old_fork_def through_def logop_def split: Option.bind_splits if_splits)
  define s1 where "s1 = upd_ctx (\<lambda>c. c\<lparr>c_pid := p\<rparr>) s0"
  have "forks s1 = r" "w s1 = w s" "oslog s1 = oslog s @ [OpSigBlock, OpFork]"
    "map_option (\<lambda>c. (c_args c, c_pid c)) (g_ctx s1) = map_option (\<lambda>c. (c_args c, p)) (g_ctx s)"
    using fr by (simp_all add: s1_def upd_ctx_def option.map_comp comp_def)
  moreover have "quiet inner_op s1 s'" using fork_pre_rest [OF assms(1) of] by (simp add: s1_def fr(1))
  ultimately show ?thesis by (auto simp: quiet_def log_ext_def)
qed

lemma quiet_through: "through f e s = Some s' \<Longrightarrow> P e \<Longrightarrow> quiet P s s'"
  by (auto simp: through_def quiet_logop split: if_splits)

lemma quiet_revert_unmount: "quiet inner_op s (revert_unmount s)"
  unfolding revert_unmount_def by (rule quiet_trans [OF quiet_logop quiet_logop]) (simp_all add: inner_op_def)

lemma quiet_new_unshare:
  assumes "new_unshare fl res s = Some (y, s')"
  shows "quiet inner_op s s'"
proof -
  obtain s1 where s1: "through Pf_unshare OpOrigUnshare s = Some s1"
    and s': "s' = s1 \<or> s' = revert_unmount s1"
    using assms by (auto simp: new_unshare_def split: Option.bind_splits option.splits if_splits)
  have "quiet inner_op s s1" by (rule quiet_through [OF s1]) (simp add: inner_op_def)
  with s' quiet_revert_unmount quiet_trans show ?thesis by metis
qed

lemma quiet_plt_calls:
  "run_plt_calls cs s = Some s' \<Longrightarrow> g_ctx s = Some c \<Longrightarrow> 0 \<le> c_pid c \<Longrightarrow> quiet inner_op s s'"
proof (induction cs arbitrary: s c)
  case (Cons x cs)
  obtain s1 where s1: "quiet inner_op s s1" "run_plt_calls cs s1 = Some s'"
  proof (cases x)
    case P_fork
    with Cons.prems that [of s] show ?thesis by (auto simp: new_fork_def split: Option.bind_splits)
  next
    case (P_unshare fl res)
    then obtain s1 y where u: "new_unshare fl res s = Some (y, s1)" and "run_plt_calls cs s1 = Some s'"
      using Cons.prems(1) by (auto split: Option.bind_splits)
    have "quiet inner_op s s1"
      by (rule quiet_new_unshare [OF u])
    then show ?thesis by (rule that) fact
  next
    case P_setcontext
    then obtain s1 where t: "through Pf_setcontext OpOrigSetcontext s = Some s1"
      and "run_plt_calls cs s1 = Some s'"
      using Cons.prems(1) by (auto simp: new_selinux_android_setcontext_def split: Option.bind_splits)
    have "quiet inner_op s s1" by (rule quiet_through [OF t]) (simp add: inner_op_def)
    then show ?thesis by (rule that) fact
  next
    case P_log_close
    then obtain s1 where t: "through Pf_log_close OpOrigLogClose s = Some s1"
      and "run_plt_calls cs s1 = Some s'"
      using Cons.prems(1) by (auto simp: new_android_log_close_def split: Option.bind_splits)
    have "quiet inner_op s s1" by (rule quiet_through [OF t]) (simp add: inner_op_def)
    then show ?thesis by (rule that) fact
  qed
  obtain c1 where "g_ctx s1 = Some c1" "c_pid c1 = c_pid c"
    using quiet_ctx_Some [OF s1(1) Cons.prems(2)] by auto
  with Cons.IH [OF s1(2)] Cons.prems(3) have "quiet inner_op s1 s'" by simp
  with s1(1) show ?case by (rule quiet_trans)
qed simp

text \<open>The destructor.\<close>

lemma register_table_frame:
  "oslog (register_table c t s) = oslog s \<and> forks (register_table c t s) = forks s \<and>
   g_ctx (register_table c t s) = g_ctx s"
  by (simp add: register_table_def register_jni_methods_def set_table_def upd_hook_def Let_def
      case_prod_beta split: ptr.split)

lemma restore_zygote_frame:
  "restore_zygote_hook s = Some s' \<Longrightarrow> oslog s' = oslog s \<and> forks s' = forks s \<and> g_ctx s' = g_ctx s"
  by (auto simp: restore_zygote_hook_def Let_def register_table_frame split: Option.bind_splits)

lemma upd_hook_frame:
  "oslog (upd_hook f s) = oslog s \<and> forks (upd_hook f s) = forks s \<and> g_ctx (upd_hook f s) = g_ctx s"
  by (simp add: upd_hook_def split: ptr.split)

lemma register_hook_frame:
  "oslog (register_hook d i f s) = oslog s \<and> forks (register_hook d i f s) = forks s \<and>
   g_ctx (register_hook d i f s) = g_ctx s"
  by (simp add: register_hook_def RegisterHook_def Let_def upd_hook_frame)

lemma read_maps_frame:
  "oslog (snd (read_maps s)) = oslog s \<and> forks (snd (read_maps s)) = forks s \<and>
   g_ctx (snd (read_maps s)) = g_ctx (s :: 'j zyg)"
  using outer_zyg [OF outer_read_maps] by auto

lemma CommitHook_frame:
  "CommitHook s = Some (r, s') \<Longrightarrow>
     oslog s' = oslog s \<and> forks s' = forks s \<and> g_ctx s' = g_ctx (s :: 'j zyg)"
  using outer_zyg [OF outer_CommitHook] by auto

lemma hook_unloader_frame:
  "hook_unloader s = Some s' \<Longrightarrow> oslog s' = oslog s \<and> forks s' = forks s \<and> g_ctx s' = g_ctx s"
  by (auto simp: hook_unloader_def Let_def case_prod_beta split: Option.bind_splits
      dest!: CommitHook_frame simp: register_hook_frame read_maps_frame)

lemma delete_frame:
  assumes "delete_ZygiskContext s = Some (ms, s')"
  shows "oslog s' = oslog s \<and> forks s' = forks s \<and> g_ctx s' = None"
proof -
  obtain c where c: "g_ctx s = Some c" using assms by (auto simp: delete_ZygiskContext_def split: Option.bind_splits)
  show ?thesis
  proof (cases "is_child c")
    case False
    with assms c show ?thesis by (auto simp: delete_ZygiskContext_def Let_def)
  next
    case True
    with assms c obtain s2 where
      "restore_zygote_hook (upd_hook (\<lambda>h. h\<lparr>should_unmap := True\<rparr>) (s\<lparr>g_ctx := None\<rparr>)) = Some s2"
      "hook_unloader s2 = Some s'"
      by (auto simp: delete_ZygiskContext_def Let_def split: Option.bind_splits)
    then show ?thesis by (auto dest!: restore_zygote_frame hook_unloader_frame simp: upd_hook_frame)
  qed
qed

lemma quiet_locals_native:
  assumes "call_original h s = Some s'" "g_ctx s = Some c" "0 \<le> c_pid c"
  shows "quiet inner_op s s'"
proof -
  obtain cs p v where run: "run_plt_calls cs (s\<lparr>orig_calls := orig_calls s @ [(p, v)]\<rparr>) = Some s'"
    using assms(1) by (auto simp: call_original_def Let_def split: Option.bind_splits if_splits)
  have "quiet inner_op s (s\<lparr>orig_calls := orig_calls s @ [(p, v)]\<rparr>)" by (simp add: quiet_def)
  moreover have "quiet inner_op (s\<lparr>orig_calls := orig_calls s @ [(p, v)]\<rparr>) s'"
    by (rule quiet_plt_calls [OF run]) (use assms in simp_all)
  ultimately show ?thesis by (rule quiet_trans)
qed

text \<open>The two kinds of hooking functions that fork.\<close>

lemma call_pre_log:
  assumes "call_pre k s = Some s'" "k \<noteq> SpecializeAppProcess" "forks s = (p, me) # r" "g_ctx s = Some c"
  shows "forks s' = r \<and> (\<exists>c'. g_ctx s' = Some c' \<and> c_pid c' = p) \<and>
    (\<exists>es. oslog s' = oslog s @ OpSigBlock # OpFork # es \<and> list_all inner_op es)"
proof -
  obtain s1 s2 s3 where q1: "quiet (\<lambda>_. False) s s1" and f: "fork_pre s1 = Some s2"
    and q3: "quiet inner_op s2 s3" and sa: "sanitize_fds s3 = Some s'"
  proof (cases k)
    case ForkAndSpecialize
    then obtain s0 s2 s3 where "set_process s = Some s0" "fork_pre (set_flag APP_FORK_AND_SPECIALIZE s0) = Some s2"
      "(if child_of s2 then app_specialize_pre s2 else Some s2) = Some s3" "sanitize_fds s3 = Some s'"
      using assms(1) by (auto simp: nativeForkAndSpecialize_pre_def split: Option.bind_splits)
    then show ?thesis
      using quiet_trans [OF quiet_set_process quiet_set_flag] quiet_app_pre quiet_refl that
      by (metis option.inject)
  next
    case SpecializeAppProcess
    with assms(2) show ?thesis by simp
  next
    case ForkSystemServer
    define s1 where "s1 = upd_ctx (\<lambda>c. c\<lparr>c_process := Some ''system_server''\<rparr>) (set_flag SERVER_FORK_AND_SPECIALIZE s)"
    from ForkSystemServer obtain s2 s3 where r: "fork_pre s1 = Some s2"
      "(if child_of s2 then server_specialize_pre s2 else Some s2) = Some s3" "sanitize_fds s3 = Some s'"
      using assms(1) by (auto simp: nativeForkSystemServer_pre_def s1_def Let_def split: Option.bind_splits)
    have "quiet (\<lambda>_. False) s s1"
      unfolding s1_def by (rule quiet_trans [OF quiet_set_flag quiet_upd_ctx]) simp
    then show ?thesis using r quiet_server_pre quiet_refl that by (metis option.inject)
  qed
  have l1: "oslog s1 = oslog s" and f1: "forks s1 = (p, me) # r"
    using q1 assms(3) by (auto simp: quiet_def log_ext_def list_all_False)
  obtain c1 where c1: "g_ctx s1 = Some c1" using quiet_ctx_Some [OF q1 assms(4)] by auto
  note fp = fork_pre_log [OF f f1]
  have q: "quiet inner_op s2 s'"
    by (rule quiet_trans [OF q3 quiet_mono [OF quiet_sanitize [OF sa]]]) simp
  from fp obtain es where es: "oslog s2 = oslog s @ OpSigBlock # OpFork # es" "list_all inner_op es"
    using l1 by auto
  from q obtain es' where "oslog s' = oslog s2 @ es'" "list_all inner_op es'"
    by (auto simp: quiet_def log_ext_def)
  moreover obtain c2 where "g_ctx s2 = Some c2" "c_pid c2 = p" using fp c1 by auto
  then obtain c' where "g_ctx s' = Some c'" "c_pid c' = p" using quiet_ctx_Some [OF q] by auto
  moreover have "forks s' = r" using q fp by (simp add: quiet_def)
  ultimately show ?thesis using es by auto
qed

lemma call_post_log:
  assumes "call_post k s = Some s'" "k \<noteq> SpecializeAppProcess"
  shows "forks s' = forks s \<and> map_option c_pid (g_ctx s') = map_option c_pid (g_ctx s) \<and>
    (\<exists>es. oslog s' = oslog s @ es @ [OpSigUnblock] \<and> list_all inner_op es)"
proof -
  obtain s1 where post: "(if child_of s then (if k = ForkAndSpecialize then app_specialize_post s
       else run_modules_post s) else Some s) = Some s1" and s': "s' = logop OpSigUnblock s1"
    using assms
    by (cases k; cases "child_of s") (auto simp: nativeForkAndSpecialize_post_def
        nativeForkSystemServer_post_def fork_post_def server_specialize_post_def
        split: Option.bind_splits)
  have "quiet inner_op s s1"
    using post by (auto split: if_splits intro: quiet_app_post quiet_post_inner)
  with s' show ?thesis
    by (auto simp: quiet_def log_ext_def logop_def option.map_comp comp_def
        dest!: arg_cong [where f = "map_option snd"])
qed

definition forking :: "jni_hook \<Rightarrow> bool" where
  "forking h \<longleftrightarrow> jh_pre h \<noteq> SpecializeAppProcess \<and> jh_post h \<noteq> SpecializeAppProcess \<and> jh_returns_pid h"

lemma hooks_fork:
  "list_all forking (src_methods Fork_app)" "list_all forking (src_methods Fork_server)"
  by code_simp+

text \<open>
  C1: A hooking function of \<^verbatim>\<open>nativeForkAndSpecialize\<close> or \<^verbatim>\<open>nativeForkSystemServer\<close> whose fork succeeds
  forks exactly once, whatever the modules and the original native method do: the calls of \<open>fork\<close> that
  the original makes through its hooked PLT slot return the cached result. The fork directly follows the
  blocking of SIGCHLD, which is unblocked once, after everything else, and the function returns the pid of
  that fork. (The functions of \<^verbatim>\<open>nativeSpecializeAppProcess\<close> do not fork themselves, and after a fork that
  fails the calls of the original fork again.)
\<close>

theorem one_fork_per_hook:
  assumes "h \<in> set (src_methods t)" "t \<noteq> Specialize_app"
    and "forks s = (p, me) # r" "0 \<le> p" "run_hook h vals s = Some (res, mods, s')"
  shows "res = Some p \<and> forks s' = r \<and> g_ctx s' = None \<and>
    (\<exists>es. oslog s' = oslog s @ [OpSigBlock, OpFork] @ es @ [OpSigUnblock] \<and>
       list_all (\<lambda>e. e \<notin> {OpFork, OpSigBlock, OpSigUnblock}) es)"
proof -
  have h: "jh_pre h \<noteq> SpecializeAppProcess" "jh_post h \<noteq> SpecializeAppProcess" "jh_returns_pid h"
    using assms(1,2) hooks_fork by (cases t; simp add: list_all_iff forking_def del: src_methods.simps)+
  obtain a s1 s2 s3 c s4 where
    p1: "call_pre (jh_pre h) (new_ZygiskContext a (s\<lparr>locals := vals\<rparr>)) = Some s1"
    and p2: "call_original h s1 = Some s2" and p3: "call_post (jh_post h) s2 = Some s3"
    and c: "g_ctx s3 = Some c" and d: "delete_ZygiskContext s3 = Some (mods, s4)"
    and out: "res = Some (c_pid c)" "s' = s4"
    using assms(5) h(3) by (auto simp: run_hook_def split: Option.bind_splits)
  obtain c0 where "g_ctx (new_ZygiskContext a (s\<lparr>locals := vals\<rparr>)) = Some c0"
    by (simp add: new_ZygiskContext_def)
  from call_pre_log [OF p1 h(1) _ this, of p me r] assms(3)
  obtain c1 es where f1: "forks s1 = r" "g_ctx s1 = Some c1" "c_pid c1 = p"
    and l1: "oslog s1 = oslog s @ OpSigBlock # OpFork # es" "list_all inner_op es"
    by (auto simp: new_ZygiskContext_def)
  have q: "quiet inner_op s1 s2" using quiet_locals_native [OF p2 f1(2)] f1(3) assms(4) by simp
  then obtain es2 c2 where l2: "oslog s2 = oslog s1 @ es2" "list_all inner_op es2" "forks s2 = r"
    and c2: "g_ctx s2 = Some c2" "c_pid c2 = p"
    using quiet_ctx_Some [OF q f1(2)] f1 by (auto simp: quiet_def log_ext_def)
  from call_post_log [OF p3 h(2)] obtain es3 where l3: "oslog s3 = oslog s2 @ es3 @ [OpSigUnblock]"
    "list_all inner_op es3" "forks s3 = r" and "c_pid c = p"
    using l2(3) c2 c by auto
  moreover note delete_frame [OF d]
  moreover have "oslog s3 = oslog s @ [OpSigBlock, OpFork] @ (es @ es2 @ es3) @ [OpSigUnblock]"
    using l1(1) l2(1) l3(1) by simp
  moreover have "list_all inner_op (es @ es2 @ es3)" using l1(2) l2(2) l3(2) by simp
  ultimately show ?thesis
    using out unfolding inner_op_def by (intro conjI exI [of _ "es @ es2 @ es3"]) simp_all
qed

theorem one_fork_per_hook_witness:
  "\<exists>s'. run_hook ForkSystemServer_l (\<lambda>p. JInt 0) demo_zyg = Some (Some 100, [], s') \<and>
     native (w demo_zyg) 77 [] = [P_fork] \<and> forks s' = []"
proof -
  obtain s' where run: "run_hook ForkSystemServer_l (\<lambda>p. JInt 0) demo_zyg = Some (Some 100, [], s')"
    using demo_parent_run by (elim exE)
  have "forks demo_zyg = (100, 51) # []" by (simp add: demo_zyg_def)
  from one_fork_per_hook [OF demo_l_listed(2) _ this _ run] have "forks s' = []" by simp
  moreover have "native (w demo_zyg) 77 [] = [P_fork]" by (simp add: demo_zyg_def demo_world_def)
  ultimately show ?thesis using run by (intro exI conjI)
qed

end
