(* ===== verification/FdProps.thy ===== *)
theory FdProps
  imports ContextProps
begin

text \<open>
  The descriptors of a forked child: what the fork records, what is closed before the specialization,
  and their composition; and what the deny list makes of an app.
\<close>

section \<open>Names of descriptors\<close>

lemma foldl_digits_mono: "n \<le> foldl (\<lambda>v c. v * 10 + digit_value c) n ds"
proof (induction ds arbitrary: n)
  case (Cons c ds)
  have "n \<le> n * 10 + digit_value c" by simp
  also have "\<dots> \<le> foldl (\<lambda>v c. v * 10 + digit_value c) (n * 10 + digit_value c) ds" by (rule Cons)
  finally show ?case by simp
qed simp

lemma parse_digits_value:
  "\<forall>c\<in>set ds. is_digit 10 c \<Longrightarrow> foldl (\<lambda>v c. v * 10 + digit_value c) n ds < 2 ^ 31 \<Longrightarrow>
     parse_digits (int n) ds = Some (int (foldl (\<lambda>v c. v * 10 + digit_value c) n ds))"
proof (induction ds arbitrary: n)
  case (Cons c ds)
  let ?m = "n * 10 + digit_value c"
  have "?m < 2 ^ 31" using foldl_digits_mono [of ?m ds] Cons.prems(2) by simp
  then have "int ?m < int (2 ^ 31)" by (simp only: of_nat_less_iff)
  then have "int n * 10 + int (digit_value c) < 2 ^ 31" by simp
  then have "parse_digits (int n) (c # ds) = parse_digits (int n * 10 + int (digit_value c)) ds"
    using Cons.prems(1) by simp
  also have "int n * 10 + int (digit_value c) = int ?m" by simp
  finally show ?case using Cons.IH [of ?m] Cons.prems by simp
qed simp

lemma parse_int_show: "n < 2 ^ 31 \<Longrightarrow> parse_int (show_num 10 n) = Some (int n)"
  using parse_digits_value [of "show_num 10 n" 0] show_num_digits [of 10 n] num_of_show_num [of 10 n]
  by (simp add: parse_int_def num_of_def)

lemma parse_int_dots: "parse_int ''.'' = Some 0" "parse_int ''..'' = Some 0"
  by (simp_all add: parse_int_def is_digit_def digit_value_def Let_def)

lemma lowest_free_zero: "0 \<notin> set used \<Longrightarrow> lowest_free used = 0"
  unfolding lowest_free_def by (simp add: upt_conv_Cons del: upt_Suc)

lemma lowest_free_le: "lowest_free used \<le> int (length used)"
proof -
  have "lowest_free used \<in> set (filter (\<lambda>d. d \<notin> set used) (map int [0..<Suc (length used)]))"
    unfolding lowest_free_def by (rule hd_in_set [OF lowest_free_exists])
  then show ?thesis by (auto simp del: upt_Suc)
qed

text \<open>The numbers read from the listing are 0 and the open descriptors.\<close>

definition listed_as :: "string list \<Rightarrow> fd set \<Rightarrow> bool" where
  "listed_as es ds \<longleftrightarrow> (\<forall>e\<in>set es. parse_int e \<noteq> None) \<and> {d. \<exists>e\<in>set es. parse_int e = Some d} = insert 0 ds"

lemma open_proc_listed:
  assumes "open_proc_fd s = Some (es, dfd, s')" "fdtab_ok s" "\<forall>d\<in>open_fds s. d < 2 ^ 31 - 1"
  shows "listed_as es (open_fds s') \<and> open_fds s' = insert dfd (open_fds s) \<and> dfd \<notin> open_fds s \<and>
    0 \<le> dfd \<and> (0 \<notin> open_fds s \<longrightarrow> dfd = 0) \<and> fdtab_ok s'"
proof -
  have al: "alloc_fd DirStream s = (dfd, s')"
    and es: "es = ''.'' # ''..'' # map (\<lambda>(k, _). show_num 10 (nat k)) (fdtab s')"
    using assms(1) by (auto simp: open_proc_fd_def Let_def split: if_splits prod.splits)
  note fr = open_fds_alloc [OF al] alloc_fd_fresh [OF al] fdtab_ok_alloc [OF assms(2) al]
  have dfd: "dfd = lowest_free (map fst (fdtab s))" using al by (simp add: alloc_fd_def Let_def)
  have "dfd \<le> int (length (fdtab s))" using lowest_free_le [of "map fst (fdtab s)"] by (simp add: dfd)
  moreover have "length (fdtab s) = card (open_fds s)"
    using assms(2) distinct_card [of "map fst (fdtab s)"] by (simp add: fdtab_ok_def open_fds_def)
  moreover have "open_fds s \<subseteq> {0..<2 ^ 31 - 1}" using assms(2,3) by (auto simp: fdtab_ok_def)
  then have "card (open_fds s) \<le> card {0::int..<2 ^ 31 - 1}" by (intro card_mono) simp_all
  ultimately have "dfd < 2 ^ 31" by simp
  with assms(3) have bound: "\<forall>d\<in>open_fds s'. d < 2 ^ 31" using fr(1) by force
  have zero: "0 \<notin> open_fds s \<Longrightarrow> dfd = 0"
    using lowest_free_zero [of "map fst (fdtab s)"] by (simp add: dfd open_fds_def)
  have "parse_int (show_num 10 (nat k)) = Some k" if "k \<in> open_fds s'" for k
    using parse_int_show [of "nat k"] bound that fr(3) by (auto simp: fdtab_ok_def nat_less_iff)
  then have "parse_int (show_num 10 (nat k)) = Some k" if "(k, f) \<in> set (fdtab s')" for k f
    using that by (force simp: open_fds_def)
  moreover have "open_fds s' = {k. \<exists>f. (k, f) \<in> set (fdtab s')}" by (force simp: open_fds_def)
  ultimately have "listed_as es (open_fds s')"
    unfolding listed_as_def es by (fastforce simp: parse_int_dots)
  with fr zero show ?thesis by simp
qed

section \<open>The two loops\<close>

lemma list_open_spec:
  "\<forall>e\<in>set es. parse_int e \<noteq> None \<Longrightarrow>
     \<exists>al' s'. list_open es al s = Some (al', s') \<and> length al' = length al \<and>
       open_fds s' = open_fds s - {d. \<exists>e\<in>set es. parse_int e = Some d \<and> (d < 0 \<or> int (length al) \<le> d)} \<and>
       (\<forall>d. 0 \<le> d \<and> d < int (length al) \<longrightarrow>
          (al' ! nat d \<longleftrightarrow> al ! nat d \<or> (\<exists>e\<in>set es. parse_int e = Some d)))"
proof (induction es arbitrary: al s)
  case (Cons e es)
  then obtain d where d: "parse_int e = Some d" by auto
  show ?case
  proof (cases "d < 0 \<or> int (length al) \<le> d")
    case True
    obtain al' s' where run: "list_open es al (sys_close d s) = Some (al', s')" "length al' = length al"
      and o: "open_fds s' = open_fds (sys_close d s) -
        {d. \<exists>e\<in>set es. parse_int e = Some d \<and> (d < 0 \<or> int (length al) \<le> d)}"
      and a: "\<forall>d. 0 \<le> d \<and> d < int (length al) \<longrightarrow>
          (al' ! nat d \<longleftrightarrow> al ! nat d \<or> (\<exists>e\<in>set es. parse_int e = Some d))"
      using Cons.IH [of al "sys_close d s"] Cons.prems by auto
    have "open_fds s' = open_fds s -
        {d. \<exists>e\<in>set (e # es). parse_int e = Some d \<and> (d < 0 \<or> int (length al) \<le> d)}"
      unfolding o open_fds_close using d True by auto
    moreover have "\<forall>x. 0 \<le> x \<and> x < int (length al) \<longrightarrow>
        (al' ! nat x \<longleftrightarrow> al ! nat x \<or> (\<exists>e\<in>set (e # es). parse_int e = Some x))"
      using a d True by auto
    ultimately show ?thesis using run d True by auto
  next
    case False
    obtain al' s' where run: "list_open es (al[nat d := True]) s = Some (al', s')"
        "length al' = length al"
      and o: "open_fds s' = open_fds s -
        {d. \<exists>e\<in>set es. parse_int e = Some d \<and> (d < 0 \<or> int (length al) \<le> d)}"
      and a: "\<forall>x. 0 \<le> x \<and> x < int (length al) \<longrightarrow>
          (al' ! nat x \<longleftrightarrow> al[nat d := True] ! nat x \<or> (\<exists>e\<in>set es. parse_int e = Some x))"
      using Cons.IH [of "al[nat d := True]" s] Cons.prems by auto
    have "al[nat d := True] ! nat x \<longleftrightarrow> al ! nat x \<or> x = d" if "0 \<le> x" "x < int (length al)" for x
      using that False by (auto simp: nth_list_update)
    then have "\<forall>x. 0 \<le> x \<and> x < int (length al) \<longrightarrow>
        (al' ! nat x \<longleftrightarrow> al ! nat x \<or> (\<exists>e\<in>set (e # es). parse_int e = Some x))"
      using a d by auto
    moreover have "open_fds s' = open_fds s -
        {d. \<exists>e\<in>set (e # es). parse_int e = Some d \<and> (d < 0 \<or> int (length al) \<le> d)}"
      unfolding o using d False by auto
    ultimately show ?thesis using run d False by auto
  qed
qed simp

definition closable :: "bool list \<Rightarrow> fd \<Rightarrow> bool" where
  "closable al d \<longleftrightarrow> d < 0 \<or> int (length al) \<le> d \<or> \<not> al ! nat d"

lemma close_unlisted_spec:
  "\<forall>e\<in>set es. parse_int e \<noteq> None \<Longrightarrow>
     \<exists>s'. close_unlisted al dfd es s = Some s' \<and>
       open_fds s' = open_fds s - {d. (\<exists>e\<in>set es. parse_int e = Some d) \<and> closable al d \<and> d \<noteq> dfd}"
proof (induction es arbitrary: s)
  case (Cons e es)
  then obtain d where d: "parse_int e = Some d" by auto
  define t where "t = (if closable al d \<and> d \<noteq> dfd then sys_close d s else s)"
  obtain s' where run: "close_unlisted al dfd es t = Some s'"
    and o: "open_fds s' = open_fds t -
      {d. (\<exists>e\<in>set es. parse_int e = Some d) \<and> closable al d \<and> d \<noteq> dfd}"
    using Cons.IH [of t] Cons.prems by auto
  have "close_unlisted al dfd (e # es) s = Some s'"
    using run d by (auto simp: t_def closable_def split: if_splits)
  moreover have "open_fds s' = open_fds s -
      {d. (\<exists>e\<in>set (e # es). parse_int e = Some d) \<and> closable al d \<and> d \<noteq> dfd}"
    unfolding o using d by (auto simp: t_def open_fds_close)
  ultimately show ?case by auto
qed simp

text \<open>What the fork records: exactly the descriptors that were open, within the table's size.\<close>

lemma fork_pre_allowed:
  assumes "fork_pre s = Some s1" "g_ctx s = Some c" "c_allowed_fds c = replicate n False"
    and "forks s = (p, me) # r" "p \<le> 0" "fdtab_ok s" "\<forall>d\<in>open_fds s. d < 2 ^ 31 - 1"
  shows "\<exists>c1. g_ctx s1 = Some c1 \<and> length (c_allowed_fds c1) = n \<and>
    (\<forall>d. \<not> closable (c_allowed_fds c1) d \<longleftrightarrow> d \<in> open_fds s \<and> d < int n)"
proof -
  obtain q s0 where of: "old_fork (logop OpSigBlock s) = Some (q, s0)"
    using assms(1) by (auto simp: fork_pre_def split: Option.bind_splits)
  have fr: "q = p" "fdtab s0 = fdtab s" "g_ctx s0 = Some c"
    using of assms(2,4)
    by (auto simp: old_fork_def through_def logop_def split: Option.bind_splits if_splits)
  define s2 where "s2 = upd_ctx (\<lambda>c. c\<lparr>c_pid := p\<rparr>) s0"
  have f2: "g_ctx s2 = Some (c\<lparr>c_pid := p\<rparr>)" "open_fds s2 = open_fds s" "fdtab_ok s2"
    using fr assms(6) by (simp_all add: s2_def upd_ctx_def open_fds_def fdtab_ok_def)
  obtain es dfd s3 al s4 where o: "open_proc_fd s2 = Some (es, dfd, s3)"
    and l: "list_open es (replicate n False) s3 = Some (al, s4)"
    and s1: "s1 = sys_close dfd (upd_ctx (\<lambda>c. c\<lparr>c_allowed_fds := al[nat dfd := False]\<rparr>) s4)"
    and lt: "dfd < int (length al)"
    using assms(1,3,5) of f2(1)
    by (auto simp: fork_pre_def Let_def s2_def [symmetric] fr(1) is_child_def
        split: Option.bind_splits if_splits)
  note op = open_proc_listed [OF o f2(3)]
  have li: "listed_as es (insert dfd (open_fds s))" "dfd \<notin> open_fds s" "0 \<le> dfd"
    "0 \<notin> open_fds s \<Longrightarrow> dfd = 0"
    using op assms(7) f2(2) by auto
  have nn: "0 \<le> d" if "d \<in> open_fds s" for d using assms(6) that by (simp add: fdtab_ok_def)
  have par: "(\<exists>e\<in>set es. parse_int e = Some d) \<longleftrightarrow> d = 0 \<or> d = dfd \<or> d \<in> open_fds s" for d
    using li(1) by (auto simp: listed_as_def set_eq_iff)
  have rep: "\<not> replicate n False ! nat d" if "0 \<le> d" "d < int n" for d
    using that by (simp add: nat_less_iff)
  have all: "\<forall>e\<in>set es. parse_int e \<noteq> None" using li(1) by (simp add: listed_as_def)
  from list_open_spec [OF all, of "replicate n False" s3] l have len: "length al = n"
    and a: "\<forall>d. 0 \<le> d \<and> d < int n \<longrightarrow> (al ! nat d \<longleftrightarrow> d = 0 \<or> d = dfd \<or> d \<in> open_fds s)"
    by (auto simp: par rep)
  have "\<exists>c4. g_ctx s4 = Some c4"
  proof -
    have "keeps {} {} s2 s4" by (rule keeps_trans [OF keeps_open_proc [OF o] quiet_list_open [OF l]])
    then show ?thesis using f2(1) by (auto simp: keeps_def ctx_step_def split: option.splits)
  qed
  then obtain c4 where c4: "g_ctx s4 = Some c4" by (elim exE)
  have "\<not> closable (al[nat dfd := False]) d \<longleftrightarrow> d \<in> open_fds s \<and> d < int n" for d
  proof (cases "0 \<le> d \<and> d < int n")
    case True
    then have "al[nat dfd := False] ! nat d \<longleftrightarrow> d \<noteq> dfd \<and> al ! nat d"
      using li(3) lt by (auto simp: nth_list_update eq_nat_nat_iff)
    moreover have "0 \<in> open_fds s" if "dfd \<noteq> 0" using li(4) that by blast
    ultimately show ?thesis using True a len li(2) by (auto simp: closable_def)
  next
    case False
    with nn [of d] len show ?thesis by (auto simp: closable_def)
  qed
  then show ?thesis
    using c4 len by (simp add: s1 upd_ctx_def sys_close_def logop_def)
qed

text \<open>
  The descriptors the modules' exemption keeps, where the runtime passes a list to ignore: the descriptors
  already on that list, and the exempted ones, which are only added when the longer Java array is made.
\<close>

definition exempted :: "ZygiskContext \<Rightarrow> 'j zyg \<Rightarrow> fd set" where
  "exempted c s =
     (if can_exempt_fd c \<and> c_exempted_fds c \<noteq> [] then
        (case c_args c of
           App_spec a \<Rightarrow>
             (case map_option (locals s) (fds_to_ignore a) of
                Some (JRef r) \<Rightarrow>
                  (let passed = (if r = 0 then [] else GetIntArrayElements (jvm (w s)) (jst s) r);
                       made = fst (NewIntArray (jvm (w s)) (jst s) (length passed + length (c_exempted_fds c))) \<noteq> 0
                   in set passed \<union> (if made then set (c_exempted_fds c) else {}))
              | _ \<Rightarrow> {})
         | Server_spec _ \<Rightarrow> {})
      else {})"

text \<open>What the Java side guarantees: the argument of an app with such a list is a reference.\<close>

definition ignore_list_is_ref :: "ZygiskContext \<Rightarrow> 'j zyg \<Rightarrow> bool" where
  "ignore_list_is_ref c s \<longleftrightarrow> (can_exempt_fd c \<longrightarrow>
     (case c_args c of
        App_spec a \<Rightarrow> (case map_option (locals s) (fds_to_ignore a) of Some (JRef r) \<Rightarrow> True | _ \<Rightarrow> False)
      | Server_spec _ \<Rightarrow> False))"

lemma allow_closable:
  "\<not> closable (fold allow_one ds al) d \<longleftrightarrow> \<not> closable al d \<or> d \<in> set ds \<and> 0 \<le> d \<and> d < int (length al)"
proof (induction ds arbitrary: al)
  case (Cons x ds)
  have "\<not> closable (allow_one x al) d \<longleftrightarrow> \<not> closable al d \<or> d = x \<and> 0 \<le> d \<and> d < int (length al)"
    by (auto simp: closable_def allow_one_def nth_list_update eq_nat_nat_iff)
  moreover have "length (allow_one x al) = length al" by (simp add: allow_one_def)
  ultimately show ?case using Cons.IH [of "allow_one x al"] by auto
qed simp

lemma length_allow: "length (fold allow_one ds al) = length al"
  by (induction ds arbitrary: al) (simp_all add: allow_one_def)

lemma allow_fds_ctx:
  "g_ctx s = Some c \<Longrightarrow> g_ctx (allow_fds ds s) = Some (c\<lparr>c_allowed_fds := fold allow_one ds (c_allowed_fds c)\<rparr>)"
  "fdtab (allow_fds ds s) = fdtab s" "w (allow_fds ds s) = w s" "jst (allow_fds ds s) = jst s"
  by (simp_all add: allow_fds_def upd_ctx_def)

lemma update_ignored_effect:
  assumes "g_ctx s = Some c" "update_ignored p n ex s = (arr, s')"
  shows "\<exists>al. g_ctx s' = Some (c\<lparr>c_allowed_fds := al\<rparr>) \<and> fdtab s' = fdtab s \<and> w s' = w s \<and>
    al = fold allow_one (if fst (NewIntArray (jvm (w s)) (jst s) (n + length ex)) \<noteq> 0 then ex else []) (c_allowed_fds c)"
  using assms
  by (auto simp: update_ignored_def Let_def case_prod_beta allow_fds_def upd_ctx_def split: if_splits)

lemma exempt_effect:
  assumes "g_ctx s = Some c" "locals s p = JRef r"
  shows "\<exists>s1 al. exempt_in_java p ex s = Some s1 \<and> g_ctx s1 = Some (c\<lparr>c_allowed_fds := al\<rparr>) \<and>
    fdtab s1 = fdtab s \<and> w s1 = w s \<and>
    (let passed = (if r = 0 then [] else GetIntArrayElements (jvm (w s)) (jst s) r) in
     al = fold allow_one (passed @
       (if fst (NewIntArray (jvm (w s)) (jst s) (length passed + length ex)) \<noteq> 0 then ex else [])) (c_allowed_fds c))"
proof (cases "r = 0")
  case True
  obtain arr s' where u: "update_ignored p 0 ex s = (arr, s')" by fastforce
  from update_ignored_effect [OF assms(1) u] True u assms(2) show ?thesis
    by (simp add: exempt_in_java_def Let_def)
next
  case False
  let ?els = "GetIntArrayElements (jvm (w s)) (jst s) r"
  obtain arr s' where u: "update_ignored p (length ?els) ex (allow_fds ?els s) = (arr, s')" by fastforce
  from update_ignored_effect [OF allow_fds_ctx(1) [OF assms(1)] u] obtain al where
    "g_ctx s' = Some (c\<lparr>c_allowed_fds := al\<rparr>)" "fdtab s' = fdtab s" "w s' = w s"
    "al = fold allow_one (?els @ (if fst (NewIntArray (jvm (w s)) (jst s) (length ?els + length ex)) \<noteq> 0 then ex else []))
       (c_allowed_fds c)"
    by (auto simp: allow_fds_ctx)
  then show ?thesis using False u assms(2) by (simp add: exempt_in_java_def Let_def)
qed

text \<open>What is left after the descriptors are sanitized.\<close>

lemma sanitize_closes:
  assumes "g_ctx s = Some c" "is_child c" "ignore_list_is_ref c s"
    and "proc_fd_ok (w s)" "fdtab_ok s" "\<forall>d\<in>open_fds s. d < 2 ^ 31 - 1"
  shows "\<exists>s'. sanitize_fds s = Some s' \<and> open_fds s' = {d \<in> open_fds s. \<not> closable (c_allowed_fds c) d \<or>
    d \<in> exempted c s \<and> d < int (length (c_allowed_fds c))}"
proof -
  obtain s1 c1 where
    ex: "(if can_exempt_fd c \<and> c_exempted_fds c \<noteq> [] then
        (case c_args c of
           App_spec a \<Rightarrow> do { p \<leftarrow> fds_to_ignore a; exempt_in_java p (c_exempted_fds c) s }
         | Server_spec _ \<Rightarrow> None)
      else Some s) = Some s1" "g_ctx s1 = Some c1" "fdtab s1 = fdtab s" "w s1 = w s"
    and al: "\<forall>d. \<not> closable (c_allowed_fds c1) d \<longleftrightarrow>
      \<not> closable (c_allowed_fds c) d \<or> d \<in> exempted c s \<and> 0 \<le> d \<and> d < int (length (c_allowed_fds c))"
  proof (cases "can_exempt_fd c \<and> c_exempted_fds c \<noteq> []")
    case False
    then have none: "exempted c s = {}" by (simp only: exempted_def if_False)
    show ?thesis
      by (rule that [of s c]) (simp_all only: if_not_P [OF False] none assms(1) empty_iff simp_thms)
  next
    case True
    then obtain a p r where a: "c_args c = App_spec a" "fds_to_ignore a = Some p" "locals s p = JRef r"
      using assms(3)
      by (auto simp: ignore_list_is_ref_def split: spec_args.splits option.splits jval.splits)
    define passed where "passed = (if r = 0 then [] else GetIntArrayElements (jvm (w s)) (jst s) r)"
    define l where "l = passed @ (if fst (NewIntArray (jvm (w s)) (jst s) (length passed + length (c_exempted_fds c))) \<noteq> 0
      then c_exempted_fds c else [])"
    have set_l: "exempted c s = set l"
      using True a by (simp add: exempted_def l_def passed_def [symmetric] Let_def)
    obtain s1 where s1: "exempt_in_java p (c_exempted_fds c) s = Some s1"
      "g_ctx s1 = Some (c\<lparr>c_allowed_fds := fold allow_one l (c_allowed_fds c)\<rparr>)" "fdtab s1 = fdtab s" "w s1 = w s"
      using exempt_effect [OF assms(1) a(3), of "c_exempted_fds c"]
      unfolding passed_def [symmetric] Let_def l_def by blast
    let ?al = "fold allow_one l (c_allowed_fds c)"
    have al: "\<not> closable ?al d \<longleftrightarrow> \<not> closable (c_allowed_fds c) d \<or>
        d \<in> exempted c s \<and> 0 \<le> d \<and> d < int (length (c_allowed_fds c))" for d
      by (simp only: allow_closable set_l)
    show ?thesis
    proof (rule that [of s1 "c\<lparr>c_allowed_fds := ?al\<rparr>"])
      show "(if can_exempt_fd c \<and> c_exempted_fds c \<noteq> [] then
          (case c_args c of
             App_spec a \<Rightarrow> do { p \<leftarrow> fds_to_ignore a; exempt_in_java p (c_exempted_fds c) s }
           | Server_spec _ \<Rightarrow> None)
        else Some s) = Some s1"
        unfolding if_P [OF True] a(1) spec_args.case a(2) Option.bind.bind_lunit by (rule s1(1))
    qed (use s1 al in simp_all)
  qed
  have s1: "open_fds s1 = open_fds s" "fdtab_ok s1 = fdtab_ok s" using ex(3) by (simp_all add: open_fds_def fdtab_ok_def)
  obtain es dfd s2 where o: "open_proc_fd s1 = Some (es, dfd, s2)"
    using assms(4) ex(4) by (cases "alloc_fd DirStream s1") (simp add: open_proc_fd_def)
  have ok: "fdtab_ok s1" "\<forall>d\<in>open_fds s1. d < 2 ^ 31 - 1" using assms(5,6) s1 by simp_all
  note li = open_proc_listed [OF o ok]
  obtain s3 where cl: "close_unlisted (c_allowed_fds c1) dfd es s2 = Some s3"
    and o3: "open_fds s3 = open_fds s2 -
      {d. (\<exists>e\<in>set es. parse_int e = Some d) \<and> closable (c_allowed_fds c1) d \<and> d \<noteq> dfd}"
    using close_unlisted_spec [of es "c_allowed_fds c1" dfd s2] li by (auto simp: listed_as_def)
  have "{d. \<exists>e\<in>set es. parse_int e = Some d} = insert 0 (insert dfd (open_fds s))"
    using li s1 by (simp add: listed_as_def)
  then have "(\<exists>e\<in>set es. parse_int e = Some d) \<longleftrightarrow> d = 0 \<or> d = dfd \<or> d \<in> open_fds s" for d
    by (auto simp: set_eq_iff)
  then have "open_fds (sys_close dfd s3) = {d \<in> open_fds s. \<not> closable (c_allowed_fds c1) d}"
    using li s1 unfolding open_fds_close o3 by auto
  also have "\<dots> = {d \<in> open_fds s. \<not> closable (c_allowed_fds c) d \<or>
      d \<in> exempted c s \<and> d < int (length (c_allowed_fds c))}"
    using al assms(5) by (auto simp: fdtab_ok_def)
  finally have "open_fds (sys_close dfd s3) = \<dots>" .
  moreover have "sanitize_fds s = Some (sys_close dfd s3)"
    unfolding sanitize_fds_def assms(1) Option.bind.bind_lunit
    using assms(2) by (simp only: ex(1,2) o cl Option.bind.bind_lunit prod.case if_False not_True_eq_False)
  ultimately show ?thesis by auto
qed

text \<open>
  C14: A forked child keeps exactly the descriptors its parent had and those the modules exempted. The
  fork records what is open; whatever is opened in the child until the descriptors are sanitized is
  closed then, and so is everything above the table's size. What survives is the inherited descriptors
  and, in an app whose arguments have a list of descriptors to ignore and whose modules exempted any, those
  on that list and the exempted ones (0 and the directory streams of the two listings are included in
  the account).
\<close>

theorem child_keeps_inherited_fds:
  assumes "fork_pre s = Some s1" "g_ctx s = Some c" "c_allowed_fds c = replicate n False"
    and "forks s = (p, me) # r" "p \<le> 0" "fdtab_ok s" "\<forall>d\<in>open_fds s. d < 2 ^ 31 - 1"
    and "g_ctx s2 = Some c2" "c_allowed_fds c2 = c_allowed_fds (the (g_ctx s1))" "is_child c2"
    and "ignore_list_is_ref c2 s2" "proc_fd_ok (w s2)" "fdtab_ok s2"
    and "\<forall>d\<in>open_fds s2. d < 2 ^ 31 - 1"
  shows "\<exists>s3. sanitize_fds s2 = Some s3 \<and>
    open_fds s3 = {d \<in> open_fds s2. (d \<in> open_fds s \<or> d \<in> exempted c2 s2) \<and> d < int n}"
proof -
  obtain c1 where "g_ctx s1 = Some c1" "length (c_allowed_fds c1) = n"
    "\<forall>d. \<not> closable (c_allowed_fds c1) d \<longleftrightarrow> d \<in> open_fds s \<and> d < int n"
    using fork_pre_allowed [OF assms(1-7)] by (elim exE conjE)
  then have "{d \<in> open_fds s2. (d \<in> open_fds s \<or> d \<in> exempted c2 s2) \<and> d < int n} =
      {d \<in> open_fds s2. \<not> closable (c_allowed_fds c2) d \<or> d \<in> exempted c2 s2 \<and> d < int (length (c_allowed_fds c2))}"
    using assms(9) by auto
  with sanitize_closes [OF assms(8,10-14)] show ?thesis by simp
qed

definition demo_fork_state :: "jni_method list zyg" where
  "demo_fork_state = demo_zyg\<lparr>g_ctx := Some demo_server_ctx, forks := [(0, 51)]\<rparr>"

definition demo_forked :: "jni_method list zyg" where
  "demo_forked = demo_fork_state\<lparr>oslog := [OpSigBlock, OpFork, OpClose 1], forks := [], self_pid := 51,
     self_tid := 51, g_ctx := Some (demo_server_ctx\<lparr>c_pid := 0,
       c_allowed_fds := [True, False, False, True, False, False, False, False]\<rparr>)\<rparr>"

lemma demo_parse:
  "parse_int (show_num 10 0) = Some 0" "parse_int (show_num 10 (Suc 0)) = Some 1"
  "parse_int (show_num 10 (Suc (Suc (Suc 0)))) = Some 3"
  using parse_int_show [of 0] parse_int_show [of 1] parse_int_show [of 3]
  by (simp_all add: numeral_3_eq_3)

lemma demo_replicate: "replicate 8 x = [x, x, x, x, x, x, x, x]"
  by (simp add: eval_nat_numeral)

lemma demo_fork_run: "fork_pre demo_fork_state = Some demo_forked"
  by (simp add: fork_pre_def old_fork_def demo_fork_state_def demo_forked_def demo_zyg_def demo_world_def
      demo_server_ctx_def upd_ctx_def logop_def is_child_def open_proc_fd_def alloc_fd_def
      lowest_free_def demo_parse parse_int_dots sys_close_def upt_rec Let_def numeral_3_eq_3 demo_replicate)

text \<open>
  The child is to specialize an app; a module exempted descriptor 5, which was opened after the fork like 6.
\<close>

definition demo_exempting :: ZygiskContext where
  "demo_exempting = demo_server_ctx\<lparr>c_args := App_spec (demo_app\<lparr>fds_to_ignore := Some P_fds_to_ignore\<rparr>), c_pid := 0,
     c_flags := APP_FORK_AND_SPECIALIZE, c_exempted_fds := [5],
     c_allowed_fds := [True, False, False, True, False, False, False, False]\<rparr>"

definition demo_sanitizing :: "jni_method list zyg" where
  "demo_sanitizing = demo_forked\<lparr>fdtab := (5, NonReg 9) # (6, NonReg 9) # fdtab demo_forked,
     w := demo_world\<lparr>jvm := demo_jvm\<lparr>NewIntArray := (\<lambda>j n. (7, j))\<rparr>\<rparr>, locals := (\<lambda>p. JRef 0),
     g_ctx := Some demo_exempting\<rparr>"

theorem child_keeps_inherited_fds_witness:
  "\<exists>s3. sanitize_fds demo_sanitizing = Some s3 \<and> open_fds s3 = {0, 3, 5}"
proof -
  have o: "open_fds demo_fork_state = {0, 3}" "open_fds demo_sanitizing = {0, 3, 5, 6}"
    by (auto simp: open_fds_def demo_fork_state_def demo_sanitizing_def demo_forked_def demo_zyg_def)
  have ok: "fdtab_ok demo_fork_state" "fdtab_ok demo_sanitizing"
    unfolding fdtab_ok_def o
    by (simp_all add: demo_fork_state_def demo_forked_def demo_sanitizing_def demo_zyg_def)
  have c: "g_ctx demo_fork_state = Some demo_server_ctx" "forks demo_fork_state = (0, 51) # []"
    "g_ctx demo_sanitizing = Some demo_exempting" "proc_fd_ok (w demo_sanitizing)"
    "c_allowed_fds demo_server_ctx = replicate 8 False"
    "c_allowed_fds demo_exempting = c_allowed_fds (the (g_ctx demo_forked))"
    by (simp_all add: demo_fork_state_def demo_forked_def demo_sanitizing_def demo_exempting_def demo_zyg_def
        demo_world_def demo_server_ctx_def)
  have c2: "is_child demo_exempting" "ignore_list_is_ref demo_exempting demo_sanitizing"
    by (simp_all add: is_child_def demo_exempting_def demo_server_ctx_def ignore_list_is_ref_def demo_sanitizing_def)
  have b: "\<forall>d\<in>open_fds demo_fork_state. d < 2 ^ 31 - 1" "\<forall>d\<in>open_fds demo_sanitizing. d < 2 ^ 31 - 1"
    unfolding o by simp_all
  have ex: "exempted demo_exempting demo_sanitizing = {5}"
    by (simp add: exempted_def demo_exempting_def demo_server_ctx_def demo_sanitizing_def can_exempt_fd_def
        demo_world_def has_flag_def APP_FORK_AND_SPECIALIZE_def)
  have "\<exists>s3. sanitize_fds demo_sanitizing = Some s3 \<and>
      open_fds s3 = {d \<in> open_fds demo_sanitizing.
        (d \<in> open_fds demo_fork_state \<or> d \<in> exempted demo_exempting demo_sanitizing) \<and> d < int 8}"
    by (rule child_keeps_inherited_fds [OF demo_fork_run c(1,5,2) _ ok(1) b(1) c(3,6) c2 c(4) ok(2) b(2)])
      simp
  moreover have "{d \<in> open_fds demo_sanitizing.
        (d \<in> open_fds demo_fork_state \<or> d \<in> exempted demo_exempting demo_sanitizing) \<and> d < int 8} = {0, 3, 5}"
    unfolding o ex by auto
  ultimately show ?thesis by simp
qed

section \<open>The deny list\<close>

lemma keeps_no_modules:
  "keeps K L s s' \<Longrightarrow> g_ctx s = Some c \<Longrightarrow> c_modules c = [] \<Longrightarrow>
     \<exists>c'. g_ctx s' = Some c' \<and> c_modules c' = [] \<and> (c_flags c' = c_flags c \<or> c_flags c' = c_flags c OR DO_REVERT_UNMOUNT)"
  by (auto simp: keeps_def ctx_step_def ctx_core_def split: option.splits)

lemma has_flag_set: "has_flag (f OR DO_REVERT_UNMOUNT) DO_REVERT_UNMOUNT"
  by (simp add: has_flag_or) (simp add: has_flag_def DO_REVERT_UNMOUNT_def)

text \<open>
  What a process on the deny list lets each call of an intercepted function do. A successful \<open>unshare\<close>
  of the mount namespace unmounts both directories right after the original's own.
\<close>

fun denied_ops :: "bool \<Rightarrow> plt_call \<Rightarrow> sysop list" where
  "denied_ops forked P_fork = (if forked then [] else [OpFork])"
| "denied_ops forked (P_unshare fl res) = OpOrigUnshare #
     (if has_flag fl CLONE_NEWNS \<and> res = 0
      then [OpUmount ''/data/adb/modules'', OpUmount ''/data/adb/zygisk''] else [])"
| "denied_ops forked P_setcontext = [OpOrigSetcontext]"
| "denied_ops forked P_log_close = [OpOrigLogClose]"

lemma denied_calls:
  "run_plt_calls cs s = Some s2 \<Longrightarrow> g_ctx s = Some c \<Longrightarrow> has_flag (c_flags c) DO_REVERT_UNMOUNT \<Longrightarrow>
     oslog s2 = oslog s @ concat (map (denied_ops (0 \<le> c_pid c)) cs)"
proof (induction cs s rule: run_plt_calls.induct)
  case (2 r s)
  then obtain p t where f: "new_fork s = Some (p, t)" and rest: "run_plt_calls r t = Some s2"
    by (auto split: Option.bind_splits)
  have "g_ctx t = Some c" "oslog t = oslog s @ denied_ops (0 \<le> c_pid c) P_fork"
    using f "2.prems"(2)
    by (auto simp: new_fork_def old_fork_def through_def logop_def split: if_splits Option.bind_splits list.splits)
  with "2.IH" [OF f refl rest _ "2.prems"(3)] show ?case by simp
next
  case (3 fl res r s)
  then obtain p t where f: "new_unshare fl res s = Some (p, t)" and rest: "run_plt_calls r t = Some s2"
    by (auto split: Option.bind_splits)
  have "g_ctx t = Some c" "oslog t = oslog s @ denied_ops (0 \<le> c_pid c) (P_unshare fl res)"
    using f "3.prems"(2,3)
    by (auto simp: new_unshare_def revert_unmount_def through_def logop_def split: if_splits Option.bind_splits)
  with "3.IH" [OF f refl rest _ "3.prems"(3)] show ?case by simp
next
  case (4 r s)
  then obtain t where f: "new_selinux_android_setcontext s = Some t" and rest: "run_plt_calls r t = Some s2"
    by (auto split: Option.bind_splits)
  have "g_ctx t = Some c" "oslog t = oslog s @ [OpOrigSetcontext]"
    using f "4.prems"(2) by (auto simp: new_selinux_android_setcontext_def through_def logop_def split: if_splits)
  with "4.IH" [OF f rest _ "4.prems"(3)] show ?case by simp
next
  case (5 r s)
  then obtain t where f: "new_android_log_close s = Some t" and rest: "run_plt_calls r t = Some s2"
    by (auto split: Option.bind_splits)
  have "g_ctx t = Some c" "oslog t = oslog s @ [OpOrigLogClose]"
    using f "5.prems"(2) by (auto simp: new_android_log_close_def through_def logop_def split: if_splits)
  with "5.IH" [OF f rest _ "5.prems"(3)] show ?case by simp
qed simp

text \<open>Sanitizing the descriptors leaves what the context asks for.\<close>

definition asks :: "'j zyg \<Rightarrow> (u32 \<times> int) option" where
  "asks s = map_option (\<lambda>c. (c_flags c, c_pid c)) (g_ctx s)"

lemma asks_close_unlisted: "close_unlisted al dfd es s = Some s' \<Longrightarrow> asks s' = asks s"
  by (induction es arbitrary: s)
    (auto simp: asks_def sys_close_def logop_def split: Option.bind_splits if_splits)

lemma asks_exempt: "exempt_in_java p ex s = Some s' \<Longrightarrow> asks s' = asks s"
  by (auto simp: exempt_in_java_def update_ignored_def allow_fds_def upd_ctx_def asks_def Let_def case_prod_beta
      option.map_comp comp_def
      split: jval.splits if_splits option.splits)

lemma asks_sanitize:
  assumes "sanitize_fds s = Some s'"
  shows "asks s' = asks s"
proof -
  obtain c where c: "g_ctx s = Some c" using assms by (cases "g_ctx s") (simp_all add: sanitize_fds_def)
  show ?thesis
  proof (cases "is_child c")
    case False
    with assms c show ?thesis by (simp add: sanitize_fds_def)
  next
    case True
    then obtain s1 and c1 :: ZygiskContext and es dfd s2 s3 where
      s1: "(if can_exempt_fd c \<and> c_exempted_fds c \<noteq> [] then
              (case c_args c of
                 App_spec a \<Rightarrow> Option.bind (fds_to_ignore a) (\<lambda>p. exempt_in_java p (c_exempted_fds c) s)
               | Server_spec _ \<Rightarrow> None)
            else Some s) = Some s1"
      and o: "open_proc_fd s1 = Some (es, dfd, s2)"
      and cl: "close_unlisted (c_allowed_fds c1) dfd es s2 = Some s3" and s': "s' = sys_close dfd s3"
      using assms c by (auto simp: sanitize_fds_def split: Option.bind_splits)
    have "asks s1 = asks s"
      using s1 by (auto split: if_splits spec_args.splits Option.bind_splits dest: asks_exempt)
    moreover have "asks s2 = asks s1"
      using o by (auto simp: open_proc_fd_def alloc_fd_def asks_def Let_def split: if_splits prod.splits)
    ultimately show ?thesis
      using asks_close_unlisted [OF cl] by (simp add: s' asks_def sys_close_def logop_def)
  qed
qed

text \<open>
  C13: An app on the enforced deny list runs no module: the specialization closes the connection and
  does nothing else to the process, no library is opened, and the context asks for the unmounting.
  Whatever sequence of intercepted calls the original method then makes, at once or after the descriptors
  were sanitized, each of its successful \<open>unshare\<close> calls with a new mount namespace unmounts both
  module directories, in order and right then, and no other call unmounts anything.
\<close>

theorem denylisted_app:
  assumes "g_ctx s = Some c" "c_modules c = []"
    and "get_module_info (set_flag APP_SPECIALIZE s) = Some (d, fds, s1)" "g_ctx s1 = Some c1"
    and "has_all (c_info_flags c1) UNMOUNT_MASK" "0 \<le> d"
  shows "\<exists>s' c'. app_specialize_pre s = Some s' \<and> fds = [] \<and> g_ctx s' = Some c' \<and> c_modules c' = [] \<and>
    log_ext mundane s s' \<and> open_fds s' = open_fds s1 - {d} \<and>
    (\<forall>t cs s2. t = s' \<or> sanitize_fds s' = Some t \<longrightarrow> run_plt_calls cs t = Some s2 \<longrightarrow>
       oslog s2 = oslog t @ concat (map (denied_ops (0 \<le> c_pid c')) cs))"
proof -
  define s0 where "s0 = set_flag APP_SPECIALIZE s"
  obtain r t where rq: "zygisk_request_fd GetInfo s0 = (r, t)" by fastforce
  have k1: "keeps {} {} s0 t" using keeps_request_fd [of "{}" "{}" s0 GetInfo] rq by simp
  have r: "0 \<le> r" using assms(3,6) rq by (auto simp: get_module_info_def s0_def split: if_splits)
  then obtain fl t2 where rf: "read_flags r t = (Some fl, t2)"
    using assms(3) rq
    by (auto simp: get_module_info_def s0_def [symmetric] Let_def split: prod.splits option.splits)
  have k2: "keeps {} {} s0 t2" using keeps_trans [OF k1 keeps_read_flags] rf by (metis snd_conv)
  define t3 where "t3 = upd_ctx (\<lambda>c. c\<lparr>c_info_flags := fl\<rparr>) t2"
  obtain c0 where c0: "g_ctx s0 = Some c0" "c_modules c0 = []"
    using assms(1,2) by (simp add: s0_def set_flag_def upd_ctx_def)
  obtain c2 where c2: "g_ctx t2 = Some c2" "c_modules c2 = []" using keeps_no_modules [OF k2 c0] by auto
  have c3: "g_ctx t3 = Some (c2\<lparr>c_info_flags := fl\<rparr>)" by (simp add: t3_def upd_ctx_def c2)
  have k3: "keeps {} {} t3 s1" and fds': "has_all fl UNMOUNT_MASK \<Longrightarrow> fds = [] \<and> s1 = t3 \<and> d = r"
    using assms(3) rq rf r
    by (auto simp: get_module_info_def s0_def [symmetric] t3_def [symmetric] Let_def case_prod_beta
        split: if_splits option.splits
        intro: keeps_trans [OF keeps_xopen_dir keeps_trans [OF keeps_scan_modules keeps_close]])
  have "c_info_flags c1 = fl"
    using k3 c3 assms(4) by (auto simp: keeps_def ctx_step_def ctx_core_def)
  then have fds: "fds = []" and s1: "s1 = t3" and d: "d = r" using fds' assms(5) by auto
  have c1: "c1 = c2\<lparr>c_info_flags := fl\<rparr>" using s1 c3 assms(4) by simp
  define s' where "s' = sys_close d (set_flag DO_REVERT_UNMOUNT s1)"
  have run: "app_specialize_pre s = Some s'"
    using assms(3,4,5,6) by (simp add: app_specialize_pre_def s'_def drop_fd_def)
  have ctx: "g_ctx s' = Some (c1\<lparr>c_flags := c_flags c1 OR DO_REVERT_UNMOUNT\<rparr>)"
    using assms(4) by (simp add: s'_def set_flag_def upd_ctx_def sys_close_def logop_def)
  have "log_ext mundane s t2" using k2 by (simp add: keeps_def s0_def set_flag_def upd_ctx_def log_ext_def)
  then have "log_ext mundane s s1" by (simp add: s1 t3_def upd_ctx_def log_ext_def)
  moreover have "log_ext mundane s1 s'"
    by (simp add: s'_def set_flag_def upd_ctx_def log_ext_def)
  ultimately have lg: "log_ext mundane s s'" by (rule log_ext_trans)
  have fd: "open_fds s' = open_fds s1 - {d}"
    by (simp add: s'_def open_fds_close) (simp add: set_flag_def upd_ctx_def open_fds_def)
  have calls: "oslog s2 = oslog t @ concat (map (denied_ops (0 \<le> c_pid c1)) cs)"
    if t: "t = s' \<or> sanitize_fds s' = Some t" and calls: "run_plt_calls cs t = Some s2" for t cs s2
  proof -
    have "asks t = asks s'" using t asks_sanitize by blast
    also have "asks s' = Some (c_flags c1 OR DO_REVERT_UNMOUNT, c_pid c1)" by (simp add: asks_def ctx)
    finally obtain ct where ct: "g_ctx t = Some ct" "c_flags ct = c_flags c1 OR DO_REVERT_UNMOUNT" "c_pid ct = c_pid c1"
      by (cases "g_ctx t") (simp_all add: asks_def)
    have "has_flag (c_flags ct) DO_REVERT_UNMOUNT" unfolding ct(2) by (rule has_flag_set)
    from denied_calls [OF calls ct(1) this] show ?thesis by (simp only: ct(3))
  qed
  define c' where "c' = c1\<lparr>c_flags := c_flags c1 OR DO_REVERT_UNMOUNT\<rparr>"
  have c': "g_ctx s' = Some c'" "c_modules c' = []" "c_pid c' = c_pid c1" using ctx c1 c2(2) by (simp_all add: c'_def)
  show ?thesis
    by (rule exI [of _ s'], rule exI [of _ c'], intro conjI allI impI)
      (simp_all only: run fds c' lg fd, rule calls)
qed

definition demo_denied :: "jni_method list zyg" where
  "demo_denied = demo_zyg\<lparr>g_ctx := Some demo_app_ctx,
     fdtab := [(4, Sock [Chunk [0, 0, 0, 0, 1, 0, 0, 0, 6, 0, 0, 0] None] [])], g_sock := 4\<rparr>"

lemma demo_denied_info:
  "\<exists>s1 c1. get_module_info (set_flag APP_SPECIALIZE demo_denied) = Some (4, [], s1) \<and>
     g_ctx s1 = Some c1 \<and> has_all (c_info_flags c1) UNMOUNT_MASK"
  by (simp add: get_module_info_def zygisk_request_fd_def zygisk_connect_def demo_denied_def
      demo_zyg_def demo_app_ctx_def demo_server_ctx_def set_flag_def upd_ctx_def sys_write_def
      set_file_def read_flags_def sock_xxread_def incoming_def set_incoming_def xxread.simps
      dec32_def of_le32_def has_all_def UNMOUNT_MASK_val push_bit_eq_mult demo_world_def Let_def)

text \<open>
  An app whose flags ask for the hiding; the original unshares its mount namespace twice, the second time
  after an \<open>unshare\<close> that fails.
\<close>

lemma demo_denied_run:
  "\<exists>s' s2. app_specialize_pre demo_denied = Some s' \<and>
     run_plt_calls [P_unshare CLONE_NEWNS 0, P_unshare CLONE_NEWNS (- 1), P_unshare CLONE_NEWNS 0] s' = Some s2 \<and>
     oslog s' = [OpClose 4] \<and> map_option c_pid (g_ctx s') = Some 0"
  by (simp add: app_specialize_pre_def get_module_info_def zygisk_request_fd_def zygisk_connect_def demo_denied_def
      demo_zyg_def demo_app_ctx_def demo_server_ctx_def set_flag_def upd_ctx_def sys_write_def
      set_file_def read_flags_def sock_xxread_def incoming_def set_incoming_def xxread.simps
      dec32_def of_le32_def has_all_def UNMOUNT_MASK_val push_bit_eq_mult demo_world_def Let_def
      drop_fd_def sys_close_def logop_def new_unshare_def revert_unmount_def has_flag_set)

theorem denylisted_app_witness:
  "\<exists>s' s2. app_specialize_pre demo_denied = Some s' \<and>
     run_plt_calls [P_unshare CLONE_NEWNS 0, P_unshare CLONE_NEWNS (- 1), P_unshare CLONE_NEWNS 0] s' = Some s2 \<and>
     oslog s2 = [OpClose 4, OpOrigUnshare, OpUmount ''/data/adb/modules'', OpUmount ''/data/adb/zygisk'',
       OpOrigUnshare, OpOrigUnshare, OpUmount ''/data/adb/modules'', OpUmount ''/data/adb/zygisk'']"
proof -
  obtain s1 c1 where i: "get_module_info (set_flag APP_SPECIALIZE demo_denied) = Some (4, [], s1)"
    "g_ctx s1 = Some c1" "has_all (c_info_flags c1) UNMOUNT_MASK"
    using demo_denied_info by (elim exE conjE)
  have c: "g_ctx demo_denied = Some demo_app_ctx" "c_modules demo_app_ctx = []"
    by (simp_all add: demo_denied_def demo_app_ctx_def demo_server_ctx_def)
  obtain s' s2 where run: "app_specialize_pre demo_denied = Some s'"
    "run_plt_calls [P_unshare CLONE_NEWNS 0, P_unshare CLONE_NEWNS (- 1), P_unshare CLONE_NEWNS 0] s' = Some s2"
    "oslog s' = [OpClose 4]"
    using demo_denied_run by (elim exE conjE)
  have "(0::fd) \<le> 4" by simp
  from denylisted_app [OF c i this] run(1) obtain b where
    "\<forall>t cs s2. t = s' \<or> sanitize_fds s' = Some t \<longrightarrow> run_plt_calls cs t = Some s2 \<longrightarrow>
       oslog s2 = oslog t @ concat (map (denied_ops b) cs)"
    by auto
  then have "oslog s2 = oslog s' @ concat (map (denied_ops b)
      [P_unshare CLONE_NEWNS 0, P_unshare CLONE_NEWNS (- 1), P_unshare CLONE_NEWNS 0])"
    using run(2) by blast
  moreover have "has_flag CLONE_NEWNS CLONE_NEWNS" by (simp add: has_flag_def CLONE_NEWNS_def)
  ultimately have "oslog s2 = [OpClose 4, OpOrigUnshare, OpUmount ''/data/adb/modules'', OpUmount ''/data/adb/zygisk'',
       OpOrigUnshare, OpOrigUnshare, OpUmount ''/data/adb/modules'', OpUmount ''/data/adb/zygisk'']"
    by (simp add: run(3))
  with run show ?thesis by (intro exI [of _ s'] exI [of _ s2] conjI)
qed

end
