(* ===== verification/LoadProps.thy ===== *)
theory LoadProps
  imports ContextProps "HOL-Library.Sublist"
begin

text \<open>
  Which modules are found, which are loaded, and in which order their callbacks run.
\<close>

section \<open>Discovery\<close>

text \<open>The files a scan of the module directories opens, as a comprehension over the listings.\<close>

definition so_name :: "string \<Rightarrow> bool" where
  "so_name nm \<longleftrightarrow> 3 \<le> length nm \<and> drop (length nm - 3) nm = ''.so''"

definition zygisk_dir :: "string \<Rightarrow> string" where
  "zygisk_dir nm = ''/data/adb/modules/'' @ nm @ ''/zygisk''"

definition zygisk_files :: "'j world \<Rightarrow> string \<Rightarrow> (bool \<times> string) list \<Rightarrow> ofile list" where
  "zygisk_files wo path es =
     List.map_filter (\<lambda>(isdir, nm). if so_name nm then open_file wo (path @ ''/'' @ nm) else None) es"

definition module_files :: "'j world \<Rightarrow> (bool \<times> string) list \<Rightarrow> ofile list" where
  "module_files wo es =
     concat (map (\<lambda>(isdir, nm).
       if isdir \<and> take 1 nm \<noteq> ''.'' then
         (case dir_entries wo (zygisk_dir nm) of
            None \<Rightarrow> [] | Some zs \<Rightarrow> zygisk_files wo (zygisk_dir nm) zs)
       else []) es)"

text \<open>A scan has put new descriptors for the files \<open>fs\<close>, in order, in front of the table.\<close>

definition opened :: "fd list \<Rightarrow> ofile list \<Rightarrow> 'j zyg \<Rightarrow> 'j zyg \<Rightarrow> bool" where
  "opened ds fs s s' \<longleftrightarrow> length ds = length fs \<and> fdtab s' = rev (zip ds fs) @ fdtab s \<and>
     w s' = w s \<and> distinct ds \<and> set ds \<inter> open_fds s = {}"

lemma opened_Nil [simp]: "opened [] [] s s"
  by (simp add: opened_def)

lemma opened_Cons:
  assumes "alloc_fd f s = (d, s1)" "opened ds fs s1 s2"
  shows "opened (d # ds) (f # fs) s s2"
proof -
  have "fdtab s1 = (d, f) # fdtab s" "w s1 = w s"
    using assms(1) by (auto simp: alloc_fd_def Let_def)
  with assms alloc_fd_fresh [OF assms(1)] open_fds_alloc [OF assms(1)] show ?thesis
    by (auto simp: opened_def)
qed

lemma opened_append:
  assumes "opened ds fs s s1" "opened es gs s1 s2"
  shows "opened (ds @ es) (fs @ gs) s s2"
proof -
  have "open_fds s1 = set ds \<union> open_fds s"
  proof -
    have "fst ` set (zip ds fs) = set ds"
      using assms(1) by (metis list.set_map map_fst_zip opened_def)
    with assms(1) show ?thesis by (simp add: opened_def open_fds_def image_Un)
  qed
  with assms show ?thesis by (auto simp: opened_def)
qed

lemma opened_dir:
  assumes "alloc_fd DirStream s = (zd, s1)" "opened ds fs s1 s2"
  shows "opened ds fs s (sys_close zd s2)"
proof -
  have s1: "fdtab s1 = (zd, DirStream) # fdtab s" "w s1 = w s"
    using assms(1) by (auto simp: alloc_fd_def Let_def)
  have fresh: "zd \<notin> open_fds s" "open_fds s1 = insert zd (open_fds s)"
    using alloc_fd_fresh [OF assms(1)] open_fds_alloc [OF assms(1)] by simp_all
  with assms(2) have zd: "zd \<notin> set ds" by (auto simp: opened_def)
  have "filter (\<lambda>(k, _). k \<noteq> zd) (rev (zip ds fs)) = rev (zip ds fs)"
    using zd by (auto intro!: filter_True dest: set_zip_leftD)
  moreover have "filter (\<lambda>(k, _). k \<noteq> zd) (fdtab s) = fdtab s"
    using fresh(1) by (intro filter_fd_fresh) (simp add: open_fds_def)
  ultimately show ?thesis
    using assms(2) s1 fresh by (auto simp: opened_def sys_close_def logop_def)
qed

lemma scan_zygisk_dir_opened:
  "scan_zygisk_dir path es s = (ds, s') \<Longrightarrow> opened ds (zygisk_files (w s) path es) s s'"
proof (induction es arbitrary: s ds s')
  case Nil
  then show ?case by (simp add: zygisk_files_def map_filter_simps)
next
  case (Cons e es)
  obtain isdir nm where e: "e = (isdir, nm)" by (cases e)
  show ?case
  proof (cases "so_name nm \<and> open_file (w s) (path @ ''/'' @ nm) \<noteq> None")
    case False
    then have "scan_zygisk_dir path es s = (ds, s')"
      using Cons.prems by (auto simp: e so_name_def not_le split: if_splits option.splits)
    from Cons.IH [OF this] False show ?thesis
      by (auto simp: zygisk_files_def map_filter_simps e)
  next
    case True
    then obtain f where f: "open_file (w s) (path @ ''/'' @ nm) = Some f" by auto
    obtain d s1 where a: "alloc_fd f s = (d, s1)" by fastforce
    obtain ds1 s2 where r: "scan_zygisk_dir path es s1 = (ds1, s2)" by fastforce
    have out: "ds = d # ds1" "s' = s2"
      using Cons.prems True f a r by (auto simp: e so_name_def)
    have w1: "w s1 = w s" using a by (auto simp: alloc_fd_def Let_def)
    from opened_Cons [OF a Cons.IH [OF r]] True f show ?thesis
      by (simp add: out zygisk_files_def map_filter_simps e w1)
  qed
qed

lemma scan_modules_opened: "scan_modules es s = (ds, s') \<Longrightarrow> opened ds (module_files (w s) es) s s'"
proof (induction es arbitrary: s ds s')
  case Nil
  then show ?case by (simp add: module_files_def)
next
  case (Cons e es)
  obtain isdir nm where e: "e = (isdir, nm)" by (cases e)
  show ?case
  proof (cases "isdir \<and> take 1 nm \<noteq> ''.'' \<and> dir_entries (w s) (zygisk_dir nm) \<noteq> None")
    case False
    then have "scan_modules es s = (ds, s')"
      using Cons.prems
      by (auto simp: e xopen_dir_def zygisk_dir_def [symmetric] simp del: append.simps
          split: if_splits option.splits)
    from Cons.IH [OF this] False show ?thesis by (auto simp: module_files_def e)
  next
    case True
    then obtain zs where zs: "dir_entries (w s) (zygisk_dir nm) = Some zs" by auto
    obtain zd s1 where a: "alloc_fd DirStream s = (zd, s1)" by fastforce
    obtain ds1 s2 where r1: "scan_zygisk_dir (zygisk_dir nm) zs s1 = (ds1, s2)" by fastforce
    obtain ds2 s3 where r2: "scan_modules es (sys_close zd s2) = (ds2, s3)" by fastforce
    have out: "ds = ds1 @ ds2" "s' = s3"
      using Cons.prems True zs a r1 r2
      by (auto simp: e xopen_dir_def zygisk_dir_def [symmetric] Let_def simp del: append.simps)
    have w1: "w s1 = w s" using a by (auto simp: alloc_fd_def Let_def)
    note o1 = opened_dir [OF a scan_zygisk_dir_opened [OF r1]]
    have w2: "w (sys_close zd s2) = w s" using o1 by (simp add: opened_def)
    from opened_append [OF o1 Cons.IH [OF r2]] True zs show ?thesis
      by (simp add: out module_files_def e w1 w2)
  qed
qed

text \<open>After the flags were read, the scan opens what the reading lists and keeps the rest.\<close>

lemma get_module_info_scan:
  assumes rq: "zygisk_request_fd GetInfo s = (d, s1)" "0 \<le> d" and rf: "read_flags d s1 = (Some fl, s2)"
  shows "\<exists>fds s'. get_module_info s = Some (d, fds, s') \<and>
    opened fds (if has_all fl UNMOUNT_MASK then []
       else case dir_entries (w s) ''/data/adb/modules'' of None \<Rightarrow> [] | Some es \<Rightarrow> module_files (w s) es) s2 s' \<and>
    keeps {} {} (upd_ctx (\<lambda>c. c\<lparr>c_info_flags := fl\<rparr>) s2) s'"
proof -
  have "keeps {} {} s s1" using keeps_request_fd [of "{}" "{}" s GetInfo] rq by simp
  from keeps_trans [OF this keeps_read_flags] rf have k2: "keeps {} {} s s2" by (metis snd_conv)
  define s3 where "s3 = upd_ctx (\<lambda>c. c\<lparr>c_info_flags := fl\<rparr>) s2"
  have w3: "w s3 = w s" using k2 by (simp add: keeps_def s3_def upd_ctx_def)
  define m where "m = ''/data/adb/modules''"
  have info: "get_module_info s = (if has_all fl UNMOUNT_MASK then Some (d, [], s3)
      else (case xopen_dir m s3 of
          None \<Rightarrow> Some (d, [], s3)
        | Some (es, md, s4) \<Rightarrow> (let (ds, s5) = scan_modules es s4 in Some (d, ds, sys_close md s5))))"
    using rq unfolding get_module_info_def m_def s3_def by (simp add: rf Let_def)
  have two: "opened fds fs s2 s'" if "opened fds fs s3 s'" for fds fs s'
    using that by (simp add: opened_def s3_def upd_ctx_def open_fds_def)
  show ?thesis
  proof (cases "has_all fl UNMOUNT_MASK \<or> dir_entries (w s) m = None")
    case True
    have "get_module_info s = Some (d, [], s3)" using True by (auto simp: info xopen_dir_def w3)
    with True two [OF opened_Nil] show ?thesis unfolding s3_def [symmetric] m_def [symmetric] by force
  next
    case False
    then obtain es where es: "dir_entries (w s) m = Some es" by auto
    obtain md s4 where a: "alloc_fd DirStream s3 = (md, s4)" by fastforce
    obtain ds s5 where sc: "scan_modules es s4 = (ds, s5)" by fastforce
    have out: "get_module_info s = Some (d, ds, sys_close md s5)"
      using False es a sc by (simp add: info xopen_dir_def w3)
    have "w s4 = w s" using a w3 by (auto simp: alloc_fd_def Let_def)
    then have "opened ds (module_files (w s) es) s3 (sys_close md s5)"
      using opened_dir [OF a scan_modules_opened [OF sc]] by simp
    moreover have "keeps {} {} s3 (sys_close md s5)"
      using keeps_trans [OF keeps_alloc' [OF a] keeps_trans [OF keeps_scan_modules keeps_close]] sc
      by (metis snd_conv)
    ultimately show ?thesis
      using False es out unfolding s3_def [symmetric] m_def [symmetric]
      by (intro exI [of _ ds] exI [of _ "sys_close md s5"]) (simp add: two)
  qed
qed

text \<open>
  C12: The scan of the module directories opens exactly the libraries of the declarative reading: for
  every directory of \<^verbatim>\<open>/data/adb/modules\<close> whose name does not start with a dot, in listing order,
  the files of its \<^verbatim>\<open>zygisk\<close> directory whose names end in \<^verbatim>\<open>.so\<close> and which can be opened. Each gets a
  descriptor of its own, no directory stream is left open, and an app on the enforced deny list finds
  none.
\<close>

theorem module_discovery:
  assumes "get_module_info s = Some (d, fds, s')" "0 \<le> d" "g_ctx s' = Some c"
    and "t = snd (read_flags d (snd (zygisk_request_fd GetInfo s)))"
  shows "opened fds
      (if has_all (c_info_flags c) UNMOUNT_MASK then []
       else case dir_entries (w s) ''/data/adb/modules'' of None \<Rightarrow> [] | Some es \<Rightarrow> module_files (w s) es)
      t s'"
proof -
  obtain r s1 where rq: "zygisk_request_fd GetInfo s = (r, s1)" by fastforce
  have r: "0 \<le> r" using assms(1,2) rq by (auto simp: get_module_info_def split: if_splits)
  then obtain fl s2 where rf: "read_flags r s1 = (Some fl, s2)"
    using assms(1) rq by (auto simp: get_module_info_def Let_def split: prod.splits option.splits)
  note sc = get_module_info_scan [OF rq r rf]
  with assms(1) have "d = r" "keeps {} {} (upd_ctx (\<lambda>c. c\<lparr>c_info_flags := fl\<rparr>) s2) s'" by auto
  moreover from this assms(3) have "c_info_flags c = fl"
    by (auto simp: keeps_def ctx_step_def ctx_core_def upd_ctx_def split: option.splits)
  ultimately show ?thesis using sc assms(1,4) rq rf by simp
qed

text \<open>A connected socket with an answer, a module directory with two entries, one of them a library.\<close>

definition demo_disk :: "jni_method list zyg" where
  "demo_disk = demo_zyg\<lparr>
     g_ctx := Some demo_app_ctx,
     fdtab := [(4, Sock [Chunk [0, 0, 0, 0, 0, 0, 0, 0, 0, 0, 0, 0] None] [])], g_sock := 4,
     w := demo_world\<lparr>
       dir_entries := (\<lambda>p. if p = ''/data/adb/modules'' then Some [(True, ''.''), (True, ''m'')]
         else if p = ''/data/adb/modules/m/zygisk'' then Some [(False, ''a.so''), (False, ''b'')] else None),
       open_file := (\<lambda>p. Some (Reg (length p)))\<rparr>\<rparr>"

lemma demo_disk_files: "module_files (w demo_disk) [(True, ''.''), (True, ''m'')] = [Reg 31]"
  by (simp add: module_files_def zygisk_files_def zygisk_dir_def demo_disk_def so_name_def map_filter_simps)

theorem module_discovery_witness:
  "\<exists>fds s'. get_module_info demo_disk = Some (4, fds, s') \<and> length fds = 1 \<and>
     map_of (fdtab s') (hd fds) = Some (Reg 31)"
proof -
  have "\<exists>fds s' c. get_module_info demo_disk = Some (4, fds, s') \<and> g_ctx s' = Some c \<and>
      \<not> has_all (c_info_flags c) UNMOUNT_MASK"
    by (simp add: get_module_info_def zygisk_request_fd_def zygisk_connect_def demo_disk_def
      demo_zyg_def demo_app_ctx_def demo_server_ctx_def upd_ctx_def sys_write_def
      set_file_def read_flags_def sock_xxread_def incoming_def set_incoming_def xxread.simps
      dec32_def of_le32_def has_all_def UNMOUNT_MASK_val push_bit_eq_mult demo_world_def
      xopen_dir_def Let_def case_prod_beta sys_close_def logop_def alloc_fd_def)
  then obtain fds s' c where i: "get_module_info demo_disk = Some (4, fds, s')" "g_ctx s' = Some c"
    "\<not> has_all (c_info_flags c) UNMOUNT_MASK"
    by (elim exE conjE)
  have "dir_entries (w demo_disk) ''/data/adb/modules'' = Some [(True, ''.''), (True, ''m'')]"
    by (simp add: demo_disk_def)
  with module_discovery [OF i(1) _ i(2) refl] i(3) have
    "opened fds [Reg 31] (snd (read_flags 4 (snd (zygisk_request_fd GetInfo demo_disk)))) s'"
    by (simp add: demo_disk_files)
  then have "length fds = 1" "map_of (fdtab s') (hd fds) = Some (Reg 31)"
    by (auto simp: opened_def length_Suc_conv)
  with i(1) show ?thesis by (intro exI conjI)
qed

section \<open>Callbacks\<close>

definition callbacks :: "'j zyg \<Rightarrow> sysop list" where
  "callbacks s = filter callback_op (oslog s)"

lemma mundane_no_callback: "list_all mundane es \<Longrightarrow> filter callback_op es = []"
  by (induction es) (auto simp: callback_op_def)

lemma callbacks_ext: "log_ext mundane s s' \<Longrightarrow> callbacks s' = callbacks s"
  by (auto simp: callbacks_def log_ext_def mundane_no_callback)

lemma callbacks_keeps: "keeps K L s s' \<Longrightarrow> callbacks s' = callbacks s"
  by (simp add: keeps_def callbacks_ext)

text \<open>A context whose modules are told apart and whose tables refer to them.\<close>

definition mods_ok :: "ZygiskModule list \<Rightarrow> bool" where
  "mods_ok ms \<longleftrightarrow> list_all impl_ok ms \<and> distinct (map m_id ms)"

text \<open>The callback of the specialization at hand, by the flag that is looked at first, and its arguments.\<close>

definition spec_callback :: "ZygiskContext \<Rightarrow> string option" where
  "spec_callback c =
     (if has_flag (c_flags c) APP_SPECIALIZE then
        (case c_args c of App_spec a \<Rightarrow> Some ''preAppSpecialize'' | Server_spec a \<Rightarrow> None)
      else if has_flag (c_flags c) SERVER_FORK_AND_SPECIALIZE then
        (case c_args c of App_spec a \<Rightarrow> None | Server_spec a \<Rightarrow> Some ''preServerSpecialize'')
      else None)"

lemma spec_callback_kept:
  "c_args c' = c_args c \<Longrightarrow> c_flags c' = c_flags c \<or> c_flags c' = c_flags c OR DO_REVERT_UNMOUNT \<Longrightarrow>
     spec_callback c' = spec_callback c"
  by (auto simp: spec_callback_def has_flag_or)
    (simp_all add: has_flag_def DO_REVERT_UNMOUNT_def APP_SPECIALIZE_def SERVER_FORK_AND_SPECIALIZE_def)

text \<open>What one module's turn does to the list: nothing outside the module.\<close>

definition turn :: "nat \<Rightarrow> 'j zyg \<Rightarrow> 'j zyg \<Rightarrow> bool" where
  "turn k s s' \<longleftrightarrow>
     (\<forall>c. g_ctx s = Some c \<and> mods_ok (c_modules c) \<longrightarrow>
        (\<exists>c'. g_ctx s' = Some c' \<and> mods_ok (c_modules c') \<and>
           map m_id (c_modules c') = map m_id (c_modules c) \<and>
           (\<forall>m\<in>set (c_modules c'). m_id m \<noteq> k \<longrightarrow> m \<in> set (c_modules c)) \<and>
           spec_callback c' = spec_callback c))"

lemma hide_mem: "map (hide K) xs = map (hide K) ys \<Longrightarrow> m \<in> set xs \<Longrightarrow> m_id m \<notin> K \<Longrightarrow> m \<in> set ys"
proof -
  assume "map (hide K) xs = map (hide K) ys" "m \<in> set xs" "m_id m \<notin> K"
  then have "hide K m \<in> hide K ` set ys" by (metis image_eqI list.set_map)
  then obtain y where "y \<in> set ys" "hide K y = hide K m" by auto
  then show ?thesis using \<open>m_id m \<notin> K\<close> by (simp add: hide_def split: if_splits)
qed

lemma keeps_ctx:
  assumes "keeps K L s s'" "g_ctx s = Some c" "mods_ok (c_modules c)"
  obtains c' where "g_ctx s' = Some c'" "mods_ok (c_modules c')" "map m_id (c_modules c') = map m_id (c_modules c)"
    "map (hide K) (c_modules c') = map (hide K) (c_modules c)" "spec_callback c' = spec_callback c"
proof -
  obtain c' where c': "g_ctx s' = Some c'" "ctx_core c' = ctx_core c"
    "c_flags c' = c_flags c \<or> c_flags c' = c_flags c OR DO_REVERT_UNMOUNT"
    "list_all impl_ok (c_modules c')" "map (hide K) (c_modules c') = map (hide K) (c_modules c)"
    using assms by (auto simp: keeps_def ctx_step_def mods_ok_def split: option.splits)
  have "spec_callback c' = spec_callback c"
    using spec_callback_kept [OF _ c'(3)] c'(2) by (simp add: ctx_core_def)
  with that [OF c'(1)] c' assms(3) show ?thesis by (auto simp: ctx_core_def mods_ok_def)
qed

lemma keeps_turn:
  assumes k: "keeps {k} L s s'"
  shows "turn k s s'"
  unfolding turn_def
proof (intro allI impI)
  fix c
  assume c: "g_ctx s = Some c \<and> mods_ok (c_modules c)"
  then obtain c' where c': "g_ctx s' = Some c'" "mods_ok (c_modules c')" "map m_id (c_modules c') = map m_id (c_modules c)"
    "map (hide {k}) (c_modules c') = map (hide {k}) (c_modules c)" "spec_callback c' = spec_callback c"
    by (elim conjE) (rule keeps_ctx [OF k])
  have "m \<in> set (c_modules c)" if "m \<in> set (c_modules c')" "m_id m \<noteq> k" for m
    using hide_mem [OF c'(4) that(1)] that(2) by simp
  then show "\<exists>c'. g_ctx s' = Some c' \<and> mods_ok (c_modules c') \<and>
      map m_id (c_modules c') = map m_id (c_modules c) \<and>
      (\<forall>m\<in>set (c_modules c'). m_id m \<noteq> k \<longrightarrow> m \<in> set (c_modules c)) \<and>
      spec_callback c' = spec_callback c"
    using c' by (intro exI [of _ c']) simp
qed

section \<open>Registration\<close>

text \<open>
  What a module's entry registers, read off the entry itself: the last structure it hands to
  \<^verbatim>\<open>registerModule\<close> with its table, unless its version is newer than the library's.
\<close>

fun registered_by :: "api_call \<Rightarrow> module_abi option \<Rightarrow> module_abi option" where
  "registered_by (C_registerModule False (Some a)) r = (if abi_version a \<le> 5 then Some a else r)"
| "registered_by _ r = r"

fun registration :: "act list \<Rightarrow> module_abi option \<Rightarrow> module_abi option" where
  "registration [] r = r"
| "registration (Call i c # acts) r = registration acts (registered_by c r)"
| "registration (Set_arg p v # acts) r = registration acts r"

text \<open>A structure the library can use: of a known version, with its object and all four callbacks.\<close>

definition usable :: "module_abi option \<Rightarrow> bool" where
  "usable r = (case r of
     None \<Rightarrow> False
   | Some a \<Rightarrow> 1 \<le> abi_version a \<and> abi_version a \<le> 5 \<and> abi_impl a \<noteq> 0 \<and>
       list_all (\<lambda>f. f \<noteq> None) [abi_preApp a, abi_postApp a, abi_preServer a, abi_postServer a])"

lemma valid_usable: "valid_module m = usable (m_mod m)"
proof -
  have "v \<in> {1, 2, 3, 4, 5} \<longleftrightarrow> 1 \<le> v \<and> v \<le> 5" for v :: int by auto
  then show ?thesis
    unfolding valid_module_def usable_def by (auto split: option.split)
qed

definition mod_list :: "ZygiskContext \<Rightarrow> (nat \<times> module_abi option) list" where
  "mod_list c = map (\<lambda>m. (m_id m, m_mod m)) (c_modules c)"

definition registering :: "nat \<Rightarrow> (module_abi option \<Rightarrow> module_abi option) \<Rightarrow>
    (nat \<times> module_abi option) list \<Rightarrow> (nat \<times> module_abi option) list" where
  "registering k f xs = map (\<lambda>(i, r). (i, if i = k then f r else r)) xs"

lemma registering_same [simp]: "registering k (\<lambda>r. r) xs = xs"
  by (simp add: registering_def)

lemma registering_twice: "registering k g (registering k f xs) = registering k (g \<circ> f) xs"
  by (simp add: registering_def comp_def case_prod_beta)

lemma mod_list_hide: "map (hide {}) (c_modules c') = map (hide {}) (c_modules c) \<Longrightarrow> mod_list c' = mod_list c"
proof -
  assume "map (hide {}) (c_modules c') = map (hide {}) (c_modules c)"
  then have "map Some (c_modules c') = map Some (c_modules c)" by (simp add: hide_def fun_eq_iff cong: map_cong)
  then have "c_modules c' = c_modules c" by (metis inj_map_eq_map inj_Some)
  then show ?thesis by (simp add: mod_list_def)
qed

lemma upd_module_list:
  "g_ctx s = Some c \<Longrightarrow> (\<And>m. m_id (f m) = m_id m) \<Longrightarrow> (\<And>m. m_mod (f m) = g (m_mod m)) \<Longrightarrow>
     \<exists>c'. g_ctx (upd_module k f s) = Some c' \<and> mod_list c' = registering k g (mod_list c)"
  by (simp add: upd_module_def upd_ctx_def mod_list_def registering_def comp_def)

lemma quiet_call_list:
  assumes "keeps {} {} s s'" "g_ctx s = Some c" "mods_ok (c_modules c)"
  shows "\<exists>c'. g_ctx s' = Some c' \<and> mod_list c' = mod_list c"
  by (rule keeps_ctx [OF assms]) (use mod_list_hide in blast)

lemma keeps_other_calls:
  assumes "run_api f call k s = Some s'" "\<forall>n a. call \<noteq> C_registerModule n a" "\<forall>opt. call \<noteq> C_setOption opt"
  shows "keeps {} L s s' \<and> registered_by call = (\<lambda>r. r)"
  using assms
  by (cases call)
    (auto simp: run_api_def keeps_plt_hook_register keeps_plt_hook_exclude keeps_register_by_inode fun_eq_iff
      intro: keeps_hookJni keeps_plt_hook_commit keeps_CommitHook keeps_exempt_fd keeps_connectCompanion keeps_getModuleDir
      split: if_splits)

lemma run_api_list:
  assumes run: "run_api f call k s = Some s'" and c: "g_ctx s = Some c" "mods_ok (c_modules c)"
  shows "\<exists>c'. g_ctx s' = Some c' \<and> mod_list c' = registering k (registered_by call) (mod_list c)"
proof -
  have other: ?thesis if "keeps {} {} s s'" "registered_by call = (\<lambda>r. r)"
    using quiet_call_list [OF that(1) c] that(2) by simp
  show ?thesis
  proof (cases call)
    case (C_registerModule null md)
    with run obtain r where reg: "RegisterModuleImpl k null md s = Some (r, s')"
      by (auto simp: run_api_def split: if_splits)
    show ?thesis
    proof (cases "null \<or> md = None \<or> (\<exists>a. md = Some a \<and> abi_version a > 5)")
      case True
      then have "s' = s" "registered_by call = (\<lambda>r. r)"
        using reg C_registerModule
        by (cases null; cases md; auto simp: RegisterModuleImpl_def ZYGISK_API_VERSION_def fun_eq_iff)+
      with c show ?thesis by simp
    next
      case False
      then obtain a where a: "md = Some a" "\<not> null" "abi_version a \<le> 5" by (cases md) auto
      then obtain m self where m: "get_module k s = Some m" "impl (m_api m) = Some self"
        and s': "s' = upd_module k (\<lambda>m. m\<lparr>m_api := fill_api (abi_version a) (m_api m)\<rparr>)
          (upd_module self (\<lambda>m. m\<lparr>m_mod := Some a\<rparr>) s)"
        using reg by (auto simp: RegisterModuleImpl_def ZYGISK_API_VERSION_def split: Option.bind_splits)
      have "self = k"
        using m get_module_in [OF m(1)] c by (force simp: mods_ok_def list_all_iff impl_ok_def)
      obtain c1 where c1: "g_ctx (upd_module self (\<lambda>m. m\<lparr>m_mod := Some a\<rparr>) s) = Some c1"
        "mod_list c1 = registering k (\<lambda>r. Some a) (mod_list c)"
        using upd_module_list [OF c(1), of "\<lambda>m. m\<lparr>m_mod := Some a\<rparr>" "\<lambda>r. Some a" k] \<open>self = k\<close> by auto
      obtain c2 where "g_ctx s' = Some c2" "mod_list c2 = registering k (\<lambda>r. r) (mod_list c1)"
        unfolding s' using upd_module_list [OF c1(1), of "\<lambda>m. m\<lparr>m_api := fill_api (abi_version a) (m_api m)\<rparr>" "\<lambda>r. r" k] by auto
      moreover have "registered_by call = (\<lambda>r. Some a)" using a C_registerModule by (simp add: fun_eq_iff)
      ultimately show ?thesis using c1(2) by simp
    qed
  next
    case (C_setOption opt)
    with run have s': "s' = setOption k opt s" by (auto simp: run_api_def split: if_splits)
    have "\<exists>c'. g_ctx s' = Some c' \<and> mod_list c' = registering k (\<lambda>r. r) (mod_list c)"
      using upd_module_list [OF c(1), of "\<lambda>m. m\<lparr>m_unload := True\<rparr>" "\<lambda>r. r" k] c(1)
      by (cases opt) (simp_all add: s' setOption_def upd_ctx_def mod_list_def)
    moreover have "registered_by call = (\<lambda>r. r)" using C_setOption by (simp add: fun_eq_iff)
    ultimately show ?thesis by simp
  qed (rule other; use keeps_other_calls [OF run, of "{}"] in simp)+
qed

lemma run_acts_list:
  "run_acts k a acts s = Some s' \<Longrightarrow> g_ctx s = Some c \<Longrightarrow> mods_ok (c_modules c) \<Longrightarrow>
     \<exists>c'. g_ctx s' = Some c' \<and> mod_list c' = registering k (registration acts) (mod_list c)"
proof (induction k a acts s arbitrary: c rule: run_acts.induct)
  case (1 k a s)
  then show ?case by (simp add: registering_def)
next
  case (2 k a i call r s)
  then obtain s1 where call: "run_call k i call s = Some s1" and rest: "run_acts k a r s1 = Some s'"
    by (auto split: Option.bind_splits)
  then obtain m f where "get_module k s = Some m" "run_api f call k s = Some s1"
    by (auto simp: run_call_def split: Option.bind_splits)
  from run_api_list [OF this(2) "2.prems"(2,3)] obtain c1 where
    c1: "g_ctx s1 = Some c1" "mod_list c1 = registering k (registered_by call) (mod_list c)" by blast
  have "mods_ok (c_modules c1)"
    using keeps_ctx [OF keeps_run_call [OF call, where L = "{}"] "2.prems"(2,3)] c1(1) by (metis option.inject)
  from "2.IH" [OF call rest c1(1) this] obtain c2 where
    "g_ctx s' = Some c2" "mod_list c2 = registering k (registration r) (mod_list c1)" by blast
  moreover have "registration (Call i call # r) = registration r \<circ> registered_by call" by (simp add: fun_eq_iff)
  ultimately show ?case using c1(2) by (simp only: registering_twice) blast
next
  case (3 k a p v r s)
  then obtain q where q: "arg_member a p = Some q" "run_acts k a r (s\<lparr>locals := (locals s)(q := v)\<rparr>) = Some s'"
    by (auto split: Option.bind_splits)
  have "g_ctx (s\<lparr>locals := (locals s)(q := v)\<rparr>) = Some c" using "3.prems"(2) by simp
  from "3.IH" [OF q this "3.prems"(3)] show ?case by (simp add: fun_eq_iff)
qed

lemma callback_turn:
  assumes "run_callback nm k a f s = Some s'"
  shows "callbacks s' = callbacks s @ [OpCallback nm k] \<and> turn k s s'"
proof -
  obtain acts where run: "run_acts k a acts (logop (OpCallback nm k) s) = Some s'"
    using assms by (auto simp: run_callback_def split: Option.bind_splits)
  note kp = keeps_run_acts [OF run]
  have "callbacks (logop (OpCallback nm k) s) = callbacks s @ [OpCallback nm k]"
    by (simp add: callbacks_def callback_op_def)
  moreover have "turn k s s'"
    using keeps_turn [OF kp] by (simp add: turn_def logop_def)
  ultimately show ?thesis using callbacks_keeps [OF kp] by simp
qed

lemma get_module_mem:
  "g_ctx s = Some c \<Longrightarrow> get_module k s = Some m \<Longrightarrow> m \<in> set (c_modules c) \<and> m_id m = k"
  by (auto simp: get_module_def find_Some_iff)

lemma mods_ok_unique: "mods_ok ms \<Longrightarrow> x \<in> set ms \<Longrightarrow> y \<in> set ms \<Longrightarrow> m_id x = m_id y \<Longrightarrow> x = y"
  by (auto simp: mods_ok_def distinct_map inj_on_def)

lemma mods_ok_filter: "mods_ok ms \<Longrightarrow> mods_ok (filter P ms)"
  by (auto simp: mods_ok_def list_all_iff distinct_map_filter)

text \<open>What the entry of a module that has not registered yet leaves it with.\<close>

lemma onLoad_registers:
  assumes "onLoad m s = Some s1" "get_module k s = Some m" "g_ctx s = Some c" "mods_ok (c_modules c)"
    and "get_module k s1 = Some m1"
  shows "m_mod m1 = registration (m_entry m) (m_mod m)"
proof -
  note m = get_module_mem [OF assms(3,2)]
  have run: "run_acts k No_args (m_entry m) (logop (OpCallback ''onLoad'' k) s) = Some s1"
    using assms(1) m by (simp add: onLoad_def run_callback_def)
  have c: "g_ctx (logop (OpCallback ''onLoad'' k) s) = Some c" using assms(3) by (simp add: logop_def)
  obtain c1 where c1: "g_ctx s1 = Some c1" "mod_list c1 = registering k (registration (m_entry m)) (mod_list c)"
    using run_acts_list [OF run c assms(4)] by (elim exE conjE)
  have "(k, m_mod m1) \<in> set (mod_list c1)"
    using get_module_mem [OF c1(1) assms(5)] by (force simp: mod_list_def)
  then obtain r where r: "(k, r) \<in> set (mod_list c)" "m_mod m1 = registration (m_entry m) r"
    unfolding c1(2) by (auto simp: registering_def)
  then obtain m2 where "m2 \<in> set (c_modules c)" "m_id m2 = k" "m_mod m2 = r" by (auto simp: mod_list_def)
  with mods_ok_unique [OF assms(4)] m r show ?thesis by metis
qed

text \<open>
  Entering the modules \<open>ks\<close>, whose entries are \<open>E\<close> and which have not registered: each is entered, in the
  order given, and those stay whose entry registers something usable.
\<close>

definition kept_after :: "(nat \<Rightarrow> act list) \<Rightarrow> nat list \<Rightarrow> nat \<Rightarrow> bool" where
  "kept_after E ks i \<longleftrightarrow> (i \<in> set ks \<longrightarrow> usable (registration (E i) None))"

lemma load_all_order:
  "load_all ks s = Some s' \<Longrightarrow> g_ctx s = Some c \<Longrightarrow> mods_ok (c_modules c) \<Longrightarrow> distinct ks \<Longrightarrow>
     (\<forall>m\<in>set (c_modules c). m_id m \<in> set ks \<longrightarrow> m_mod m = None \<and> m_entry m = E (m_id m)) \<Longrightarrow>
     \<exists>c'. g_ctx s' = Some c' \<and> mods_ok (c_modules c') \<and> spec_callback c' = spec_callback c \<and>
       map m_id (c_modules c') = filter (kept_after E ks) (map m_id (c_modules c)) \<and>
       (\<forall>m\<in>set (c_modules c'). if m_id m \<in> set ks then valid_module m else m \<in> set (c_modules c)) \<and>
       callbacks s' = callbacks s @ map (OpCallback ''onLoad'') ks"
proof (induction ks arbitrary: s c)
  case Nil
  then show ?case by (intro exI [of _ c]) (simp add: kept_after_def)
next
  case (Cons k ks)
  then obtain m s1 m1 where l: "onLoad m s = Some s1" "get_module k s = Some m"
    and m1: "get_module k s1 = Some m1"
    and rest: "load_all ks (if valid_module m1 then s1
        else upd_ctx (\<lambda>c. c\<lparr>c_modules := filter (\<lambda>x. m_id x \<noteq> k) (c_modules c)\<rparr>) s1) = Some s'"
    by (auto split: Option.bind_splits)
  note m = get_module_mem [OF Cons.prems(2) l(2)]
  have cb: "callbacks s1 = callbacks s @ [OpCallback ''onLoad'' k]" and tu: "turn k s s1"
    using callback_turn l(1) m unfolding onLoad_def by blast+
  have fresh: "m_mod m = None" "m_entry m = E k" using Cons.prems(5) m by auto
  have valid: "valid_module m1 \<longleftrightarrow> usable (registration (E k) None)"
    unfolding valid_usable onLoad_registers [OF l Cons.prems(2,3) m1] fresh ..
  obtain c1 where c1: "g_ctx s1 = Some c1" "mods_ok (c_modules c1)"
      "map m_id (c_modules c1) = map m_id (c_modules c)" "spec_callback c1 = spec_callback c"
    and old: "\<forall>m\<in>set (c_modules c1). m_id m \<noteq> k \<longrightarrow> m \<in> set (c_modules c)"
    using tu Cons.prems(2,3) unfolding turn_def by blast
  define s2 where "s2 = (if valid_module m1 then s1
        else upd_ctx (\<lambda>c. c\<lparr>c_modules := filter (\<lambda>x. m_id x \<noteq> k) (c_modules c)\<rparr>) s1)"
  define c2 where "c2 = (if valid_module m1 then c1
        else c1\<lparr>c_modules := filter (\<lambda>x. m_id x \<noteq> k) (c_modules c1)\<rparr>)"
  have c2: "g_ctx s2 = Some c2" "mods_ok (c_modules c2)" "spec_callback c2 = spec_callback c"
    using c1 by (auto simp: s2_def c2_def upd_ctx_def mods_ok_filter spec_callback_def)
  have sub: "m \<in> set (c_modules c1)" if "m \<in> set (c_modules c2)" for m
    using that by (auto simp: c2_def split: if_splits)
  have kk: "k \<notin> set ks" "distinct ks" using Cons.prems(4) by simp_all
  have "\<forall>m\<in>set (c_modules c2). m_id m \<in> set ks \<longrightarrow> m_mod m = None \<and> m_entry m = E (m_id m)"
  proof (intro ballI impI)
    fix x assume x: "x \<in> set (c_modules c2)" "m_id x \<in> set ks"
    with kk have "m_id x \<noteq> k" by auto
    with old sub [OF x(1)] have "x \<in> set (c_modules c)" by blast
    with Cons.prems(5) x(2) show "m_mod x = None \<and> m_entry x = E (m_id x)" by simp
  qed
  from Cons.IH [OF rest [folded s2_def] c2(1,2) kk(2) this] obtain c' where
    c': "g_ctx s' = Some c'" "mods_ok (c_modules c')" "spec_callback c' = spec_callback c2"
      "map m_id (c_modules c') = filter (kept_after E ks) (map m_id (c_modules c2))"
    and val: "\<forall>m\<in>set (c_modules c'). if m_id m \<in> set ks then valid_module m else m \<in> set (c_modules c2)"
    and cb': "callbacks s' = callbacks s2 @ map (OpCallback ''onLoad'') ks"
    by (elim exE conjE)
  have "map m_id (c_modules c2) = filter (\<lambda>i. i = k \<longrightarrow> valid_module m1) (map m_id (c_modules c1))"
    by (auto simp: c2_def filter_map comp_def filter_id_conv intro!: arg_cong [where f = "map m_id"] filter_cong)
  then have ids: "map m_id (c_modules c') = filter (kept_after E (k # ks)) (map m_id (c_modules c))"
    unfolding c'(4) c1(3) using kk valid by (auto simp: kept_after_def intro!: filter_cong)
  have "if m_id m \<in> set (k # ks) then valid_module m else m \<in> set (c_modules c)"
    if m: "m \<in> set (c_modules c')" for m
  proof (cases "m_id m \<in> set ks")
    case True
    with val m show ?thesis by auto
  next
    case False
    with val m have in2: "m \<in> set (c_modules c2)" by auto
    then have in1: "m \<in> set (c_modules c1)" "m_id m = k \<Longrightarrow> valid_module m1"
      by (auto simp: c2_def split: if_splits)
    have "m = m1" if "m_id m = k"
      using mods_ok_unique [OF c1(2) in1(1)] get_module_mem [OF c1(1) m1] that by simp
    with in1 old False show ?thesis by auto
  qed
  moreover have "callbacks s2 = callbacks s1" by (simp add: s2_def upd_ctx_def callbacks_def)
  ultimately show ?case
    using c' c2(3) ids cb cb' by (intro exI [of _ c']) simp
qed

lemma valid_version: "valid_module m \<Longrightarrow> \<exists>md. m_mod m = Some md \<and> abi_version md \<in> {1, 2, 3, 4, 5}"
  by (auto simp: valid_module_def split: option.splits if_splits)

lemma pre_callback:
  assumes "valid_module m" "run_pre m s = Some s'" "g_ctx s = Some c" "spec_callback c = Some nm"
  shows "callbacks s' = callbacks s @ [OpCallback nm (m_id m)] \<and> turn (m_id m) s s'"
proof -
  obtain md where md: "m_mod m = Some md" "abi_version md \<in> {1, 2, 3, 4, 5}"
    using valid_version [OF assms(1)] by auto
  obtain a f where "run_callback nm (m_id m) a f s = Some s'"
    using assms(2-4) md
    by (auto simp: run_pre_def spec_callback_def preAppSpecialize_def call_app_def preServerSpecialize_def
        split: if_splits spec_args.splits)
  then show ?thesis by (rule callback_turn)
qed

lemma pre_all_order:
  "pre_all ks s = Some s' \<Longrightarrow> g_ctx s = Some c \<Longrightarrow> mods_ok (c_modules c) \<Longrightarrow> distinct ks \<Longrightarrow>
     spec_callback c = Some nm \<Longrightarrow>
     (\<forall>m\<in>set (c_modules c). m_id m \<in> set ks \<longrightarrow> valid_module m) \<Longrightarrow>
     callbacks s' = callbacks s @ map (OpCallback nm) ks \<and>
     (\<exists>c'. g_ctx s' = Some c' \<and> map m_id (c_modules c') = map m_id (c_modules c))"
proof (induction ks arbitrary: s c)
  case (Cons k ks)
  then obtain m s1 where r: "run_pre m s = Some s1" "get_module k s = Some m" "pre_all ks s1 = Some s'"
    by (auto split: Option.bind_splits)
  have m: "m \<in> set (c_modules c)" "m_id m = k" using get_module_mem [OF Cons.prems(2) r(2)] by auto
  from pre_callback [OF _ r(1) Cons.prems(2,5)] m Cons.prems(6)
  have cb: "callbacks s1 = callbacks s @ [OpCallback nm k]" and tu: "turn k s s1"
    by auto
  obtain c1 where c1: "g_ctx s1 = Some c1" "mods_ok (c_modules c1)"
      "map m_id (c_modules c1) = map m_id (c_modules c)" "spec_callback c1 = spec_callback c"
    and old: "\<forall>m\<in>set (c_modules c1). m_id m \<noteq> k \<longrightarrow> m \<in> set (c_modules c)"
    using tu Cons.prems(2,3) unfolding turn_def by blast
  have "\<forall>m\<in>set (c_modules c1). m_id m \<in> set ks \<longrightarrow> valid_module m"
    using old Cons.prems(4,6) by auto
  from Cons.IH [OF r(3) c1(1,2) _ _ this] Cons.prems(4,5) c1
  have "callbacks s' = callbacks s1 @ map (OpCallback nm) ks \<and>
     (\<exists>c'. g_ctx s' = Some c' \<and> map m_id (c_modules c') = map m_id (c_modules c1))" by simp
  with cb c1(3) show ?case by simp
qed simp

section \<open>Loading\<close>

text \<open>
  The module a descriptor stands for: the entry of the library it is open on, where that is a regular
  file the linker accepts and the library exports one.
\<close>

definition entry_of :: "'j zyg \<Rightarrow> fd \<Rightarrow> act list option" where
  "entry_of s d = (case map_of (fdtab s) d of
     Some (Reg n) \<Rightarrow> Option.bind (dlopen_fd (w s) (Reg n)) (module_entry (w s))
   | _ \<Rightarrow> None)"

lemma new_module_simps [simp]: "m_id (new_ZygiskModule i h e) = i" "impl_ok (new_ZygiskModule i h e)"
    "m_mod (new_ZygiskModule i h e) = None" "m_entry (new_ZygiskModule i h e) = e"
  by (simp_all add: new_ZygiskModule_def impl_ok_def put_def)

lemma load_module_ctx:
  assumes "g_ctx s = Some c"
  shows "\<exists>h. g_ctx (snd (load_module i d s)) = Some (c\<lparr>c_modules := c_modules c @
      (case entry_of s d of Some e \<Rightarrow> [new_ZygiskModule i h e] | None \<Rightarrow> [])\<rparr>) \<and>
    w (snd (load_module i d s)) = w s \<and>
    (\<forall>d'. d' \<noteq> d \<longrightarrow> map_of (fdtab (snd (load_module i d s))) d' = map_of (fdtab s) d')"
proof -
  have close: "map_of (filter (\<lambda>(k, _). k \<noteq> d) xs) d' = map_of xs d'" if "d' \<noteq> d" for d' and xs :: "(fd \<times> ofile) list"
    using that by (induction xs) auto
  show ?thesis
    using assms by (auto simp: load_module_def entry_of_def upd_ctx_def sys_close_def logop_def close
        split: option.split ofile.split)
qed

text \<open>The positions of the libraries among the descriptors.\<close>

definition found :: "'j zyg \<Rightarrow> fd list \<Rightarrow> nat list" where
  "found s fds = filter (\<lambda>i. entry_of s (fds ! i) \<noteq> None) [0..<length fds]"

lemma load_modules_ctx:
  "g_ctx s = Some c \<Longrightarrow> distinct ds \<Longrightarrow> \<exists>ms. g_ctx (snd (load_modules i ds s)) = Some (c\<lparr>c_modules := c_modules c @ ms\<rparr>) \<and>
     map m_id ms = map ((+) i) (found s ds) \<and>
     (\<forall>m\<in>set ms. impl_ok m \<and> m_mod m = None \<and> i \<le> m_id m \<and> entry_of s (ds ! (m_id m - i)) = Some (m_entry m))"
proof (induction ds arbitrary: i s c)
  case Nil
  then show ?case by (intro exI [of _ "[]"]) (simp add: found_def)
next
  case (Cons d ds)
  define s1 where "s1 = snd (load_module i d s)"
  obtain h where h: "g_ctx s1 = Some (c\<lparr>c_modules := c_modules c @
      (case entry_of s d of Some e \<Rightarrow> [new_ZygiskModule i h e] | None \<Rightarrow> [])\<rparr>)"
    and fr: "w s1 = w s" "\<forall>d'. d' \<noteq> d \<longrightarrow> map_of (fdtab s1) d' = map_of (fdtab s) d'"
    using load_module_ctx [OF Cons.prems(1), of i d] unfolding s1_def by (elim exE conjE)
  let ?m = "case entry_of s d of Some e \<Rightarrow> [new_ZygiskModule i h e] | None \<Rightarrow> []"
  have same: "entry_of s1 d' = entry_of s d'" if "d' \<in> set ds" for d'
  proof -
    have "d' \<noteq> d" using that Cons.prems(2) by auto
    then have "map_of (fdtab s1) d' = map_of (fdtab s) d'" using fr(2) by blast
    then show ?thesis by (simp only: entry_of_def fr(1))
  qed
  have found_ds: "found s1 ds = found s ds"
    using same by (auto simp: found_def intro!: filter_cong)
  have "distinct ds" using Cons.prems(2) by simp
  from Cons.IH [OF h this, of "Suc i"] obtain ns where
    ns: "g_ctx (snd (load_modules (Suc i) ds s1)) = Some (c\<lparr>c_modules := (c_modules c @ ?m) @ ns\<rparr>)"
      "map m_id ns = map ((+) (Suc i)) (found s ds)"
    and each: "\<forall>m\<in>set ns. impl_ok m \<and> m_mod m = None \<and> Suc i \<le> m_id m \<and> entry_of s1 (ds ! (m_id m - Suc i)) = Some (m_entry m)"
    unfolding found_ds by auto
  have ids: "found s (d # ds) = (if entry_of s d \<noteq> None then [0] else []) @ map Suc (found s ds)"
    by (simp add: found_def upt_conv_Cons map_Suc_upt [symmetric] filter_map comp_def del: upt_Suc)
  have "entry_of s ((d # ds) ! (m_id m - i)) = Some (m_entry m)" "i \<le> m_id m" if "m \<in> set ns" for m
  proof -
    have m: "Suc i \<le> m_id m" "entry_of s1 (ds ! (m_id m - Suc i)) = Some (m_entry m)" using each that by auto
    have "m_id m \<in> set (map ((+) (Suc i)) (found s ds))" using that unfolding ns(2) [symmetric] by simp
    then have "m_id m - Suc i < length ds" by (auto simp: found_def)
    then have "entry_of s (ds ! (m_id m - Suc i)) = Some (m_entry m)" using same m(2) by simp
    moreover have "m_id m - i = Suc (m_id m - Suc i)" using m(1) by simp
    ultimately show "entry_of s ((d # ds) ! (m_id m - i)) = Some (m_entry m)" "i \<le> m_id m" using m(1) by simp_all
  qed
  then have "\<forall>m\<in>set (?m @ ns). impl_ok m \<and> m_mod m = None \<and> i \<le> m_id m \<and>
      entry_of s ((d # ds) ! (m_id m - i)) = Some (m_entry m)"
    using each by (auto split: option.splits)
  moreover have "map m_id (?m @ ns) = map ((+) i) (found s (d # ds))"
    unfolding ids using ns(2) by (auto split: option.split)
  moreover have "load_modules i (d # ds) s = (fst (load_module i d s) # fst (load_modules (Suc i) ds s1), snd (load_modules (Suc i) ds s1))"
    by (simp add: s1_def case_prod_beta Let_def)
  ultimately show ?case using ns(1) by (intro exI [of _ "?m @ ns"]) simp
qed

text \<open>
  C11: Exactly the right modules run, once each, in the order their libraries were found. A module is
  loaded for every descriptor that is open on a library with an entry, under its position in the list,
  and for no other; all of them are entered once, in that order; the ones that stay are those whose entry
  registers a structure the library can use; and after all were entered the callback that precedes the
  specialization of the app, or of the system server, runs once for each that stays, in the same order.
\<close>

theorem modules_run_in_order:
  assumes "run_modules_pre fds s = Some s'" "g_ctx s = Some c" "c_modules c = []" "distinct fds"
    and "spec_callback c = Some nm"
  shows "let kept = filter (\<lambda>i. usable (registration (the (entry_of s (fds ! i))) None)) (found s fds) in
    map_option (\<lambda>c'. map m_id (c_modules c')) (g_ctx s') = Some kept \<and>
    callbacks s' = callbacks s @ map (OpCallback ''onLoad'') (found s fds) @ map (OpCallback nm) kept"
proof -
  define E where "E i = the (entry_of s (fds ! i))" for i
  obtain s1 s2 where l: "s1 = snd (load_modules 0 fds s)" "load_all (module_ids s1) s1 = Some s2"
    and p: "pre_all (module_ids s2) s2 = Some s'"
    using assms(1) by (auto simp: run_modules_pre_def case_prod_beta split: Option.bind_splits)
  have zero: "map ((+) (0::nat)) xs = xs" for xs by (induction xs) simp_all
  obtain ms where ms: "g_ctx s1 = Some (c\<lparr>c_modules := ms\<rparr>)" "map m_id ms = found s fds"
    "\<forall>m\<in>set ms. impl_ok m \<and> m_mod m = None \<and> entry_of s (fds ! m_id m) = Some (m_entry m)"
    using load_modules_ctx [OF assms(2,4), of 0] unfolding l(1) [symmetric] assms(3)
    by (elim exE conjE) (rule that, simp_all add: zero)
  have dist: "distinct (map m_id ms)" unfolding ms(2) by (simp add: found_def)
  with ms(3) have ok: "mods_ok (c_modules (c\<lparr>c_modules := ms\<rparr>))" by (simp add: mods_ok_def list_all_iff)
  have ids: "module_ids s1 = map m_id ms" by (simp add: module_ids_def ms)
  have cb1: "callbacks s1 = callbacks s"
    using quiet_load_modules [of mundane s 0 fds] by (simp add: l(1) quiet_def callbacks_ext)
  have fresh: "\<forall>m\<in>set (c_modules (c\<lparr>c_modules := ms\<rparr>)). m_id m \<in> set (map m_id ms) \<longrightarrow>
      m_mod m = None \<and> m_entry m = E (m_id m)"
    using ms(3) by (simp add: E_def)
  have pick: "c_modules (c\<lparr>c_modules := ms\<rparr>) = ms" "spec_callback (c\<lparr>c_modules := ms\<rparr>) = spec_callback c"
    by (simp_all add: spec_callback_def)
  from load_all_order [OF l(2) [unfolded ids] ms(1) ok dist fresh]
  obtain c2 where c2: "g_ctx s2 = Some c2" "mods_ok (c_modules c2)" "spec_callback c2 = spec_callback c"
      "map m_id (c_modules c2) = filter (kept_after E (map m_id ms)) (map m_id ms)"
    and val: "\<forall>m\<in>set (c_modules c2). if m_id m \<in> set (map m_id ms) then valid_module m else m \<in> set ms"
    and cb2: "callbacks s2 = callbacks s1 @ map (OpCallback ''onLoad'') (map m_id ms)"
    unfolding pick by (elim exE conjE)
  have ids2: "module_ids s2 = map m_id (c_modules c2)" by (simp add: module_ids_def c2)
  have kept: "map m_id (c_modules c2) = filter (\<lambda>i. usable (registration (E i) None)) (found s fds)"
    unfolding c2(4) ms(2) by (rule filter_cong) (simp_all add: kept_after_def)
  have "\<forall>m\<in>set (c_modules c2). m_id m \<in> set (module_ids s2) \<longrightarrow> valid_module m"
    using val by (auto split: if_splits)
  moreover have "distinct (module_ids s2)" using c2(2) by (simp add: ids2 mods_ok_def)
  moreover have "spec_callback c2 = Some nm" using c2(3) assms(5) by simp
  ultimately obtain c' where "g_ctx s' = Some c'" "map m_id (c_modules c') = map m_id (c_modules c2)"
    "callbacks s' = callbacks s2 @ map (OpCallback nm) (module_ids s2)"
    using pre_all_order [OF p c2(1,2)] by auto
  then show ?thesis
    using cb1 cb2 by (simp add: Let_def ids2 kept ms(2) flip: E_def)
qed

text \<open>
  Four descriptors: a pipe, a library whose entry registers, one that the linker refuses, and a library
  whose entry registers nothing; they are followed by one more that registers.
\<close>

definition demo_loading :: "jni_method list zyg" where
  "demo_loading = demo_zyg\<lparr>fdtab := [(40, NonReg 9), (41, Reg 5), (42, Reg 7), (43, Reg 6), (44, Reg 5)],
     w := demo_world\<lparr>dlopen_fd := (\<lambda>f. case f of Reg n \<Rightarrow> if n = 7 then None else Some n | _ \<Rightarrow> None),
       module_entry := (\<lambda>h. Some (if h = 5 then [Call 1 (C_registerModule False (Some (demo_abi 2)))] else []))\<rparr>,
     g_ctx := Some (demo_app_ctx\<lparr>c_flags := APP_SPECIALIZE\<rparr>)\<rparr>"

lemma demo_slot: "slots (m_api (new_ZygiskModule i h e)) 1 = Some F_RegisterModuleImpl"
  "impl (m_api (new_ZygiskModule i h e)) = Some i"
  by (simp_all add: new_ZygiskModule_def put_def api_abi_base_def)

lemma demo_loading_run: "\<exists>s'. run_modules_pre [40, 41, 42, 43, 44] demo_loading = Some s'"
  by (simp add: run_modules_pre_def demo_loading_def demo_zyg_def demo_world_def demo_app_ctx_def
      demo_server_ctx_def load_module_def upd_ctx_def sys_close_def logop_def module_ids_def
      get_module_def onLoad_def run_callback_def new_ZygiskModule_def put_def api_abi_base_def
      run_call_def run_api_def RegisterModuleImpl_def ZYGISK_API_VERSION_def upd_module_def
      valid_module_def demo_abi_def run_pre_def preAppSpecialize_def call_app_def demo_app_eq
      AppSpecializeArgs_v1_of_def has_flag_def APP_SPECIALIZE_def api_zero_def)

theorem modules_run_in_order_witness:
  "\<exists>s'. run_modules_pre [40, 41, 42, 43, 44] demo_loading = Some s' \<and>
     callbacks s' = callbacks demo_loading @ [OpCallback ''onLoad'' 1, OpCallback ''onLoad'' 3, OpCallback ''onLoad'' 4,
       OpCallback ''preAppSpecialize'' 1, OpCallback ''preAppSpecialize'' 4]"
proof -
  let ?fds = "[40, 41, 42, 43, 44] :: fd list"
  obtain s' where run: "run_modules_pre ?fds demo_loading = Some s'" using demo_loading_run by (elim exE)
  let ?c = "demo_app_ctx\<lparr>c_flags := APP_SPECIALIZE\<rparr>"
  have c: "g_ctx demo_loading = Some ?c" "c_modules ?c = []" "distinct ?fds" "spec_callback ?c = Some ''preAppSpecialize''"
    by (simp_all add: demo_loading_def demo_app_ctx_def demo_server_ctx_def has_flag_def APP_SPECIALIZE_def spec_callback_def)
  have e: "entry_of demo_loading 40 = None" "entry_of demo_loading 42 = None" "entry_of demo_loading 43 = Some []"
    "entry_of demo_loading 41 = Some [Call 1 (C_registerModule False (Some (demo_abi 2)))]"
    "entry_of demo_loading 44 = Some [Call 1 (C_registerModule False (Some (demo_abi 2)))]"
    by (simp_all add: entry_of_def demo_loading_def demo_world_def)
  have f: "found demo_loading ?fds = [1, 3, 4]"
    using e by (simp add: found_def upt_rec)
  have u: "usable (registration [Call 1 (C_registerModule False (Some (demo_abi 2)))] None)"
    "\<not> usable (registration [] None)"
    by (simp_all add: usable_def demo_abi_def)
  from modules_run_in_order [OF run c, unfolded f]
  have "callbacks s' = callbacks demo_loading @ map (OpCallback ''onLoad'') [1, 3, 4] @
      map (OpCallback ''preAppSpecialize'') [1, 4]"
    using e u by (simp add: Let_def)
  with run show ?thesis by (intro exI [of _ s']) simp
qed

end
