(* ===== verification/JniProps.thy ===== *)
theory JniProps
  imports Lifecycle ZygDemo
begin

text \<open>
  Replacing native methods and putting them back. What is used of the JVM is stated as laws: a class
  has a fixed list of natives with distinct names and (displayed) signatures; registering a method
  succeeds exactly when its name and signature denote one of them, and then sets that one's function
  pointer and nothing else.
\<close>

section \<open>The laws of RegisterNatives\<close>

definition native_key :: "jni_method \<Rightarrow> string \<times> string" where
  "native_key m = (mname m, msig m)"

definition put_native :: "(string \<times> string \<Rightarrow> nat option) \<Rightarrow> jni_method \<Rightarrow> jni_method list \<Rightarrow> jni_method list" where
  "put_native slot m ns =
     (case slot (native_key m) of
        None \<Rightarrow> ns
      | Some k \<Rightarrow> ns[k := (ns ! k)\<lparr>fnPtr := fnPtr m\<rparr>])"

definition jvm_laws :: "'j jvm_ops \<Rightarrow> nat \<Rightarrow> (string \<times> string \<Rightarrow> nat option) \<Rightarrow> bool" where
  "jvm_laws v clazz slot \<longleftrightarrow>
     (\<forall>j. distinct (map native_key (getNativeMethods v j clazz))) \<and>
     (\<forall>j m k. slot (native_key m) = Some k \<longrightarrow>
        k < length (getNativeMethods v j clazz) \<and> mname (getNativeMethods v j clazz ! k) = mname m) \<and>
     (\<forall>j m. fst (RegisterNative v j clazz m) = (slot (native_key m) \<noteq> None) \<and>
        getNativeMethods v (snd (RegisterNative v j clazz m)) clazz =
          put_native slot m (getNativeMethods v j clazz))"

lemma law_slot:
  "jvm_laws v clazz slot \<Longrightarrow> slot (native_key m) = Some k \<Longrightarrow>
     k < length (getNativeMethods v j clazz) \<and> mname (getNativeMethods v j clazz ! k) = mname m"
  by (simp add: jvm_laws_def)

section \<open>Registering a list\<close>

text \<open>A method that registration touches, and the slot it takes.\<close>

definition takes :: "(string \<times> string \<Rightarrow> nat option) \<Rightarrow> jni_method \<Rightarrow> nat \<Rightarrow> bool" where
  "takes slot m k \<longleftrightarrow> fnPtr m \<noteq> 0 \<and> slot (native_key m) = Some k"

text \<open>No two methods of a list take the same slot.\<close>

definition apart :: "(string \<times> string \<Rightarrow> nat option) \<Rightarrow> jni_method list \<Rightarrow> bool" where
  "apart slot ms \<longleftrightarrow> distinct (List.map_filter (\<lambda>m. if fnPtr m = 0 then None else slot (native_key m)) ms)"

definition settled :: "(string \<times> string \<Rightarrow> nat option) \<Rightarrow> jni_method \<Rightarrow> jni_method" where
  "settled slot m = (if fnPtr m = 0 \<or> slot (native_key m) \<noteq> None then m else m\<lparr>fnPtr := 0\<rparr>)"

lemma apart_Cons:
  "apart slot (m # ms) \<longleftrightarrow> apart slot ms \<and> (\<forall>k. takes slot m k \<longrightarrow> (\<forall>x\<in>set ms. \<not> takes slot x k))"
  by (auto simp: apart_def map_filter_simps takes_def map_filter_def image_iff split: option.splits)

lemma register_methods_effect:
  assumes "jvm_laws v clazz slot" "register_methods v clazz ms j = (ms', j')" "apart slot ms"
  shows "ms' = map (settled slot) ms \<and>
    length (getNativeMethods v j' clazz) = length (getNativeMethods v j clazz) \<and>
    (\<forall>i<length (getNativeMethods v j clazz).
       getNativeMethods v j' clazz ! i =
         (case find (\<lambda>m. takes slot m i) ms of
            None \<Rightarrow> getNativeMethods v j clazz ! i
          | Some m \<Rightarrow> (getNativeMethods v j clazz ! i)\<lparr>fnPtr := fnPtr m\<rparr>))"
  using assms(2,3)
proof (induction ms arbitrary: j ms' j')
  case (Cons m ms)
  show ?case
  proof (cases "fnPtr m = 0")
    case True
    then obtain ms1 where "register_methods v clazz ms j = (ms1, j')" "ms' = m # ms1"
      using Cons.prems(1) by (auto split: prod.splits)
    with Cons.IH [of j ms1 j'] Cons.prems(2) True show ?thesis
      by (simp add: apart_Cons settled_def takes_def)
  next
    case False
    define ns where "ns = getNativeMethods v j clazz"
    obtain good j1 where rn: "RegisterNative v j clazz m = (good, j1)" by fastforce
    obtain ms1 where r: "register_methods v clazz ms j1 = (ms1, j')"
      and ms': "ms' = (if good then m else m\<lparr>fnPtr := 0\<rparr>) # ms1"
      using Cons.prems(1) False by (auto simp: rn split: prod.splits)
    have "fst (RegisterNative v j clazz m) = (slot (native_key m) \<noteq> None)"
      "getNativeMethods v (snd (RegisterNative v j clazz m)) clazz = put_native slot m ns"
      using assms(1) by (auto simp: jvm_laws_def ns_def)
    then have good: "good = (slot (native_key m) \<noteq> None)"
      and n1: "getNativeMethods v j1 clazz = put_native slot m ns" by (simp_all add: rn)
    have len: "length (put_native slot m ns) = length ns"
      by (simp add: put_native_def split: option.split)
    have "apart slot ms" using Cons.prems(2) by (simp add: apart_Cons)
    note ih = Cons.IH [OF r this, unfolded n1 len]
    have IH: "ms1 = map (settled slot) ms"
        "length (getNativeMethods v j' clazz) = length ns"
        "\<forall>i<length ns. getNativeMethods v j' clazz ! i =
          (case find (\<lambda>m. takes slot m i) ms of
             None \<Rightarrow> put_native slot m ns ! i
           | Some x \<Rightarrow> (put_native slot m ns ! i)\<lparr>fnPtr := fnPtr x\<rparr>)"
      using ih by blast+
    have "find (\<lambda>x. takes slot x i) ms = None" if "takes slot m i" for i
      using Cons.prems(2) that by (auto simp: apart_Cons find_None_iff)
    moreover have "put_native slot m ns ! i = (if takes slot m i then (ns ! i)\<lparr>fnPtr := fnPtr m\<rparr> else ns ! i)"
      if "i < length ns" for i
      using that False by (auto simp: put_native_def takes_def split: option.split)
    ultimately show ?thesis
      using IH good False unfolding ns_def [symmetric]
      by (auto simp: ms' settled_def split: option.split)
  qed
qed (simp add: jvm_laws_def)

section \<open>Hooking a class\<close>

text \<open>What is handed back for a replacement: the pointer it displaced, or null.\<close>

definition given_back :: "(string \<times> string \<Rightarrow> nat option) \<Rightarrow> jni_method list \<Rightarrow> jni_method \<Rightarrow> jni_method" where
  "given_back slot ns m =
     (if fnPtr m = 0 then m
      else case slot (native_key m) of
        None \<Rightarrow> m\<lparr>fnPtr := 0\<rparr>
      | Some k \<Rightarrow> m\<lparr>fnPtr := fnPtr (ns ! k)\<rparr>)"

text \<open>The replacements' pointers are distinct, and none is a native's already.\<close>

definition fresh :: "jni_method list \<Rightarrow> jni_method list \<Rightarrow> bool" where
  "fresh ms ns \<longleftrightarrow> distinct (map fnPtr (filter (\<lambda>m. fnPtr m \<noteq> 0) ms)) \<and>
     (\<forall>m\<in>set ms. fnPtr m \<noteq> 0 \<longrightarrow> fnPtr m \<notin> fnPtr ` set ns)"

lemma find_unique: "m \<in> set ms \<Longrightarrow> P m \<Longrightarrow> \<forall>x\<in>set ms. P x \<longrightarrow> x = m \<Longrightarrow> find P ms = Some m"
proof (induction ms)
  case (Cons a ms)
  show ?case
  proof (cases "P a")
    case True
    have "a = m" by (rule mp [OF bspec [OF Cons.prems(3)] True]) simp
    with True show ?thesis by simp
  next
    case False
    then have "a \<noteq> m" using Cons.prems(2) by blast
    then have "m \<in> set ms" using Cons.prems(1) by simp
    moreover have "\<forall>x\<in>set ms. P x \<longrightarrow> x = m" using Cons.prems(3) by (meson list.set_intros(2))
    ultimately have "find P ms = Some m" by (rule Cons.IH [OF _ Cons.prems(2)])
    with False show ?thesis by simp
  qed
qed simp

lemma find_holds: "find P ms = Some x \<Longrightarrow> x \<in> set ms \<and> P x"
  by (induction ms) (auto split: if_splits)

lemma find_key:
  assumes "distinct (map native_key old)" "k < length old" "native_key (old ! k) = native_key n"
  shows "find (\<lambda>m. mname m = mname n \<and> msig m = msig n) old = Some (old ! k)"
proof (rule find_unique)
  show "old ! k \<in> set old" using assms(2) by simp
  show "mname (old ! k) = mname n \<and> msig (old ! k) = msig n" using assms(3) by (simp add: native_key_def)
  show "\<forall>x\<in>set old. mname x = mname n \<and> msig x = msig n \<longrightarrow> x = old ! k"
  proof (intro ballI impI)
    fix x assume "x \<in> set old" "mname x = mname n \<and> msig x = msig n"
    then have "native_key x = native_key (old ! k)" using assms(3) by (simp add: native_key_def)
    with \<open>x \<in> set old\<close> assms(1,2) show "x = old ! k"
      by (auto simp: distinct_map dest: inj_onD)
  qed
qed

lemma find_original_at:
  "k < length ns \<Longrightarrow> fnPtr (ns ! k) = p \<Longrightarrow> \<forall>i<length ns. i \<noteq> k \<longrightarrow> fnPtr (ns ! i) \<noteq> p \<Longrightarrow>
     find (\<lambda>m. mname m = mname (ns ! k) \<and> msig m = msig (ns ! k)) old = Some m \<Longrightarrow>
     find_original ns old p = Some (fnPtr m)"
proof (induction ns arbitrary: k)
  case (Cons n ns)
  show ?case
  proof (cases k)
    case 0
    with Cons.prems show ?thesis by simp
  next
    case (Suc k')
    have "fnPtr n \<noteq> p" using Cons.prems(3) Suc by auto
    moreover have "\<forall>i<length ns. i \<noteq> k' \<longrightarrow> fnPtr (ns ! i) \<noteq> p"
      using Cons.prems(3) Suc by (metis Suc_less_eq length_Cons nat.inject nth_Cons_Suc)
    ultimately show ?thesis using Cons.IH [of k'] Cons.prems(1,2,4) Suc by simp
  qed
qed simp

lemma take_originals_all:
  "\<forall>m\<in>set ms. fnPtr m \<noteq> 0 \<longrightarrow> find_original new old (fnPtr m) = Some (g m) \<Longrightarrow>
     take_originals new old ms =
       (map (\<lambda>m. if fnPtr m = 0 then m else m\<lparr>fnPtr := g m\<rparr>) ms, length (filter (\<lambda>m. fnPtr m \<noteq> 0) ms))"
  by (induction ms) auto

lemma settled_props [simp]:
  "native_key (settled slot m) = native_key m"
  "fnPtr (settled slot m) \<noteq> 0 \<longleftrightarrow> (\<exists>k. takes slot m k)"
  by (auto simp: settled_def native_key_def takes_def)

lemma apart_unique:
  "apart slot ms \<Longrightarrow> m \<in> set ms \<Longrightarrow> x \<in> set ms \<Longrightarrow> takes slot m k \<Longrightarrow> takes slot x k \<Longrightarrow> m = x"
  by (induction ms) (auto simp: apart_Cons)

lemma fresh_unique:
  "distinct (map fnPtr (filter (\<lambda>m. fnPtr m \<noteq> 0) ms)) \<Longrightarrow> m \<in> set ms \<Longrightarrow> x \<in> set ms \<Longrightarrow>
     fnPtr m \<noteq> 0 \<Longrightarrow> fnPtr m = fnPtr x \<Longrightarrow> m = x"
  by (induction ms) (auto simp: image_iff split: if_splits)

lemma hook_class_effect:
  assumes laws: "jvm_laws (jvm (w s)) clazz slot" and run: "hook_class_methods clazz ms s = Some (n, ms', s1)"
    and ap: "apart slot ms" and fr: "fresh ms ns" and ns: "ns = getNativeMethods (jvm (w s)) (jst s) clazz"
  shows "ms' = map (given_back slot ns) ms \<and> n = length (filter (\<lambda>m. \<exists>k. takes slot m k) ms) \<and>
    s1 = s\<lparr>jst := jst s1\<rparr> \<and> length (getNativeMethods (jvm (w s)) (jst s1) clazz) = length ns \<and>
    (\<forall>i<length ns. getNativeMethods (jvm (w s)) (jst s1) clazz ! i =
       (case find (\<lambda>m. takes slot m i) ms of
          None \<Rightarrow> ns ! i | Some m \<Rightarrow> (ns ! i)\<lparr>fnPtr := fnPtr m\<rparr>))"
proof -
  obtain ms1 j1 where r: "register_methods (jvm (w s)) clazz ms (jst s) = (ms1, j1)" by fastforce
  define nn where "nn = getNativeMethods (jvm (w s)) j1 clazz"
  have s1: "s1 = s\<lparr>jst := j1\<rparr>" and t: "take_originals nn ns ms1 = (ms', n)"
    using run r by (auto simp: hook_class_methods_def get_jni_methods_def register_jni_methods_def
        get_hook_def ns nn_def split: Option.bind_splits if_splits prod.splits)
  from register_methods_effect [OF laws r ap, folded ns nn_def] have
    e: "ms1 = map (settled slot) ms" "length nn = length ns"
      "\<forall>i<length ns. nn ! i = (case find (\<lambda>m. takes slot m i) ms of
        None \<Rightarrow> ns ! i | Some m \<Rightarrow> (ns ! i)\<lparr>fnPtr := fnPtr m\<rparr>)" by auto
  have keys: "native_key (nn ! i) = native_key (ns ! i)" if "i < length ns" for i
    using e(3) that by (auto simp: native_key_def split: option.split)
  have dist: "distinct (map native_key ns)" using laws by (simp add: jvm_laws_def ns)
  have orig: "find_original nn ns (fnPtr m) = Some (fnPtr (ns ! k))"
    if m: "m \<in> set ms" "takes slot m k" for m k
  proof -
    have k: "k < length ns" using laws m(2) by (auto simp: jvm_laws_def takes_def ns)
    have one: "fnPtr (nn ! i) = fnPtr m \<longleftrightarrow> i = k" if i: "i < length ns" for i
    proof
      assume "i = k"
      moreover have "find (\<lambda>m. takes slot m k) ms = Some m"
        using find_unique [OF m(1), of "\<lambda>m. takes slot m k"] m(2) apart_unique [OF ap m(1) _ m(2)] by auto
      ultimately show "fnPtr (nn ! i) = fnPtr m" using k e(3) by simp
    next
      assume eq: "fnPtr (nn ! i) = fnPtr m"
      have nz: "fnPtr m \<noteq> 0" using m(2) by (simp add: takes_def)
      show "i = k"
      proof (cases "find (\<lambda>m. takes slot m i) ms")
        case None
        then have "fnPtr (ns ! i) = fnPtr m" using e(3) i eq by simp
        with fr m(1) nz i show ?thesis unfolding fresh_def by (metis image_eqI nth_mem)
      next
        case (Some x)
        then have x: "x \<in> set ms" "takes slot x i" using find_holds [OF Some] by simp_all
        have ptr: "fnPtr m = fnPtr x" using Some e(3) i eq by simp
        have "distinct (map fnPtr (filter (\<lambda>m. fnPtr m \<noteq> 0) ms))" using fr by (simp add: fresh_def)
        from fresh_unique [OF this m(1) x(1) nz ptr] have "m = x" .
        with x(2) m(2) show ?thesis by (simp add: takes_def)
      qed
    qed
    have "find (\<lambda>x. mname x = mname (nn ! k) \<and> msig x = msig (nn ! k)) ns = Some (ns ! k)"
      using find_key [OF dist k, of "nn ! k"] keys [OF k] by simp
    with find_original_at [of k nn "fnPtr m" ns "ns ! k"] one k e(2) show ?thesis by auto
  qed
  define g where "g m = fnPtr (ns ! the (slot (native_key m)))" for m
  have "\<forall>m\<in>set ms1. fnPtr m \<noteq> 0 \<longrightarrow> find_original nn ns (fnPtr m) = Some (g m)"
  proof (intro ballI impI)
    fix m assume "m \<in> set ms1" "fnPtr m \<noteq> 0"
    then obtain x k where x: "x \<in> set ms" "m = settled slot x" "takes slot x k" by (auto simp: e(1))
    then have "fnPtr m = fnPtr x" "native_key m = native_key x" by (auto simp: settled_def takes_def)
    with orig [OF x(1,3)] x(3) show "find_original nn ns (fnPtr m) = Some (g m)"
      by (simp add: g_def takes_def)
  qed
  from take_originals_all [OF this] t have t':
    "ms' = map (\<lambda>m. if fnPtr m = 0 then m else m\<lparr>fnPtr := g m\<rparr>) ms1"
    "n = length (filter (\<lambda>m. fnPtr m \<noteq> 0) ms1)" by simp_all
  have "(if fnPtr (settled slot m) = 0 then settled slot m
      else (settled slot m)\<lparr>fnPtr := g (settled slot m)\<rparr>) = given_back slot ns m" for m
    by (auto simp: given_back_def g_def settled_def native_key_def split: option.split)
  then have m': "ms' = map (given_back slot ns) ms" unfolding t'(1) e(1) by simp
  have n: "n = length (filter (\<lambda>m. \<exists>k. takes slot m k) ms)"
    unfolding t'(2) e(1) by (simp only: filter_map comp_def settled_props length_map)
  have j: "s1 = s\<lparr>jst := jst s1\<rparr>" unfolding s1 by simp
  have nn: "nn = getNativeMethods (jvm (w s)) (jst s1) clazz" unfolding nn_def s1 by simp
  show ?thesis by (intro conjI m' n j e(2,3) [unfolded nn])
qed

section \<open>Putting the natives back\<close>

definition bound_natives :: "jni_method list \<Rightarrow> bool" where
  "bound_natives ns \<longleftrightarrow> (\<forall>x\<in>set ns. fnPtr x \<noteq> 0)"

lemma given_back_key [simp]: "native_key (given_back slot ns m) = native_key m"
  by (auto simp: given_back_def native_key_def split: option.split)

lemma given_back_takes:
  assumes "bound_natives ns" "\<forall>m k. slot (native_key m) = Some k \<longrightarrow> k < length ns"
  shows "takes slot (given_back slot ns m) k \<longleftrightarrow> takes slot m k"
  using assms by (auto simp: given_back_def takes_def bound_natives_def native_key_def split: option.splits)

lemma apart_given_back:
  "\<forall>m k. takes slot (f m) k \<longleftrightarrow> takes slot m k \<Longrightarrow> apart slot (map f ms) \<longleftrightarrow> apart slot ms"
proof (induction ms)
  case (Cons m ms)
  then show ?case by (auto simp: apart_Cons)
qed (simp add: apart_def map_filter_simps)

lemma find_map_takes:
  "\<forall>m. takes slot (f m) k \<longleftrightarrow> takes slot m k \<Longrightarrow>
     find (\<lambda>m. takes slot m k) (map f ms) = map_option f (find (\<lambda>m. takes slot m k) ms)"
  by (induction ms) auto

text \<open>
  The natives with a set of replacements in place: the slot of each holds its pointer, every other
  slot holds what it held before.
\<close>

definition replaced :: "(string \<times> string \<Rightarrow> nat option) \<Rightarrow> jni_method list \<Rightarrow> jni_method set \<Rightarrow>
    jni_method list \<Rightarrow> bool" where
  "replaced slot ns M cur \<longleftrightarrow> length cur = length ns \<and>
     (\<forall>i<length ns. (\<forall>m\<in>M. takes slot m i \<longrightarrow> cur ! i = (ns ! i)\<lparr>fnPtr := fnPtr m\<rparr>) \<and>
        ((\<forall>m\<in>M. \<not> takes slot m i) \<longrightarrow> cur ! i = ns ! i))"

lemma replaced_none: "replaced slot ns {} cur \<longleftrightarrow> cur = ns"
  by (auto simp: replaced_def intro: nth_equalityI)

lemma find_takes_none: "find P ms = None \<Longrightarrow> \<forall>m\<in>set ms. \<not> P m"
  by (induction ms) (auto split: if_splits)

definition disjoint_slots :: "(string \<times> string \<Rightarrow> nat option) \<Rightarrow> jni_method set \<Rightarrow> jni_method set \<Rightarrow> bool" where
  "disjoint_slots slot A B \<longleftrightarrow> (\<forall>a\<in>A. \<forall>b\<in>B. \<forall>k. takes slot a k \<longrightarrow> \<not> takes slot b k)"

text \<open>A step that puts a list in place, seen from the natives of the beginning.\<close>

lemma replaced_step:
  assumes "replaced slot ns M cur" "disjoint_slots slot M (set ms)" "apart slot ms"
    and "length nxt = length cur"
    and nxt: "\<forall>i<length cur. nxt ! i = (case find (\<lambda>m. takes slot m i) ms of
       None \<Rightarrow> cur ! i | Some m \<Rightarrow> (cur ! i)\<lparr>fnPtr := fnPtr m\<rparr>)"
  shows "replaced slot ns (M \<union> set ms) nxt"
  unfolding replaced_def
proof (intro conjI allI impI)
  show "length nxt = length ns" using assms(1,4) by (simp add: replaced_def)
  fix i assume i: "i < length ns"
  then have ic: "i < length cur" using assms(1) by (simp add: replaced_def)
  show "\<forall>m\<in>M \<union> set ms. takes slot m i \<longrightarrow> nxt ! i = (ns ! i)\<lparr>fnPtr := fnPtr m\<rparr>"
  proof (intro ballI impI)
    fix m assume m: "m \<in> M \<union> set ms" "takes slot m i"
    show "nxt ! i = (ns ! i)\<lparr>fnPtr := fnPtr m\<rparr>"
    proof (cases "find (\<lambda>m. takes slot m i) ms")
      case None
      then have "m \<in> M" using m find_takes_none by blast
      with m(2) assms(1) i None ic nxt show ?thesis by (simp add: replaced_def)
    next
      case (Some x)
      note x = find_holds [OF Some]
      then have "m \<in> set ms" using m assms(2) by (auto simp: disjoint_slots_def)
      then have "m = x" using apart_unique [OF assms(3)] x m(2) by blast
      moreover have "cur ! i = ns ! i"
        using assms(1,2) i x by (auto simp: replaced_def disjoint_slots_def)
      ultimately show ?thesis using Some nxt ic by simp
    qed
  qed
  show "nxt ! i = ns ! i" if "\<forall>m\<in>M \<union> set ms. \<not> takes slot m i"
  proof -
    have "find (\<lambda>m. takes slot m i) ms = None" using that by (auto simp: find_None_iff)
    with that nxt ic assms(1) i show ?thesis by (auto simp: replaced_def)
  qed
qed

text \<open>Registering what was handed back takes a list out again.\<close>

lemma replaced_unstep:
  assumes rep: "replaced slot ns (M \<union> set ms) cur" and dis: "disjoint_slots slot M (set ms)"
    and ap: "apart slot ms" and b: "bound_natives ns" and laws: "jvm_laws v clazz slot"
    and cur: "getNativeMethods v j clazz = cur"
    and r: "register_methods v clazz (map (given_back slot ns) ms) j = (ms', j')"
  shows "replaced slot ns M (getNativeMethods v j' clazz)"
proof -
  have len: "length cur = length ns" using rep by (simp add: replaced_def)
  have bound: "\<forall>m k. slot (native_key m) = Some k \<longrightarrow> k < length ns"
    using laws len cur by (metis jvm_laws_def)
  note tk = given_back_takes [OF b bound]
  have "apart slot (map (given_back slot ns) ms)"
    using apart_given_back [of slot "given_back slot ns" ms] ap tk by simp
  from register_methods_effect [OF laws r this, unfolded cur len] have
    e: "length (getNativeMethods v j' clazz) = length ns"
      "\<forall>i<length ns. getNativeMethods v j' clazz ! i =
        (case find (\<lambda>m. takes slot m i) (map (given_back slot ns) ms) of
           None \<Rightarrow> cur ! i | Some m \<Rightarrow> (cur ! i)\<lparr>fnPtr := fnPtr m\<rparr>)" by blast+
  have f: "find (\<lambda>m. takes slot m i) (map (given_back slot ns) ms) =
      map_option (given_back slot ns) (find (\<lambda>m. takes slot m i) ms)" for i
    by (rule find_map_takes) (simp add: tk)
  have at: "getNativeMethods v j' clazz ! i = (if \<exists>m\<in>set ms. takes slot m i then ns ! i else cur ! i)"
    if i: "i < length ns" for i
  proof (cases "find (\<lambda>m. takes slot m i) ms")
    case None
    then show ?thesis using e(2) i f find_takes_none [OF None] by auto
  next
    case (Some m)
    note m = find_holds [OF Some]
    then have "fnPtr (given_back slot ns m) = fnPtr (ns ! i)" by (simp add: given_back_def takes_def)
    moreover have "cur ! i = (ns ! i)\<lparr>fnPtr := fnPtr m\<rparr>" using rep m i by (auto simp: replaced_def)
    ultimately show ?thesis using Some e(2) i f m by auto
  qed
  show ?thesis
    unfolding replaced_def
  proof (intro conjI allI impI)
    fix i assume i: "i < length ns"
    show "\<forall>m\<in>M. takes slot m i \<longrightarrow> getNativeMethods v j' clazz ! i = (ns ! i)\<lparr>fnPtr := fnPtr m\<rparr>"
      using at [OF i] rep i dis by (auto simp: replaced_def disjoint_slots_def)
    show "getNativeMethods v j' clazz ! i = ns ! i" if "\<forall>m\<in>M. \<not> takes slot m i"
      using at [OF i] rep i that by (auto simp: replaced_def)
  qed (rule e(1))
qed

text \<open>
  C5: Replacing natives and registering what was handed back is the identity on the class. Of the
  replacements whose name and signature the JVM knows exactly those are counted, each gets the
  function pointer it displaced, every other gets a null pointer, and registering that list again
  puts every native of the class back, whatever order the natives are listed in.
\<close>

theorem natives_restored:
  assumes laws: "jvm_laws (jvm (w s)) clazz slot" and run: "hook_class_methods clazz ms s = Some (n, ms', s1)"
    and "ns = getNativeMethods (jvm (w s)) (jst s) clazz" "apart slot ms" "fresh ms ns" "bound_natives ns"
  shows "ms' = map (given_back slot ns) ms \<and> n = length (filter (\<lambda>m. \<exists>k. takes slot m k) ms) \<and>
    getNativeMethods (jvm (w s)) (jst (snd (register_jni_methods clazz ms' s1))) clazz = ns"
proof -
  note e = hook_class_effect [OF laws run assms(4,5,3)]
  then have ms': "ms' = map (given_back slot ns) ms" by blast
  have "replaced slot ns ({} \<union> set ms) (getNativeMethods (jvm (w s)) (jst s1) clazz)"
    by (rule replaced_step [where cur = ns]) (use e assms(4) in \<open>auto simp: replaced_none disjoint_slots_def\<close>)
  note put = this
  obtain ms2 j2 where r: "register_methods (jvm (w s)) clazz (map (given_back slot ns) ms) (jst s1) = (ms2, j2)"
    by fastforce
  have "getNativeMethods (jvm (w s)) j2 clazz = ns"
    using replaced_unstep [OF put _ assms(4,6) laws refl r] by (simp add: replaced_none disjoint_slots_def)
  moreover have "s1 = s\<lparr>jst := jst s1\<rparr>" using e by blast
  from arg_cong [OF this, of w] have "w s1 = w s" by simp
  ultimately show ?thesis using e r by (simp add: register_jni_methods_def ms')
qed

text \<open>A class with one native, whose function pointer is the JVM's state.\<close>

definition one_jvm :: "jni_method list jvm_ops" where
  "one_jvm = demo_jvm\<lparr>
     getNativeMethods := (\<lambda>j c. [\<lparr>mname = ''m'', msig = ''s'', fnPtr = (case j of [] \<Rightarrow> 0 | m # r \<Rightarrow> fnPtr m)\<rparr>]),
     RegisterNative := (\<lambda>j c m. if native_key m = (''m'', ''s'') then (True, [m]) else (False, j))\<rparr>"

definition one_slot :: "string \<times> string \<Rightarrow> nat option" where
  "one_slot k = (if k = (''m'', ''s'') then Some 0 else None)"

lemma one_laws: "jvm_laws one_jvm c one_slot"
  by (auto simp: jvm_laws_def one_jvm_def one_slot_def native_key_def put_native_def split: option.split)

definition demo_one :: "jni_method list zyg" where
  "demo_one = demo_zyg\<lparr>w := demo_world\<lparr>jvm := one_jvm\<rparr>, jst := [\<lparr>mname = ''m'', msig = ''s'', fnPtr = 7\<rparr>]\<rparr>"

lemma demo_one_world: "jvm (w demo_one) = one_jvm" "jst demo_one = [\<lparr>mname = ''m'', msig = ''s'', fnPtr = 7\<rparr>]"
  by (simp_all add: demo_one_def)

definition demo_natives :: "jni_method list" where
  "demo_natives = [\<lparr>mname = ''m'', msig = ''s'', fnPtr = 100\<rparr>, \<lparr>mname = ''m'', msig = ''x'', fnPtr = 101\<rparr>]"

theorem natives_restored_witness:
  "\<exists>s1. hook_class_methods 1 demo_natives demo_one = Some (1,
       [\<lparr>mname = ''m'', msig = ''s'', fnPtr = 7\<rparr>, \<lparr>mname = ''m'', msig = ''x'', fnPtr = 0\<rparr>], s1) \<and>
     getNativeMethods one_jvm (jst (snd (register_jni_methods 1
       [\<lparr>mname = ''m'', msig = ''s'', fnPtr = 7\<rparr>, \<lparr>mname = ''m'', msig = ''x'', fnPtr = 0\<rparr>] s1))) 1 =
       [\<lparr>mname = ''m'', msig = ''s'', fnPtr = 7\<rparr>]"
proof -
  let ?ms = "[\<lparr>mname = ''m'', msig = ''s'', fnPtr = 7\<rparr>, \<lparr>mname = ''m'', msig = ''x'', fnPtr = 0\<rparr>]"
  let ?s = "demo_one\<lparr>jst := [\<lparr>mname = ''m'', msig = ''s'', fnPtr = 100\<rparr>]\<rparr>"
  have hook: "get_hook demo_one = Some demo_hook" "get_hook ?s = Some demo_hook" "runtime_callbacks demo_hook = 1"
    by (simp_all add: get_hook_def demo_one_def demo_zyg_def demo_hook_def)
  have run: "hook_class_methods 1 demo_natives demo_one = Some (1, ?ms, ?s)"
    by (simp add: hook_class_methods_def get_jni_methods_def hook register_jni_methods_def demo_one_world
        demo_natives_def one_jvm_def native_key_def)
  have laws: "jvm_laws (jvm (w demo_one)) 1 one_slot" by (simp add: demo_one_world one_laws)
  have ns: "[\<lparr>mname = ''m'', msig = ''s'', fnPtr = 7\<rparr>] = getNativeMethods (jvm (w demo_one)) (jst demo_one) 1"
    by (simp add: demo_one_world one_jvm_def)
  have ap: "apart one_slot demo_natives" "fresh demo_natives [\<lparr>mname = ''m'', msig = ''s'', fnPtr = 7\<rparr>]"
      "bound_natives [\<lparr>mname = ''m'', msig = ''s'', fnPtr = 7\<rparr>]"
    by (simp_all add: apart_def demo_natives_def one_slot_def native_key_def map_filter_simps fresh_def
        bound_natives_def)
  note undone = natives_restored [OF laws run ns ap, THEN conjunct2, THEN conjunct2, unfolded demo_one_world]
  from run undone show ?thesis by (intro exI conjI)
qed

section \<open>The natives of Zygote\<close>

text \<open>
  What the tables have to be: every entry carries the name of its native, no two entries of a table
  take the same slot, all function pointers are different, and none is a native's.
\<close>

definition pointers_apart :: "(jtable \<Rightarrow> jni_method list) \<Rightarrow> jni_method list \<Rightarrow> bool" where
  "pointers_apart T ns \<longleftrightarrow>
     (\<forall>t u. \<forall>m\<in>set (T t). \<forall>x\<in>set (T u). fnPtr m \<noteq> 0 \<longrightarrow> fnPtr m = fnPtr x \<longrightarrow> t = u) \<and>
     (\<forall>t. fresh (T t) ns)"

definition tables_ok :: "(string \<times> string \<Rightarrow> nat option) \<Rightarrow> (jtable \<Rightarrow> jni_method list) \<Rightarrow> jni_method list \<Rightarrow> bool" where
  "tables_ok slot T ns \<longleftrightarrow> (\<forall>t. apart slot (T t)) \<and>
     (\<forall>t. \<forall>m\<in>set (T t). table_of (mname m) = Some t) \<and> pointers_apart T ns"

definition in_place :: "(jtable \<Rightarrow> jni_method list) \<Rightarrow> jtable set \<Rightarrow> jni_method set" where
  "in_place T R = (\<Union>t\<in>R. set (T t))"

text \<open>
  A state in which the tables of \<open>R\<close> are in place: they hold what was handed back; those of \<open>U\<close> are
  as at the beginning.
\<close>

definition hooked :: "(string \<times> string \<Rightarrow> nat option) \<Rightarrow> (jtable \<Rightarrow> jni_method list) \<Rightarrow> jni_method list \<Rightarrow>
    'j world \<Rightarrow> nat \<Rightarrow> jtable set \<Rightarrow> jtable set \<Rightarrow> 'j zyg \<Rightarrow> bool" where
  "hooked slot T ns wo clazz R U s \<longleftrightarrow> w s = wo \<and> get_hook s \<noteq> None \<and>
     replaced slot ns (in_place T R) (getNativeMethods (jvm wo) (jst s) clazz) \<and>
     (\<forall>t\<in>R. table_methods t s = map (given_back slot ns) (T t)) \<and> (\<forall>t\<in>U. table_methods t s = T t)"

lemma disjoint_tables:
  assumes "tables_ok slot T ns" "jvm_laws v clazz slot" "t \<notin> R"
  shows "disjoint_slots slot (in_place T R) (set (T t))"
  unfolding disjoint_slots_def in_place_def
proof (intro ballI allI impI notI)
  fix a b k
  assume a: "a \<in> (\<Union>t\<in>R. set (T t))" and b: "b \<in> set (T t)" and k: "takes slot a k" "takes slot b k"
  have "mname a = mname b" using k assms(2) by (metis jvm_laws_def takes_def)
  moreover obtain u where u: "u \<in> R" "a \<in> set (T u)" using a by auto
  moreover have "table_of (mname a) = Some u" "table_of (mname b) = Some t"
    using assms(1) u(2) b by (auto simp: tables_ok_def)
  ultimately show False using assms(3) by simp
qed

lemma fresh_in_place:
  assumes ok: "tables_ok slot T ns" and rep: "replaced slot ns (in_place T R) cur" and t: "t \<notin> R"
  shows "fresh (T t) cur"
proof -
  have "fnPtr m \<notin> fnPtr ` set cur" if m: "m \<in> set (T t)" "fnPtr m \<noteq> 0" for m
  proof
    assume "fnPtr m \<in> fnPtr ` set cur"
    then obtain i where i: "i < length ns" "fnPtr m = fnPtr (cur ! i)"
      using rep by (auto simp: in_set_conv_nth replaced_def)
    show False
    proof (cases "\<exists>x\<in>in_place T R. takes slot x i")
      case True
      then obtain x u where x: "u \<in> R" "x \<in> set (T u)" "takes slot x i" by (auto simp: in_place_def)
      with rep i have "fnPtr m = fnPtr x" by (auto simp: replaced_def in_place_def)
      with ok m x(2) have "t = u" unfolding tables_ok_def pointers_apart_def by blast
      with x(1) t show False by simp
    next
      case False
      with rep i have "fnPtr m \<in> fnPtr ` set ns" by (auto simp: replaced_def)
      with ok m show False unfolding tables_ok_def pointers_apart_def fresh_def by blast
    qed
  qed
  with ok show ?thesis by (auto simp: fresh_def tables_ok_def pointers_apart_def)
qed

lemma given_back_cong:
  assumes "replaced slot ns M cur" "disjoint_slots slot M (set ms)" "jvm_laws v clazz slot"
    and "cur = getNativeMethods v j clazz" "m \<in> set ms"
  shows "given_back slot cur m = given_back slot ns m"
proof (cases "slot (native_key m)")
  case (Some k)
  have "k < length ns" using law_slot [OF assms(3) Some, of j] assms(1,4) by (simp add: replaced_def)
  moreover have "\<forall>a\<in>M. \<not> takes slot a k" if "fnPtr m \<noteq> 0"
    using assms(2,5) Some that by (auto simp: disjoint_slots_def takes_def)
  ultimately show ?thesis using assms(1) Some by (auto simp: given_back_def replaced_def)
qed (simp add: given_back_def)

lemma set_table_simps [simp]:
  "w (set_table t ms s) = w s" "jst (set_table t ms s) = jst s"
  "get_hook s \<noteq> None \<Longrightarrow> table_methods u (set_table t ms s) = (if u = t then ms else table_methods u s)"
  "get_hook (set_table t ms s) = None \<longleftrightarrow> get_hook s = None"
  by (auto simp: set_table_def upd_hook_def table_methods_def get_hook_def split: ptr.splits)

lemma table_methods_jst [simp]: "table_methods t (s\<lparr>jst := j\<rparr>) = table_methods t s"
  "get_hook (s\<lparr>jst := j\<rparr>) = get_hook s"
  by (simp_all add: table_methods_def get_hook_def)

text \<open>A table some entry of which the JVM has a native for.\<close>

definition hookable :: "(string \<times> string \<Rightarrow> nat option) \<Rightarrow> jni_method list \<Rightarrow> bool" where
  "hookable slot ms \<longleftrightarrow> (\<exists>m\<in>set ms. \<exists>k. takes slot m k)"

lemma hook_table:
  assumes ok: "tables_ok slot T ns" and laws: "jvm_laws (jvm wo) clazz slot"
    and st: "hooked slot T ns wo clazz R U s" and t: "t \<notin> R" "t \<in> U"
    and run: "hook_class_methods clazz (table_methods t s) s = Some (n, tab, s1)"
  shows "hooked slot T ns wo clazz (insert t R) (U - {t}) (set_table t tab s1)"
    and "n = 0 \<longleftrightarrow> \<not> hookable slot (T t)"
proof -
  define cur where "cur = getNativeMethods (jvm wo) (jst s) clazz"
  have w: "w s = wo" and tab: "table_methods t s = T t" and rep: "replaced slot ns (in_place T R) cur"
    using st t(2) by (simp_all add: hooked_def cur_def)
  have ap: "apart slot (T t)" using ok by (simp add: tables_ok_def)
  note dis = disjoint_tables [OF ok laws t(1)]
  have "jvm_laws (jvm (w s)) clazz slot" "cur = getNativeMethods (jvm (w s)) (jst s) clazz"
    using laws w by (simp_all add: cur_def)
  note e = hook_class_effect [OF this(1) run [unfolded tab] ap fresh_in_place [OF ok rep t(1)] this(2),
      unfolded w]
  have "map (given_back slot cur) (T t) = map (given_back slot ns) (T t)"
    using given_back_cong [OF rep dis laws cur_def] by simp
  then have tab': "tab = map (given_back slot ns) (T t)" using e by simp
  have "replaced slot ns (in_place T R \<union> set (T t)) (getNativeMethods (jvm wo) (jst s1) clazz)"
    by (rule replaced_step [OF rep dis ap]) (use e in blast)+
  then have r: "replaced slot ns (in_place T (insert t R)) (getNativeMethods (jvm wo) (jst s1) clazz)"
    by (simp add: in_place_def Un_commute)
  have s1: "s1 = s\<lparr>jst := jst s1\<rparr>" using e by blast
  have f: "w s1 = wo" "get_hook s1 = get_hook s" "table_methods u s1 = table_methods u s" for u
    using arg_cong [OF s1, of w] arg_cong [OF s1, of get_hook] arg_cong [OF s1, of "table_methods u"] w
    by simp_all
  show "hooked slot T ns wo clazz (insert t R) (U - {t}) (set_table t tab s1)"
    using st r f t(1) by (auto simp: hooked_def tab')
  have "n = length (filter (\<lambda>m. \<exists>k. takes slot m k) (T t))" using e by blast
  then show "n = 0 \<longleftrightarrow> \<not> hookable slot (T t)" by (auto simp: filter_empty_conv hookable_def)
qed

text \<open>Registering a table that is in place takes it out; one that takes no slot changes nothing.\<close>

lemma register_out:
  assumes ok: "tables_ok slot T ns" and laws: "jvm_laws (jvm wo) clazz slot" and b: "bound_natives ns"
    and st: "hooked slot T ns wo clazz R U s" and t: "t \<in> R" "t \<notin> U"
  shows "hooked slot T ns wo clazz (R - {t}) U (register_table clazz t s)"
proof -
  have w: "w s = wo" and g: "get_hook s \<noteq> None" and tab: "table_methods t s = map (given_back slot ns) (T t)"
    and rep: "replaced slot ns (in_place T R) (getNativeMethods (jvm wo) (jst s) clazz)"
    using st t(1) by (auto simp: hooked_def)
  obtain ms' j' where r: "register_methods (jvm wo) clazz (map (given_back slot ns) (T t)) (jst s) = (ms', j')"
    by fastforce
  have "in_place T R = in_place T (R - {t}) \<union> set (T t)" using t(1) by (auto simp: in_place_def)
  with rep have rep': "replaced slot ns (in_place T (R - {t}) \<union> set (T t)) (getNativeMethods (jvm wo) (jst s) clazz)"
    by simp
  have "apart slot (T t)" using ok by (simp add: tables_ok_def)
  from replaced_unstep [OF rep' disjoint_tables [OF ok laws] this b laws refl r] have
    "replaced slot ns (in_place T (R - {t})) (getNativeMethods (jvm wo) j' clazz)" by simp
  then show ?thesis
    using st w g t r by (auto simp: hooked_def register_table_def register_jni_methods_def tab)
qed

lemma register_idle:
  assumes laws: "jvm_laws (jvm wo) clazz slot" and st: "hooked slot T ns wo clazz R U s"
    and t: "t \<notin> R" "t \<notin> U" and none: "\<forall>m\<in>set (table_methods t s). \<forall>k. \<not> takes slot m k"
  shows "hooked slot T ns wo clazz R U (register_table clazz t s)"
proof -
  have w: "w s = wo" and g: "get_hook s \<noteq> None" using st by (simp_all add: hooked_def)
  obtain ms' j' where r: "register_methods (jvm wo) clazz (table_methods t s) (jst s) = (ms', j')" by fastforce
  have nf: "find (\<lambda>m. takes slot m i) (table_methods t s) = None" for i
    using none by (simp add: find_None_iff)
  have "List.map_filter (\<lambda>m. if fnPtr m = 0 then None else slot (native_key m)) ms = []"
    if "\<forall>m\<in>set ms. \<forall>k. \<not> takes slot m k" for ms
    using that by (induction ms) (auto simp: map_filter_simps takes_def split: option.split)
  then have "apart slot (table_methods t s)" using none by (simp add: apart_def)
  from register_methods_effect [OF laws r this] nf have
    "getNativeMethods (jvm wo) j' clazz = getNativeMethods (jvm wo) (jst s) clazz"
    by (intro nth_equalityI) simp_all
  then show ?thesis
    using st w g t r by (auto simp: hooked_def register_table_def register_jni_methods_def)
qed

lemma idle_cleared: "\<forall>m\<in>set (clear_methods ms). \<forall>k. \<not> takes slot m k"
  by (auto simp: clear_methods_def takes_def)

lemma hooked_clear:
  "hooked slot T ns wo clazz R U s \<Longrightarrow> t \<notin> R \<Longrightarrow> t \<notin> U \<Longrightarrow> hooked slot T ns wo clazz R U (clear_table t s)"
  by (auto simp: hooked_def clear_table_def)

lemma table_cleared: "get_hook s \<noteq> None \<Longrightarrow> table_methods t (clear_table t s) = clear_methods (table_methods t s)"
  by (simp add: clear_table_def)

text \<open>The loop over the natives: each table is hooked at most once.\<close>

definition tables_of :: "jni_method list \<Rightarrow> jtable list" where
  "tables_of ms = List.map_filter (\<lambda>m. table_of (mname m)) ms"

lemma hook_zygote_loop:
  assumes ok: "tables_ok slot T ns" and laws: "jvm_laws (jvm wo) clazz slot"
  shows "hook_zygote_methods clazz ms rep s = Some (res, rep', s') \<Longrightarrow>
    hooked slot T ns wo clazz (set rep) (- set rep) s \<Longrightarrow> distinct (tables_of ms) \<Longrightarrow>
    set (tables_of ms) \<inter> set rep = {} \<Longrightarrow>
    hooked slot T ns wo clazz (set rep') {} s' \<and>
    (res = None \<longrightarrow> hooked slot T ns wo clazz (set rep') (- set rep') s' \<and>
       set rep' = set rep \<union> set (tables_of ms)) \<and>
    (res = None \<longleftrightarrow> (\<forall>t\<in>set (tables_of ms). hookable slot (T t)))"
proof (induction ms arbitrary: rep s)
  case Nil
  then show ?case by (auto simp: tables_of_def map_filter_simps hooked_def)
next
  case (Cons m ms)
  show ?case
  proof (cases "table_of (mname m)")
    case None
    then have e: "tables_of (m # ms) = tables_of ms" by (simp add: tables_of_def map_filter_simps)
    have r: "hook_zygote_methods clazz ms rep s = Some (res, rep', s')" using Cons.prems(1) None by simp
    show ?thesis
      unfolding e by (rule Cons.IH [OF r Cons.prems(2) Cons.prems(3) [unfolded e] Cons.prems(4) [unfolded e]])
  next
    case (Some t)
    then have t: "t \<notin> set rep" "distinct (tables_of ms)" "set (tables_of ms) \<inter> set (t # rep) = {}"
      "tables_of (m # ms) = t # tables_of ms"
      using Cons.prems(3,4) by (auto simp: tables_of_def map_filter_simps)
    obtain n tab s1 where run: "hook_class_methods clazz (table_methods t s) s = Some (n, tab, s1)"
      using Cons.prems(1) Some by (auto split: Option.bind_splits)
    have "t \<in> - set rep" using t(1) by simp
    note h = hook_table [OF ok laws Cons.prems(2) t(1) this run]
    show ?thesis
    proof (cases "n = 0")
      case True
      then have out: "res = Some m" "rep' = rep" "s' = set_table t tab s1"
        using Cons.prems(1) Some run by simp_all
      have "in_place T (insert t (set rep)) = in_place T (set rep) \<union> set (T t)" by (auto simp: in_place_def)
      then have "hooked slot T ns wo clazz (set rep) {} s'"
        using h True by (auto simp: hooked_def out replaced_def hookable_def)
      with out True h(2) t(4) show ?thesis by simp
    next
      case False
      have "hooked slot T ns wo clazz (set (t # rep)) (- set (t # rep)) (set_table t tab s1)"
        using h(1) t(1) by (simp add: Compl_insert)
      with Cons.IH [of "t # rep" "set_table t tab s1"] Cons.prems(1) Some run False t h(2) show ?thesis
        by (auto simp: Let_def)
    qed
  qed
qed

lemma register_other: "u \<noteq> t \<Longrightarrow> get_hook s \<noteq> None \<Longrightarrow> table_methods u (register_table clazz t s) = table_methods u s"
  by (simp add: register_table_def register_jni_methods_def case_prod_beta)

lemma register_step:
  assumes "tables_ok slot T ns" "jvm_laws (jvm wo) clazz slot" "bound_natives ns"
    and "hooked slot T ns wo clazz R {} s"
    and "t \<notin> R \<Longrightarrow> \<forall>m\<in>set (table_methods t s). \<forall>k. \<not> takes slot m k"
  shows "hooked slot T ns wo clazz (R - {t}) {} (register_table clazz t s)"
  using register_out [OF assms(1-4)] register_idle [OF assms(2,4)] assms(5) by (cases "t \<in> R") auto

text \<open>Restoring, when every table is in place or takes no slot.\<close>

lemma restore_all:
  assumes ok: "tables_ok slot T ns" "jvm_laws (jvm wo) clazz slot" "bound_natives ns"
    and st: "hooked slot T ns wo clazz R {} s"
    and idle: "\<forall>t. t \<notin> R \<longrightarrow> (\<forall>m\<in>set (table_methods t s). \<forall>k. \<not> takes slot m k)"
    and cl: "FindClass (jvm wo) (jst s) kZygote = clazz" and run: "restore_zygote_hook s = Some s'"
  shows "getNativeMethods (jvm wo) (jst s') clazz = ns"
proof -
  define a where "a = register_table clazz Fork_app s"
  define b where "b = register_table clazz Specialize_app a"
  define c where "c = register_table clazz Fork_server b"
  have g: "get_hook s \<noteq> None" "w s = wo" using st by (simp_all add: hooked_def)
  have s': "s' = c" using run g cl by (auto simp: restore_zygote_hook_def a_def b_def c_def)
  have "hooked slot T ns wo clazz (R - {Fork_app}) {} a"
    unfolding a_def by (rule register_step [OF ok st]) (use idle in blast)
  note ha = this
  have ga: "get_hook a \<noteq> None" using ha by (simp add: hooked_def)
  have "hooked slot T ns wo clazz (R - {Fork_app} - {Specialize_app}) {} b"
    unfolding b_def by (rule register_step [OF ok ha]) (use idle g in \<open>simp add: a_def register_other\<close>)
  note hb = this
  have "hooked slot T ns wo clazz (R - {Fork_app} - {Specialize_app} - {Fork_server}) {} c"
    unfolding c_def by (rule register_step [OF ok hb])
      (use idle g ga in \<open>simp add: b_def register_other\<close>, use idle g in \<open>simp add: a_def register_other\<close>)
  moreover have "R - {Fork_app} - {Specialize_app} - {Fork_server} = {}" by (auto intro: jtable.exhaust)
  ultimately show ?thesis by (simp add: hooked_def in_place_def replaced_none s')
qed

lemma undo_all:
  assumes ok: "tables_ok slot T ns" "jvm_laws (jvm wo) clazz slot" "bound_natives ns"
    and st: "hooked slot T ns wo clazz (set rep) {} s"
  shows "hooked slot T ns wo clazz {} {} (undo_zygote_hooks clazz rep s) \<and>
    (\<forall>t. \<forall>m\<in>set (table_methods t (undo_zygote_hooks clazz rep s)). fnPtr m = 0)"
proof -
  define a where "a = (if Fork_app \<in> set rep then register_table clazz Fork_app s else s)"
  define b where "b = (if Specialize_app \<in> set rep then register_table clazz Specialize_app a else a)"
  define c where "c = (if Fork_server \<in> set rep then register_table clazz Fork_server b else b)"
  have ha: "hooked slot T ns wo clazz (set rep - {Fork_app}) {} a"
    unfolding a_def using register_out [OF ok st] st by auto
  have hb: "hooked slot T ns wo clazz (set rep - {Fork_app} - {Specialize_app}) {} b"
    unfolding b_def using register_out [OF ok ha] ha by auto
  have hc: "hooked slot T ns wo clazz (set rep - {Fork_app} - {Specialize_app} - {Fork_server}) {} c"
    unfolding c_def using register_out [OF ok hb] hb by auto
  have e: "set rep - {Fork_app} - {Specialize_app} - {Fork_server} = {}" by (auto intro: jtable.exhaust)
  have u: "undo_zygote_hooks clazz rep s =
      clear_table Fork_server (clear_table Specialize_app (clear_table Fork_app c))"
    by (simp add: undo_zygote_hooks_def a_def b_def c_def Let_def)
  have g: "get_hook c \<noteq> None" using hc by (simp add: hooked_def)
  have "\<forall>m\<in>set (table_methods t (undo_zygote_hooks clazz rep s)). fnPtr m = 0" for t
    unfolding u using g by (cases t) (auto simp: clear_table_def clear_methods_def)
  moreover have "hooked slot T ns wo clazz {} {} (undo_zygote_hooks clazz rep s)"
    unfolding u using hc e by (simp add: hooked_clear)
  ultimately show ?thesis by simp
qed

lemma find_get_vms_frame:
  "find_get_vms s = (r, s') \<Longrightarrow> w s' = w s \<and> jst s' = jst s \<and> g_hook s' = g_hook s"
  by (auto simp: find_get_vms_def read_maps_def logop_def split: if_splits option.splits prod.splits list.splits)

text \<open>
  The class with every native of the three names replaced: each has the pointer of the entry of its
  table that takes its place, and no other native is touched.
\<close>

definition all_replaced :: "(string \<times> string \<Rightarrow> nat option) \<Rightarrow> (jtable \<Rightarrow> jni_method list) \<Rightarrow> jni_method list \<Rightarrow>
    jni_method list \<Rightarrow> bool" where
  "all_replaced slot T ns cur \<longleftrightarrow> length cur = length ns \<and>
     (\<forall>i<length ns. case table_of (mname (ns ! i)) of
        None \<Rightarrow> cur ! i = ns ! i
      | Some t \<Rightarrow> \<exists>m\<in>set (T t). takes slot m i \<and> cur ! i = (ns ! i)\<lparr>fnPtr := fnPtr m\<rparr>)"

lemma distinct_tables:
  "distinct (tables_of ns) \<Longrightarrow> i < length ns \<Longrightarrow> j < length ns \<Longrightarrow> table_of (mname (ns ! i)) = Some t \<Longrightarrow>
     table_of (mname (ns ! j)) = Some t \<Longrightarrow> i = j"
proof (induction ns arbitrary: i j)
  case (Cons n ns)
  have mem: "t \<in> set (tables_of ns)" if "k < length ns" "table_of (mname (ns ! k)) = Some t" for k
    using that nth_mem [of k ns] by (force simp: tables_of_def List.map_filter_def)
  have "t \<notin> set (tables_of ns)" if "table_of (mname n) = Some t"
    using Cons.prems(1) that by (simp add: tables_of_def)
  moreover have "distinct (tables_of ns)"
    using Cons.prems(1) by (simp add: tables_of_def split: option.splits)
  ultimately show ?case
    using Cons.prems Cons.IH [of "i - 1" "j - 1"] mem [of "i - 1"] mem [of "j - 1"]
    by (cases i; cases j) auto
qed simp

lemma all_replaced:
  assumes ok: "tables_ok slot T ns" and laws: "jvm_laws v clazz slot" and ns: "ns = getNativeMethods v j clazz"
    and d: "distinct (tables_of ns)" and all: "\<forall>t\<in>set (tables_of ns). hookable slot (T t)"
    and rep: "replaced slot ns (in_place T (set (tables_of ns))) cur"
  shows "all_replaced slot T ns cur"
  unfolding all_replaced_def
proof (intro conjI allI impI)
  show "length cur = length ns" using rep by (simp add: replaced_def)
  fix i assume i: "i < length ns"
  have owner: "t = u" if "m \<in> set (T u)" "takes slot m i" "table_of (mname (ns ! i)) = Some t" for m t u
    using ok that law_slot [OF laws, of m i j] ns by (auto simp: tables_ok_def takes_def)
  show "case table_of (mname (ns ! i)) of
      None \<Rightarrow> cur ! i = ns ! i
    | Some t \<Rightarrow> \<exists>m\<in>set (T t). takes slot m i \<and> cur ! i = (ns ! i)\<lparr>fnPtr := fnPtr m\<rparr>"
  proof (cases "table_of (mname (ns ! i))")
    case None
    then have "\<not> takes slot m i" if "m \<in> set (T u)" for m u
      using ok that law_slot [OF laws, of m i j] ns by (auto simp: tables_ok_def takes_def)
    then have "cur ! i = ns ! i" using rep i by (auto simp: replaced_def in_place_def)
    with None show ?thesis by simp
  next
    case (Some t)
    then have mem: "t \<in> set (tables_of ns)" using i nth_mem [of i ns] by (force simp: tables_of_def List.map_filter_def)
    with all obtain m k where m: "m \<in> set (T t)" "takes slot m k" by (auto simp: hookable_def)
    have "k < length ns" "mname (ns ! k) = mname m" "table_of (mname m) = Some t"
      using law_slot [OF laws, of m k j] m ok ns by (auto simp: takes_def tables_ok_def)
    with distinct_tables [OF d i _ Some] have "k = i" by metis
    moreover have "cur ! i = (ns ! i)\<lparr>fnPtr := fnPtr m\<rparr>" if "k = i"
      using rep i m mem that by (auto simp: replaced_def in_place_def)
    ultimately show ?thesis using Some m by auto
  qed
qed

text \<open>
  C4: Hooking Zygote is all or nothing, and can be taken back. When each native of the three names that
  the class has can be hooked, every one of them has its replacement, no other native is touched, and
  the entries of the tables hold what was displaced. When one of them cannot be hooked, the ones hooked
  before it are put back: the natives are what they were, and the tables are cleared, so that nothing
  refers to a displaced function. In both cases the restoration in the child leaves every native of the
  class as it was before the program touched it.
\<close>

theorem zygote_hooks_undone:
  assumes laws: "jvm_laws (jvm (w s)) clazz slot" and cl: "\<forall>j. FindClass (jvm (w s)) j kZygote = clazz"
    and ns: "ns = getNativeMethods (jvm (w s)) (jst s) clazz" and b: "bound_natives ns"
    and h: "get_hook s = Some h" and ok: "tables_ok slot (jni_tables h) ns" and d: "distinct (tables_of ns)"
    and vm: "fst (find_get_vms s)" "java_vm (w s)"
    and run: "hook_zygote_jni s = Some s1" "restore_zygote_hook s1 = Some s2"
  shows "(if \<forall>t\<in>set (tables_of ns). hookable slot (jni_tables h t)
      then all_replaced slot (jni_tables h) ns (getNativeMethods (jvm (w s)) (jst s1) clazz) \<and>
        (\<forall>t. table_methods t s1 =
          (if t \<in> set (tables_of ns) then map (given_back slot ns) (jni_tables h t) else jni_tables h t))
      else getNativeMethods (jvm (w s)) (jst s1) clazz = ns \<and> (\<forall>t. \<forall>m\<in>set (table_methods t s1). fnPtr m = 0)) \<and>
    getNativeMethods (jvm (w s)) (jst s2) clazz = ns"
proof -
  let ?H = "hooked slot (jni_tables h) ns (w s) clazz"
  obtain s0 where v: "find_get_vms s = (True, s0)" using vm(1) by (cases "find_get_vms s") auto
  note f = find_get_vms_frame [OF v]
  have g0: "get_hook s0 = Some h" using f h by (simp add: get_hook_def)
  have natives: "get_jni_methods clazz s0 = Some l \<Longrightarrow> l = ns" for l
    using f ns by (auto simp: get_jni_methods_def split: Option.bind_splits if_splits)
  have start: "?H (set []) (- set []) s0"
    using f g0 ns by (simp add: hooked_def in_place_def replaced_none table_methods_def)
  obtain res rep s' where loop: "hook_zygote_methods clazz ns [] s0 = Some (res, rep, s')"
    and s1: "s1 = (if res = None then s' else undo_zygote_hooks clazz rep s')"
    using run(1) v vm(2) f cl by (auto simp: hook_zygote_jni_def dest!: natives split: Option.bind_splits if_splits)
  from hook_zygote_loop [OF ok laws loop start d] have
    l: "?H (set rep) {} s'" "res = None \<longrightarrow> ?H (set rep) (- set rep) s' \<and> set rep = set (tables_of ns)"
      "res = None \<longleftrightarrow> (\<forall>t\<in>set (tables_of ns). hookable slot (jni_tables h t))" by auto
  show ?thesis
  proof (cases "res = None")
    case False
    with s1 undo_all [OF ok laws b l(1)] have u: "?H {} {} s1" "\<forall>t. \<forall>m\<in>set (table_methods t s1). fnPtr m = 0" by auto
    then have "\<forall>t. t \<notin> {} \<longrightarrow> (\<forall>m\<in>set (table_methods t s1). \<forall>k. \<not> takes slot m k)" by (auto simp: takes_def)
    from restore_all [OF ok laws b u(1) this cl [rule_format] run(2)]
    have "getNativeMethods (jvm (w s)) (jst s2) clazz = ns" .
    moreover have "getNativeMethods (jvm (w s)) (jst s1) clazz = ns"
      using u(1) by (simp add: hooked_def in_place_def replaced_none)
    moreover note u(2)
    moreover have "\<not> (\<forall>t\<in>set (tables_of ns). hookable slot (jni_tables h t))" using l(3) False by blast
    ultimately show ?thesis by (simp only: if_False)
  next
    case True
    with s1 l have h1: "?H (set rep) (- set rep) s1" and r: "set rep = set (tables_of ns)" by auto
    have "\<not> takes slot m k" if t: "t \<notin> set rep" "m \<in> set (table_methods t s1)" for t m k
    proof
      assume tk: "takes slot m k"
      have "m \<in> set (jni_tables h t)" using h1 t by (simp add: hooked_def)
      then have "table_of (mname m) = Some t" using ok by (simp add: tables_ok_def)
      moreover have "k < length ns \<and> mname (ns ! k) = mname m"
        using law_slot [OF laws, of m k "jst s"] tk ns by (simp add: takes_def)
      ultimately have "ns ! k \<in> set ns" "table_of (mname (ns ! k)) = Some t" by simp_all
      then have "t \<in> set (tables_of ns)" by (force simp: tables_of_def List.map_filter_def)
      with t(1) r show False by simp
    qed
    then have "\<forall>t. t \<notin> set rep \<longrightarrow> (\<forall>m\<in>set (table_methods t s1). \<forall>k. \<not> takes slot m k)" by blast
    moreover have h2: "?H (set rep) {} s1" using h1 by (simp add: hooked_def)
    ultimately have "getNativeMethods (jvm (w s)) (jst s2) clazz = ns"
      using restore_all [OF ok laws b _ _ cl [rule_format] run(2)] by blast
    moreover have all: "\<forall>t\<in>set (tables_of ns). hookable slot (jni_tables h t)" using l(3) True by blast
    moreover have "all_replaced slot (jni_tables h) ns (getNativeMethods (jvm (w s)) (jst s1) clazz)"
      using all_replaced [OF ok laws ns d all] h2 r by (simp add: hooked_def)
    moreover have "table_methods t s1 =
        (if t \<in> set (tables_of ns) then map (given_back slot ns) (jni_tables h t) else jni_tables h t)" for t
      using h1 r by (simp add: hooked_def)
    ultimately show ?thesis by simp
  qed
qed

text \<open>A Zygote with one of the three natives.\<close>

definition server_native :: "u64 \<Rightarrow> jni_method" where
  "server_native p = \<lparr>mname = kForkServer, msig = ''s'', fnPtr = p\<rparr>"

definition zygote_jvm :: "jni_method list jvm_ops" where
  "zygote_jvm = demo_jvm\<lparr>
     getNativeMethods := (\<lambda>j c. [server_native (case j of [] \<Rightarrow> 0 | m # r \<Rightarrow> fnPtr m)]),
     RegisterNative := (\<lambda>j c m. if native_key m = (kForkServer, ''s'') then (True, [m]) else (False, j))\<rparr>"

definition zygote_slot :: "string \<times> string \<Rightarrow> nat option" where
  "zygote_slot k = (if k = (kForkServer, ''s'') then Some 0 else None)"

lemma zygote_laws: "jvm_laws zygote_jvm c zygote_slot"
  by (auto simp: jvm_laws_def zygote_jvm_def zygote_slot_def native_key_def put_native_def
      server_native_def split: option.split)

definition zygote_hook :: HookContext where
  "zygote_hook = demo_hook\<lparr>jni_tables := (\<lambda>t. if t = Fork_server then [server_native 100] else [])\<rparr>"

definition demo_zygote :: "jni_method list zyg" where
  "demo_zygote = demo_zyg\<lparr>w := demo_world\<lparr>jvm := zygote_jvm\<rparr>, jst := [server_native 7],
     g_hook := Live zygote_hook\<rparr>"

lemma demo_zygote_fields:
  "jvm (w demo_zygote) = zygote_jvm" "jst demo_zygote = [server_native 7]" "g_hook demo_zygote = Live zygote_hook"
  "get_vms_default (w demo_zygote)" "java_vm (w demo_zygote)" "jni_env (w demo_zygote)"
  by (simp_all add: demo_zygote_def demo_world_def)

lemma zygote_names: "table_of kForkServer = Some Fork_server"
  by (simp add: table_of_def kForkApp_def kSpecializeApp_def kForkServer_def)

text \<open>
  A Zygote with two of them, the second of a signature no entry of its table has: it cannot be hooked
  after the first has been.
\<close>

definition app_native :: "u64 \<Rightarrow> jni_method" where
  "app_native p = \<lparr>mname = kForkApp, msig = ''s'', fnPtr = p\<rparr>"

definition half_jvm :: "jni_method list jvm_ops" where
  "half_jvm = demo_jvm\<lparr>
     getNativeMethods := (\<lambda>j c. [app_native (case j of [] \<Rightarrow> 0 | m # r \<Rightarrow> fnPtr m), (server_native 9)\<lparr>msig := ''t''\<rparr>]),
     RegisterNative := (\<lambda>j c m. if native_key m = (kForkApp, ''s'') then (True, [m]) else (False, j))\<rparr>"

definition half_slot :: "string \<times> string \<Rightarrow> nat option" where
  "half_slot k = (if k = (kForkApp, ''s'') then Some 0 else None)"

lemma names_apart: "kForkApp \<noteq> kForkServer" "kForkServer \<noteq> kForkApp"
  by (simp_all add: kForkApp_def kForkServer_def)

lemma half_laws: "jvm_laws half_jvm c half_slot"
  by (auto simp: jvm_laws_def half_jvm_def half_slot_def native_key_def put_native_def
      server_native_def app_native_def names_apart split: option.split)

definition half_hook :: HookContext where
  "half_hook = demo_hook\<lparr>jni_tables := (\<lambda>t. case t of
     Fork_app \<Rightarrow> [app_native 200] | Specialize_app \<Rightarrow> [] | Fork_server \<Rightarrow> [server_native 100])\<rparr>"

definition half_zygote :: "jni_method list zyg" where
  "half_zygote = demo_zyg\<lparr>w := demo_world\<lparr>jvm := half_jvm\<rparr>, jst := [app_native 7],
     g_hook := Live half_hook\<rparr>"

lemma half_zygote_fields:
  "jvm (w half_zygote) = half_jvm" "jst half_zygote = [app_native 7]" "g_hook half_zygote = Live half_hook"
  "get_vms_default (w half_zygote)" "java_vm (w half_zygote)" "jni_env (w half_zygote)"
  by (simp_all add: half_zygote_def demo_world_def)

lemma app_name: "table_of kForkApp = Some Fork_app"
  by (simp add: table_of_def)

definition half_natives :: "jni_method list" where
  "half_natives = [app_native 7, (server_native 9)\<lparr>msig := ''t''\<rparr>]"

lemma half_zygote_ok:
  "half_natives = getNativeMethods (jvm (w half_zygote)) (jst half_zygote) 1"
  "\<forall>j. FindClass (jvm (w half_zygote)) j kZygote = 1" "bound_natives half_natives" "get_hook half_zygote = Some half_hook"
  "tables_of half_natives = [Fork_app, Fork_server]"
  "fst (find_get_vms half_zygote)" "java_vm (w half_zygote)"
  by (simp_all add: half_zygote_fields half_natives_def half_jvm_def demo_jvm_def app_native_def
      server_native_def bound_natives_def get_hook_def tables_of_def app_name zygote_names find_get_vms_def)

lemma half_tables: "tables_ok half_slot (jni_tables half_hook) half_natives"
  by (auto simp: tables_ok_def half_hook_def pointers_apart_def apart_def fresh_def half_natives_def
      server_native_def app_native_def zygote_names app_name half_slot_def native_key_def names_apart
      split: jtable.splits option.split)

lemma half_unhookable: "\<not> hookable half_slot (jni_tables half_hook Fork_server)"
  by (simp add: hookable_def takes_def half_hook_def half_slot_def native_key_def server_native_def names_apart)

text \<open>The first is replaced before the loop meets the second.\<close>

lemma half_first_hooked:
  "\<exists>s'. hook_zygote_methods 1 [app_native 7] [] half_zygote = Some (None, [Fork_app], s') \<and>
     getNativeMethods half_jvm (jst s') 1 ! 0 = app_native 200"
  by (simp add: half_zygote_fields get_jni_methods_def get_hook_def hook_class_methods_def half_hook_def
      demo_hook_def half_jvm_def demo_jvm_def server_native_def app_native_def app_name table_methods_def
      register_jni_methods_def native_key_def set_table_def upd_hook_def names_apart Let_def)

theorem zygote_hooks_undone_witness:
  "(\<exists>s1 s2. hook_zygote_jni demo_zygote = Some s1 \<and> restore_zygote_hook s1 = Some s2 \<and>
     getNativeMethods zygote_jvm (jst s1) 1 = [server_native 100] \<and>
     getNativeMethods zygote_jvm (jst s2) 1 = [server_native 7]) \<and>
   (\<exists>s1 s2. hook_zygote_jni half_zygote = Some s1 \<and> restore_zygote_hook s1 = Some s2 \<and>
     getNativeMethods half_jvm (jst s1) 1 = half_natives \<and>
     (\<forall>t. \<forall>m\<in>set (table_methods t s1). fnPtr m = 0) \<and> getNativeMethods half_jvm (jst s2) 1 = half_natives)"
proof (intro conjI)
  show "\<exists>s1 s2. hook_zygote_jni demo_zygote = Some s1 \<and> restore_zygote_hook s1 = Some s2 \<and>
     getNativeMethods zygote_jvm (jst s1) 1 = [server_native 100] \<and>
     getNativeMethods zygote_jvm (jst s2) 1 = [server_native 7]"
  proof -
    have ns: "[server_native 7] = getNativeMethods (jvm (w demo_zygote)) (jst demo_zygote) 1"
      by (simp add: demo_zygote_fields zygote_jvm_def server_native_def)
    have cl: "\<forall>j. FindClass (jvm (w demo_zygote)) j kZygote = 1"
      by (simp add: demo_zygote_fields zygote_jvm_def demo_jvm_def)
    have laws: "jvm_laws (jvm (w demo_zygote)) 1 zygote_slot" by (simp add: demo_zygote_fields zygote_laws)
    have b: "bound_natives [server_native 7]" by (simp add: bound_natives_def server_native_def)
    have h: "get_hook demo_zygote = Some zygote_hook" by (simp add: get_hook_def demo_zygote_fields)
    have ok: "tables_ok zygote_slot (jni_tables zygote_hook) [server_native 7]"
      by (auto simp: tables_ok_def zygote_hook_def pointers_apart_def apart_def fresh_def map_filter_simps
          server_native_def zygote_names split: option.split)
    have d: "distinct (tables_of [server_native 7])"
      by (simp add: tables_of_def map_filter_simps server_native_def zygote_names)
    have vm: "fst (find_get_vms demo_zygote)" "java_vm (w demo_zygote)"
      by (simp_all add: find_get_vms_def demo_zygote_fields)
    obtain s1 where s1: "hook_zygote_jni demo_zygote = Some s1" "jst s1 = [server_native 100]" "w s1 = w demo_zygote"
        "get_hook s1 \<noteq> None"
      by (simp add: hook_zygote_jni_def find_get_vms_def demo_zygote_fields get_jni_methods_def get_hook_def
          hook_class_methods_def zygote_hook_def demo_hook_def zygote_jvm_def demo_jvm_def server_native_def
          zygote_names table_methods_def register_jni_methods_def native_key_def set_table_def upd_hook_def Let_def)
    then obtain s2 where s2: "restore_zygote_hook s1 = Some s2" by (auto simp: restore_zygote_hook_def Let_def)
    from zygote_hooks_undone [OF laws cl ns b h ok d vm s1(1) s2]
    have "getNativeMethods zygote_jvm (jst s2) 1 = [server_native 7]" by (simp add: demo_zygote_fields)
    moreover have "getNativeMethods zygote_jvm (jst s1) 1 = [server_native 100]"
      by (simp add: s1(2) zygote_jvm_def server_native_def)
    ultimately show ?thesis using s1(1) s2 by (intro exI conjI)
  qed
  show "\<exists>s1 s2. hook_zygote_jni half_zygote = Some s1 \<and> restore_zygote_hook s1 = Some s2 \<and>
     getNativeMethods half_jvm (jst s1) 1 = half_natives \<and>
     (\<forall>t. \<forall>m\<in>set (table_methods t s1). fnPtr m = 0) \<and> getNativeMethods half_jvm (jst s2) 1 = half_natives"
  proof -
    obtain s1 where s1: "hook_zygote_jni half_zygote = Some s1" "get_hook s1 \<noteq> None"
      by (simp add: hook_zygote_jni_def find_get_vms_def half_zygote_fields get_jni_methods_def get_hook_def
          hook_class_methods_def half_hook_def demo_hook_def half_jvm_def demo_jvm_def server_native_def
          app_native_def zygote_names app_name table_methods_def register_jni_methods_def native_key_def
          names_apart set_table_def upd_hook_def undo_zygote_hooks_def register_table_def clear_table_def Let_def)
    then obtain s2 where s2: "restore_zygote_hook s1 = Some s2" by (auto simp: restore_zygote_hook_def Let_def)
    have laws: "jvm_laws (jvm (w half_zygote)) 1 half_slot" by (simp add: half_zygote_fields half_laws)
    have "distinct (tables_of half_natives)" unfolding half_zygote_ok(5) by simp
    from zygote_hooks_undone [OF laws half_zygote_ok(2,1,3,4) half_tables this half_zygote_ok(6,7) s1(1) s2]
    have "getNativeMethods half_jvm (jst s1) 1 = half_natives" "\<forall>t. \<forall>m\<in>set (table_methods t s1). fnPtr m = 0"
      "getNativeMethods half_jvm (jst s2) 1 = half_natives"
      unfolding half_zygote_ok(5) half_zygote_fields(1) by (simp_all add: half_unhookable)
    with s1(1) s2 show ?thesis by (intro exI conjI)
  qed
qed

end
