(* ===== verification/UnloadProps.thy ===== *)
theory UnloadProps
  imports ContextProps
begin

text \<open>
  The end of the program in a child: the destructor of the context arms the unloading, and the next
  \<^verbatim>\<open>pthread_attr_destroy\<close> of the main thread carries it out.
\<close>

section \<open>Restoring\<close>

text \<open>The registrations that put the original functions back, for the hooks that can be.\<close>

definition accepted :: "'j zyg \<Rightarrow> u64 \<times> nat \<times> plt_fn \<Rightarrow> bool" where
  "accepted s e \<longleftrightarrow> (case e of (d, ino, f) \<Rightarrow> d \<noteq> 0 \<and> ino \<noteq> 0 \<and> read_ptr f s \<noteq> 0)"

definition restoring :: "'j zyg \<Rightarrow> u64 \<times> nat \<times> plt_fn \<Rightarrow> RegisterInfo" where
  "restoring s e = (case e of (d, ino, f) \<Rightarrow>
     \<lparr>reg_dev = d, reg_inode = ino, range_lo = 0, range_hi = -1, symbol = bytes_of (plt_symbol f),
      reg_callback = read_ptr f s, reg_backup = 0\<rparr>)"

lemma bytes_of_symbol: "bytes_of (plt_symbol f) \<noteq> []"
  by (cases f) (simp_all add: bytes_of_def)

lemma accepted_info [simp]: "accepted (s\<lparr>register_info := r\<rparr>) = accepted s"
  by (auto simp: accepted_def read_ptr_def fun_eq_iff)

lemma restoring_info [simp]: "restoring (s\<lparr>register_info := r\<rparr>) = restoring s"
  by (auto simp: restoring_def read_ptr_def fun_eq_iff)

lemma restore_registrations_effect:
  "restore_registrations es ok s =
     (ok \<and> list_all (accepted s) es,
      s\<lparr>register_info := register_info s @ map (restoring s) (filter (accepted s) es)\<rparr>)"
proof (induction es arbitrary: ok s)
  case (Cons e es)
  obtain d ino f where e: "e = (d, ino, f)" by (cases e)
  have reg: "RegisterHook d ino (bytes_of (plt_symbol f)) (read_ptr f s) 0 s =
      (accepted s e, if accepted s e then s\<lparr>register_info := register_info s @ [restoring s e]\<rparr> else s)"
    by (simp add: RegisterHook_def bytes_of_symbol accepted_def restoring_def e)
  show ?case
    unfolding e restore_registrations.simps reg [unfolded e] Let_def prod.case Cons.IH
    by (cases "accepted s (d, ino, f)") simp_all
qed simp

text \<open>The state in which the restoration is committed.\<close>

definition to_restore :: "HookContext \<Rightarrow> 'j zyg \<Rightarrow> 'j zyg" where
  "to_restore h s =
     s\<lparr>register_info := register_info s @ map (restoring s) (filter (accepted s) (plt_backup h))\<rparr>"

lemma restore_plt_hook_effect:
  assumes "get_hook s = Some h"
  shows "restore_plt_hook s = (case CommitHook (to_restore h s) of
     None \<Rightarrow> None
   | Some (good, s') \<Rightarrow>
       Some (if list_all (accepted s) (plt_backup h) \<and> good then s'
             else upd_hook (\<lambda>h. h\<lparr>should_unmap := False\<rparr>) s'))"
  using assms
  by (simp add: restore_plt_hook_def restore_registrations_effect to_restore_def split: option.split)

section \<open>The context's destructor arms the unloading\<close>

definition armed :: "u64 \<Rightarrow> u32 \<Rightarrow> u32 \<Rightarrow> 'j zyg \<Rightarrow> bool" where
  "armed sh tid pid s \<longleftrightarrow> (\<exists>h. get_hook s = Some h \<and> should_unmap h \<and> self_handle h = sh) \<and>
     self_tid s = tid \<and> self_pid s = pid"

lemma armed_upd:
  "armed sh t p s \<Longrightarrow> (\<And>h. should_unmap (f h) = should_unmap h) \<Longrightarrow> (\<And>h. self_handle (f h) = self_handle h) \<Longrightarrow>
     armed sh t p (upd_hook f s)"
  by (auto simp: armed_def upd_hook_def get_hook_def split: ptr.splits)

lemma armed_outer: "armed sh t p s \<Longrightarrow> outer s' = outer (s :: 'j zyg) \<Longrightarrow> armed sh t p s'"
  by (drule outer_zyg) (auto simp: armed_def get_hook_def)

lemma armed_register_table: "armed sh t p s \<Longrightarrow> armed sh t p (register_table c tb s)"
  unfolding register_table_def register_jni_methods_def set_table_def Let_def case_prod_beta
  by (rule armed_upd) (auto simp: armed_def get_hook_def)

lemma armed_restore: "armed sh t p s \<Longrightarrow> restore_zygote_hook s = Some s' \<Longrightarrow> armed sh t p s'"
  by (auto simp: restore_zygote_hook_def Let_def split: Option.bind_splits intro!: armed_register_table)

lemma armed_register_hook: "armed sh t p s \<Longrightarrow> armed sh t p (register_hook d i f s)"
proof -
  assume a: "armed sh t p s"
  let ?r = "RegisterHook d i (bytes_of (plt_symbol f)) (new_addr (w s) f) (old_addr (w s) f) s"
  have "armed sh t p (snd ?r)" by (rule armed_outer [OF a outer_RegisterHook])
  then show ?thesis
    unfolding register_hook_def Let_def case_prod_beta by (auto intro: armed_upd)
qed

lemma armed_hook_unloader: "armed sh t p s \<Longrightarrow> hook_unloader s = Some s' \<Longrightarrow> armed sh t p s'"
proof -
  assume a: "armed sh t p s" and run: "hook_unloader s = Some s'"
  obtain d i r where c: "CommitHook (register_hook d i Pf_attr_destroy (snd (read_maps s))) = Some (r, s')"
    using run by (auto simp: hook_unloader_def Let_def case_prod_beta split: Option.bind_splits)
  have "armed sh t p (register_hook d i Pf_attr_destroy (snd (read_maps s)))"
    by (rule armed_register_hook [OF armed_outer [OF a outer_read_maps]])
  from armed_outer [OF this outer_CommitHook [OF c]] show ?thesis .
qed

lemma armed_delete:
  assumes "delete_ZygiskContext s = Some (mods, s1)" "g_ctx s = Some c" "is_child c" "get_hook s = Some h"
  shows "armed (self_handle h) (self_tid s) (self_pid s) s1"
proof -
  obtain s2 where r: "restore_zygote_hook (upd_hook (\<lambda>h. h\<lparr>should_unmap := True\<rparr>) (s\<lparr>g_ctx := None\<rparr>)) = Some s2"
      "hook_unloader s2 = Some s1"
    using assms by (auto simp: delete_ZygiskContext_def Let_def split: Option.bind_splits)
  have "armed (self_handle h) (self_tid s) (self_pid s)
      (upd_hook (\<lambda>h. h\<lparr>should_unmap := True\<rparr>) (s\<lparr>g_ctx := None\<rparr>))"
    using assms(4) by (auto simp: armed_def upd_hook_def get_hook_def split: ptr.splits)
  from armed_hook_unloader [OF armed_restore [OF this r(1)] r(2)] show ?thesis .
qed

text \<open>The hooks the context remembers: the destructor can only add the one on \<^verbatim>\<open>pthread_attr_destroy\<close>.\<close>

definition backups_of :: "'j zyg \<Rightarrow> (u64 \<times> nat \<times> plt_fn) list option" where
  "backups_of s = map_option plt_backup (get_hook s)"

lemma backups_upd: "(\<And>h. plt_backup (f h) = plt_backup h) \<Longrightarrow> backups_of (upd_hook f s) = backups_of s"
  by (simp add: backups_of_def upd_hook_def get_hook_def split: ptr.split)

lemma backups_outer: "outer s' = outer (s :: 'j zyg) \<Longrightarrow> backups_of s' = backups_of s"
  by (drule outer_zyg) (simp add: backups_of_def get_hook_def)

lemma backups_register_table: "backups_of (register_table c tb s) = backups_of s"
proof -
  have "backups_of (register_table c tb s) = backups_of (snd (register_jni_methods c (table_methods tb s) s))"
    unfolding register_table_def set_table_def Let_def case_prod_beta by (rule backups_upd) simp
  then show ?thesis by (simp add: register_jni_methods_def case_prod_beta backups_of_def get_hook_def)
qed

lemma backups_restore: "restore_zygote_hook s = Some s' \<Longrightarrow> backups_of s' = backups_of s"
  by (auto simp: restore_zygote_hook_def Let_def backups_register_table split: Option.bind_splits)

lemma backups_unloader:
  assumes "hook_unloader s = Some s'" "backups_of s = Some b"
  shows "\<exists>d i. backups_of s' \<in> {Some b, Some (b @ [(d, i, Pf_attr_destroy)])}"
proof -
  obtain d i r where c: "CommitHook (register_hook d i Pf_attr_destroy (snd (read_maps s))) = Some (r, s')"
    using assms(1) by (auto simp: hook_unloader_def Let_def case_prod_beta split: Option.bind_splits)
  let ?m = "snd (read_maps s)"
  let ?r = "RegisterHook d i (bytes_of (plt_symbol Pf_attr_destroy)) (new_addr (w ?m) Pf_attr_destroy)
      (old_addr (w ?m) Pf_attr_destroy) ?m"
  have "backups_of (snd ?r) = Some b"
    using assms(2) by (simp add: backups_outer [OF outer_RegisterHook] backups_outer [OF outer_read_maps])
  then have "backups_of (register_hook d i Pf_attr_destroy ?m) \<in> {Some b, Some (b @ [(d, i, Pf_attr_destroy)])}"
    by (auto simp: register_hook_def Let_def case_prod_beta backups_of_def upd_hook_def get_hook_def split: ptr.splits)
  then show ?thesis using backups_outer [OF outer_CommitHook [OF c]] by auto
qed

lemma backups_delete:
  assumes "delete_ZygiskContext s = Some (mods, s1)" "g_ctx s = Some c" "is_child c" "get_hook s = Some h" "get_hook s1 = Some h1"
  shows "\<exists>d i. plt_backup h1 \<in> {plt_backup h, plt_backup h @ [(d, i, Pf_attr_destroy)]}"
proof -
  let ?s0 = "upd_hook (\<lambda>h. h\<lparr>should_unmap := True\<rparr>) (s\<lparr>g_ctx := None\<rparr>)"
  obtain s2 where r: "restore_zygote_hook ?s0 = Some s2" "hook_unloader s2 = Some s1"
    using assms by (auto simp: delete_ZygiskContext_def Let_def split: Option.bind_splits)
  have "backups_of ?s0 = backups_of (s\<lparr>g_ctx := None\<rparr>)" by (rule backups_upd) simp
  then have "backups_of s2 = Some (plt_backup h)"
    using backups_restore [OF r(1)] assms(4) by (simp add: backups_of_def get_hook_def)
  from backups_unloader [OF r(2) this] assms(5) show ?thesis by (simp add: backups_of_def)
qed

text \<open>
  C6: A child unloads the program, once. After the destructor of its context, the main thread's next
  \<^verbatim>\<open>pthread_attr_destroy\<close> calls the original, then commits one registration of the original function for
  every hook the context still remembers (all it had, and the one the destructor may add) that has a
  device, an inode and an original; these follow what was pending. The process is then exactly as that
  commit left it, in memory, hook table and everything else, but for the freed hook context; the library is
  closed, as the last operation, exactly when every hook could be registered and the commit succeeded. When
  it is not closed, the hooks that stay still point into the program. The next such call on the main
  thread uses the freed context.
\<close>

theorem child_unloads:
  assumes "delete_ZygiskContext s = Some (mods, s1)" "g_ctx s = Some c" "is_child c" "get_hook s = Some h"
    and "self_tid s = self_pid s" and call: "new_pthread_attr_destroy s1 = Some s2"
  shows "\<exists>h1 good s3. get_hook s1 = Some h1 \<and>
    (\<exists>d i. plt_backup h1 \<in> {plt_backup h, plt_backup h @ [(d, i, Pf_attr_destroy)]}) \<and>
    CommitHook (s1\<lparr>oslog := oslog s1 @ [OpOrigAttrDestroy],
      register_info := register_info s1 @ map (restoring s1) (filter (accepted s1) (plt_backup h1))\<rparr>) = Some (good, s3) \<and>
    s2 = s3\<lparr>g_hook := Freed, oslog := oslog s1 @ OpOrigAttrDestroy #
      (if good \<and> list_all (accepted s1) (plt_backup h1) then [OpDlclose (unat (self_handle h))] else [])\<rparr> \<and>
    new_pthread_attr_destroy s2 = None"
proof -
  define l where "l = logop OpOrigAttrDestroy s1"
  obtain h1 where h1: "get_hook s1 = Some h1" "should_unmap h1" "self_handle h1 = self_handle h"
    and tid: "self_tid s1 = self_pid s1"
    using armed_delete [OF assms(1-4)] assms(5) by (auto simp: armed_def)
  have gl: "get_hook l = Some h1" "self_tid l = self_pid l" "accepted l = accepted s1" "restoring l = restoring s1"
    "oslog l = oslog s1 @ [OpOrigAttrDestroy]"
    using h1 tid
    by (simp_all add: l_def logop_def get_hook_def accepted_def restoring_def read_ptr_def fun_eq_iff)
  have run: "do { s2 \<leftarrow> restore_plt_hook l;
        h2 \<leftarrow> get_hook s2;
        if should_unmap h2 then Some (logop (OpDlclose (unat (self_handle h2))) (s2\<lparr>g_hook := Freed\<rparr>))
        else Some (s2\<lparr>g_hook := Freed\<rparr>) } = Some s2"
    using call gl h1 by (auto simp: new_pthread_attr_destroy_def through_def l_def [symmetric] split: if_splits)
  obtain good s3 where c: "CommitHook (to_restore h1 l) = Some (good, s3)"
    using run gl by (auto simp: restore_plt_hook_effect split: Option.bind_splits option.splits)
  have o: "outer s3 = outer l"
    using outer_CommitHook [OF c] by (simp add: to_restore_def outer_simps)
  note f = outer_zyg [OF o]
  have g3: "g_hook s3 = Live h1" using f gl by (auto simp: get_hook_def split: ptr.splits)
  define fine where "fine \<longleftrightarrow> good \<and> list_all (accepted s1) (plt_backup h1)"
  have out: "s2 = (if fine then logop (OpDlclose (unat (self_handle h))) (s3\<lparr>g_hook := Freed\<rparr>)
      else (upd_hook (\<lambda>h. h\<lparr>should_unmap := False\<rparr>) s3)\<lparr>g_hook := Freed\<rparr>)"
    using run gl c h1 g3
    by (auto simp: restore_plt_hook_effect fine_def upd_hook_def get_hook_def split: if_splits)
  have log: "oslog s3 = oslog s1 @ [OpOrigAttrDestroy]" using f gl by simp
  have s2: "s2 = s3\<lparr>g_hook := Freed, oslog := oslog s1 @ OpOrigAttrDestroy #
      (if fine then [OpDlclose (unat (self_handle h))] else [])\<rparr>"
    using log g3 by (simp add: out logop_def upd_hook_def)
  have "self_tid s2 = self_pid s2" "g_hook s2 = Freed"
    using f gl by (simp_all add: s2)
  then have "new_pthread_attr_destroy s2 = None"
    by (auto simp: new_pthread_attr_destroy_def through_def logop_def get_hook_def)
  moreover have "to_restore h1 l = s1\<lparr>oslog := oslog s1 @ [OpOrigAttrDestroy],
      register_info := register_info s1 @ map (restoring s1) (filter (accepted s1) (plt_backup h1))\<rparr>"
    using gl by (simp add: to_restore_def) (simp add: l_def logop_def)
  ultimately show ?thesis
    using backups_delete [OF assms(1-4) h1(1)] c s2 unfolding fine_def
    by (intro exI [of _ h1] exI [of _ good] exI [of _ s3]) (simp add: h1(1))
qed

section \<open>A child with one hook\<close>

text \<open>
  The child hooked \<open>fork\<close> in the library of the example mapping: the slot at 0x7f0010 holds the address of
  the hooking function, 1, in a private copy of the mapping whose original pages, every byte 1, lie at
  0x900000. The reader of the library's image has been created: symbol 1 is \<open>fork\<close>, and the jump table has
  one relocation of it.
\<close>

definition child_bytes :: "(u64 \<times> u8) list" where
  "child_bytes =
     [(0x7f0011, 0), (0x7f0012, 0), (0x7f0013, 0), (0x7f0014, 0), (0x7f0015, 0), (0x7f0016, 0), (0x7f0017, 0),
      (0x5018, 8), (0x5019, 0), (0x501a, 0), (0x501b, 0),
      (0x4008, 0x66), (0x4009, 0x6f), (0x400a, 0x72), (0x400b, 0x6b), (0x400c, 0),
      (0x6000, 0x10), (0x6001, 0), (0x6002, 0), (0x6003, 0), (0x6004, 0), (0x6005, 0), (0x6006, 0), (0x6007, 0),
      (0x6008, 2), (0x6009, 4), (0x600a, 0), (0x600b, 0), (0x600c, 1), (0x600d, 0), (0x600e, 0), (0x600f, 0)]"

definition child_mem :: bmem where
  "child_mem a = (case map_of child_bytes a of Some b \<Rightarrow> b | None \<Rightarrow> 1)"

lemmas child_ld = child_mem_def child_bytes_def rd32_def rd64_def of_le32_def push_bit_eq_mult unsigned_ucast_eq

lemma child_loads:
  "rd64 child_mem 0 = 0x0101010101010101" "rd64 child_mem 0x7f0010 = 1"
  "rd32 child_mem 0x5000 = 0x01010101" "rd32 child_mem 0x5018 = 8"
  "rd64 child_mem 0x6000 = 0x10" "rd64 child_mem 0x6008 = 0x100000402"
  by (simp_all add: child_ld)

definition child_elf :: elf where
  "child_elf = (elf_zero 0x7f0000)\<lparr>bias_addr := 0x7f0000, dyn_str := 0x4000, dyn_sym := 0x5000, sym_offset := 2,
     is_use_rela := True, rel_plt := 0x6000, rel_plt_size := 24, valid := True\<rparr>"

definition child_entry :: HookInfo where
  "child_entry = map_info.extend demo_map \<lparr>hooks = [(0x7f0010, 0x0101010101010101)], backup = 0x900000,
     elf_ptr = Some child_elf, is_self = False\<rparr>"

definition child_maps :: string where
  "child_maps = show_map 253 1 '' '' demo_map @ [CHR 0x0A]"

lemma child_scan: "Scan (Some child_maps) = [demo_map]"
proof -
  have ok: "map_ok 253 1 '' '' demo_map" by (simp add: map_ok_def demo_map_def is_space_def)
  show ?thesis
    using getlines_line [OF show_map_no_newline [OF ok], of "[]"] parse_show_map [OF ok]
    by (simp add: Scan_def child_maps_def map_filter_simps getlines.simps [of "[]"])
qed

definition child_hook :: HookContext where
  "child_hook = demo_hook\<lparr>jni_tables := (\<lambda>t. []), plt_backup := [(makedev 253 1, 42, Pf_fork)]\<rparr>"

definition demo_child :: "jni_method list zyg" where
  "demo_child = demo_zyg\<lparr>g_ctx := Some demo_app_ctx, g_hook := Live child_hook, mem := child_mem,
     vm_fixed := [True], proc_maps := [Some child_maps, Some child_maps], kSelfInode := 9,
     hook_info := [(0x7f0000, child_entry)]\<rparr>"

definition demo_armed :: "jni_method list zyg" where
  "demo_armed = demo_child\<lparr>g_ctx := None, proc_maps := [Some child_maps],
     g_hook := Live (child_hook\<lparr>should_unmap := True\<rparr>)\<rparr>"

lemma demo_child_fields:
  "g_ctx demo_child = Some demo_app_ctx" "get_hook demo_child = Some child_hook"
  "self_tid demo_child = self_pid demo_child" "is_child demo_app_ctx"
  by (simp_all add: demo_child_def get_hook_def demo_zyg_def is_child_def demo_app_ctx_def)

lemma demo_child_deleted: "delete_ZygiskContext demo_child = Some ([], demo_armed)"
  by (simp add: delete_ZygiskContext_def demo_child_def demo_armed_def demo_defs demo_app_ctx_def demo_server_ctx_def
      is_child_def get_hook_def upd_hook_def restore_zygote_hook_def register_table_def register_jni_methods_def
      register_methods.simps set_table_def table_methods_def hook_unloader_def read_maps_def first_library_def
      register_hook_def RegisterHook_def CommitHook_def Let_def fun_upd_idem child_scan child_hook_def
      ends_with_def demo_map_def)

text \<open>What is registered, and the slot it has.\<close>

definition child_reg :: RegisterInfo where
  "child_reg = \<lparr>reg_dev = makedev 253 1, reg_inode = 42, range_lo = 0, range_hi = -1,
     symbol = [0x66, 0x6f, 0x72, 0x6b], reg_callback = 0x0101010101010101, reg_backup = 0\<rparr>"

lemma child_registered:
  "accepted demo_armed (makedev 253 1, 42, Pf_fork)"
  "restoring demo_armed (makedev 253 1, 42, Pf_fork) = child_reg"
  by (simp_all add: accepted_def restoring_def child_reg_def read_ptr_def demo_armed_def demo_child_def demo_defs
      child_loads makedev_def bytes_of_def)

lemma child_slots: "FindPltAddr Aarch64 child_mem child_elf [0x66, 0x6f, 0x72, 0x6b] = Some [0x7f0010]"
proof -
  have "LinearLookup child_mem child_elf [0x66, 0x6f, 0x72, 0x6b] = 1"
    by (simp add: LinearLookup_def child_elf_def elf_zero_def sym_is_def sym_name_def child_loads upt_rec)
      (simp add: child_ld)
  then have "lookup_symbol child_mem child_elf [0x66, 0x6f, 0x72, 0x6b] = Some 1"
    by (simp add: lookup_symbol_def GnuLookup_def ElfLookup_def) (simp add: child_elf_def elf_zero_def)
  moreover have "rel_addrs 24 0x6000 24 = [0x6000]" "rel_matches Aarch64 child_mem 1 True 0x6000"
    by (simp_all add: rel_addrs_def rel_matches_def Let_def ELF_R_SYM_def ELF_R_TYPE_def child_loads drop_bit_eq_div)
  ultimately show ?thesis
    by (simp add: FindPltAddr_def Let_def) (simp add: child_elf_def elf_zero_def child_loads)
qed

definition child_commit :: "jni_method list zyg" where
  "child_commit = demo_armed\<lparr>oslog := [OpOrigAttrDestroy], register_info := [child_reg]\<rparr>"

lemma child_committed:
  "\<exists>s3. CommitHook child_commit = Some (True, s3) \<and> rd64 (mem s3) 0x7f0010 = 0x0101010101010101 \<and>
     map (hooks \<circ> snd) (hook_info s3) = [[]]"
proof -
  let ?new = "(0x7f0000, map_info.extend demo_map \<lparr>hooks = [], backup = 0, elf_ptr = None, is_self = False\<rparr>)"
  let ?t = "child_commit\<lparr>proc_maps := []\<rparr>"
  have scan: "ScanHookInfo child_commit = ([?new], ?t)"
    by (simp add: ScanHookInfo_def read_maps_def child_commit_def demo_armed_def demo_child_def child_scan hookable_def
        new_entry_def demo_map_def PROT_READ_def hstart_def Let_def)
  have m: "Match (snd ?new) child_reg" "Match child_entry child_reg" "hoffset child_entry = range_lo child_reg"
    by (simp_all add: Match_def child_reg_def child_entry_def map_info.extend_def demo_map_def hoffset_def
        word_greater_zero_iff)
  have merged: "Merge (Filter (register_info ?t) [?new]) (hook_info ?t) = [(0x7f0000, child_entry)]"
    using m(1) by (simp add: Merge_def Filter_def merge_one_def child_commit_def demo_armed_def demo_child_def
        child_entry_def om_assign_def om_erase_def map_info.extend_def Let_def)
  have start: "CommitHook child_commit = DoHook_all (?t\<lparr>hook_info := [(0x7f0000, child_entry)]\<rparr>)"
  proof -
    have "register_info child_commit \<noteq> []" by (simp add: child_commit_def)
    then show ?thesis
      unfolding CommitHook_def scan Let_def prod.case merged by (simp only: if_False list.distinct)
  qed
  let ?u = "?t\<lparr>hook_info := [(0x7f0000, child_entry)]\<rparr>"
  have u: "mem ?u = child_mem" "abi ?u = Aarch64" "register_info ?u = [child_reg]" "vm_fixed ?u = [True]"
    by (simp_all add: child_commit_def demo_armed_def demo_child_def demo_defs)
  let ?m = "wr64 child_mem 0x7f0010 0x0101010101010101"
  define M where "M = (\<lambda>x. if x - 0x7f0000 < 0x2000 then ?m (0x900000 + (x - 0x7f0000))
      else if x - 0x900000 < 0x2000 then vacant ?u x else ?m x)"
  define s3 where "s3 = ?u\<lparr>vm_fixed := [], mem := M, register_info := [],
      hook_info := [(0x7f0000, child_entry\<lparr>hooks := [], backup := 0\<rparr>)]\<rparr>"
  have i: "hooks child_entry = [(0x7f0010, 0x0101010101010101)]" "backup child_entry = 0x900000" "\<not> is_self child_entry"
    "hstart child_entry = 0x7f0000" "hend child_entry = 0x7f2000" "hlen child_entry = 0x2000"
    "elf_ptr child_entry = Some child_elf"
    by (simp_all add: child_entry_def map_info.extend_def demo_map_def hstart_def hend_def hlen_def)
  have same: "child_entry\<lparr>elf_ptr := Some child_elf\<rparr> = child_entry" using i(7) by (cases child_entry) simp
  have i2: "hstart (child_entry\<lparr>hooks := []\<rparr>) = 0x7f0000" "hlen (child_entry\<lparr>hooks := []\<rparr>) = 0x2000"
    by (simp_all add: child_entry_def map_info.extend_def demo_map_def hstart_def hend_def hlen_def)
  have patched: "patch_slot 0x7f0010 0x0101010101010101 0 ?u = ?u\<lparr>mem := ?m\<rparr>"
    using u(1) by (simp add: patch_slot_def child_loads)
  have moved: "sys_mremap 0x900000 0x2000 0x7f0000 (?u\<lparr>mem := ?m\<rparr>) = (True, ?u\<lparr>vm_fixed := [], mem := M\<rparr>)"
    using u(4) by (simp add: sys_mremap_def vm_answer_def M_def cong: if_cong)
  have "hook_in 0x7f0010 0x0101010101010101 0 child_entry ?u =
      (True, child_entry\<lparr>hooks := [], backup := 0\<rparr>, ?u\<lparr>vm_fixed := [], mem := M\<rparr>)"
    using i i2 patched moved
    by (simp add: hook_in_def make_backup_def make_writable_def track_hook_def om_erase_def drop_backup_def Let_def)
  then have hook: "DoHook 0x7f0010 0x0101010101010101 0 ?u = (True, s3\<lparr>register_info := [child_reg]\<rparr>)"
    using u(3) i by (simp add: DoHook_def om_floor_def om_assign_def Let_def s3_def)
  have r: "symbol child_reg = [0x66, 0x6f, 0x72, 0x6b]" "reg_callback child_reg = 0x0101010101010101"
    "reg_backup child_reg = 0" "valid child_elf"
    by (simp_all add: child_reg_def child_elf_def)
  have keep: "?u\<lparr>hook_info := om_assign 0x7f0000 (child_entry\<lparr>elf_ptr := Some child_elf\<rparr>) (hook_info ?u)\<rparr> = ?u"
    unfolding same by (simp add: om_assign_def)
  have "hook_regs 0x7f0000 [child_reg] True ?u = Some ([], True, s3\<lparr>register_info := [child_reg]\<rparr>)"
  proof -
    have e: "map_of (hook_info ?u) 0x7f0000 = Some child_entry" by simp
    have "\<not> (hoffset child_entry \<noteq> range_lo child_reg \<or> \<not> Match child_entry child_reg)" using m by simp
    then show ?thesis
      unfolding hook_regs.simps e option.case Let_def keep i(7) if_not_P [OF \<open>\<not> (hoffset child_entry \<noteq> _ \<or> _)\<close>]
      by (simp add: i(7) keep [simplified] u(1,2) r child_slots hook [simplified])
  qed
  then have "DoHook_all ?u = Some (True, s3)"
    using u(3) by (simp add: DoHook_all_def del: hook_regs.simps) (simp add: s3_def)
  moreover have "rd64 M 0x7f0010 = 0x0101010101010101"
    by (simp add: M_def wr64_def child_ld)
  ultimately show ?thesis
    using start by (simp add: s3_def)
qed

lemma demo_child_destroy: "\<exists>s2. new_pthread_attr_destroy demo_armed = Some s2"
proof -
  let ?l = "logop OpOrigAttrDestroy demo_armed"
  have l: "through Pf_attr_destroy OpOrigAttrDestroy demo_armed = Some ?l" "self_tid ?l = self_pid ?l"
    "get_hook ?l = Some (child_hook\<lparr>should_unmap := True\<rparr>)"
    by (simp_all add: through_def read_ptr_def demo_armed_def demo_child_def demo_defs child_loads logop_def get_hook_def)
  have a: "accepted ?l = accepted demo_armed" "restoring ?l = restoring demo_armed"
    by (simp_all add: accepted_def restoring_def read_ptr_def logop_def fun_eq_iff)
  have "to_restore (child_hook\<lparr>should_unmap := True\<rparr>) ?l = child_commit"
    unfolding to_restore_def a
    by (simp add: child_hook_def child_registered) (simp add: child_commit_def demo_armed_def demo_child_def demo_defs logop_def)
  then obtain s3 where c: "CommitHook (to_restore (child_hook\<lparr>should_unmap := True\<rparr>) ?l) = Some (True, s3)"
    using child_committed by (elim exE conjE) simp
  have "outer s3 = outer child_commit" using outer_CommitHook [OF c] \<open>to_restore _ _ = _\<close> by simp
  from outer_zyg [OF this] have "get_hook s3 = Some (child_hook\<lparr>should_unmap := True\<rparr>)"
    by (simp add: child_commit_def demo_armed_def get_hook_def)
  moreover have "list_all (accepted ?l) (plt_backup (child_hook\<lparr>should_unmap := True\<rparr>))"
    unfolding a by (simp add: child_hook_def child_registered)
  ultimately show ?thesis
    using l c by (simp add: new_pthread_attr_destroy_def restore_plt_hook_effect)
qed

text \<open>The child puts the original of \<open>fork\<close> back into the slot and closes the library it was given, 1.\<close>

theorem child_unloads_witness:
  "\<exists>s2. delete_ZygiskContext demo_child = Some ([], demo_armed) \<and>
     new_pthread_attr_destroy demo_armed = Some s2 \<and>
     rd64 (mem demo_armed) 0x7f0010 = 1 \<and> rd64 (mem s2) 0x7f0010 = read_ptr Pf_fork demo_armed \<and>
     map (hooks \<circ> snd) (hook_info s2) = [[]] \<and>
     oslog s2 = [OpOrigAttrDestroy, OpDlclose 1] \<and> g_hook s2 = Freed \<and> new_pthread_attr_destroy s2 = None"
proof -
  obtain s3 where c: "CommitHook child_commit = Some (True, s3)" "rd64 (mem s3) 0x7f0010 = 0x0101010101010101"
    "map (hooks \<circ> snd) (hook_info s3) = [[]]"
    using child_committed by (elim exE conjE)
  have h: "get_hook demo_armed = Some (child_hook\<lparr>should_unmap := True\<rparr>)"
    by (simp add: demo_armed_def get_hook_def)
  have o: "oslog demo_armed = []" "register_info demo_armed = []" "read_ptr Pf_fork demo_armed = 0x0101010101010101"
    "rd64 (mem demo_armed) 0x7f0010 = 1" "self_handle child_hook = 1"
    by (simp_all add: demo_armed_def demo_child_def demo_defs read_ptr_def child_loads child_hook_def)
  obtain s2 where run: "new_pthread_attr_destroy demo_armed = Some s2"
    using demo_child_destroy by blast
  from child_unloads [OF demo_child_deleted demo_child_fields(1) demo_child_fields(4) demo_child_fields(2,3) run, unfolded h]
  obtain h1 good s4 where u: "Some (child_hook\<lparr>should_unmap := True\<rparr>) = Some h1"
    "CommitHook (demo_armed\<lparr>oslog := oslog demo_armed @ [OpOrigAttrDestroy], register_info := register_info demo_armed @
       map (restoring demo_armed) (filter (accepted demo_armed) (plt_backup h1))\<rparr>) = Some (good, s4)"
    "s2 = s4\<lparr>g_hook := Freed, oslog := oslog demo_armed @ OpOrigAttrDestroy #
       (if good \<and> list_all (accepted demo_armed) (plt_backup h1) then [OpDlclose (unat (self_handle child_hook))] else [])\<rparr>"
    "new_pthread_attr_destroy s2 = None"
    by (elim exE conjE)
  have b: "plt_backup h1 = [(makedev 253 1, 42, Pf_fork)]"
    using u(1) by (auto simp: child_hook_def)
  have "demo_armed\<lparr>oslog := oslog demo_armed @ [OpOrigAttrDestroy], register_info := register_info demo_armed @
      map (restoring demo_armed) (filter (accepted demo_armed) (plt_backup h1))\<rparr> = child_commit"
    by (simp add: b child_registered o child_commit_def)
  with u(2) c(1) have "good" "s4 = s3" by simp_all
  with u(3,4) have "s2 = s3\<lparr>g_hook := Freed, oslog := [OpOrigAttrDestroy, OpDlclose 1]\<rparr>" "new_pthread_attr_destroy s2 = None"
    by (simp_all add: b o child_registered)
  with run c o demo_child_deleted show ?thesis by (intro exI [of _ s2]) simp
qed

end
