(* ===== verification/Runtime.thy ===== *)
theory Runtime
  imports ContextProps ZygDemo
begin

text \<open>
  The program as a transition system: the runtime drives it through the native bridge, the hooked
  functions and the replaced native methods, in any order. The states reachable from a process whose
  hook context was not created yet, what holds in all of them, and the four phases a process goes
  through.
\<close>

section \<open>Events and steps\<close>

text \<open>
  What the runtime does to the program; \<open>Native\<close> is a call of a replaced native method, with its result
  (none from a void method).
\<close>

datatype event =
    Compatible
  | Dlclose u64
  | Strdup string
  | Fork
  | Unshare u32 int
  | Setcontext
  | Log_close
  | Attr_destroy
  | Native jni_hook "jparam \<Rightarrow> jval" "int option"

fun perform :: "event \<Rightarrow> 'j zyg \<Rightarrow> 'j zyg option" where
  "perform Compatible s = map_option snd (is_compatible s)"
| "perform (Dlclose handle) s = map_option snd (new_dlclose handle s)"
| "perform (Strdup str) s = new_strdup str s"
| "perform Fork s = map_option snd (new_fork s)"
| "perform (Unshare fl res) s = map_option snd (new_unshare fl res s)"
| "perform Setcontext s = new_selinux_android_setcontext s"
| "perform Log_close s = new_android_log_close s"
| "perform Attr_destroy s = new_pthread_attr_destroy s"
| "perform (Native h vals res) s = (case run_hook h vals s of
     Some (r, ms, s') \<Rightarrow> if r = res then Some s' else None
   | None \<Rightarrow> None)"

text \<open>Any event at any time; a native method that is called is one of the tables'.\<close>

inductive step :: "'j zyg \<Rightarrow> event \<Rightarrow> 'j zyg \<Rightarrow> bool" where
  call: "(\<forall>h v r. e \<noteq> Native h v r) \<Longrightarrow> perform e s = Some s' \<Longrightarrow> step s e s'"
| native: "h \<in> set (src_methods t) \<Longrightarrow> perform (Native h v r) s = Some s' \<Longrightarrow> step s (Native h v r) s'"

inductive reachable :: "'j zyg \<Rightarrow> 'j zyg \<Rightarrow> bool" for s0 where
  initial: "reachable s0 s0"
| next_step: "reachable s0 s \<Longrightarrow> step s e s' \<Longrightarrow> reachable s0 s'"

text \<open>A fresh process.\<close>

definition fresh_process :: "'j zyg \<Rightarrow> bool" where
  "fresh_process s \<longleftrightarrow> g_hook s = Null \<and> g_ctx s = None"

section \<open>What the operations do to the hook context\<close>

definition keys :: "jni_method list \<Rightarrow> (string \<times> string) list" where
  "keys ms = map (\<lambda>m. (mname m, msig m)) ms"

definition same_keys :: "HookContext \<Rightarrow> HookContext \<Rightarrow> bool" where
  "same_keys h h' \<longleftrightarrow> (\<forall>t. keys (jni_tables h' t) = keys (jni_tables h t))"

text \<open>The context stays what it is; a live one keeps its names and signatures, and \<open>should_unmap\<close>.\<close>

definition steady :: "'j zyg \<Rightarrow> 'j zyg \<Rightarrow> bool" where
  "steady s s' \<longleftrightarrow>
     (case g_hook s of
        Live h \<Rightarrow> \<exists>h'. g_hook s' = Live h' \<and> should_unmap h' = should_unmap h \<and> same_keys h h'
      | x \<Rightarrow> g_hook s' = x) \<and> g_ctx s' = g_ctx s"

lemma steady_same: "g_hook s' = g_hook s \<Longrightarrow> g_ctx s' = g_ctx s \<Longrightarrow> steady s s'"
  by (simp add: steady_def same_keys_def split: ptr.split)

lemma steady_refl [simp]: "steady s s"
  by (rule steady_same) simp_all

lemma steady_trans: "steady a b \<Longrightarrow> steady b c \<Longrightarrow> steady a c"
  by (auto simp: steady_def same_keys_def split: ptr.splits)

lemma steady_upd:
  assumes "\<And>h. should_unmap (f h) = should_unmap h \<and> same_keys h (f h)"
  shows "steady s (upd_hook f s)"
  using assms by (simp add: steady_def upd_hook_def split: ptr.split)

lemma steady_outer: "outer s' = outer (s :: 'j zyg) \<Longrightarrow> steady s s'"
  by (drule outer_zyg) (simp add: steady_same)

lemma steady_commit: "CommitHook s = Some (r, s') \<Longrightarrow> steady s (s' :: 'j zyg)"
  by (rule steady_outer [OF outer_CommitHook])

lemma steady_maps: "read_maps s = (m, s') \<Longrightarrow> steady s (s' :: 'j zyg)"
  using outer_read_maps [of s] by (simp add: steady_outer)

lemma steady_through: "through f e s = Some s' \<Longrightarrow> steady s s'"
  by (auto simp: through_def logop_def split: if_splits intro: steady_same)

lemma steady_register_hook: "steady s (register_hook d i f s)"
proof -
  let ?r = "RegisterHook d i (bytes_of (plt_symbol f)) (new_addr (w s) f) (old_addr (w s) f) s"
  have r: "steady s (snd ?r)" by (rule steady_outer [OF outer_RegisterHook])
  have "steady s (upd_hook (\<lambda>h. h\<lparr>plt_backup := plt_backup h @ [(d, i, f)]\<rparr>) (snd ?r))"
    by (rule steady_trans [OF r steady_upd]) (simp add: same_keys_def)
  with r show ?thesis by (simp add: register_hook_def case_prod_beta Let_def)
qed

lemma steady_fold: "(\<And>x s. steady s (f x s)) \<Longrightarrow> steady s (fold f xs s)"
  by (induction xs arbitrary: s) (auto intro: steady_same steady_trans)

lemma steady_hook_plt: "hook_plt s = Some s' \<Longrightarrow> steady s s'"
proof -
  assume "hook_plt s = Some s'"
  then obtain maps s1 d i e j r s4 where m: "read_maps s = (maps, s1)"
    and c: "CommitHook (fold (register_hook e j) [Pf_fork, Pf_unshare, Pf_setcontext, Pf_strdup, Pf_log_close]
        (register_hook d i Pf_dlclose s1)) = Some (r, s4)" and s': "s' = drop_unhooked s4"
    by (auto simp: hook_plt_def Let_def split: Option.bind_splits prod.splits)
  have "steady s4 s'" unfolding s' drop_unhooked_def by (rule steady_upd) (simp add: same_keys_def)
  with steady_maps [OF m] steady_register_hook steady_fold [of "register_hook e j"] steady_commit [OF c]
  show ?thesis by (meson steady_trans)
qed

lemma steady_hook_unloader: "hook_unloader s = Some s' \<Longrightarrow> steady s s'"
proof -
  assume "hook_unloader s = Some s'"
  then obtain maps s1 d i r where m: "read_maps s = (maps, s1)"
    and c: "CommitHook (register_hook d i Pf_attr_destroy s1) = Some (r, s')"
    by (auto simp: hook_unloader_def Let_def split: Option.bind_splits prod.splits)
  with steady_maps [OF m] steady_register_hook steady_commit [OF c] show ?thesis
    by (meson steady_trans)
qed

text \<open>The tables: whatever is registered, taken back or cleared, an entry keeps its name and signature.\<close>

lemma keys_register_methods: "keys (fst (register_methods v c ms j)) = keys ms"
  by (induction ms arbitrary: j) (simp_all add: keys_def case_prod_beta Let_def)

lemma keys_take_originals: "keys (fst (take_originals n o' ms)) = keys ms"
  by (induction ms) (simp_all add: keys_def case_prod_beta Let_def split: option.split)

lemma keys_clear [simp]: "keys (clear_methods ms) = keys ms"
  by (simp add: keys_def clear_methods_def comp_def)

lemma steady_set_table: "keys ms = keys (table_methods t s) \<Longrightarrow> steady s (set_table t ms s)"
  by (auto simp: steady_def set_table_def upd_hook_def table_methods_def get_hook_def same_keys_def
      split: ptr.splits)

lemma steady_jst: "steady s (s\<lparr>jst := j\<rparr>)"
  by (rule steady_same) simp_all

lemma register_jni_eq:
  "register_jni_methods c ms s = (fst (register_methods (jvm (w s)) c ms (jst s)),
     s\<lparr>jst := snd (register_methods (jvm (w s)) c ms (jst s))\<rparr>)"
  by (simp add: register_jni_methods_def case_prod_beta)

lemma table_jst [simp]: "table_methods t (s\<lparr>jst := j\<rparr>) = table_methods t s"
  by (simp add: table_methods_def get_hook_def)

lemma steady_register_table: "steady s (register_table c t s)"
  unfolding register_table_def register_jni_eq prod.case Let_def
  by (rule steady_trans [OF steady_jst steady_set_table]) (simp add: keys_register_methods)

lemma steady_clear_table: "steady s (clear_table t s)"
  unfolding clear_table_def by (rule steady_set_table) simp

lemma steady_restore: "restore_zygote_hook s = Some s' \<Longrightarrow> steady s s'"
  unfolding restore_zygote_hook_def Let_def
  by (auto split: Option.bind_splits
      intro: steady_trans [OF steady_trans [OF steady_register_table steady_register_table] steady_register_table])

lemma steady_undo: "steady s (undo_zygote_hooks c rep s)"
proof -
  have k: "steady a (if b then register_table c t a else a)" for a b t
    by (simp add: steady_register_table steady_same)
  show ?thesis
    unfolding undo_zygote_hooks_def Let_def
    by (rule steady_trans [OF steady_trans [OF steady_trans [OF k k] k]
          steady_trans [OF steady_trans [OF steady_clear_table steady_clear_table] steady_clear_table]])
qed

lemma hook_class_keys:
  assumes "hook_class_methods c ms s = Some (n, ms', s')"
  shows "keys ms' = keys ms \<and> (\<exists>j. s' = s\<lparr>jst := j\<rparr>)"
  using assms keys_register_methods [of "jvm (w s)" c ms "jst s"]
  by (auto simp: hook_class_methods_def register_jni_eq keys_take_originals
      dest!: arg_cong [where f = "keys \<circ> fst" and x = "take_originals _ _ _"] split: Option.bind_splits prod.splits)

lemma steady_zygote_methods:
  "hook_zygote_methods c ms rep s = Some (m, rep', s') \<Longrightarrow> steady s s'"
proof (induction c ms rep s rule: hook_zygote_methods.induct)
  case (2 c m' ms rep s)
  show ?case
  proof (cases "table_of (mname m')")
    case None
    with 2 show ?thesis by simp
  next
    case (Some t)
    with "2.prems" obtain n tab s1 where h: "hook_class_methods c (table_methods t s) s = Some (n, tab, s1)"
      and r: "(if n = 0 then Some (Some m', rep, set_table t tab s1)
         else hook_zygote_methods c ms (t # rep) (set_table t tab s1)) = Some (m, rep', s')"
      by (auto simp: Let_def split: Option.bind_splits)
    obtain j where k: "keys tab = keys (table_methods t s)" "s1 = s\<lparr>jst := j\<rparr>"
      using hook_class_keys [OF h] by auto
    have st: "steady s (set_table t tab s1)"
      unfolding k(2) by (rule steady_trans [OF steady_jst steady_set_table]) (simp add: k)
    show ?thesis
    proof (cases "n = 0")
      case True
      with r st show ?thesis by simp
    next
      case False
      with r "2.IH"(2) [OF Some h refl refl refl False] st show ?thesis by (auto intro: steady_trans)
    qed
  qed
qed (simp add: steady_same)

lemma steady_find_vms: "find_get_vms s = (r, s') \<Longrightarrow> steady s s'"
  by (auto simp: find_get_vms_def logop_def split: if_splits option.splits prod.splits dest!: steady_maps
      intro: steady_same steady_trans [OF _ steady_same])

lemma steady_zygote_jni: "hook_zygote_jni s = Some s' \<Longrightarrow> steady s s'"
proof -
  assume run: "hook_zygote_jni s = Some s'"
  obtain r s1 where f: "find_get_vms s = (r, s1)" by (cases "find_get_vms s")
  have "steady s1 s'"
    using run f
    by (auto simp: hook_zygote_jni_def Let_def split: if_splits Option.bind_splits
        dest!: steady_zygote_methods intro: steady_trans [OF _ steady_undo])
  with steady_find_vms [OF f] show ?thesis by (rule steady_trans)
qed

lemma steady_find_bridge: "find_native_bridge fs s = (r, s') \<Longrightarrow> steady s s'"
  by (induction fs arbitrary: s)
    (auto simp: find_runtime_callbacks_def Let_def split: option.splits if_splits prod.splits
      intro: steady_same dest!: steady_maps)

lemma steady_post_load: "steady s (post_native_bridge_load hd' s)"
proof -
  define s1 where "s1 = upd_hook (\<lambda>h. h\<lparr>self_handle := hd'\<rparr>) s"
  obtain load cb s2 where f: "find_native_bridge (backtrace (w s1)) s1 = ((load, cb), s2)"
    by (metis prod.exhaust)
  have s1: "steady s s1" unfolding s1_def by (rule steady_upd) (simp add: same_keys_def)
  note s2 = steady_trans [OF s1 steady_find_bridge [OF f]]
  have u: "steady a (upd_hook (\<lambda>h. h\<lparr>runtime_callbacks := cb\<rparr>) a)" for a :: "'a zyg"
    by (rule steady_upd) (simp add: same_keys_def)
  have l: "steady a (logop e a)" for a :: "'a zyg" and e by (rule steady_same) (simp_all add: logop_def)
  show ?thesis
    using s2 steady_trans [OF s2 u] steady_trans [OF s2 steady_trans [OF l u]]
    by (simp add: post_native_bridge_load_def Let_def s1_def [symmetric] f)
qed

section \<open>A call of a replaced native method\<close>

text \<open>Up to the destructor the hook context does not change at all.\<close>

lemma fork_hook: "old_fork s = Some (p, s') \<Longrightarrow> g_hook s' = g_hook s"
  by (auto simp: old_fork_def through_def logop_def split: if_splits list.splits)

lemma quiet_hook: "quiet P s s' \<Longrightarrow> g_hook s' = g_hook s"
  by (simp add: quiet_def)

lemma fork_pre_hook:
  assumes "fork_pre s = Some s'"
  shows "g_hook s' = g_hook s"
proof -
  obtain p s0 where f: "old_fork (logop OpSigBlock s) = Some (p, s0)"
    using assms by (auto simp: fork_pre_def split: Option.bind_splits)
  from quiet_hook [OF fork_pre_rest [OF assms f]] fork_hook [OF f] show ?thesis
    by (simp add: upd_ctx_def logop_def)
qed

lemma call_pre_hook: "call_pre k s = Some s' \<Longrightarrow> g_hook s' = g_hook s"
  by (cases k; simp add: nativeForkAndSpecialize_pre_def nativeSpecializeAppProcess_pre_def
      nativeForkSystemServer_pre_def Let_def split: Option.bind_splits if_splits)
    (auto dest!: fork_pre_hook quiet_hook [OF quiet_set_process] quiet_hook [OF quiet_app_pre]
      quiet_hook [OF quiet_server_pre] quiet_hook [OF quiet_sanitize] simp: set_flag_def upd_ctx_def)

lemma plt_calls_hook: "run_plt_calls cs s = Some s' \<Longrightarrow> g_hook s' = g_hook s"
proof (induction cs s rule: run_plt_calls.induct)
  case (2 r s)
  then show ?case
    by (auto simp: new_fork_def split: Option.bind_splits option.splits if_splits dest!: fork_hook)
next
  case (3 fl res r s)
  then show ?case by (auto split: Option.bind_splits dest!: quiet_hook [OF quiet_new_unshare])
next
  case (4 r s)
  then show ?case
    by (auto simp: new_selinux_android_setcontext_def through_def logop_def split: Option.bind_splits if_splits)
next
  case (5 r s)
  then show ?case
    by (auto simp: new_android_log_close_def through_def logop_def split: Option.bind_splits if_splits)
qed simp

lemma call_original_hook: "call_original h s = Some s' \<Longrightarrow> g_hook s' = g_hook s"
  by (auto simp: call_original_def Let_def split: if_splits Option.bind_splits dest!: plt_calls_hook)

lemma call_post_hook: "call_post k s = Some s' \<Longrightarrow> g_hook s' = g_hook s"
  by (cases k) (auto simp: nativeForkAndSpecialize_post_def nativeSpecializeAppProcess_post_def
      nativeForkSystemServer_post_def fork_post_def server_specialize_post_def logop_def
      split: Option.bind_splits if_splits dest!: quiet_hook [OF quiet_app_post] quiet_hook [OF quiet_post_inner])

text \<open>The destructor leaves no context, and arms the unloading in a child.\<close>

definition armed_of :: "HookContext \<Rightarrow> HookContext \<Rightarrow> bool" where
  "armed_of k k' \<longleftrightarrow> should_unmap k' \<and> same_keys k k'"

lemma delete_hook:
  assumes "delete_ZygiskContext s = Some (ms, s')" "g_ctx s = Some c"
  shows "g_ctx s' = None \<and> (if is_child c then \<exists>k k'. g_hook s = Live k \<and> g_hook s' = Live k' \<and> armed_of k k'
    else g_hook s' = g_hook s)"
proof (cases "is_child c")
  case False
  with assms show ?thesis by (auto simp: delete_ZygiskContext_def Let_def)
next
  case True
  define s1 where "s1 = upd_hook (\<lambda>h. h\<lparr>should_unmap := True\<rparr>) (s\<lparr>g_ctx := None\<rparr>)"
  obtain h s2 where h: "get_hook s = Some h" and r: "restore_zygote_hook s1 = Some s2" "hook_unloader s2 = Some s'"
    using assms True
    by (auto simp: delete_ZygiskContext_def s1_def Let_def get_hook_def split: Option.bind_splits)
  then have "g_hook s = Live h" "g_hook s1 = Live (h\<lparr>should_unmap := True\<rparr>)" "g_ctx s1 = None"
    by (auto simp: s1_def upd_hook_def get_hook_def split: ptr.splits)
  then show ?thesis
    using True steady_trans [OF steady_restore [OF r(1)] steady_hook_unloader [OF r(2)]]
    by (auto simp: steady_def same_keys_def armed_of_def)
qed

text \<open>A void hooking function never forks, so its context keeps the pid of no process.\<close>

definition pid_of :: "'j zyg \<Rightarrow> int option" where
  "pid_of s = map_option c_pid (g_ctx s)"

lemma quiet_pid: "quiet P s s' \<Longrightarrow> pid_of s' = pid_of s"
  by (drule quiet_def [THEN iffD1], elim conjE, drule arg_cong [where f = "map_option snd"])
    (simp add: pid_of_def option.map_comp comp_def)

lemma plt_calls_ctx: "run_plt_calls cs s = Some s' \<Longrightarrow> pid_of s' = pid_of s"
proof (induction cs s rule: run_plt_calls.induct)
  case (2 r s)
  then show ?case
    by (auto simp: new_fork_def old_fork_def through_def logop_def pid_of_def
        split: Option.bind_splits option.splits if_splits list.splits)
next
  case (3 fl res r s)
  then show ?case by (auto split: Option.bind_splits dest!: quiet_pid [OF quiet_new_unshare])
next
  case (4 r s)
  then show ?case
    by (auto simp: new_selinux_android_setcontext_def through_def logop_def pid_of_def split: Option.bind_splits if_splits)
next
  case (5 r s)
  then show ?case
    by (auto simp: new_android_log_close_def through_def logop_def pid_of_def split: Option.bind_splits if_splits)
qed simp

lemma void_hooks: "h \<in> set (src_methods t) \<Longrightarrow> \<not> jh_returns_pid h \<Longrightarrow>
    jh_pre h = SpecializeAppProcess \<and> jh_post h = SpecializeAppProcess"
proof -
  have "list_all (\<lambda>h. jh_returns_pid h \<or> jh_pre h = SpecializeAppProcess \<and> jh_post h = SpecializeAppProcess)
      (src_methods t)"
    by (induction t; code_simp)
  then show "h \<in> set (src_methods t) \<Longrightarrow> \<not> jh_returns_pid h \<Longrightarrow> ?thesis" by (auto simp: list_all_iff)
qed

text \<open>Whether the caller is a child: the pid returned, or a void method, which only runs in one.\<close>

definition in_child :: "int option \<Rightarrow> bool" where
  "in_child res = (case res of Some p \<Rightarrow> p \<le> 0 | None \<Rightarrow> True)"

lemma run_hook_hook:
  assumes run: "run_hook h vals s = Some (res, ms, s')" and h: "h \<in> set (src_methods t)"
  shows "g_ctx s' = None \<and> (\<exists>k. g_hook s = Live k \<and>
    (if in_child res then \<exists>k'. g_hook s' = Live k' \<and> armed_of k k' else g_hook s' = Live k))"
proof -
  obtain a s1 s2 s3 c where r: "call_pre (jh_pre h) (new_ZygiskContext a (s\<lparr>locals := vals\<rparr>)) = Some s1"
      "call_original h s1 = Some s2" "call_post (jh_post h) s2 = Some s3" "g_ctx s3 = Some c"
      "delete_ZygiskContext s3 = Some (ms, s')" "res = (if jh_returns_pid h then Some (c_pid c) else None)"
    using run by (auto simp: run_hook_def split: Option.bind_splits)
  have g: "g_hook s1 = g_hook s" "g_hook s3 = g_hook s"
    using call_pre_hook [OF r(1)] call_original_hook [OF r(2)] call_post_hook [OF r(3)]
    by (simp_all add: new_ZygiskContext_def)
  have "table_methods (fst (jh_orig h)) s1 \<noteq> []"
    using r(2) by (auto simp: call_original_def Let_def)
  then obtain k where k: "g_hook s = Live k"
    using g(1) by (auto simp: table_methods_def get_hook_def split: ptr.splits)
  have "c_pid c = -1" if "\<not> jh_returns_pid h"
  proof -
    note v = void_hooks [OF h that]
    have "pid_of s1 = Some (-1)"
      using r(1) v by (auto simp: nativeSpecializeAppProcess_pre_def new_ZygiskContext_def pid_of_def
          dest!: quiet_pid [OF quiet_set_process] quiet_pid [OF quiet_app_pre] split: Option.bind_splits
          simp: set_flag_def upd_ctx_def option.map_comp comp_def)
    moreover have "pid_of s2 = pid_of s1"
      using r(2) by (auto simp: call_original_def Let_def pid_of_def dest!: plt_calls_ctx split: if_splits Option.bind_splits)
    moreover have "pid_of s3 = pid_of s2"
      using r(3) v by (auto simp: nativeSpecializeAppProcess_post_def dest!: quiet_pid [OF quiet_app_post])
    ultimately show ?thesis using r(4) by (auto simp: pid_of_def)
  qed
  then have "is_child c \<longleftrightarrow> in_child res" using r(6) by (auto simp: is_child_def in_child_def)
  with delete_hook [OF r(5,4)] g k show ?thesis by auto
qed

lemma attr_destroy_hook:
  assumes "new_pthread_attr_destroy s = Some s'"
  shows "g_ctx s' = g_ctx s \<and> (g_hook s' = g_hook s \<or> (\<exists>h. g_hook s = Live h) \<and> g_hook s' = Freed)"
proof -
  obtain s1 where t: "through Pf_attr_destroy OpOrigAttrDestroy s = Some s1"
    using assms by (auto simp: new_pthread_attr_destroy_def split: Option.bind_splits)
  have s1: "g_hook s1 = g_hook s" "g_ctx s1 = g_ctx s"
    using t by (auto simp: through_def logop_def split: if_splits)
  have reg: "steady a (snd (restore_registrations es ok a))" for es ok and a :: "'a zyg"
  proof (induction es arbitrary: ok a)
    case (Cons e es)
    obtain d i f where e: "e = (d, i, f)" by (cases e)
    let ?r = "RegisterHook d i (bytes_of (plt_symbol f)) (read_ptr f a) 0 a"
    have "steady a (snd ?r)" by (rule steady_outer [OF outer_RegisterHook])
    with Cons.IH show ?case by (auto simp: e case_prod_beta Let_def intro: steady_trans)
  qed simp
  have rest: "g_ctx s2 = g_ctx s" if rp: "restore_plt_hook s1 = Some s2" for s2
  proof -
    obtain h :: HookContext and r s3 where c: "CommitHook (snd (restore_registrations (plt_backup h) True s1)) = Some (r, s3)"
      and s2: "s2 = s3 \<or> s2 = upd_hook (\<lambda>h. h\<lparr>should_unmap := False\<rparr>) s3"
      using rp by (auto simp: restore_plt_hook_def Let_def case_prod_beta split: Option.bind_splits if_splits)
    have "steady s1 s3" by (rule steady_trans [OF reg steady_commit [OF c]])
    with s1 s2 show ?thesis by (auto simp: steady_def upd_hook_def split: ptr.splits)
  qed
  show ?thesis
    using assms t s1 rest
    by (auto simp: new_pthread_attr_destroy_def get_hook_def logop_def split: Option.bind_splits if_splits ptr.splits)
qed

section \<open>The other events\<close>

fun plain_call :: "event \<Rightarrow> bool" where
  "plain_call (Dlclose hd') = True"
| "plain_call (Strdup str) = True"
| "plain_call Fork = True"
| "plain_call (Unshare fl res) = True"
| "plain_call Setcontext = True"
| "plain_call Log_close = True"
| "plain_call _ = False"

lemma steady_old_fork: "old_fork s = Some (p, s') \<Longrightarrow> steady s s'"
  by (rule steady_same) (auto simp: old_fork_def through_def logop_def split: if_splits list.splits)

lemma steady_plain:
  assumes "plain_call e" "perform e s = Some s'"
  shows "steady s s'"
proof (cases e)
  case (Dlclose hd')
  with assms show ?thesis
    by (auto simp: new_dlclose_def split: Option.bind_splits if_splits intro: steady_post_load)
next
  case (Strdup str)
  with assms obtain s1 where "str = kZygoteInit \<and> hook_zygote_jni s = Some s1 \<or> s1 = s"
    "through Pf_strdup (OpOrigStrdup str) s1 = Some s'"
    by (auto simp: new_strdup_def split: Option.bind_splits if_splits)
  then show ?thesis using steady_zygote_jni steady_through steady_refl steady_trans by metis
next
  case Fork
  with assms show ?thesis
    by (auto simp: new_fork_def split: option.splits if_splits intro: steady_old_fork)
next
  case (Unshare fl res)
  with assms obtain y where "new_unshare fl res s = Some (y, s')" by auto
  then obtain s1 where s1: "through Pf_unshare OpOrigUnshare s = Some s1" "s' = s1 \<or> s' = revert_unmount s1"
    by (auto simp: new_unshare_def split: Option.bind_splits option.splits if_splits)
  have "steady s1 (revert_unmount s1)" by (rule steady_same) (simp_all add: revert_unmount_def logop_def)
  with s1 steady_through [OF s1(1)] show ?thesis by (auto intro: steady_trans)
next
  case Setcontext
  with assms show ?thesis by (auto simp: new_selinux_android_setcontext_def intro: steady_through)
next
  case Log_close
  with assms show ?thesis by (auto simp: new_android_log_close_def intro: steady_through)
qed (use assms in simp_all)

section \<open>Invariants of the reachable states\<close>

definition source_keys :: "jtable \<Rightarrow> (string \<times> string) list" where
  "source_keys t = map (\<lambda>h. (jh_name h, jh_sig h)) (src_methods t)"

definition settled :: "'j zyg \<Rightarrow> bool" where
  "settled s \<longleftrightarrow> g_ctx s = None \<and> (\<forall>h. g_hook s = Live h \<longrightarrow> (\<forall>t. keys (jni_tables h t) = source_keys t))"

lemma settled_steady: "steady s s' \<Longrightarrow> settled s \<Longrightarrow> settled s'"
  by (auto simp: settled_def steady_def same_keys_def split: ptr.splits)

lemma keys_definitions: "keys (jni_definitions wo t) = source_keys t"
  by (rule nth_equalityI) (simp_all add: keys_def jni_definitions_def source_keys_def nth_enumerate_eq)

lemma start_hook:
  assumes "perform Compatible s = Some s'"
  shows "steady (s\<lparr>g_hook := Live (new_HookContext (w s))\<rparr>) s'"
  using assms by (auto simp: is_compatible_def hook_entry_def split: Option.bind_splits intro: steady_hook_plt)

lemma settled_step: "step s e s' \<Longrightarrow> settled s \<Longrightarrow> settled s'"
proof (induction rule: step.induct)
  case (call e s s')
  consider "e = Compatible" | "e = Attr_destroy" | "plain_call e"
    using call.hyps(1) by (cases e) auto
  then show ?case
  proof cases
    case 1
    have "settled (s\<lparr>g_hook := Live (new_HookContext (w s))\<rparr>)"
      using call.prems by (simp add: settled_def new_HookContext_def keys_definitions)
    with start_hook [of s s'] call.hyps(2) 1 show ?thesis by (auto intro: settled_steady)
  next
    case 2
    with call show ?thesis using attr_destroy_hook [of s s'] by (auto simp: settled_def)
  next
    case 3
    from settled_steady [OF steady_plain [OF this call.hyps(2)] call.prems] show ?thesis .
  qed
next
  case (native h t v r s s')
  then obtain ms where "run_hook h v s = Some (r, ms, s')" by (auto split: option.splits if_splits)
  from run_hook_hook [OF this native.hyps(1)] native.prems show ?case
    by (auto simp: settled_def same_keys_def armed_of_def split: if_splits)
qed

lemma settled_reachable: "reachable s0 s \<Longrightarrow> fresh_process s0 \<Longrightarrow> settled s"
  by (induction rule: reachable.induct) (auto simp: settled_def fresh_process_def dest: settled_step)

lemma source_places: "i < length (src_methods t) \<Longrightarrow> jh_orig (src_methods t ! i) = (t, i)"
proof -
  have "list_all (\<lambda>(i, h). jh_orig h = (t, i)) (enumerate 0 (src_methods t))" by (induction t; code_simp)
  then show "i < length (src_methods t) \<Longrightarrow> ?thesis"
    by (auto simp: list_all_length nth_enumerate_eq)
qed

text \<open>
  C3: A hooking function always calls through the entry of its own method. In every state the runtime
  can bring the process to, no context of a specialization is left over, and while the hook context
  lives, the table entry a hooking function reads to call the original is inside its table and has
  the function's own name and signature, whatever was hooked, undone, restored or cleared before.
\<close>

theorem hooks_call_their_own:
  assumes "fresh_process s0" "reachable s0 s" "get_hook s = Some k" "h \<in> set (src_methods t)"
  shows "g_ctx s = None \<and>
    (let (t', i) = jh_orig h; ms = jni_tables k t' in
     t' = t \<and> i < length ms \<and> mname (ms ! i) = jh_name h \<and> msig (ms ! i) = jh_sig h)"
proof -
  obtain i where i: "i < length (src_methods t)" "h = src_methods t ! i"
    using assms(4) by (auto simp: in_set_conv_nth)
  have "settled s" by (rule settled_reachable) fact+
  moreover have "g_hook s = Live k" using assms(3) by (auto simp: get_hook_def split: ptr.splits)
  ultimately have "g_ctx s = None" and k: "keys (jni_tables k t) = source_keys t" by (auto simp: settled_def)
  have "length (jni_tables k t) = length (src_methods t)"
    using arg_cong [OF k, of length] by (simp add: keys_def source_keys_def)
  moreover have "keys (jni_tables k t) ! i = source_keys t ! i" by (simp add: k)
  ultimately show ?thesis
    using i \<open>g_ctx s = None\<close> by (simp add: source_places keys_def source_keys_def)
qed

section \<open>Phases\<close>

text \<open>
  The abstract machine: what each event makes of the phase, as a function, or that the event does not
  return. Being asked by the runtime creates the hook context, whatever was before; a call of a
  replaced native method in a child makes a process with a context leave; on the main thread
  \<^verbatim>\<open>pthread_attr_destroy\<close> ends every process with a context, leaving or not. A call that needs a
  context never returns without one. The first argument says whether the caller is the main thread.
\<close>

datatype phase = Unhooked | Serving | Leaving | Gone

definition phase_of :: "'j zyg \<Rightarrow> phase" where
  "phase_of s = (case g_hook s of
     Null \<Rightarrow> Unhooked | Live h \<Rightarrow> if should_unmap h then Leaving else Serving | Freed \<Rightarrow> Gone)"

fun with_context :: "phase \<Rightarrow> phase \<Rightarrow> phase option" where
  "with_context Unhooked q = None"
| "with_context Gone q = None"
| "with_context _ q = Some q"

fun phase_next :: "bool \<Rightarrow> phase \<Rightarrow> event \<Rightarrow> phase option" where
  "phase_next main p Compatible = Some Serving"
| "phase_next main p (Native h v r) = with_context p (if in_child r then Leaving else p)"
| "phase_next main p Attr_destroy = (if main then with_context p Gone else Some p)"
| "phase_next main p (Dlclose hd') = with_context p p"
| "phase_next main p _ = Some p"

lemma phase_steady: "steady s s' \<Longrightarrow> phase_of s' = phase_of s"
  by (auto simp: steady_def phase_of_def split: ptr.splits)

lemma attr_destroy_phase:
  assumes "new_pthread_attr_destroy s = Some s'"
  shows "if self_tid s = self_pid s then (\<exists>h. g_hook s = Live h) \<and> g_hook s' = Freed else g_hook s' = g_hook s"
  using assms
  by (auto simp: new_pthread_attr_destroy_def through_def logop_def get_hook_def
      split: Option.bind_splits if_splits ptr.splits)

text \<open>
  C2: The life of a process refines a deterministic machine of four phases. Every event that returns
  takes the process exactly where the machine goes. Being asked creates a serving context; a call of a
  replaced native method makes the process leave exactly in the child (when the method returns a pid
  that is not positive, or returns nothing), and no call takes that back; the main thread's next
  \<^verbatim>\<open>pthread_attr_destroy\<close> always ends it, another thread's never does. Before the beginning and after
  the end no call of a replaced native method, no \<^verbatim>\<open>dlclose\<close> through the hook and no
  \<^verbatim>\<open>pthread_attr_destroy\<close> of the main thread returns: they would use a missing or a freed context.
\<close>

theorem phases_refined:
  assumes "step s e s'"
  shows "phase_next (self_tid s = self_pid s) (phase_of s) e = Some (phase_of s')"
  using assms
proof (induction rule: step.induct)
  case (call e s s')
  consider "e = Compatible" | "e = Attr_destroy" | "plain_call e"
    using call.hyps(1) by (cases e) auto
  then show ?case
  proof cases
    case 1
    with call.hyps(2) have "phase_of s' = phase_of (s\<lparr>g_hook := Live (new_HookContext (w s))\<rparr>)"
      by (intro phase_steady start_hook) simp
    with 1 show ?thesis by (simp add: phase_of_def new_HookContext_def)
  next
    case 2
    with call.hyps(2) attr_destroy_phase [of s s'] show ?thesis
      by (auto simp: phase_of_def split: if_splits)
  next
    case 3
    have ph: "phase_of s' = phase_of s" by (rule phase_steady [OF steady_plain [OF 3 call.hyps(2)]])
    show ?thesis
    proof (cases e)
      case (Dlclose hd')
      then obtain h where "g_hook s = Live h"
        using call.hyps(2) by (auto simp: new_dlclose_def get_hook_def split: ptr.splits)
      then have "phase_of s \<in> {Serving, Leaving}" by (simp add: phase_of_def)
      with Dlclose ph show ?thesis by auto
    qed (use 3 ph in simp_all)
  qed
next
  case (native h t v r s s')
  then obtain ms where "run_hook h v s = Some (r, ms, s')" by (auto split: option.splits if_splits)
  from run_hook_hook [OF this native.hyps(1)] show ?case
    by (cases "in_child r") (auto simp: phase_of_def armed_of_def)
qed

section \<open>A concrete run\<close>

text \<open>A process that hooks, forks a system server and goes on serving.\<close>

definition demo_fresh :: "jni_method list zyg" where
  "demo_fresh = demo_zyg\<lparr>g_hook := Null\<rparr>"

definition demo_serving :: "jni_method list zyg" where
  "demo_serving = demo_zyg\<lparr>g_hook := Live (new_HookContext demo_world)\<rparr>"

lemma demo_start: "step demo_fresh Compatible demo_serving"
proof (rule step.call)
  show "perform Compatible demo_fresh = Some demo_serving"
    by (simp add: is_compatible_def hook_entry_def hook_plt_def demo_fresh_def demo_serving_def demo_zyg_def
        get_hook_def read_maps_def Scan_def last_library_def register_hook_def RegisterHook_def CommitHook_def
        drop_unhooked_def upd_hook_def new_HookContext_def)
qed simp

theorem hooks_call_their_own_witness:
  "\<exists>k. reachable demo_fresh demo_serving \<and> get_hook demo_serving = Some k \<and> g_ctx demo_serving = None \<and>
     mname (jni_tables k Fork_server ! 0) = jh_name ForkSystemServer_l \<and>
     msig (jni_tables k Fork_server ! 0) = jh_sig ForkSystemServer_l"
proof -
  have r: "reachable demo_fresh demo_serving"
    by (rule reachable.next_step [OF reachable.initial demo_start])
  have f: "fresh_process demo_fresh" by (simp add: fresh_process_def demo_fresh_def demo_zyg_def)
  have k: "get_hook demo_serving = Some (new_HookContext demo_world)"
    by (simp add: demo_serving_def get_hook_def)
  have "jh_orig ForkSystemServer_l = (Fork_server, 0)" by (simp add: ForkSystemServer_l_def)
  with hooks_call_their_own [OF f r k demo_l_listed(2)] r k show ?thesis by (auto simp: Let_def)
qed

text \<open>
  The process is asked, serves through the fork of a system server in the parent, and its main thread's
  \<^verbatim>\<open>pthread_attr_destroy\<close> ends it.
\<close>

theorem phases_refined_witness:
  "step demo_fresh Compatible demo_serving \<and> phase_of demo_serving = Serving \<and>
   (\<exists>s' s''. step demo_zyg (Native ForkSystemServer_l (\<lambda>p. JInt 0) (Some 100)) s' \<and> phase_of s' = Serving \<and>
      step demo_zyg Attr_destroy s'' \<and> phase_of s'' = Gone)"
proof
  have p: "phase_of demo_zyg = Serving" "self_tid demo_zyg = self_pid demo_zyg"
    by (simp_all add: phase_of_def demo_zyg_def demo_hook_def)
  show "step demo_fresh Compatible demo_serving" by (rule demo_start)
  obtain s' where run: "run_hook ForkSystemServer_l (\<lambda>p. JInt 0) demo_zyg = Some (Some 100, [], s')"
    using demo_parent_run by (elim exE)
  have st: "step demo_zyg (Native ForkSystemServer_l (\<lambda>p. JInt 0) (Some 100)) s'"
    by (rule step.native [OF demo_l_listed(2)]) (simp add: run)
  obtain s'' where "new_pthread_attr_destroy demo_zyg = Some s''"
    by (simp add: new_pthread_attr_destroy_def demo_zyg_def demo_hook_def demo_through get_hook_def logop_def)
  then have de: "step demo_zyg Attr_destroy s''" by (intro step.call) simp_all
  from phases_refined [OF demo_start] have "phase_of demo_serving = Serving" by simp
  moreover from phases_refined [OF st] p have "phase_of s' = Serving" by (simp add: in_child_def)
  moreover from phases_refined [OF de] p have "phase_of s'' = Gone" by simp
  ultimately show "phase_of demo_serving = Serving \<and>
      (\<exists>s' s''. step demo_zyg (Native ForkSystemServer_l (\<lambda>p. JInt 0) (Some 100)) s' \<and> phase_of s' = Serving \<and>
        step demo_zyg Attr_destroy s'' \<and> phase_of s'' = Gone)"
    using st de by (intro exI conjI)
qed

end
