(* ===== verification/ForkFail.thy ===== *)
theory ForkFail
  imports Runtime UnloadProps FdProps
begin

text \<open>
  What a hooking function does when its \<^verbatim>\<open>fork\<close> fails. \<^verbatim>\<open>is_child()\<close> is \<^verbatim>\<open>pid <= 0\<close>, so the failure
  takes the path of a child in the process that called: Zygote.
\<close>

section \<open>Staying the same process\<close>

text \<open>No fork to come returns in a child, as seen by a process that is not one.\<close>

definition no_child :: "'j zyg \<Rightarrow> bool" where
  "no_child s \<longleftrightarrow> (\<forall>f\<in>set (forks s). fst f \<noteq> 0)"

definition itself :: "'j zyg \<Rightarrow> 'j zyg \<Rightarrow> bool" where
  "itself s s' \<longleftrightarrow> (no_child s \<longrightarrow> no_child s' \<and> self_pid s' = self_pid s \<and> self_tid s' = self_tid s)"

lemma itself_refl [simp]: "itself s s"
  by (simp add: itself_def)

lemma itself_trans: "itself a b \<Longrightarrow> itself b c \<Longrightarrow> itself a c"
  by (simp add: itself_def)

lemma itself_quiet: "quiet P s s' \<Longrightarrow> itself s s'"
  by (simp add: itself_def quiet_def no_child_def)

lemma itself_logop [simp]: "itself s (logop e s)"
  by (simp add: itself_def no_child_def logop_def)

lemma itself_through: "through f e s = Some s' \<Longrightarrow> itself s s'"
  by (auto simp: through_def split: if_splits)

lemma itself_fork:
  assumes "old_fork s = Some (p, s')"
  shows "itself s s'"
proof -
  obtain s1 where t: "through Pf_fork OpFork s = Some s1"
    and s': "(p, s') = (case forks s1 of [] \<Rightarrow> (-1, s1)
      | (p, me) # r \<Rightarrow> (p, if p = 0 then s1\<lparr>forks := r, self_pid := me, self_tid := me\<rparr> else s1\<lparr>forks := r\<rparr>))"
    using assms by (auto simp: old_fork_def split: Option.bind_splits)
  have "itself s1 s'"
    using s' by (auto simp: itself_def no_child_def split: list.splits)
  with itself_through [OF t] show ?thesis by (rule itself_trans)
qed

lemma itself_fork_pre:
  assumes "fork_pre s = Some s'"
  shows "itself s s'"
proof -
  obtain p s0 where f: "old_fork (logop OpSigBlock s) = Some (p, s0)"
    using assms by (auto simp: fork_pre_def split: Option.bind_splits)
  have "itself s0 (upd_ctx (\<lambda>c. c\<lparr>c_pid := p\<rparr>) s0)"
    by (simp add: itself_def no_child_def upd_ctx_def)
  with itself_quiet [OF fork_pre_rest [OF assms f]] itself_fork [OF f] itself_logop
  show ?thesis by (meson itself_trans)
qed

lemma itself_call_pre:
  assumes "call_pre k s = Some s'"
  shows "itself s s'"
proof (cases k)
  case ForkAndSpecialize
  with assms obtain s1 s2 s3 where "set_process s = Some s1" "fork_pre (set_flag APP_FORK_AND_SPECIALIZE s1) = Some s2"
    "(if child_of s2 then app_specialize_pre s2 else Some s2) = Some s3" "sanitize_fds s3 = Some s'"
    by (auto simp: nativeForkAndSpecialize_pre_def split: Option.bind_splits)
  then have "itself s (set_flag APP_FORK_AND_SPECIALIZE s1)" "itself (set_flag APP_FORK_AND_SPECIALIZE s1) s2"
    "itself s2 s3" "itself s3 s'"
    using itself_quiet [OF quiet_trans [OF quiet_set_process quiet_set_flag]] itself_fork_pre
      itself_quiet [OF quiet_app_pre] itself_quiet [OF quiet_sanitize] itself_refl
    by (blast, blast, metis option.inject, blast)
  then show ?thesis by (meson itself_trans)
next
  case SpecializeAppProcess
  with assms obtain s1 where "set_process s = Some s1" "app_specialize_pre (set_flag SKIP_CLOSE_LOG_PIPE s1) = Some s'"
    by (auto simp: nativeSpecializeAppProcess_pre_def split: Option.bind_splits)
  then show ?thesis
    using itself_quiet [OF quiet_trans [OF quiet_set_process quiet_set_flag]] itself_quiet [OF quiet_app_pre]
    by (meson itself_trans)
next
  case ForkSystemServer
  define s1 where "s1 = upd_ctx (\<lambda>c. c\<lparr>c_process := Some ''system_server''\<rparr>) (set_flag SERVER_FORK_AND_SPECIALIZE s)"
  have q: "quiet (\<lambda>_. False) s s1"
    unfolding s1_def by (rule quiet_trans [OF quiet_set_flag quiet_upd_ctx]) simp
  from ForkSystemServer assms obtain s2 s3 where "fork_pre s1 = Some s2"
    "(if child_of s2 then server_specialize_pre s2 else Some s2) = Some s3" "sanitize_fds s3 = Some s'"
    by (auto simp: nativeForkSystemServer_pre_def s1_def Let_def split: Option.bind_splits)
  then have "itself s1 s2" "itself s2 s3" "itself s3 s'"
    using itself_fork_pre itself_quiet [OF quiet_server_pre] itself_quiet [OF quiet_sanitize] itself_refl
    by (blast, metis option.inject, blast)
  with itself_quiet [OF q] show ?thesis by (meson itself_trans)
qed

lemma itself_plt_calls: "run_plt_calls cs s = Some s' \<Longrightarrow> itself s s'"
proof (induction cs s rule: run_plt_calls.induct)
  case (2 r s)
  then show ?case
    by (auto simp: new_fork_def split: Option.bind_splits option.splits if_splits
        intro: itself_trans [OF itself_fork])
next
  case (3 fl res r s)
  then show ?case
    by (auto split: Option.bind_splits intro: itself_trans [OF itself_quiet [OF quiet_new_unshare]])
next
  case (4 r s)
  then show ?case
    by (auto simp: new_selinux_android_setcontext_def split: Option.bind_splits intro: itself_trans [OF itself_through])
next
  case (5 r s)
  then show ?case
    by (auto simp: new_android_log_close_def split: Option.bind_splits intro: itself_trans [OF itself_through])
qed simp

lemma itself_original:
  assumes "call_original h s = Some s'"
  shows "itself s s'"
proof -
  obtain cs p v where run: "run_plt_calls cs (s\<lparr>orig_calls := orig_calls s @ [(p, v)]\<rparr>) = Some s'"
    using assms by (auto simp: call_original_def Let_def split: Option.bind_splits if_splits)
  have "itself s (s\<lparr>orig_calls := orig_calls s @ [(p, v)]\<rparr>)" by (simp add: itself_def no_child_def)
  with itself_plt_calls [OF run] show ?thesis by (rule itself_trans [rotated])
qed

lemma itself_post: "call_post k s = Some s' \<Longrightarrow> itself s s'"
  by (cases k) (auto simp: nativeForkAndSpecialize_post_def nativeSpecializeAppProcess_post_def
      nativeForkSystemServer_post_def fork_post_def server_specialize_post_def
      split: Option.bind_splits if_splits
      intro: itself_trans [OF itself_quiet [OF quiet_app_post]] itself_trans [OF itself_quiet [OF quiet_post_inner]]
        itself_quiet [OF quiet_app_post])

lemma itself_delete:
  assumes "delete_ZygiskContext s = Some (ms, s')"
  shows "itself s s'"
proof -
  obtain c where c: "g_ctx s = Some c"
    using assms by (auto simp: delete_ZygiskContext_def split: Option.bind_splits)
  have "self_pid s' = self_pid s \<and> self_tid s' = self_tid s"
  proof (cases "is_child c")
    case True
    then obtain h where "get_hook s = Some h"
      using assms c by (auto simp: delete_ZygiskContext_def get_hook_def Let_def split: Option.bind_splits)
    from armed_delete [OF assms c True this] show ?thesis by (simp add: armed_def)
  next
    case False
    with assms c show ?thesis by (auto simp: delete_ZygiskContext_def Let_def)
  qed
  with delete_frame [OF assms] show ?thesis by (simp add: itself_def no_child_def)
qed

lemma run_hook_itself:
  assumes "run_hook h vals s = Some (res, ms, s')"
  shows "itself s s'"
proof -
  obtain a s1 s2 s3 where r: "call_pre (jh_pre h) (new_ZygiskContext a (s\<lparr>locals := vals\<rparr>)) = Some s1"
      "call_original h s1 = Some s2" "call_post (jh_post h) s2 = Some s3" "delete_ZygiskContext s3 = Some (ms, s')"
    using assms by (auto simp: run_hook_def split: Option.bind_splits)
  have "itself s (new_ZygiskContext a (s\<lparr>locals := vals\<rparr>))"
    by (simp add: itself_def no_child_def new_ZygiskContext_def)
  with itself_call_pre [OF r(1)] itself_original [OF r(2)] itself_post [OF r(3)] itself_delete [OF r(4)]
  show ?thesis by (meson itself_trans)
qed

section \<open>The pid a hooking function returns\<close>

lemma forking_hook: "h \<in> set (src_methods t) \<Longrightarrow> t \<noteq> Specialize_app \<Longrightarrow> forking h"
  using hooks_fork by (cases t; simp add: list_all_iff del: src_methods.simps)

lemma hook_result:
  assumes run: "run_hook h vals s = Some (res, ms, s')" and f: "forking h" and fs: "forks s = (p, me) # r"
  shows "res = Some p"
proof -
  have h: "jh_pre h \<noteq> SpecializeAppProcess" "jh_post h \<noteq> SpecializeAppProcess" "jh_returns_pid h"
    using f by (simp_all add: forking_def)
  obtain a s1 s2 s3 c where
    p1: "call_pre (jh_pre h) (new_ZygiskContext a (s\<lparr>locals := vals\<rparr>)) = Some s1"
    and p2: "call_original h s1 = Some s2" and p3: "call_post (jh_post h) s2 = Some s3"
    and c: "g_ctx s3 = Some c" and out: "res = Some (c_pid c)"
    using run h(3) by (auto simp: run_hook_def split: Option.bind_splits)
  have "pid_of s1 = Some p"
    using call_pre_log [OF p1 h(1), of p me r] fs by (auto simp: new_ZygiskContext_def pid_of_def)
  moreover have "pid_of s2 = pid_of s1"
    using p2 by (auto simp: call_original_def Let_def pid_of_def dest!: plt_calls_ctx split: if_splits Option.bind_splits)
  moreover have "pid_of s3 = pid_of s2"
    using call_post_log [OF p3 h(2)] by (simp add: pid_of_def)
  ultimately show ?thesis using out c by (simp add: pid_of_def)
qed

section \<open>The end of Zygote's hooks\<close>

text \<open>After the context is freed no call of a hooking function returns.\<close>

lemma freed_no_hook:
  assumes "g_hook s = Freed" "h \<in> set (src_methods t)"
  shows "run_hook h vals s = None"
proof (cases "run_hook h vals s")
  case (Some x)
  then obtain res ms s' where "run_hook h vals s = Some (res, ms, s')" by (cases x) auto
  from run_hook_hook [OF this assms(2)] assms(1) show ?thesis by simp
qed simp

lemma armed_destroys:
  assumes "g_hook s = Live k" "should_unmap k" "self_tid s = self_pid s" "new_pthread_attr_destroy s = Some s2"
  shows "g_hook s2 = Freed"
  using assms
  by (auto simp: new_pthread_attr_destroy_def through_def logop_def get_hook_def split: Option.bind_splits if_splits)

text \<open>
  C7: A failed fork makes Zygote take itself for the child. When the \<^verbatim>\<open>fork\<close> of a hooking function
  returns \<open>-1\<close> and no fork of the rest returns in a child (so that the process that goes on is the
  one that called), the function returns \<open>-1\<close> in the same process, but the process is left as a child
  is: it leaves, and the main thread's next \<^verbatim>\<open>pthread_attr_destroy\<close> frees the hook context; no
  call of a hooking function returns after that.
\<close>

theorem failed_fork_taken_for_child:
  assumes "h \<in> set (src_methods t)" "t \<noteq> Specialize_app"
    and "forks s = (-1, me) # r" "\<forall>f\<in>set r. fst f \<noteq> 0"
    and "run_hook h vals s = Some (res, mods, s')"
  shows "res = Some (-1) \<and> self_pid s' = self_pid s \<and> self_tid s' = self_tid s \<and> phase_of s' = Leaving \<and>
    (self_tid s = self_pid s \<longrightarrow>
      (\<forall>s2. new_pthread_attr_destroy s' = Some s2 \<longrightarrow> phase_of s2 = Gone \<and>
         (\<forall>t1 h1 vals1. h1 \<in> set (src_methods t1) \<longrightarrow> run_hook h1 vals1 s2 = None)))"
proof -
  have res: "res = Some (-1)" by (rule hook_result [OF assms(5) forking_hook [OF assms(1,2)] assms(3)])
  have self: "self_pid s' = self_pid s" "self_tid s' = self_tid s"
    using run_hook_itself [OF assms(5)] assms(3,4) by (simp_all add: itself_def no_child_def)
  obtain k where k: "g_hook s' = Live k" "should_unmap k"
    using run_hook_hook [OF assms(5,1)] res by (auto simp: in_child_def armed_of_def)
  have "g_hook s2 = Freed" if "self_tid s = self_pid s" "new_pthread_attr_destroy s' = Some s2" for s2
    by (rule armed_destroys [OF k _ that(2)]) (simp add: self that(1))
  then show ?thesis
    using res self k freed_no_hook by (auto simp: phase_of_def)
qed

section \<open>A concrete run\<close>

definition demo_nofork :: "jni_method list zyg" where
  "demo_nofork = demo_zyg\<lparr>forks := [(-1, 0)], g_available := False,
     g_hook := Live (demo_hook\<lparr>jni_tables := (\<lambda>t. [\<lparr>mname = ''m'', msig = ''s'', fnPtr = 77\<rparr>])\<rparr>)\<rparr>"

definition demo_nofork_ctx :: ZygiskContext where
  "demo_nofork_ctx = demo_server_ctx\<lparr>c_process := Some ''system_server'', c_flags := SERVER_FORK_AND_SPECIALIZE,
     c_allowed_fds := [True, False, False, True, False, False, False, False]\<rparr>"

definition demo_nofork_pre :: "jni_method list zyg" where
  "demo_nofork_pre = demo_nofork\<lparr>forks := [], oslog := [OpSigBlock, OpFork, OpClose 1, OpClose 1], g_ctx := Some demo_nofork_ctx\<rparr>"

lemma demo_nofork_call_pre:
  "call_pre ForkSystemServer (new_ZygiskContext (c_args demo_server_ctx) (demo_nofork\<lparr>locals := (\<lambda>p. JInt 0)\<rparr>))
     = Some demo_nofork_pre"
  by (simp add: nativeForkSystemServer_pre_def fork_pre_def old_fork_def demo_nofork_def demo_nofork_pre_def
      demo_nofork_ctx_def demo_zyg_def demo_world_def demo_server_ctx_def upd_ctx_def logop_def is_child_def
      open_proc_fd_def alloc_fd_def lowest_free_def demo_parse parse_int_dots sys_close_def upt_rec Let_def
      numeral_3_eq_3 demo_replicate new_ZygiskContext_def set_flag_def child_of_def server_specialize_pre_def
      get_module_info_def zygisk_request_fd_def zygisk_connect_def sanitize_fds_def get_fd_max_def can_exempt_fd_def)

lemma demo_nofork_run:
  "\<exists>s'. run_hook ForkSystemServer_l (\<lambda>p. JInt 0) demo_nofork = Some (Some (-1), [], s') \<and>
     (\<exists>s2. new_pthread_attr_destroy s' = Some s2)"
proof -
  define s2 where "s2 = demo_nofork_pre\<lparr>orig_calls := [(77, map (\<lambda>_. JInt 0) (jh_forward ForkSystemServer_l))],
    oslog := oslog demo_nofork_pre @ [OpFork]\<rparr>"
  define s3 where "s3 = s2\<lparr>oslog := oslog s2 @ [OpSigUnblock], g_ctx := Some (demo_nofork_ctx\<lparr>c_flags := c_flags demo_nofork_ctx OR POST_SPECIALIZE\<rparr>)\<rparr>"
  have o: "call_original ForkSystemServer_l demo_nofork_pre = Some s2"
    by (simp add: call_original_def demo_server_hook s2_def demo_nofork_pre_def demo_nofork_def demo_nofork_ctx_def
        demo_defs table_methods_def get_hook_def new_fork_def old_fork_def demo_server_ctx_def logop_def comp_def)
  have p: "call_post ForkSystemServer s2 = Some s3"
    by (simp add: nativeForkSystemServer_post_def server_specialize_post_def run_modules_post_def fork_post_def
        s3_def s2_def demo_nofork_pre_def demo_nofork_ctx_def child_of_def is_child_def demo_server_ctx_def
        upd_ctx_def module_ids_def logop_def)
  have c: "g_ctx s3 = Some (demo_nofork_ctx\<lparr>c_flags := c_flags demo_nofork_ctx OR POST_SPECIALIZE\<rparr>)" "c_pid demo_nofork_ctx = -1"
    by (simp_all add: s3_def demo_nofork_ctx_def demo_server_ctx_def)
  obtain s4 where d: "delete_ZygiskContext s3 = Some ([], s4)" and t: "\<exists>s2. new_pthread_attr_destroy s4 = Some s2"
    by (simp add: delete_ZygiskContext_def s3_def s2_def demo_nofork_pre_def demo_nofork_def demo_nofork_ctx_def
        demo_defs demo_server_ctx_def is_child_def get_hook_def upd_hook_def restore_zygote_hook_def
        register_table_def register_jni_methods_def register_methods.simps set_table_def table_methods_def
        hook_unloader_def read_maps_def first_library_def register_hook_def RegisterHook_def CommitHook_def
        Let_def Scan_def new_pthread_attr_destroy_def logop_def restore_plt_hook_def)
  have "run_hook ForkSystemServer_l (\<lambda>p. JInt 0) demo_nofork = Some (Some (-1), [], s4)"
    using demo_nofork_call_pre o p c d by (simp add: run_hook_def demo_args demo_server_hook)
  with t show ?thesis by blast
qed

theorem failed_fork_taken_for_child_witness:
  "\<exists>s' s2. run_hook ForkSystemServer_l (\<lambda>p. JInt 0) demo_nofork = Some (Some (-1), [], s') \<and>
     self_pid s' = 50 \<and> phase_of demo_nofork = Serving \<and> phase_of s' = Leaving \<and>
     new_pthread_attr_destroy s' = Some s2 \<and> phase_of s2 = Gone \<and>
     run_hook ForkSystemServer_l (\<lambda>p. JInt 0) s2 = None"
proof -
  obtain s' s2 where run: "run_hook ForkSystemServer_l (\<lambda>p. JInt 0) demo_nofork = Some (Some (-1), [], s')"
    and d: "new_pthread_attr_destroy s' = Some s2"
    using demo_nofork_run by blast
  have f: "forks demo_nofork = (-1, 0) # []" "self_pid demo_nofork = 50" "self_tid demo_nofork = 50"
    "phase_of demo_nofork = Serving"
    by (simp_all add: demo_nofork_def demo_zyg_def phase_of_def demo_hook_def)
  note q = failed_fork_taken_for_child [OF demo_l_listed(2) _ f(1) _ run]
  from q have e: "self_pid s' = 50" "phase_of s' = Leaving" "phase_of s2 = Gone"
    using f(2,3) d by auto
  have "run_hook ForkSystemServer_l (\<lambda>p. JInt 0) s2 = None"
    using q f(2,3) d demo_l_listed(2) by (metis empty_iff empty_set jtable.distinct(5))
  with run d e f(4) show ?thesis by (intro exI conjI)
qed

end
