(* ===== verification/PltSelect.thy ===== *)
theory PltSelect
  imports ZygDemo LspltDemo
begin

unbundle bit_operations_syntax

text \<open>
  The path-pattern interface of the modules: which slots the requests collected in the context come
  to, when they are committed.
\<close>

section \<open>Requests\<close>

text \<open>The requests of modules between two commits, as the two functions behind the table's slots.\<close>

fun plt_request :: "api_call \<Rightarrow> 'j zyg \<Rightarrow> 'j zyg" where
  "plt_request (C_pltHookRegister_regex re sy fn bk) s = plt_hook_register re sy fn bk s"
| "plt_request (C_pltHookExclude re sy) s = plt_hook_exclude re sy s"
| "plt_request _ s = s"

text \<open>What a request asks for: a registration or an exclusion, if its pattern compiles.\<close>

fun wanted :: "(string \<Rightarrow> bool) \<Rightarrow> api_call \<Rightarrow> CtxRegisterInfo option" where
  "wanted ok (C_pltHookRegister_regex (Some r) (Some y) fn bk) =
     (if fn \<noteq> 0 \<and> ok r then Some \<lparr>r_regex = r, r_symbol = y, r_callback = fn, r_backup = bk\<rparr> else None)"
| "wanted ok _ = None"

fun unwanted :: "(string \<Rightarrow> bool) \<Rightarrow> api_call \<Rightarrow> IgnoreInfo option" where
  "unwanted ok (C_pltHookExclude (Some r) sy) =
     (if ok r then Some \<lparr>i_regex = r, i_symbol = (case sy of Some y \<Rightarrow> y | None \<Rightarrow> [])\<rparr> else None)"
| "unwanted ok _ = None"

definition collected :: "ZygiskContext \<Rightarrow> (string \<Rightarrow> bool) \<Rightarrow> api_call list \<Rightarrow> ZygiskContext" where
  "collected c ok cs = c\<lparr>c_register_info := c_register_info c @ List.map_filter (wanted ok) cs,
     c_ignore_info := c_ignore_info c @ List.map_filter (unwanted ok) cs\<rparr>"

lemma upd_ctx_Some: "g_ctx s = Some c \<Longrightarrow> upd_ctx f s = s\<lparr>g_ctx := Some (f c)\<rparr>"
  by (simp add: upd_ctx_def)

lemma plt_request_collects:
  assumes "g_ctx s = Some c"
  shows "plt_request x s = s\<lparr>g_ctx := Some (collected c (regcomp (w s)) [x])\<rparr>"
proof -
  have same: "s = s\<lparr>g_ctx := Some c\<rparr>" using assms by simp
  show ?thesis
    using assms same
    by (cases x)
      (auto simp: plt_hook_register_def plt_hook_exclude_def collected_def map_filter_simps upd_ctx_Some
        split: option.splits)
qed

lemma plt_requests_collect:
  "g_ctx s = Some c \<Longrightarrow> fold plt_request xs s = s\<lparr>g_ctx := Some (collected c (regcomp (w s)) xs)\<rparr>"
proof (induction xs arbitrary: s c)
  case Nil
  then show ?case by (simp add: collected_def map_filter_simps)
next
  case (Cons x xs)
  have "fold plt_request (x # xs) s = fold plt_request xs (s\<lparr>g_ctx := Some (collected c (regcomp (w s)) [x])\<rparr>)"
    by (simp add: plt_request_collects [OF Cons.prems])
  also have "\<dots> = s\<lparr>g_ctx := Some (collected (collected c (regcomp (w s)) [x]) (regcomp (w s)) xs)\<rparr>"
    by (subst Cons.IH) simp_all
  also have "collected (collected c (regcomp (w s)) [x]) (regcomp (w s)) xs = collected c (regcomp (w s)) (x # xs)"
    by (auto simp: collected_def map_filter_def)
  finally show ?case .
qed

section \<open>Selection\<close>

definition selects :: "(string \<Rightarrow> string \<Rightarrow> bool) \<Rightarrow> ZygiskContext \<Rightarrow> map_info \<Rightarrow> CtxRegisterInfo \<Rightarrow> bool" where
  "selects ex c m r \<longleftrightarrow>
     ex (r_regex r) (mpath m) \<and>
     (\<forall>i\<in>set (c_ignore_info c). ex (i_regex i) (mpath m) \<longrightarrow> i_symbol i \<noteq> [] \<and> i_symbol i \<noteq> r_symbol r) \<and>
     dev m \<noteq> 0 \<and> inode m \<noteq> 0 \<and> r_symbol r \<noteq> [] \<and> r_callback r \<noteq> 0"

definition whole_file :: "map_info \<Rightarrow> CtxRegisterInfo \<Rightarrow> RegisterInfo" where
  "whole_file m r = \<lparr>reg_dev = dev m, reg_inode = inode m, range_lo = 0, range_hi = - 1,
     symbol = r_symbol r, reg_callback = r_callback r, reg_backup = r_backup r\<rparr>"

definition selection :: "(string \<Rightarrow> string \<Rightarrow> bool) \<Rightarrow> ZygiskContext \<Rightarrow> map_info list \<Rightarrow> RegisterInfo list" where
  "selection ex c maps = concat (map (\<lambda>m. map (whole_file m) (filter (selects ex c m) (c_register_info c)))
     (filter scannable maps))"

lemma process_regs_selects:
  "process_regs (c_ignore_info c) m rs s =
     s\<lparr>register_info := register_info s @ map (whole_file m) (filter (selects (regexec (w s)) c m) rs)\<rparr>"
proof (induction rs arbitrary: s)
  case (Cons r rs)
  show ?case
    by (auto simp: Cons.IH RegisterHook_def selects_def ignored_def list_ex_iff whole_file_def)
qed simp

lemma process_maps_selects:
  "fold (\<lambda>m s. process_regs (c_ignore_info c) m (c_register_info c) s) (filter scannable maps) s =
     s\<lparr>register_info := register_info s @ selection (regexec (w s)) c maps\<rparr>"
  by (induction maps arbitrary: s) (simp_all add: process_regs_selects selection_def)

lemma process_regex_selects:
  "\<exists>s1. plt_hook_process_regex c s = s1\<lparr>register_info := register_info s @ selection (regexec (w s)) c (fst (read_maps s))\<rparr> \<and>
     (s1 = s \<or> s1 = snd (read_maps s)) \<and> (c_register_info c = [] \<longrightarrow> s1 = s)"
proof (cases "c_register_info c = []")
  case True
  then have "selection (regexec (w s)) c maps = []" for maps by (simp add: selection_def)
  with True show ?thesis by (intro exI [of _ s]) (simp add: plt_hook_process_regex_def)
next
  case False
  have r: "register_info (snd (read_maps s)) = register_info s" "w (snd (read_maps s)) = w s"
    by (simp_all add: read_maps_def split: list.split)
  with False show ?thesis
    by (intro exI [of _ "snd (read_maps s)"])
      (simp add: plt_hook_process_regex_def case_prod_beta Let_def process_maps_selects)
qed

text \<open>
  C16: What the path patterns of modules come to. After any sequence of registrations and exclusions a
  commit hands to the hooker, besides what was pending, one whole-file registration for each mapping
  of an image's start and each valid registration whose pattern matches its path and whose symbol no
  exclusion of that path covers, in the map's order and then the order of the requests. So an exclusion
  counts whether it was made before or after the registrations it removes, and by whichever module;
  and the lists are emptied, so nothing is registered again by the next commit.
\<close>

theorem patterns_committed:
  assumes "g_ctx s = Some c"
  shows "\<exists>s1. plt_hook_commit (fold plt_request cs s) = CommitHook s1 \<and>
    register_info s1 = register_info s @
      selection (regexec (w s)) (collected c (regcomp (w s)) cs) (fst (read_maps s)) \<and>
    map_option (\<lambda>c'. (c_register_info c', c_ignore_info c')) (g_ctx s1) = Some ([], [])"
proof -
  let ?c = "collected c (regcomp (w s)) cs" and ?s = "s\<lparr>g_ctx := Some (collected c (regcomp (w s)) cs)\<rparr>"
  have f: "fold plt_request cs s = ?s" by (rule plt_requests_collect [OF assms])
  obtain s1 where p: "plt_hook_process_regex ?c ?s =
      s1\<lparr>register_info := register_info ?s @ selection (regexec (w ?s)) ?c (fst (read_maps ?s))\<rparr>"
    and s1: "s1 = ?s \<or> s1 = snd (read_maps ?s)"
    using process_regex_selects by blast
  have g: "g_ctx s1 = Some ?c" using s1 by (auto simp: read_maps_def split: list.split)
  have m: "fst (read_maps ?s) = fst (read_maps s)" by (simp add: read_maps_def split: list.split)
  define s2 where "s2 = upd_ctx (\<lambda>c. c\<lparr>c_register_info := [], c_ignore_info := []\<rparr>) (plt_hook_process_regex ?c ?s)"
  have "plt_hook_commit ?s = CommitHook s2" by (simp add: plt_hook_commit_def s2_def)
  moreover have "register_info s2 = register_info s @ selection (regexec (w s)) ?c (fst (read_maps s))"
    "map_option (\<lambda>c'. (c_register_info c', c_ignore_info c')) (g_ctx s2) = Some ([], [])"
    by (simp_all add: s2_def p g m upd_ctx_def)
  ultimately show ?thesis unfolding f by blast
qed

text \<open>
  Three requests, of which the last excludes one symbol of the library the first two name; the map has
  that library.
\<close>

definition pattern_calls :: "api_call list" where
  "pattern_calls = [C_pltHookRegister_regex (Some ''/system/lib64/a b.so'') (Some [97]) 8 0,
     C_pltHookRegister_regex (Some ''/system/lib64/a b.so'') (Some [98]) 16 0,
     C_pltHookExclude (Some ''/system/lib64/a b.so'') (Some [97])]"

definition pattern_state :: "jni_method list zyg" where
  "pattern_state = demo_zyg\<lparr>g_ctx := Some demo_server_ctx, proc_maps := [Some scan_text],
     w := demo_world\<lparr>regexec := (=)\<rparr>\<rparr>"

theorem patterns_committed_witness:
  "\<exists>s1. plt_hook_commit (fold plt_request pattern_calls pattern_state) = CommitHook s1 \<and>
     register_info s1 = [\<lparr>reg_dev = makedev 253 1, reg_inode = 42, range_lo = 0, range_hi = - 1,
       symbol = [98], reg_callback = 16, reg_backup = 0\<rparr>]"
proof -
  have c: "g_ctx pattern_state = Some demo_server_ctx" by (simp add: pattern_state_def)
  have m: "fst (read_maps pattern_state) = [demo_map]"
    by (simp add: read_maps_def pattern_state_def scan_one)
  have d: "makedev 253 1 \<noteq> 0" by code_simp
  have r: "5 AND PROT_READ \<noteq> (0 :: u8)" by code_simp
  have "selection (regexec (w pattern_state)) (collected demo_server_ctx (regcomp (w pattern_state)) pattern_calls) [demo_map] =
      [\<lparr>reg_dev = makedev 253 1, reg_inode = 42, range_lo = 0, range_hi = - 1,
       symbol = [98], reg_callback = 16, reg_backup = 0\<rparr>]"
    using d r by (simp add: selection_def scannable_def demo_map_def collected_def pattern_calls_def map_filter_simps
        demo_server_ctx_def pattern_state_def demo_world_def selects_def whole_file_def)
  then show ?thesis
    using patterns_committed [OF c, of pattern_calls] unfolding m by (auto simp: pattern_state_def demo_zyg_def)
qed

end
