(* ===== verification/Exchange.thy ===== *)
theory Exchange
  imports LoadProps Daemon
begin

text \<open>
  The client and the daemon together: what a process learns from this daemon when it asks, and what
  follows for the modules it loads.
\<close>

section \<open>Asking\<close>

text \<open>A client without a connection, for which the connection succeeds.\<close>

definition reaches :: "rx list \<Rightarrow> 'j zyg \<Rightarrow> bool" where
  "reaches rx s \<longleftrightarrow> g_available s \<and> g_sock s = -1 \<and>
     (\<exists>sl r. connect_spec backoff_delays (net s) = (Connected rx, sl, r))"

text \<open>What the daemon makes of the bytes the client sends for a request, as pieces that arrive.\<close>

definition answered :: "(u32 \<Rightarrow> string option) \<Rightarrow> ZygiskRequest \<Rightarrow> 'j zyg \<Rightarrow> rx list \<Rightarrow> bool" where
  "answered ps req s rx \<longleftrightarrow>
     handle_stream ps (enc_request \<lparr>opcode = request_code req, hpid = self_pid s\<rparr>) = Some (rx_bytes_retry rx)"

lemma lowest_free_nonneg: "0 \<le> lowest_free ks"
proof -
  let ?l = "filter (\<lambda>d. d \<notin> set ks) (map int [0..<Suc (length ks)])"
  have "hd ?l \<in> set ?l" by (rule hd_in_set [OF lowest_free_exists])
  then show ?thesis by (auto simp: lowest_free_def)
qed

lemma request_sent:
  assumes "reaches rx s"
  obtains d s1 where "zygisk_request_fd req s = (d, s1)" "0 \<le> d" "d \<notin> open_fds s"
    "map_of (fdtab s1) d = Some (Sock rx (enc_request \<lparr>opcode = request_code req, hpid = self_pid s\<rparr>))"
    "g_sock s1 = d" "g_available s1"
proof -
  define d where "d = lowest_free (map fst (fdtab s))"
  obtain sl r where "connect_spec backoff_delays (net s) = (Connected rx, sl, r)"
    using assms by (auto simp: reaches_def)
  with assms connect_loop_refines [of 100 backoff_delays s] obtain s0 where
    c: "zygisk_connect s = (d, s0)" "fdtab s0 = (d, Sock rx []) # fdtab s" "g_sock s0 = d" "self_pid s0 = self_pid s" "g_available s0"
    by (auto simp: reaches_def zygisk_connect_def backoff_delays_def connect_result_def d_def Let_def)
  let ?q = "enc_request \<lparr>opcode = request_code req, hpid = self_pid s\<rparr>"
  have d: "0 \<le> d" "d \<notin> open_fds s"
    using lowest_free_fresh [of "map fst (fdtab s)"] by (simp_all add: d_def lowest_free_nonneg open_fds_def)
  have w: "sys_write d ?q s0 = (True, set_file d (Sock rx ?q) s0)"
    by (simp add: sys_write_def c(2))
  show ?thesis
  proof (rule that)
    show "zygisk_request_fd req s = (d, set_file d (Sock rx ?q) s0)"
      using d(1) c(1,4) w by (simp add: zygisk_request_fd_def)
    show "map_of (fdtab (set_file d (Sock rx ?q) s0)) d = Some (Sock rx ?q)"
      by (simp add: set_file_def c(2))
    show "g_sock (set_file d (Sock rx ?q) s0) = d" by (simp add: set_file_def c(3))
    show "g_available (set_file d (Sock rx ?q) s0)" by (simp add: set_file_def c(5))
  qed (use d in simp_all)
qed

text \<open>Whatever the pieces and however often a read is interrupted, the flags read are the daemon's.\<close>

lemma flags_read:
  assumes "answered ps req s rx" and so: "map_of (fdtab s1) d = Some (Sock rx tx)" and u: "length (uninit (w s1)) = 12"
  shows "\<exists>s2. read_flags d s1 = (Some 0, s2) \<and> g_ctx s2 = g_ctx s1"
proof -
  obtain u where b: "rx_bytes_retry rx = enc_response \<lparr>code = 0, ruid = u, rflags = 0\<rparr>"
    using assms(1) daemon_answers [of ps "\<lparr>opcode = request_code req, hpid = self_pid s\<rparr>" "[]"]
    by (simp add: answered_def)
  have len: "length (rx_bytes_retry rx) = 12" unfolding b by (rule resp.length_enc)
  then obtain rx' where x: "xxread 12 rx [] = (12, rx_bytes_retry rx, rx')"
    using xxread_spec [of "[]" 12 rx] by auto
  have "dec32 (drop 8 (rx_bytes_retry rx)) = Some 0"
    unfolding b by (simp add: enc_response_def length_le32 c32.dec_enc)
  with so len x u have "read_flags d s1 = (Some 0, set_incoming d rx' s1)"
    by (simp add: read_flags_def sock_xxread_def incoming_def)
  moreover have "g_ctx (set_incoming d rx' s1) = g_ctx s1"
    by (simp add: set_incoming_def set_file_def split: option.split ofile.split)
  ultimately show ?thesis by blast
qed

section \<open>What an app gets\<close>

lemma ctx_core_kept:
  "keeps K L s s' \<Longrightarrow> g_ctx s = Some c \<Longrightarrow> \<exists>c'. g_ctx s' = Some c' \<and> ctx_core c' = ctx_core c"
  by (auto simp: keeps_def ctx_step_def split: option.splits)

text \<open>Finding the modules leaves the client alone.\<close>

definition client :: "'j zyg \<Rightarrow> fd \<times> bool" where "client s = (g_sock s, g_available s)"

lemma client_simps [simp]:
  "client (upd_ctx f s) = client s" "client (sys_close d s) = client s" "client (snd (alloc_fd h s)) = client s"
  "client (set_incoming d rx s) = client s"
  by (simp_all add: client_def upd_ctx_def sys_close_def alloc_fd_def set_incoming_def set_file_def Let_def
      split: option.split ofile.split)

lemma client_xopen_dir: "xopen_dir path s = Some (es, d, s1) \<Longrightarrow> client s1 = client s"
  by (auto simp: xopen_dir_def split: option.splits prod.splits) (metis client_simps(3) snd_conv)

lemma client_scan_dir [simp]: "client (snd (scan_zygisk_dir path es s)) = client s"
proof (induction path es s rule: scan_zygisk_dir.induct)
  case (2 path isdir name r s)
  show ?case
  proof (cases "open_file (w s) (path @ ''/'' @ name)")
    case (Some f)
    obtain d s1 where a: "alloc_fd f s = (d, s1)" by fastforce
    have "client s1 = client s" using client_simps(3) [of f s] a by simp
    with 2(3) [OF _ Some a [symmetric]] 2(1) Some a show ?thesis by (auto split: prod.split)
  qed (use 2 in auto)
qed simp

lemma client_scan [simp]: "client (snd (scan_modules es s)) = client s"
proof (induction es arbitrary: s)
  case (Cons e es)
  then show ?case
    by (cases e) (auto simp: case_prod_beta Let_def client_xopen_dir split: option.split)
qed simp

lemma info_asked:
  assumes "reaches rx s" "answered ps GetInfo s rx" "g_ctx s = Some c" "length (uninit (w s)) = 12"
  obtains d fds s1 t c1 where "get_module_info s = Some (d, fds, s1)" "0 \<le> d" "client s1 = (d, True)"
    "g_ctx s1 = Some c1" "ctx_core c1 = ctx_core (c\<lparr>c_info_flags := 0\<rparr>)"
    "opened fds (case dir_entries (w s) ''/data/adb/modules'' of None \<Rightarrow> [] | Some es \<Rightarrow> module_files (w s) es) t s1"
proof -
  obtain d s1 where rq: "zygisk_request_fd GetInfo s = (d, s1)" "0 \<le> d"
    and so: "map_of (fdtab s1) d = Some (Sock rx (enc_request \<lparr>opcode = request_code GetInfo, hpid = self_pid s\<rparr>))"
    and cl: "client s1 = (d, True)"
    using request_sent [OF assms(1), of GetInfo] by (auto simp: client_def)
  have k1: "keeps {} {} s s1" using keeps_request_fd [of "{}" "{}" s GetInfo] rq(1) by simp
  then have w1: "w s1 = w s" by (simp add: keeps_def)
  obtain s2 where rf: "read_flags d s1 = (Some 0, s2)" "g_ctx s2 = g_ctx s1"
    using flags_read [OF assms(2) so] w1 assms(4) by auto
  have cl2: "client s2 = (d, True)"
    using cl rf(1) by (auto simp: read_flags_def sock_xxread_def case_prod_beta split: option.splits)
  have no: "\<not> has_all 0 UNMOUNT_MASK" by (simp add: has_all_def UNMOUNT_MASK_val)
  obtain fds s3 where g: "get_module_info s = Some (d, fds, s3)"
    and o: "opened fds (case dir_entries (w s) ''/data/adb/modules'' of None \<Rightarrow> [] | Some es \<Rightarrow> module_files (w s) es) s2 s3"
    and k: "keeps {} {} (upd_ctx (\<lambda>c. c\<lparr>c_info_flags := 0\<rparr>) s2) s3"
    using get_module_info_scan [OF rq rf(1)] no by auto
  have cl3: "client s3 = (d, True)"
    using g cl2 no rq rf(1) unfolding get_module_info_def
    by (auto simp: case_prod_beta Let_def client_xopen_dir split: option.splits)
  obtain c1 where c1: "g_ctx s2 = Some c1" "ctx_core c1 = ctx_core c"
    using ctx_core_kept [OF k1 assms(3)] rf(2) by auto
  then obtain c3 where "g_ctx s3 = Some c3" "ctx_core c3 = ctx_core (c1\<lparr>c_info_flags := 0\<rparr>)"
    using ctx_core_kept [OF k, of "c1\<lparr>c_info_flags := 0\<rparr>"] by (auto simp: upd_ctx_def)
  with c1(2) that [OF g rq(2) cl3 _ _ o] show thesis by (simp add: ctx_core_def)
qed

text \<open>The same for an app, before its modules run.\<close>

lemma app_asked:
  assumes "reaches rx s" "answered ps GetInfo s rx" "g_ctx s = Some c" "length (uninit (w s)) = 12"
  obtains d fds s1 t c1 where "get_module_info (set_flag APP_SPECIALIZE s) = Some (d, fds, s1)" "0 \<le> d"
    "client s1 = (d, True)" "g_ctx s1 = Some c1" "ctx_core c1 = ctx_core (c\<lparr>c_info_flags := 0\<rparr>)"
    "opened fds (case dir_entries (w s) ''/data/adb/modules'' of None \<Rightarrow> [] | Some es \<Rightarrow> module_files (w s) es) t s1"
    "app_specialize_pre s = map_option (sys_close d) (run_modules_pre fds s1)"
proof -
  define s0 where "s0 = set_flag APP_SPECIALIZE s"
  have s0: "reaches rx s0" "answered ps GetInfo s0 rx" "g_ctx s0 = Some (c\<lparr>c_flags := c_flags c OR APP_SPECIALIZE\<rparr>)"
    "length (uninit (w s0)) = 12" and w0: "w s0 = w s"
    using assms by (simp_all add: s0_def set_flag_def upd_ctx_def reaches_def answered_def)
  obtain d fds s1 t c1 where g: "get_module_info s0 = Some (d, fds, s1)" "0 \<le> d" "client s1 = (d, True)"
    "g_ctx s1 = Some c1" "ctx_core c1 = ctx_core (c\<lparr>c_flags := c_flags c OR APP_SPECIALIZE, c_info_flags := 0\<rparr>)"
    "opened fds (case dir_entries (w s) ''/data/adb/modules'' of None \<Rightarrow> [] | Some es \<Rightarrow> module_files (w s) es) t s1"
    using info_asked [OF s0] unfolding w0 by (metis (no_types, lifting))
  have core: "ctx_core c1 = ctx_core (c\<lparr>c_info_flags := 0\<rparr>)" using g(5) by (simp add: ctx_core_def)
  have "c_info_flags c1 = 0" using g(5) by (simp add: ctx_core_def)
  then have "\<not> has_all (c_info_flags c1) UNMOUNT_MASK" by (simp add: has_all_def UNMOUNT_MASK_val)
  with g have "app_specialize_pre s = map_option (sys_close d) (run_modules_pre fds s1)"
    by (simp add: app_specialize_pre_def s0_def [symmetric] drop_fd_def map_conv_bind_option comp_def)
  from that [OF g(1) [unfolded s0_def] g(2-4) core g(6) this] show thesis .
qed

text \<open>
  C19: With its own daemon the program never treats an app as hidden. Whichever process asks, and however
  the daemon's answer is split or its reading interrupted, no flag is set: the deny-list branch is not
  taken, no unmounting is requested, and every library of every enabled module that can be opened is
  handed to the loading, in listing order, before the socket is closed.
\<close>

theorem daemon_hides_nothing:
  assumes "reaches rx s" "answered ps GetInfo s rx" "g_ctx s = Some c" "length (uninit (w s)) = 12"
  shows "\<exists>d fds s1 t. get_module_info (set_flag APP_SPECIALIZE s) = Some (d, fds, s1) \<and> 0 \<le> d \<and>
    map_option c_info_flags (g_ctx s1) = Some 0 \<and>
    opened fds (case dir_entries (w s) ''/data/adb/modules'' of None \<Rightarrow> [] | Some es \<Rightarrow> module_files (w s) es) t s1 \<and>
    app_specialize_pre s = map_option (sys_close d) (run_modules_pre fds s1)"
proof -
  obtain d fds s1 u c1 where g: "get_module_info (set_flag APP_SPECIALIZE s) = Some (d, fds, s1)" "0 \<le> d"
    "client s1 = (d, True)" "g_ctx s1 = Some c1" "ctx_core c1 = ctx_core (c\<lparr>c_info_flags := 0\<rparr>)"
    "opened fds (case dir_entries (w s) ''/data/adb/modules'' of None \<Rightarrow> [] | Some es \<Rightarrow> module_files (w s) es) u s1"
    "app_specialize_pre s = map_option (sys_close d) (run_modules_pre fds s1)"
    by (rule app_asked [OF assms])
  have m: "map_option c_info_flags (g_ctx s1) = Some 0" using g(4,5) by (simp add: ctx_core_def)
  show ?thesis by (intro exI conjI) (rule g(1), rule g(2), rule m, rule g(6), rule g(7))
qed

section \<open>The client while modules run\<close>

text \<open>A client that holds a connection goes on holding it, whatever calls modules make.\<close>

definition stays :: "'j zyg \<Rightarrow> 'j zyg \<Rightarrow> bool" where
  "stays s s' \<longleftrightarrow> (0 \<le> g_sock s \<and> g_available s \<longrightarrow> client s' = client s)"

lemma stays_same [simp]: "client s' = client s \<Longrightarrow> stays s s'"
  by (simp add: stays_def)

lemma stays_trans: "stays a b \<Longrightarrow> stays b c \<Longrightarrow> stays a c"
  by (auto simp: stays_def client_def)

lemma stays_outer: "outer s' = outer s \<Longrightarrow> stays s s'"
  using outer_zyg [of s' s] by (simp add: client_def)

lemma client_upd [simp]:
  "client (s\<lparr>jst := j\<rparr>) = client s" "client (s\<lparr>locals := l\<rparr>) = client s" "client (logop e s) = client s"
  "client (set_file d f s) = client s" "client (upd_module k g s) = client s"
  by (simp_all add: client_def logop_def set_file_def upd_module_def upd_ctx_def)

lemma client_write [simp]: "client (snd (sys_write d bs s)) = client s" "client (write_any d bs s) = client s"
  by (simp_all add: sys_write_def write_any_def split: option.split ofile.split)

lemma stays_request_fd: "stays s (snd (zygisk_request_fd r s))"
  by (simp add: stays_def zygisk_request_fd_def zygisk_connect_def Let_def case_prod_beta)

lemma client_receive_fd [simp]: "client (snd (receive_fd d s)) = client s"
  by (auto simp: receive_fd_def split: option.split prod.split rres.split)

lemma stays_connectCompanion: "stays s (snd (connectCompanion k s))"
  using stays_request_fd [of s ConnectCompanion]
  by (auto simp: connectCompanion_def Let_def case_prod_beta write_int_def intro: stays_trans)

lemma stays_getModuleDir: "stays s (snd (getModuleDir k s))"
  using stays_request_fd [of s ZygiskRequest.GetModuleDir]
  by (auto simp: getModuleDir_def Let_def case_prod_beta write_int_def intro: stays_trans)

lemma stays_commit: "CommitHook s = Some (r, s') \<Longrightarrow> stays s (s' :: 'j zyg)"
  by (rule stays_outer [OF outer_CommitHook])

lemma stays_plt_hook_commit:
  assumes "plt_hook_commit s = Some (r, s')"
  shows "stays s s'"
proof (cases "g_ctx s")
  case (Some c)
  with assms have "stays (upd_ctx (\<lambda>c. c\<lparr>c_register_info := [], c_ignore_info := []\<rparr>) (plt_hook_process_regex c s)) s'"
    by (intro stays_commit) (simp add: plt_hook_commit_def)
  then have "stays (plt_hook_process_regex c s) s'" by (rule stays_trans [rotated]) simp
  with stays_outer [OF outer_process_regex] show ?thesis by (rule stays_trans)
qed (use assms in \<open>simp add: plt_hook_commit_def\<close>)

lemma stays_hookJni: "hookJniNativeMethods e c ms s = Some (ms', s') \<Longrightarrow> stays s s'"
  by (auto simp: hookJniNativeMethods_def hook_jni_methods_def hook_class_methods_def register_jni_methods_def
      Let_def case_prod_beta split: Option.bind_splits option.splits if_splits)

lemma stays_run_api: "run_api f call k s = Some s' \<Longrightarrow> stays s s'"
  by (cases call)
    (auto simp: run_api_def plt_hook_register_def plt_hook_exclude_def setOption_def register_by_inode_def
      RegisterModuleImpl_def exempt_fd_def Let_def
      intro: stays_hookJni stays_plt_hook_commit stays_commit stays_connectCompanion stays_getModuleDir
        stays_outer [OF outer_RegisterHook]
      split: if_splits option.splits Option.splits Option.bind_splits)

lemma stays_from [simp]:
  "stays (s\<lparr>locals := l\<rparr>) s' = stays s s'" "stays (logop e s) s' = stays s s'" "stays (upd_ctx g s) s' = stays s s'"
  by (simp_all add: stays_def client_def logop_def upd_ctx_def)

lemma stays_run_acts: "run_acts k a acts s = Some s' \<Longrightarrow> stays s s'"
  by (induction k a acts s rule: run_acts.induct)
    (auto simp: run_call_def split: Option.bind_splits intro: stays_trans [OF stays_run_api])

lemma stays_callback: "run_callback nm k a f s = Some s' \<Longrightarrow> stays s s'"
  by (auto simp: run_callback_def split: Option.bind_splits dest!: stays_run_acts)

lemma stays_run_pre: "run_pre m s = Some s' \<Longrightarrow> stays s s'"
  by (auto simp: run_pre_def preAppSpecialize_def preServerSpecialize_def call_app_def
      split: Option.bind_splits if_splits spec_args.splits intro: stays_callback)

lemma client_load_modules [simp]: "client (snd (load_modules i ds s)) = client s"
  by (induction i ds s rule: load_modules.induct)
    (auto simp: load_module_def case_prod_beta Let_def split: option.splits ofile.splits)

lemma stays_load_all: "load_all ks s = Some s' \<Longrightarrow> stays s s'"
  by (induction ks arbitrary: s)
    (force simp: onLoad_def split: Option.bind_splits if_splits intro: stays_trans dest: stays_callback)+

lemma stays_pre_all: "pre_all ks s = Some s' \<Longrightarrow> stays s s'"
  by (induction ks arbitrary: s) (auto split: Option.bind_splits intro: stays_trans [OF stays_run_pre])

lemma stays_run_modules_pre: "run_modules_pre fds s = Some s' \<Longrightarrow> stays s s'"
  by (auto simp: run_modules_pre_def case_prod_beta split: Option.bind_splits
      dest!: stays_load_all stays_pre_all intro: stays_trans [OF stays_same [OF client_load_modules] stays_trans])

text \<open>
  Zygote's child asks over a connection accepted at the second attempt; the answer arrives in two
  pieces.
\<close>

definition demo_asking :: "jni_method list zyg" where
  "demo_asking = demo_zyg\<lparr>g_ctx := Some demo_app_ctx, net := [Refused,
     Accepted [Chunk [0, 0, 0, 0] None, Chunk [255, 255, 255, 255, 0, 0, 0, 0] None]]\<rparr>"

lemma demo_unread: "process_info_new None = \<lparr>puid = -1, pflags = 0\<rparr>"
  by (simp add: process_info_new_def)

lemma demo_asking_asks:
  "\<exists>rx. reaches rx demo_asking \<and> answered (\<lambda>p. None) GetInfo demo_asking rx"
  "g_ctx demo_asking = Some demo_app_ctx" "length (uninit (w demo_asking)) = 12" "c_modules demo_app_ctx = []"
  "dir_entries (w demo_asking) ''/data/adb/modules'' = None"
proof -
  let ?rx = "[Chunk [0, 0, 0, 0] None, Chunk [255, 255, 255, 255, 0, 0, 0, 0] None] :: rx list"
  have r: "reaches ?rx demo_asking"
    by (simp add: reaches_def demo_asking_def demo_zyg_def backoff_delays_def)
  have m: "(- 1 :: u32) = 4294967295" by simp
  have f: "le32 (- 1 :: u32) = [255, 255, 255, 255]" unfolding m by (simp add: le32_def)
  have z: "le32 (0 :: u32) = [0, 0, 0, 0]" by (simp add: le32_def)
  have a: "answered (\<lambda>p. None) GetInfo demo_asking ?rx"
    using daemon_answers [of "\<lambda>p. None" "\<lparr>opcode = request_code GetInfo, hpid = self_pid demo_asking\<rparr>" "[]"]
    unfolding answered_def demo_unread enc_response_def by (simp add: f z)
  show "\<exists>rx. reaches rx demo_asking \<and> answered (\<lambda>p. None) GetInfo demo_asking rx" using r a by blast
qed (simp_all add: demo_asking_def demo_zyg_def demo_world_def demo_app_ctx_def demo_server_ctx_def)

theorem daemon_hides_nothing_witness:
  "\<exists>d s1. get_module_info (set_flag APP_SPECIALIZE demo_asking) = Some (d, [], s1) \<and>
     map_option c_info_flags (g_ctx s1) = Some 0"
proof -
  obtain rx where "reaches rx demo_asking" "answered (\<lambda>p. None) GetInfo demo_asking rx"
    using demo_asking_asks(1) by blast
  from daemon_hides_nothing [OF this demo_asking_asks(2,3)] demo_asking_asks(5)
  show ?thesis by (auto simp: opened_def)
qed

end
