(* ===== verification/StaleClient.thy ===== *)
theory StaleClient
  imports Exchange Runtime
begin

text \<open>
  What becomes of the cached connection to the daemon after a process has asked for its modules:
  every operation of the program keeps the client's two variables while they hold a connection, only
  the event of unloading the bridge resets them, and the number they hold is one that was closed.
\<close>

section \<open>Every operation keeps a held connection\<close>

lemma client_fields [simp]:
  "client (s\<lparr>g_hook := x\<rparr>) = client s" "client (s\<lparr>g_ctx := y\<rparr>) = client s" "client (s\<lparr>forks := f\<rparr>) = client s"
  "client (s\<lparr>self_pid := p\<rparr>) = client s" "client (s\<lparr>self_tid := q\<rparr>) = client s"
  "client (s\<lparr>orig_calls := os\<rparr>) = client s" "client (upd_hook g s) = client s"
  "client (drop_fd d s) = client s" "client (set_flag fl s) = client s" "client (fork_post s) = client s"
  by (simp_all add: client_def upd_hook_def drop_fd_def set_flag_def upd_ctx_def fork_post_def logop_def
      split: ptr.split option.split)

lemma stays_refl [simp]: "stays s s"
  by simp

lemma stays_into [simp]: "stays s (drop_fd d s') = stays s s'" "stays s (set_flag fl s') = stays s s'"
  "stays (set_flag fl s) s' = stays s s'" "stays s (logop e s') = stays s s'"
  "stays s (fork_post s') = stays s s'"
  "stays s (s'\<lparr>g_hook := x\<rparr>) = stays s s'" "stays (s\<lparr>g_hook := x\<rparr>) s' = stays s s'"
  "stays (s\<lparr>orig_calls := os\<rparr>) s' = stays s s'"
  by (simp_all add: stays_def) (simp_all add: set_flag_def upd_ctx_def client_def)









text \<open>The native methods' tables.\<close>

lemma client_set_table [simp]: "client (set_table t ms s) = client s"
  by (simp add: set_table_def)

lemma client_register_table [simp]: "client (register_table c t s) = client s"
  by (simp add: register_table_def register_jni_eq)

lemma client_undo [simp]: "client (undo_zygote_hooks c rep s) = client s"
  by (simp add: undo_zygote_hooks_def clear_table_def Let_def)







section \<open>The phases of a specialization\<close>

lemma client_read_flags [simp]: "client (snd (read_flags d s)) = client s"
  by (auto simp: read_flags_def sock_xxread_def case_prod_beta Let_def split: option.splits)





lemma client_allow [simp]: "client (allow_fds ds s) = client s"
  by (simp add: allow_fds_def)

lemma client_update_ignored [simp]: "client (snd (update_ignored p n ex s)) = client s"
  by (simp add: update_ignored_def Let_def case_prod_beta)






















section \<open>The number that stays\<close>






end
