(* ===== verification/Syscalls.thy ===== *)
theory Syscalls
  imports Lsplt
begin

text \<open>
  \<^verbatim>\<open>lsplt/syscall.hpp\<close>, as far as the hooker uses it: the wrappers of \<^verbatim>\<open>mmap\<close> and \<^verbatim>\<open>mremap\<close> that enter
  the kernel directly, for the architectures the library supports. A wrapper puts the arguments into the
  registers the kernel reads, traps, and turns an answer in the last 4095 words into \<^verbatim>\<open>-1\<close> with an error
  number. The kernel is a function from the trap to the answer; \<^verbatim>\<open>long\<close> is a word of the architecture's
  width. Numbers of system calls come from the kernel's headers, so a call is its name here.
\<close>

section \<open>Traps\<close>

record 'v trap =
  number_reg :: string
  call_name :: string
  arg_regs :: "(string \<times> 'v) list"

type_synonym 'v kernel = "'v trap \<Rightarrow> 'v"

text \<open>The error number, where one is set, and the value returned.\<close>

type_synonym 'v sysres = "u32 option \<times> 'v"

definition LSS_RETURN :: "'l::len word \<Rightarrow> 'l word sysres" where
  "LSS_RETURN res = (if - 4095 \<le> res then (Some (ucast (- res)), - 1) else (None, res))"

section \<open>The architectures\<close>

definition i386_syscall5 :: "string \<Rightarrow> u32 \<Rightarrow> u32 \<Rightarrow> u32 \<Rightarrow> u32 \<Rightarrow> u32 \<Rightarrow> u32 kernel \<Rightarrow> u32 sysres" where
  "i386_syscall5 nm a1 a2 a3 a4 a5 k =
     LSS_RETURN (k \<lparr>number_reg = ''eax'', call_name = nm,
       arg_regs = [(''ebx'', a1), (''ecx'', a2), (''edx'', a3), (''esi'', a4), (''edi'', a5)]\<rparr>)"

text \<open>The first and the last argument pass through memory, as no register is left for them.\<close>

definition i386_syscall6 ::
    "string \<Rightarrow> u32 \<Rightarrow> u32 \<Rightarrow> u32 \<Rightarrow> u32 \<Rightarrow> u32 \<Rightarrow> u32 \<Rightarrow> u32 kernel \<Rightarrow> u32 sysres" where
  "i386_syscall6 nm a1 a2 a3 a4 a5 a6 k =
     (let (m1, m6) = (a1, a6) in
      LSS_RETURN (k \<lparr>number_reg = ''eax'', call_name = nm,
        arg_regs = [(''ebx'', m1), (''ecx'', a2), (''edx'', a3), (''esi'', a4), (''edi'', a5), (''ebp'', m6)]\<rparr>))"

definition arm_body :: "string \<Rightarrow> (string \<times> u32) list \<Rightarrow> u32 kernel \<Rightarrow> u32 sysres" where
  "arm_body nm regs k = LSS_RETURN (k \<lparr>number_reg = ''r7'', call_name = nm, arg_regs = regs\<rparr>)"

definition arm_syscall5 :: "string \<Rightarrow> u32 \<Rightarrow> u32 \<Rightarrow> u32 \<Rightarrow> u32 \<Rightarrow> u32 \<Rightarrow> u32 kernel \<Rightarrow> u32 sysres" where
  "arm_syscall5 nm a1 a2 a3 a4 a5 =
     arm_body nm [(''r0'', a1), (''r1'', a2), (''r2'', a3), (''r3'', a4), (''r4'', a5)]"

definition arm_syscall6 ::
    "string \<Rightarrow> u32 \<Rightarrow> u32 \<Rightarrow> u32 \<Rightarrow> u32 \<Rightarrow> u32 \<Rightarrow> u32 \<Rightarrow> u32 kernel \<Rightarrow> u32 sysres" where
  "arm_syscall6 nm a1 a2 a3 a4 a5 a6 =
     arm_body nm [(''r0'', a1), (''r1'', a2), (''r2'', a3), (''r3'', a4), (''r4'', a5), (''r5'', a6)]"

definition x86_64_body :: "string \<Rightarrow> (string \<times> u64) list \<Rightarrow> u64 kernel \<Rightarrow> u64 sysres" where
  "x86_64_body nm regs k = LSS_RETURN (k \<lparr>number_reg = ''rax'', call_name = nm, arg_regs = regs\<rparr>)"

text \<open>The registers of the arguments, from the constraints and the moves of the assembly.\<close>

definition x86_64_regs :: "string list" where
  "x86_64_regs = [''rdi'', ''rsi'', ''rdx'', ''r10'', ''r8'', ''r9'']"

definition x86_64_syscall :: "string \<Rightarrow> u64 list \<Rightarrow> u64 kernel \<Rightarrow> u64 sysres" where
  "x86_64_syscall nm args = x86_64_body nm (List.zip x86_64_regs args)"

definition aarch64_body :: "string \<Rightarrow> (string \<times> u64) list \<Rightarrow> u64 kernel \<Rightarrow> u64 sysres" where
  "aarch64_body nm regs k = LSS_RETURN (k \<lparr>number_reg = ''x8'', call_name = nm, arg_regs = regs\<rparr>)"

definition aarch64_syscall5 :: "string \<Rightarrow> u64 \<Rightarrow> u64 \<Rightarrow> u64 \<Rightarrow> u64 \<Rightarrow> u64 \<Rightarrow> u64 kernel \<Rightarrow> u64 sysres" where
  "aarch64_syscall5 nm a1 a2 a3 a4 a5 =
     aarch64_body nm [(''x0'', a1), (''x1'', a2), (''x2'', a3), (''x3'', a4), (''x4'', a5)]"

definition aarch64_syscall6 ::
    "string \<Rightarrow> u64 \<Rightarrow> u64 \<Rightarrow> u64 \<Rightarrow> u64 \<Rightarrow> u64 \<Rightarrow> u64 \<Rightarrow> u64 kernel \<Rightarrow> u64 sysres" where
  "aarch64_syscall6 nm a1 a2 a3 a4 a5 a6 =
     aarch64_body nm [(''x0'', a1), (''x1'', a2), (''x2'', a3), (''x3'', a4), (''x4'', a5), (''x5'', a6)]"

definition riscv_body :: "string \<Rightarrow> (string \<times> u64) list \<Rightarrow> u64 kernel \<Rightarrow> u64 sysres" where
  "riscv_body nm regs k = LSS_RETURN (k \<lparr>number_reg = ''a7'', call_name = nm, arg_regs = regs\<rparr>)"

definition riscv_syscall5 :: "string \<Rightarrow> u64 \<Rightarrow> u64 \<Rightarrow> u64 \<Rightarrow> u64 \<Rightarrow> u64 \<Rightarrow> u64 kernel \<Rightarrow> u64 sysres" where
  "riscv_syscall5 nm a1 a2 a3 a4 a5 =
     riscv_body nm [(''a0'', a1), (''a1'', a2), (''a2'', a3), (''a3'', a4), (''a4'', a5)]"

definition riscv_syscall6 ::
    "string \<Rightarrow> u64 \<Rightarrow> u64 \<Rightarrow> u64 \<Rightarrow> u64 \<Rightarrow> u64 \<Rightarrow> u64 \<Rightarrow> u64 kernel \<Rightarrow> u64 sysres" where
  "riscv_syscall6 nm a1 a2 a3 a4 a5 a6 =
     riscv_body nm [(''a0'', a1), (''a1'', a2), (''a2'', a3), (''a3'', a4), (''a4'', a5), (''a5'', a6)]"

section \<open>The calls\<close>

definition EINVAL :: u32 where "EINVAL = 22"

text \<open>32-bit architectures: \<^verbatim>\<open>mmap2\<close> takes the offset in pages of 4096 bytes, as a \<^verbatim>\<open>long\<close>.\<close>

fun mmap2 :: "machine_abi \<Rightarrow> u32 \<Rightarrow> u32 \<Rightarrow> u32 \<Rightarrow> u32 \<Rightarrow> u32 \<Rightarrow> u32 \<Rightarrow> u32 kernel \<Rightarrow> u32 sysres" where
  "mmap2 I386 s l p f d o' k = i386_syscall6 ''mmap2'' s l p f d o' k"
| "mmap2 _ s l p f d o' k = arm_syscall6 ''mmap2'' s l p f d o' k"

definition sys_mmap_32 ::
    "machine_abi \<Rightarrow> u32 \<Rightarrow> u32 \<Rightarrow> u32 \<Rightarrow> u32 \<Rightarrow> u32 \<Rightarrow> u64 \<Rightarrow> u32 kernel \<Rightarrow> u32 sysres" where
  "sys_mmap_32 ar s l p f d off k =
     (if sint off mod 4096 \<noteq> 0 then (Some EINVAL, - 1)
      else mmap2 ar s l p f d (word_of_int (sint off div 4096)) k)"

text \<open>64-bit architectures: an \<^verbatim>\<open>int\<close> argument is widened with its sign.\<close>

fun sys_mmap_64 ::
    "machine_abi \<Rightarrow> u64 \<Rightarrow> u64 \<Rightarrow> u32 \<Rightarrow> u32 \<Rightarrow> u32 \<Rightarrow> u64 \<Rightarrow> u64 kernel \<Rightarrow> u64 sysres" where
  "sys_mmap_64 X86_64 s l p f d off k = x86_64_syscall ''mmap'' [s, l, scast p, scast f, scast d, off] k"
| "sys_mmap_64 Riscv s l p f d off k = riscv_syscall6 ''mmap'' s l (scast p) (scast f) (scast d) off k"
| "sys_mmap_64 _ s l p f d off k = aarch64_syscall6 ''mmap'' s l (scast p) (scast f) (scast d) off k"

fun sys_mremap_32 ::
    "machine_abi \<Rightarrow> u32 \<Rightarrow> u32 \<Rightarrow> u32 \<Rightarrow> u32 \<Rightarrow> u32 \<Rightarrow> u32 kernel \<Rightarrow> u32 sysres" where
  "sys_mremap_32 I386 old os ns f new k = i386_syscall5 ''mremap'' old os ns f new k"
| "sys_mremap_32 _ old os ns f new k = arm_syscall5 ''mremap'' old os ns f new k"

fun sys_mremap_64 ::
    "machine_abi \<Rightarrow> u64 \<Rightarrow> u64 \<Rightarrow> u64 \<Rightarrow> u32 \<Rightarrow> u64 \<Rightarrow> u64 kernel \<Rightarrow> u64 sysres" where
  "sys_mremap_64 X86_64 old os ns f new k = x86_64_syscall ''mremap'' [old, os, ns, scast f, new] k"
| "sys_mremap_64 Riscv old os ns f new k = riscv_syscall5 ''mremap'' old os ns (scast f) new k"
| "sys_mremap_64 _ old os ns f new k = aarch64_syscall5 ''mremap'' old os ns (scast f) new k"

section \<open>What reaches the kernel, and what comes back\<close>

text \<open>The kernel's convention: the error numbers 1 to 4095, negated.\<close>

definition kernel_error :: "'l::len word \<Rightarrow> nat option" where
  "kernel_error r = (let e = unat (- r) in if 1 \<le> e \<and> e \<le> 4095 then Some e else None)"

definition decoded :: "'l::len word \<Rightarrow> 'l word sysres" where
  "decoded r = (case kernel_error r of Some e \<Rightarrow> (Some (of_nat e), - 1) | None \<Rightarrow> (None, r))"

lemma unat_uminus: "unat (- r) = (if r = 0 then 0 else 2 ^ LENGTH('l) - unat r)" for r :: "'l::len word"
proof (cases "r = 0")
  case False
  then have "0 < unat r" "uint r \<noteq> 0" "unat r < 2 ^ LENGTH('l)" by (simp_all add: unat_gt_0 unsigned_less uint_0_iff)
  moreover have "int (unat (- r)) = (- int (unat r)) mod 2 ^ LENGTH('l)"
    by (simp add: uint_word_ariths)
  ultimately have "int (unat (- r)) = 2 ^ LENGTH('l) - int (unat r)"
    by (auto simp: zmod_zminus1_eq_if)
  also have "\<dots> = int (2 ^ LENGTH('l) - unat r)"
    using less_imp_le [OF \<open>unat r < 2 ^ LENGTH('l)\<close>] by (subst of_nat_diff) simp_all
  finally show ?thesis using False by (simp only: of_nat_eq_iff if_False)
qed simp

text \<open>The test of the macro selects exactly the negated error numbers.\<close>

lemma LSS_RETURN_decoded: "LSS_RETURN r = decoded r" for r :: u64
proof -
  have "- 4095 \<le> r \<longleftrightarrow> 1 \<le> unat (- r) \<and> unat (- r) \<le> 4095"
    using unsigned_less [of r, where 'a = nat] by (auto simp: word_le_nat_alt unat_uminus)
  then show ?thesis
    by (simp add: LSS_RETURN_def decoded_def kernel_error_def Let_def)
qed

lemma LSS_RETURN_decoded_32: "LSS_RETURN r = decoded r" for r :: u32
proof -
  have "- 4095 \<le> r \<longleftrightarrow> 1 \<le> unat (- r) \<and> unat (- r) \<le> 4095"
    using unsigned_less [of r, where 'a = nat] by (auto simp: word_le_nat_alt unat_uminus)
  then show ?thesis
    by (simp add: LSS_RETURN_def decoded_def kernel_error_def Let_def)
qed

lemma decoded_error: "snd (decoded r) = - 1 \<longleftrightarrow> kernel_error r \<noteq> None" for r :: "'l::len word"
  by (auto simp: decoded_def kernel_error_def Let_def split: if_splits)

text \<open>
  The kernel's side of a trap, from the architectures' system call conventions and not from the
  wrappers: the register the number is read from, and the registers of the arguments, first to last.
  The architecture at a width is the one the library is built for there.
\<close>

fun kernel_number_register :: "machine_abi \<Rightarrow> string" where
  "kernel_number_register I386 = ''eax''"
| "kernel_number_register X86_64 = ''rax''"
| "kernel_number_register Arm = ''r7''"
| "kernel_number_register Aarch64 = ''x8''"
| "kernel_number_register Riscv = ''a7''"

fun kernel_argument_registers :: "machine_abi \<Rightarrow> string list" where
  "kernel_argument_registers I386 = [''ebx'', ''ecx'', ''edx'', ''esi'', ''edi'', ''ebp'']"
| "kernel_argument_registers X86_64 = [''rdi'', ''rsi'', ''rdx'', ''r10'', ''r8'', ''r9'']"
| "kernel_argument_registers Arm = map (\<lambda>i. ''r'' @ [i]) ''012345''"
| "kernel_argument_registers Aarch64 = map (\<lambda>i. ''x'' @ [i]) ''012345''"
| "kernel_argument_registers Riscv = map (\<lambda>i. ''a'' @ [i]) ''012345''"

text \<open>
  What the kernel finds as the arguments of a call with \<^verbatim>\<open>n\<close> arguments: it looks each register up by its
  name in what the wrapper loaded. A register nobody loaded holds no argument.
\<close>

definition kernel_reads :: "machine_abi \<Rightarrow> nat \<Rightarrow> 'v trap \<Rightarrow> 'v option list" where
  "kernel_reads ar n t = map (map_of (arg_regs t)) (take n (kernel_argument_registers ar))"

definition kernel_called :: "machine_abi \<Rightarrow> string \<Rightarrow> 'v list \<Rightarrow> 'v trap \<Rightarrow> bool" where
  "kernel_called ar nm args t \<longleftrightarrow> call_name t = nm \<and> number_reg t = kernel_number_register ar \<and>
     number_reg t \<notin> fst ` set (arg_regs t) \<and> kernel_reads ar (length args) t = map Some args"

definition arch_64 :: "machine_abi \<Rightarrow> bool" where "arch_64 ar \<longleftrightarrow> ar \<in> {X86_64, Aarch64, Riscv}"

definition arch_32 :: "machine_abi \<Rightarrow> bool" where "arch_32 ar \<longleftrightarrow> ar \<in> {I386, Arm}"

lemmas wrapper_defs = i386_syscall5_def i386_syscall6_def arm_syscall5_def arm_syscall6_def arm_body_def
  x86_64_syscall_def x86_64_body_def x86_64_regs_def aarch64_syscall5_def aarch64_syscall6_def
  aarch64_body_def riscv_syscall5_def riscv_syscall6_def riscv_body_def

lemmas kernel_defs = kernel_called_def kernel_reads_def arch_64_def arch_32_def

lemma traps_64:
  assumes "arch_64 ar"
  shows
  "\<exists>t. kernel_called ar ''mmap'' [s, l, scast p, scast f, scast d, off] t \<and> sys_mmap_64 ar s l p f d off k = decoded (k t)"
  "\<exists>t. kernel_called ar ''mremap'' [old, os, ns, scast f, new] t \<and> sys_mremap_64 ar old os ns f new k = decoded (k t)"
  using assms by (cases ar; force simp: wrapper_defs kernel_defs LSS_RETURN_decoded)+

lemma traps_32:
  assumes "arch_32 ar"
  shows
  "\<exists>t. kernel_called ar ''mmap2'' [s', l', p, f, d, o'] t \<and> mmap2 ar s' l' p f d o' k' = decoded (k' t)"
  "\<exists>t. kernel_called ar ''mremap'' [old', os', ns', f, new'] t \<and> sys_mremap_32 ar old' os' ns' f new' k' = decoded (k' t)"
  using assms by (cases ar; force simp: wrapper_defs kernel_defs LSS_RETURN_decoded_32)+

text \<open>
  C35: The wrappers hand every argument to the kernel in the register it is read from and report exactly
  its errors. On each 64-bit and each 32-bit architecture the kernel, reading the registers its calling
  convention names, finds the call's number in the number register and the arguments of \<^verbatim>\<open>mmap\<close> and
  \<^verbatim>\<open>mremap\<close> in their order, and the wrapper returns the kernel's answer, or \<^verbatim>\<open>-1\<close> and the error number
  when the answer is one of the 4095 negated error numbers. On the 32-bit ones an offset that is no
  multiple of 4096 fails with EINVAL without entering the kernel, and any other below 8 TiB reaches it in
  pages without loss.
\<close>

theorem memory_calls_reach_kernel:
  fixes k :: "u64 kernel" and k' :: "u32 kernel"
  assumes "arch_64 ar" "arch_32 ar'" "0 \<le> sint off" "sint off < 2 ^ 43"
  shows "(\<exists>t. kernel_called ar ''mmap'' [s, l, scast p, scast f, scast d, off] t \<and>
      sys_mmap_64 ar s l p f d off k = decoded (k t)) \<and>
    (\<exists>t. kernel_called ar ''mremap'' [old, os, ns, scast f, new] t \<and>
      sys_mremap_64 ar old os ns f new k = decoded (k t)) \<and>
    (\<exists>t. kernel_called ar' ''mremap'' [old', os', ns', f, new'] t \<and>
      sys_mremap_32 ar' old' os' ns' f new' k' = decoded (k' t)) \<and>
    (if 4096 dvd sint off
     then \<exists>t pages. kernel_called ar' ''mmap2'' [s', l', p, f, d, pages] t \<and> 4096 * sint pages = sint off \<and>
       sys_mmap_32 ar' s' l' p f d off k' = decoded (k' t)
     else sys_mmap_32 ar' s' l' p f d off k' = (Some EINVAL, - 1))"
proof (intro conjI traps_64 [OF assms(1)] traps_32 [OF assms(2)])
  define pages :: u32 where "pages = word_of_int (sint off div 4096)"
  show "if 4096 dvd sint off
     then \<exists>t pages. kernel_called ar' ''mmap2'' [s', l', p, f, d, pages] t \<and> 4096 * sint pages = sint off \<and>
       sys_mmap_32 ar' s' l' p f d off k' = decoded (k' t)
     else sys_mmap_32 ar' s' l' p f d off k' = (Some EINVAL, - 1)"
  proof (cases "4096 dvd sint off")
    case True
    have "- (2 ^ 31) \<le> sint off div 4096" "sint off div 4096 < 2 ^ 31" using assms by simp_all
    then have "sint pages = sint off div 4096"
      by (simp add: pages_def sint_sbintrunc' signed_take_bit_int_eq_self)
    with True have "4096 * sint pages = sint off" by simp
    moreover have "sys_mmap_32 ar' s' l' p f d off k' = mmap2 ar' s' l' p f d pages k'"
      using True by (simp only: sys_mmap_32_def dvd_eq_mod_eq_0 pages_def if_False not_not simp_thms)
    moreover obtain t where "kernel_called ar' ''mmap2'' [s', l', p, f, d, pages] t"
      "mmap2 ar' s' l' p f d pages k' = decoded (k' t)"
      using traps_32(1) [OF assms(2)] by blast
    ultimately show ?thesis unfolding if_P [OF True] by (intro exI conjI) simp_all
  next
    case False
    then show ?thesis by (simp add: sys_mmap_32_def dvd_eq_mod_eq_0)
  qed
qed

text \<open>The hooker's first call, for a page, against a kernel without memory.\<close>

theorem memory_calls_reach_kernel_witness:
  "\<exists>t :: u64 trap. kernel_called Aarch64 ''mmap'' [0, 4096, 0, 34, - 1, 0] t \<and>
     sys_mmap_64 Aarch64 0 4096 0 34 (- 1) 0 (\<lambda>t. - 12) = (Some 12, - 1)"
proof -
  have "arch_64 Aarch64" "arch_32 Arm" "0 \<le> sint (0 :: u64)" "sint (0 :: u64) < 2 ^ 43"
    by (simp_all add: kernel_defs)
  from memory_calls_reach_kernel [OF this, of 0 4096 0 34 "- 1" "\<lambda>t. - 12", THEN conjunct1]
  show ?thesis by (simp add: decoded_def kernel_error_def)
qed

end
