(* ===== verification/XdlUtil.thy ===== *)
theory XdlUtil
  imports MapInfo ElfUtil
begin

text \<open>
  \<^verbatim>\<open>libxdl/_xDL/xdl/src/main/cpp/xdl_util.c\<close>: string tests, the API level and the page size, both
  read once and cached; and the state and surroundings all of xDL shares. xDL is compiled into the
  library (\<^verbatim>\<open>CMakeLists.txt\<close>) at API level 26, so its branches for a lower build level are not part
  of the program; the layouts are the 64-bit ones. C strings are their characters before the
  terminator; a null string is \<open>None\<close>. A result of \<open>None\<close> of a whole operation is a crash, a
  deadlock or a loop that does not end.
\<close>

section \<open>Strings\<close>

fun xdl_util_starts_with :: "string \<Rightarrow> string \<Rightarrow> bool" where
  "xdl_util_starts_with (c # s) (d # t) = (if c = d then xdl_util_starts_with s t else False)"
| "xdl_util_starts_with s t = (t = [])"

definition xdl_util_ends_with :: "string \<Rightarrow> string \<Rightarrow> bool" where
  "xdl_util_ends_with s t =
     (if length s < length t then False else drop (length s - length t) s = t)"

fun drop_space :: "string \<Rightarrow> string" where
  "drop_space (c # s) = (if is_space c then drop_space s else c # s)"
| "drop_space [] = []"

definition xdl_util_trim_ending :: "string \<Rightarrow> string" where
  "xdl_util_trim_ending s = rev (drop_space (rev s))"

text \<open>\<open>fgets\<close> with a buffer of \<open>n\<close> bytes: up to a newline or \<open>n - 1\<close> characters.\<close>

definition fgets :: "nat \<Rightarrow> string \<Rightarrow> string \<times> string" where
  "fgets n s =
     (let a = take (n - 1) s; k = length (takeWhile (\<lambda>c. c \<noteq> CHR 0x0A) a)
      in if k < length a then (take (k + 1) s, drop (k + 1) s) else (a, drop (n - 1) s))"

lemma fgets_shorter: "s \<noteq> [] \<Longrightarrow> 2 \<le> n \<Longrightarrow> length (snd (fgets n s)) < length s"
  by (cases s) (auto simp: fgets_def Let_def)

function fgets_all :: "nat \<Rightarrow> string \<Rightarrow> string list" where
  "fgets_all n s =
     (if s = [] \<or> n < 2 then [] else (let (a, r) = fgets n s in a # fgets_all n r))"
  by pat_completeness auto
termination
proof (relation "measure (\<lambda>(n, s). length s)")
  fix n s x a r
  assume "\<not> (s = [] \<or> n < 2)" "x = fgets n s" "(a, r) = x"
  then show "((n, r), n, s) \<in> measure (\<lambda>(n, s). length s)"
    using fgets_shorter [of s n] by (metis case_prod_conv in_measure not_le snd_conv)
qed simp

declare fgets_all.simps [simp del]

text \<open>\<open>atoi\<close>: blanks, a sign, digits; outside \<open>int\<close> the saturated \<open>long\<close> is truncated.\<close>

definition atoi :: "string \<Rightarrow> int" where
  "atoi s =
     (let t = skip_ws s;
          neg = (take 1 t = ''-'');
          u = (if neg \<or> take 1 t = ''+'' then drop 1 t else t);
          n = int (num_of 10 (takeWhile (is_digit 10) u));
          v = (if neg then max (- (2 ^ 63)) (- n) else min (2 ^ 63 - 1) n)
      in sint (word_of_int v :: u32))"

section \<open>Objects, surroundings and state\<close>

text \<open>\<open>dl_phdr_info\<close>: bias, name, and the program headers' address and number.\<close>

record phinfo =
  dlpi_addr :: u64
  dlpi_name :: "string option"
  dlpi_phdr :: u64
  dlpi_phnum :: u16

text \<open>A file: what \<open>fstat\<close> says of its size (or a failure), and what reads return.\<close>

record xfile =
  st_size :: "u64 option"
  fdata :: "u8 list"

datatype coder_status = NOT_SPECIFIED | FINISHED_WITH_MARK | NOT_FINISHED | NEEDS_MORE_INPUT

text \<open>
  What one call of \<open>XzUnpacker_Code\<close> answers: the result code, the bytes put into the destination,
  the number of source bytes used, the status, and the decoder's state after it.
\<close>

record coder_answer =
  co_result :: int
  co_out :: "u8 list"
  co_used :: nat
  co_status :: coder_status
  co_state :: "u8 list"

text \<open>
  The process around xDL: memory, \<open>getauxval\<close> and \<open>dl_iterate_phdr\<close> (weak symbols, possibly absent),
  the system's answers, the allocator's, the functions found in other libraries and called through
  their addresses (\<open>ifunc\<close> resolvers, the linker's \<open>dlopen\<close>, the LZMA decoder), \<open>dlopen\<close> itself. A
  \<open>dlopen\<close> returns a handle and the objects then loaded.
\<close>

record xdl_env =
  xmem :: bmem
  xabi :: machine_abi
  getauxval :: "(nat \<Rightarrow> u64) option"
  has_dl_iterate :: bool
  device_api :: int
  build_prop :: "string option"
  sys_pagesize :: u64
  self_maps :: "string option"
  xfiles :: "string \<Rightarrow> xfile option"
  calloc_ok :: bool
  strdup_ok :: "string \<Rightarrow> bool"
  malloc_ok :: "nat \<Rightarrow> bool"
  ifunc_call :: "u64 \<Rightarrow> u64 list \<Rightarrow> u64"
  libdl_open :: "string \<Rightarrow> phinfo list \<Rightarrow> u64 \<times> phinfo list"
  linker_open :: "u64 \<Rightarrow> string \<Rightarrow> u64 \<Rightarrow> phinfo list \<Rightarrow> u64 \<times> phinfo list"
  lzma_state :: "u8 list"
  lzma_coder :: "bool \<Rightarrow> u8 list \<Rightarrow> nat \<Rightarrow> u8 list \<Rightarrow> coder_answer"
  lzma_finished :: "u8 list \<Rightarrow> bool"

datatype xop = Mutex_lock u64 | Mutex_unlock u64 | Dlclose u64 | Crc_tables

datatype match_type = MATCH_PREFIX | MATCH_SUFFIX

record caller =
  caller_addr :: u64
  matches :: "(match_type \<times> string) list"
  matches_cursor :: nat

text \<open>The static variables of the translation units, the loaded objects, and what was done.\<close>

record xst =
  api_level :: int
  pagesize :: u64
  linker_inited :: bool
  linker_mutex :: u64
  linker_dlopen :: u64
  callers_inited :: bool
  linker_callers :: "caller list"
  lzma_inited :: bool
  lzma_construct :: u64
  lzma_isfinished :: u64
  lzma_free :: u64
  lzma_code :: u64
  loaded :: "phinfo list"
  xlog :: "xop list"

section \<open>API level and page size\<close>

text \<open>\<open>__ANDROID_API_J__\<close> and the later levels the code compares with.\<close>

definition API_J :: int where "API_J = 16"
definition API_L :: int where "API_L = 21"
definition API_L_MR1 :: int where "API_L_MR1 = 22"
definition API_M :: int where "API_M = 23"
definition API_N :: int where "API_N = 24"
definition API_N_MR1 :: int where "API_N_MR1 = 25"
definition API_O :: int where "API_O = 26"
definition API_O_MR1 :: int where "API_O_MR1 = 27"
definition API_P :: int where "API_P = 28"
definition API_Q :: int where "API_Q = 29"
definition API_R :: int where "API_R = 30"

lemmas api_levels = API_J_def API_L_def API_L_MR1_def API_M_def API_N_def API_N_MR1_def API_O_def
  API_O_MR1_def API_P_def API_Q_def API_R_def

definition xdl_util_get_api_level_from_build_prop :: "xdl_env \<Rightarrow> int" where
  "xdl_util_get_api_level_from_build_prop env =
     (case build_prop env of
        None \<Rightarrow> -1
      | Some txt \<Rightarrow>
          (case find (\<lambda>l. xdl_util_starts_with l ''ro.build.version.sdk='') (fgets_all 128 txt) of
             None \<Rightarrow> -1
           | Some l \<Rightarrow> (let v = atoi (drop 21 l) in if v > 0 then v else -1)))"

definition xdl_util_get_api_level :: "xdl_env \<Rightarrow> xst \<Rightarrow> int \<times> xst" where
  "xdl_util_get_api_level env s =
     (if api_level s < 0 then
        (let v = device_api env;
             v1 = (if v < 0 then xdl_util_get_api_level_from_build_prop env else v);
             v2 = (if v1 < API_J then API_J else v1)
         in (v2, s\<lparr>api_level := v2\<rparr>))
      else (api_level s, s))"

definition xdl_util_get_pagesize :: "xdl_env \<Rightarrow> xst \<Rightarrow> u64 \<times> xst" where
  "xdl_util_get_pagesize env s =
     (if pagesize s = 0 then (sys_pagesize env, s\<lparr>pagesize := sys_pagesize env\<rparr>)
      else (pagesize s, s))"

section \<open>What the string tests decide\<close>

lemma starts_with_prefix: "xdl_util_starts_with s t \<longleftrightarrow> (\<exists>r. s = t @ r)"
  by (induction s t rule: xdl_util_starts_with.induct) (auto simp: Cons_eq_append_conv)

lemma ends_with_suffix: "xdl_util_ends_with s t \<longleftrightarrow> (\<exists>r. s = r @ t)"
  by (auto simp: xdl_util_ends_with_def) (metis append_take_drop_id)

lemma drop_space_dropWhile: "drop_space s = dropWhile is_space s"
  by (induction s) auto

lemma trim_ending_line: "p = [] \<or> \<not> is_space (last p) \<Longrightarrow> \<forall>c\<in>set sp. is_space c \<Longrightarrow>
    xdl_util_trim_ending (p @ sp) = p"
  by (cases p rule: rev_cases)
    (auto simp: xdl_util_trim_ending_def drop_space_dropWhile dropWhile_append)

end
