(* ===== verification/XdlElf.thy ===== *)
theory XdlElf
  imports XdlUtil
begin

unbundle bit_operations_syntax

text \<open>
  The handle of xDL and its dynamic symbol table (\<^verbatim>\<open>xdl.c\<close>): program headers, loading the tables
  from the dynamic section, the two hash lookups and the search by address. A chain that never ends,
  a division by zero or too large a shift is \<open>None\<close>.
\<close>

section \<open>Program headers\<close>

definition PT_LOAD :: u32 where "PT_LOAD = 1"
definition PT_DYNAMIC :: u32 where "PT_DYNAMIC = 2"
definition PT_PHDR :: u32 where "PT_PHDR = 6"

definition phdr_list :: "u64 \<Rightarrow> nat \<Rightarrow> u64 list" where
  "phdr_list p n = map (\<lambda>i. p + of_nat (56 * i)) [0..<n]"

definition p_type :: "bmem \<Rightarrow> u64 \<Rightarrow> u32" where "p_type m p = rd32 m p"
definition p_vaddr :: "bmem \<Rightarrow> u64 \<Rightarrow> u64" where "p_vaddr m p = rd64 m (p + 16)"
definition p_memsz :: "bmem \<Rightarrow> u64 \<Rightarrow> u64" where "p_memsz m p = rd64 m (p + 40)"

text \<open>The lowest address of a loadable segment; all bits set when there is none.\<close>

definition min_vaddr :: "bmem \<Rightarrow> u64 list \<Rightarrow> u64" where
  "min_vaddr m ps =
     foldl (\<lambda>v p. if p_type m p = PT_LOAD \<and> p_vaddr m p < v then p_vaddr m p else v) (-1) ps"

section \<open>The handle\<close>

record xdl =
  pathname :: string
  load_bias :: u64
  x_phdr :: u64
  x_phnum :: u16
  linker_handle :: u64
  dynsym_loaded :: bool
  dynsym :: u64
  dynstr :: u64
  dynstr_sz :: u64
  sysv_buckets :: u64
  sysv_buckets_cnt :: u32
  sysv_chains :: u64
  sysv_chains_cnt :: u32
  gnu_buckets :: u64
  gnu_buckets_cnt :: u32
  gnu_chains :: u64
  gnu_symoffset :: u32
  gnu_bloom :: u64
  gnu_bloom_cnt :: u32
  gnu_bloom_shift :: u32
  symtab_loaded :: bool
  x_base :: u64
  symtab :: "u8 list option"
  symtab_cnt :: nat
  strtab :: "u8 list"
  strtab_sz :: u64

text \<open>\<open>calloc\<close> and the assignments that follow it.\<close>

definition new_xdl :: "string \<Rightarrow> u64 \<Rightarrow> u64 \<Rightarrow> u16 \<Rightarrow> xdl" where
  "new_xdl path bias ph n = \<lparr>pathname = path, load_bias = bias, x_phdr = ph, x_phnum = n,
     linker_handle = 0, dynsym_loaded = False, dynsym = 0, dynstr = 0, dynstr_sz = 0,
     sysv_buckets = 0, sysv_buckets_cnt = 0, sysv_chains = 0, sysv_chains_cnt = 0,
     gnu_buckets = 0, gnu_buckets_cnt = 0, gnu_chains = 0, gnu_symoffset = 0, gnu_bloom = 0,
     gnu_bloom_cnt = 0, gnu_bloom_shift = 0, symtab_loaded = False, x_base = 0, symtab = None,
     symtab_cnt = 0, strtab = [], strtab_sz = 0\<rparr>"

definition make_xdl :: "xdl_env \<Rightarrow> string \<Rightarrow> u64 \<Rightarrow> u64 \<Rightarrow> u16 \<Rightarrow> xdl option" where
  "make_xdl env path bias ph n =
     (if \<not> calloc_ok env then None
      else if \<not> strdup_ok env path then None
      else Some (new_xdl path bias ph n))"

definition x_phdrs :: "xdl \<Rightarrow> u64 list" where
  "x_phdrs x = phdr_list (x_phdr x) (unat (x_phnum x))"

section \<open>Loading the dynamic symbol table\<close>

definition dynsym_entry :: "bmem \<Rightarrow> u64 \<Rightarrow> u64 \<Rightarrow> xdl \<Rightarrow> xdl" where
  "dynsym_entry m tag v x =
     (let p = load_bias x + v in
      if tag = 6 then x\<lparr>dynsym := p\<rparr>
      else if tag = 5 then x\<lparr>dynstr := p\<rparr>
      else if tag = 10 then x\<lparr>dynstr_sz := v\<rparr>
      else if tag = 4 then
        x\<lparr>sysv_buckets_cnt := rd32 m p, sysv_chains_cnt := rd32 m (p + 4), sysv_buckets := p + 8,
          sysv_chains := p + 8 + 4 * ucast (rd32 m p)\<rparr>
      else if tag = 0x6ffffef5 then
        (let bl = p + 16; bu = bl + 8 * ucast (rd32 m (p + 8)) in
         x\<lparr>gnu_buckets_cnt := rd32 m p, gnu_symoffset := rd32 m (p + 4), gnu_bloom_cnt := rd32 m (p + 8),
           gnu_bloom_shift := rd32 m (p + 12), gnu_bloom := bl, gnu_buckets := bu,
           gnu_chains := bu + 4 * ucast (rd32 m p)\<rparr>)
      else x)"

partial_function (option) dynsym_scan :: "bmem \<Rightarrow> u64 \<Rightarrow> xdl \<Rightarrow> xdl option" where
  "dynsym_scan m entry x =
     (if entry = 0 \<or> rd64 m entry = 0 then Some x
      else dynsym_scan m (entry + 16) (dynsym_entry m (rd64 m entry) (rd64 m (entry + 8)) x))"

definition dynsym_check :: "xdl \<Rightarrow> xdl" where
  "dynsym_check x =
     (if dynsym x = 0 \<or> dynstr x = 0 \<or> dynstr_sz x = 0 \<or>
         (sysv_buckets_cnt x = 0 \<and> gnu_buckets_cnt x = 0)
      then x\<lparr>dynsym := 0, dynstr := 0, dynstr_sz := 0, sysv_buckets_cnt := 0, gnu_buckets_cnt := 0\<rparr>
      else x)"

definition xdl_dynsym_load :: "xdl_env \<Rightarrow> xdl \<Rightarrow> xdl option" where
  "xdl_dynsym_load env x =
     (let m = xmem env in
      case find (\<lambda>p. p_type m p = PT_DYNAMIC) (x_phdrs x) of
        None \<Rightarrow> Some x
      | Some p \<Rightarrow>
          (let d = load_bias x + p_vaddr m p in
           if d = 0 then Some x else map_option dynsym_check (dynsym_scan m d x)))"

definition xdl_ensure_dynsym_loaded :: "xdl_env \<Rightarrow> xdl \<Rightarrow> xdl option" where
  "xdl_ensure_dynsym_loaded env x =
     (if dynsym_loaded x then Some x
      else map_option (\<lambda>x. x\<lparr>dynsym_loaded := True\<rparr>) (xdl_dynsym_load env x))"

section \<open>Symbols\<close>

text \<open>\<open>Elf64_Sym\<close>, as read from memory.\<close>

record esym =
  st_name :: u32
  st_info :: u8
  st_shndx :: u16
  st_value :: u64
  st_ssize :: u64

definition sym_at :: "bmem \<Rightarrow> u64 \<Rightarrow> esym" where
  "sym_at m a = \<lparr>st_name = rd32 m a, st_info = m (a + 4), st_shndx = rd16 m (a + 6),
     st_value = rd64 m (a + 8), st_ssize = rd64 m (a + 16)\<rparr>"

definition dynsym_at :: "bmem \<Rightarrow> xdl \<Rightarrow> u32 \<Rightarrow> esym" where
  "dynsym_at m x i = sym_at m (dynsym x + 24 * ucast i)"

definition STT_TLS :: u8 where "STT_TLS = 6"
definition STT_GNU_IFUNC :: u8 where "STT_GNU_IFUNC = 10"

definition ELF_ST_TYPE :: "u8 \<Rightarrow> u8" where "ELF_ST_TYPE i = i AND 0xf"

definition XDL_DYNSYM_IS_EXPORT_SYM :: "u16 \<Rightarrow> bool" where
  "XDL_DYNSYM_IS_EXPORT_SYM n \<longleftrightarrow> n \<noteq> 0"

definition XDL_SYMTAB_IS_EXPORT_SYM :: "u16 \<Rightarrow> bool" where
  "XDL_SYMTAB_IS_EXPORT_SYM n \<longleftrightarrow> n \<noteq> 0 \<and> \<not> (0xff00 \<le> n \<and> n \<le> 0xffff)"

definition dynsym_named :: "bmem \<Rightarrow> xdl \<Rightarrow> u8 list \<Rightarrow> esym \<Rightarrow> bool" where
  "dynsym_named m x name y \<longleftrightarrow>
     ucast (st_name y) < dynstr_sz x \<and> cstr_eq m (dynstr x + ucast (st_name y)) name"

definition xdl_sysv_hash :: "u8 list \<Rightarrow> u32" where
  "xdl_sysv_hash name =
     foldl (\<lambda>h c.
       let h1 = push_bit 4 h + ucast c; g = h1 AND 0xf0000000; h2 = h1 XOR g
       in h2 XOR drop_bit 24 g) 0 name"

definition xdl_gnu_hash :: "u8 list \<Rightarrow> u32" where
  "xdl_gnu_hash name = foldl (\<lambda>h c. h + (push_bit 5 h + ucast c)) 5381 name"

partial_function (option) sysv_walk :: "bmem \<Rightarrow> xdl \<Rightarrow> u8 list \<Rightarrow> u32 \<Rightarrow> esym option option" where
  "sysv_walk m x name i =
     (if i = 0 then Some None
      else if dynsym_named m x name (dynsym_at m x i) then Some (Some (dynsym_at m x i))
      else sysv_walk m x name (rd32 m (sysv_chains x + 4 * ucast i)))"

definition xdl_dynsym_find_symbol_use_sysv_hash :: "bmem \<Rightarrow> xdl \<Rightarrow> u8 list \<Rightarrow> esym option option" where
  "xdl_dynsym_find_symbol_use_sysv_hash m x name =
     (if sysv_buckets_cnt x = 0 then None
      else sysv_walk m x name
             (rd32 m (sysv_buckets x + 4 * ucast (xdl_sysv_hash name mod sysv_buckets_cnt x))))"

partial_function (option) gnu_walk :: "bmem \<Rightarrow> xdl \<Rightarrow> u8 list \<Rightarrow> u32 \<Rightarrow> u32 \<Rightarrow> esym option option" where
  "gnu_walk m x name hash i =
     (let y = dynsym_at m x i; h = rd32 m (gnu_chains x + 4 * ucast (i - gnu_symoffset x)) in
      if hash OR 1 = h OR 1 \<and> dynsym_named m x name y then Some (Some y)
      else if h AND 1 \<noteq> 0 then Some None
      else gnu_walk m x name hash (i + 1))"

definition gnu_mask :: "xdl \<Rightarrow> u32 \<Rightarrow> u64" where
  "gnu_mask x hash =
     push_bit (unat hash mod 64) 1 OR
     push_bit (unat (drop_bit (unat (gnu_bloom_shift x)) hash) mod 64) 1"

definition xdl_dynsym_find_symbol_use_gnu_hash :: "bmem \<Rightarrow> xdl \<Rightarrow> u8 list \<Rightarrow> esym option option" where
  "xdl_dynsym_find_symbol_use_gnu_hash m x name =
     (if gnu_bloom_cnt x = 0 \<or> 32 \<le> gnu_bloom_shift x \<or> gnu_buckets_cnt x = 0 then None
      else
        (let hash = xdl_gnu_hash name;
             word = rd64 m (gnu_bloom x + 8 * ucast ((hash div 64) mod gnu_bloom_cnt x));
             mask = gnu_mask x hash
         in if word AND mask \<noteq> mask then Some None
            else
              (let i = rd32 m (gnu_buckets x + 4 * ucast (hash mod gnu_buckets_cnt x)) in
               if i < gnu_symoffset x then Some None else gnu_walk m x name hash i)))"

section \<open>The search by address\<close>

definition xdl_sym_is_match :: "esym \<Rightarrow> u64 \<Rightarrow> bool \<Rightarrow> bool" where
  "xdl_sym_is_match y off is_symtab =
     (if is_symtab \<and> \<not> XDL_SYMTAB_IS_EXPORT_SYM (st_shndx y) then False
      else if \<not> is_symtab \<and> \<not> XDL_DYNSYM_IS_EXPORT_SYM (st_shndx y) then False
      else if ELF_ST_TYPE (st_info y) = STT_TLS then False
      else st_value y \<le> off \<and> off < st_value y + st_ssize y)"

partial_function (option) gnu_addr_walk :: "bmem \<Rightarrow> xdl \<Rightarrow> u64 \<Rightarrow> u32 \<Rightarrow> esym option option" where
  "gnu_addr_walk m x off n =
     (if xdl_sym_is_match (dynsym_at m x n) off False then Some (Some (dynsym_at m x n))
      else if rd32 m (gnu_chains x - 4 * ucast (gnu_symoffset x) + 4 * ucast n) AND 1 = 0
      then gnu_addr_walk m x off (n + 1)
      else Some None)"

fun gnu_addr_buckets :: "bmem \<Rightarrow> xdl \<Rightarrow> u64 \<Rightarrow> nat list \<Rightarrow> esym option option" where
  "gnu_addr_buckets m x off [] = Some None"
| "gnu_addr_buckets m x off (i # is) =
     (let n = rd32 m (gnu_buckets x + of_nat (4 * i)) in
      if n < gnu_symoffset x then gnu_addr_buckets m x off is
      else do {
        r \<leftarrow> gnu_addr_walk m x off n;
        if r \<noteq> None then Some r else gnu_addr_buckets m x off is })"

definition xdl_sym_by_addr :: "xdl_env \<Rightarrow> xdl \<Rightarrow> u64 \<Rightarrow> (esym option \<times> xdl) option" where
  "xdl_sym_by_addr env x0 addr = do {
     x \<leftarrow> xdl_ensure_dynsym_loaded env x0;
     let m = xmem env;
     let off = addr - load_bias x;
     if dynsym x = 0 then Some (None, x)
     else if 0 < gnu_buckets_cnt x then do {
       r \<leftarrow> gnu_addr_buckets m x off [0..<unat (gnu_buckets_cnt x)];
       Some (r, x) }
     else if 0 < sysv_chains_cnt x then
       Some (find (\<lambda>y. xdl_sym_is_match y off False)
               (map (\<lambda>i. dynsym_at m x (of_nat i)) [0..<unat (sysv_chains_cnt x)]), x)
     else Some (None, x) }"

text \<open>Whether one of an object's segments holds an address.\<close>

definition xdl_elf_is_match :: "bmem \<Rightarrow> u64 \<Rightarrow> u64 \<Rightarrow> u16 \<Rightarrow> u64 \<Rightarrow> bool" where
  "xdl_elf_is_match m bias ph n addr =
     (if addr < bias then False
      else list_ex (\<lambda>p. p_type m p = PT_LOAD \<and>
             p_vaddr m p \<le> addr - bias \<and> addr - bias < p_vaddr m p + p_memsz m p)
             (phdr_list ph (unat n)))"

end
