(* ===== verification/XdlIterate.thy ===== *)
theory XdlIterate
  imports XdlElf
begin

text \<open>
  \<^verbatim>\<open>xdl_iterate.c\<close>: calling a function for every loaded object, the linker first. The caller's
  function works on its own data \<open>'a\<close> and returns nonzero to stop. The lock around
  \<open>dl_iterate_phdr\<close> on Android 5 is an argument: it leads back here through \<open>xdl_linker.c\<close>.
\<close>

section \<open>Path names from the memory map\<close>

text \<open>The two numbers of \<open>sscanf\<close> with \<open>%lx-%lx r\<close>.\<close>

definition scan_range :: "string \<Rightarrow> (u64 \<times> u64) option" where
  "scan_range l = do {
     (a, r1) \<leftarrow> strtoul 16 l;
     r2 \<leftarrow> scan_char CHR ''-'' r1;
     (b, r3) \<leftarrow> strtoul 16 r2;
     Some (of_nat a, of_nat b) }"

text \<open>\<open>strchr\<close> for a slash.\<close>

definition from_slash :: "string \<Rightarrow> string option" where
  "from_slash l =
     (let r = dropWhile (\<lambda>c. c \<noteq> CHR ''/'') l in if r = [] then None else Some r)"

fun path_of_base :: "u64 \<Rightarrow> string list \<Rightarrow> string option" where
  "path_of_base b [] = None"
| "path_of_base b (l # ls) =
     (case scan_range l of
        None \<Rightarrow> path_of_base b ls
      | Some (start, end) \<Rightarrow>
          if b < start then None
          else if end \<le> b then path_of_base b ls
          else map_option xdl_util_trim_ending (from_slash l))"

text \<open>The last \<open>strlcpy\<close> keeps \<open>buf_len - 1\<close> characters.\<close>

definition xdl_iterate_get_pathname_from_maps :: "xdl_env \<Rightarrow> u64 \<Rightarrow> nat \<Rightarrow> string option" where
  "xdl_iterate_get_pathname_from_maps env b buf_len = do {
     txt \<leftarrow> self_maps env;
     p \<leftarrow> path_of_base b (fgets_all 1024 txt);
     Some (take (buf_len - 1) p) }"

definition xdl_iterate_get_full_pathname :: "xdl_env \<Rightarrow> u64 \<Rightarrow> nat \<Rightarrow> string option" where
  "xdl_iterate_get_full_pathname env b buf_len = xdl_iterate_get_pathname_from_maps env b buf_len"

section \<open>One object\<close>

definition info_phdrs :: "phinfo \<Rightarrow> u64 list" where
  "info_phdrs i = phdr_list (dlpi_phdr i) (unat (dlpi_phnum i))"

definition xdl_iterate_get_min_vaddr :: "xdl_env \<Rightarrow> phinfo \<Rightarrow> u64" where
  "xdl_iterate_get_min_vaddr env i = min_vaddr (xmem env) (info_phdrs i)"

text \<open>\<open>e_phoff\<close> and \<open>e_phnum\<close> of the header at an address, as the program headers of an object.\<close>

definition ehdr_phdr :: "bmem \<Rightarrow> u64 \<Rightarrow> u64" where "ehdr_phdr m b = b + rd64 m (b + 32)"
definition ehdr_phnum :: "bmem \<Rightarrow> u64 \<Rightarrow> u16" where "ehdr_phnum m b = rd16 m (b + 56)"

definition XDL_FULL_PATHNAME :: nat where "XDL_FULL_PATHNAME = 1"

definition fix_phdr :: "xdl_env \<Rightarrow> phinfo \<Rightarrow> phinfo" where
  "fix_phdr env i =
     (if dlpi_phdr i = 0 \<or> dlpi_phnum i = 0
      then i\<lparr>dlpi_phdr := ehdr_phdr (xmem env) (dlpi_addr i),
             dlpi_phnum := ehdr_phnum (xmem env) (dlpi_addr i)\<rparr>
      else i)"

definition fix_name :: "xdl_env \<Rightarrow> bool \<Rightarrow> string \<Rightarrow> phinfo \<Rightarrow> phinfo option" where
  "fix_name env full nm i =
     (if take 1 nm \<noteq> ''/'' \<and> take 1 nm \<noteq> ''['' \<and> full then
        (let v = xdl_iterate_get_min_vaddr env i in
         if v = -1 then None
         else
           (case xdl_iterate_get_pathname_from_maps env (dlpi_addr i + v) 1024 of
              None \<Rightarrow> None
            | Some p \<Rightarrow> Some (i\<lparr>dlpi_name := Some p\<rparr>)))
      else Some i)"

type_synonym 'a iter_cb = "phinfo \<Rightarrow> 'a \<Rightarrow> int \<times> 'a"

definition xdl_iterate_by_linker_cb ::
    "xdl_env \<Rightarrow> 'a iter_cb \<Rightarrow> u64 \<Rightarrow> bool \<Rightarrow> 'a iter_cb" where
  "xdl_iterate_by_linker_cb env cb linker_bias full info a =
     (case dlpi_name info of
        None \<Rightarrow> (0, a)
      | Some nm \<Rightarrow>
          if dlpi_addr info = 0 \<or> nm = [] then (0, a)
          else if linker_bias = dlpi_addr info then (0, a)
          else
            (case fix_name env full nm (fix_phdr env info) of
               None \<Rightarrow> (0, a)
             | Some i \<Rightarrow> cb i a))"

section \<open>All objects\<close>

text \<open>\<open>dl_iterate_phdr\<close>: until the function returns nonzero; the last result.\<close>

fun dl_iterate_phdr :: "'a iter_cb \<Rightarrow> phinfo list \<Rightarrow> 'a \<Rightarrow> int \<times> 'a" where
  "dl_iterate_phdr cb [] a = (0, a)"
| "dl_iterate_phdr cb (i # is) a =
     (let (r, a') = cb i a in if r \<noteq> 0 then (r, a') else dl_iterate_phdr cb is a')"

definition elf_magic :: "bmem \<Rightarrow> u64 \<Rightarrow> bool" where
  "elf_magic m b \<longleftrightarrow> [m b, m (b + 1), m (b + 2), m (b + 3)] = [0x7f, 0x45, 0x4c, 0x46]"

definition AT_PHDR :: nat where "AT_PHDR = 3"
definition AT_PHNUM :: nat where "AT_PHNUM = 5"
definition AT_BASE :: nat where "AT_BASE = 7"
definition AT_SYSINFO_EHDR :: nat where "AT_SYSINFO_EHDR = 33"
definition AT_HWCAP :: nat where "AT_HWCAP = 16"
definition AT_HWCAP2 :: nat where "AT_HWCAP2 = 26"

definition xdl_iterate_get_linker_base :: "xdl_env \<Rightarrow> u64" where
  "xdl_iterate_get_linker_base env =
     (case getauxval env of
        None \<Rightarrow> 0
      | Some aux \<Rightarrow>
          (let b = aux AT_BASE in
           if b = 0 then 0 else if \<not> elf_magic (xmem env) b then 0 else b))"

text \<open>The result of the callback, its data, and the bias stored (0 when none was).\<close>

definition xdl_iterate_do_callback ::
    "xdl_env \<Rightarrow> 'a iter_cb \<Rightarrow> u64 \<Rightarrow> string \<Rightarrow> 'a \<Rightarrow> int \<times> 'a \<times> u64" where
  "xdl_iterate_do_callback env cb b path a =
     (let m = xmem env;
          ph = ehdr_phdr m b; n = ehdr_phnum m b;
          v = min_vaddr m (phdr_list ph (unat n))
      in if v = -1 then (0, a, 0)
         else
           (let (r, a') = cb \<lparr>dlpi_addr = b - v, dlpi_name = Some path, dlpi_phdr = ph, dlpi_phnum = n\<rparr> a
            in (r, a', b - v)))"

definition LINKER_PATHNAME :: string where "LINKER_PATHNAME = ''/system/bin/linker64''"

type_synonym locker = "xst \<Rightarrow> xst option"

definition xdl_iterate_by_linker ::
    "locker \<Rightarrow> locker \<Rightarrow> xdl_env \<Rightarrow> 'a iter_cb \<Rightarrow> bool \<Rightarrow> 'a \<Rightarrow> xst \<Rightarrow> (int \<times> 'a \<times> xst) option" where
  "xdl_iterate_by_linker lock unlock env cb full a s =
     (if \<not> has_dl_iterate env then Some (0, a, s)
      else
        (let (api, s1) = xdl_util_get_api_level env s;
             lb = xdl_iterate_get_linker_base env;
             (r, a1, bias) =
               (if lb \<noteq> 0 then xdl_iterate_do_callback env cb lb LINKER_PATHNAME a else (0, a, 0));
             five = (api = API_L \<or> api = API_L_MR1)
         in if r \<noteq> 0 then Some (r, a1, s1)
            else do {
              s2 \<leftarrow> (if five then lock s1 else Some s1);
              let (r', a2) = dl_iterate_phdr (xdl_iterate_by_linker_cb env cb bias full) (loaded s2) a1;
              s3 \<leftarrow> (if five then unlock s2 else Some s2);
              Some (r', a2, s3) }))"

definition xdl_iterate_phdr_impl ::
    "locker \<Rightarrow> locker \<Rightarrow> xdl_env \<Rightarrow> 'a iter_cb \<Rightarrow> bool \<Rightarrow> 'a \<Rightarrow> xst \<Rightarrow> (int \<times> 'a \<times> xst) option" where
  "xdl_iterate_phdr_impl lock unlock env cb full a s = xdl_iterate_by_linker lock unlock env cb full a s"

end
