(* ===== verification/XdlFile.thy ===== *)
theory XdlFile
  imports XdlIterate
begin

unbundle bit_operations_syntax

text \<open>
  The full symbol table of an object (\<^verbatim>\<open>xdl.c\<close>): read from its file, or from the compressed debug
  data in it. The sections read into allocated buffers are byte lists; a load or a string that leaves
  its buffer is \<open>None\<close>, as is a division by zero. Decompression is an argument: it leads back to
  opening libraries.
\<close>

section \<open>Buffers\<close>

definition bytes_at :: "u8 list \<Rightarrow> nat \<Rightarrow> nat \<Rightarrow> u8 list option" where
  "bytes_at b off n = (if off + n \<le> length b then Some (take n (drop off b)) else None)"

definition ld16 :: "u8 list \<Rightarrow> nat \<Rightarrow> u16 option" where
  "ld16 b off = map_option (\<lambda>v. ucast (v ! 0) OR push_bit 8 (ucast (v ! 1))) (bytes_at b off 2)"

definition ld32 :: "u8 list \<Rightarrow> nat \<Rightarrow> u32 option" where
  "ld32 b off = map_option (\<lambda>v. of_le32 (v ! 0) (v ! 1) (v ! 2) (v ! 3)) (bytes_at b off 4)"

definition ld64 :: "u8 list \<Rightarrow> nat \<Rightarrow> u64 option" where
  "ld64 b off = do {
     lo \<leftarrow> ld32 b off;
     hi \<leftarrow> ld32 b (off + 4);
     Some (ucast lo OR push_bit 32 (ucast hi)) }"

text \<open>\<open>strcmp\<close> with a string in a buffer: it reads on until a difference or the terminator.\<close>

fun streq_buf :: "u8 list \<Rightarrow> u8 list \<Rightarrow> bool option" where
  "streq_buf [] name = None"
| "streq_buf (b # bs) [] = Some (b = 0)"
| "streq_buf (b # bs) (c # cs) = (if b = c then streq_buf bs cs else Some False)"

text \<open>The string that starts at an offset: \<open>strlen\<close> needs its end inside the buffer.\<close>

definition str_at :: "u8 list \<Rightarrow> nat \<Rightarrow> u8 list option" where
  "str_at b off =
     (if 0 \<in> set (drop off b) then Some (takeWhile (\<lambda>c. c \<noteq> 0) (drop off b)) else None)"

text \<open>The three checks every section read starts with.\<close>

definition in_bounds :: "nat \<Rightarrow> nat \<Rightarrow> nat \<Rightarrow> bool" where
  "in_bounds fsz off len = (if len = 0 then False else if fsz \<le> off then False
     else \<not> fsz - off < len)"

definition xdl_read_file_to_heap :: "xdl_env \<Rightarrow> xfile \<Rightarrow> nat \<Rightarrow> nat \<Rightarrow> nat \<Rightarrow> u8 list option" where
  "xdl_read_file_to_heap env f fsz off len =
     (if \<not> in_bounds fsz off len then None
      else if \<not> malloc_ok env len then None
      else bytes_at (fdata f) off len)"

definition xdl_read_memory_to_heap :: "xdl_env \<Rightarrow> u8 list \<Rightarrow> nat \<Rightarrow> nat \<Rightarrow> u8 list option" where
  "xdl_read_memory_to_heap env mem off len =
     (if \<not> in_bounds (length mem) off len then None
      else if \<not> malloc_ok env len then None
      else bytes_at mem off len)"

text \<open>A pointer into the buffer: what can be read from it on.\<close>

definition xdl_get_memory :: "u8 list \<Rightarrow> nat \<Rightarrow> nat \<Rightarrow> u8 list option" where
  "xdl_get_memory mem off len =
     (if \<not> in_bounds (length mem) off len then None else Some (drop off mem))"

section \<open>Section headers\<close>

record shdr =
  sh_name :: nat
  sh_type :: u32
  sh_offset :: nat
  sh_size :: nat
  sh_link :: nat
  sh_entsize :: nat

definition shdr_at :: "u8 list \<Rightarrow> nat \<Rightarrow> shdr option" where
  "shdr_at b i = do {
     nm \<leftarrow> ld32 b (64 * i);
     ty \<leftarrow> ld32 b (64 * i + 4);
     off \<leftarrow> ld64 b (64 * i + 24);
     sz \<leftarrow> ld64 b (64 * i + 32);
     lnk \<leftarrow> ld32 b (64 * i + 40);
     ent \<leftarrow> ld64 b (64 * i + 56);
     Some \<lparr>sh_name = unat nm, sh_type = ty, sh_offset = unat off, sh_size = unat sz,
           sh_link = unat lnk, sh_entsize = unat ent\<rparr> }"

definition xdl_read_file_to_heap_by_section ::
    "xdl_env \<Rightarrow> xfile \<Rightarrow> nat \<Rightarrow> shdr \<Rightarrow> u8 list option" where
  "xdl_read_file_to_heap_by_section env f fsz h = xdl_read_file_to_heap env f fsz (sh_offset h) (sh_size h)"

definition xdl_read_memory_to_heap_by_section :: "xdl_env \<Rightarrow> u8 list \<Rightarrow> shdr \<Rightarrow> u8 list option" where
  "xdl_read_memory_to_heap_by_section env mem h =
     xdl_read_memory_to_heap env mem (sh_offset h) (sh_size h)"

definition xdl_get_memory_by_section :: "u8 list \<Rightarrow> shdr \<Rightarrow> u8 list option" where
  "xdl_get_memory_by_section mem h = xdl_get_memory mem (sh_offset h) (sh_size h)"

definition SHT_PROGBITS :: u32 where "SHT_PROGBITS = 1"
definition SHT_SYMTAB :: u32 where "SHT_SYMTAB = 2"
definition SHT_STRTAB :: u32 where "SHT_STRTAB = 3"

definition sect_symtab :: "u8 list" where "sect_symtab = [46, 115, 121, 109, 116, 97, 98]"
definition sect_debugdata :: "u8 list" where
  "sect_debugdata = [46, 103, 110, 117, 95, 100, 101, 98, 117, 103, 100, 97, 116, 97]"

text \<open>The header fields used: \<open>e_shoff\<close>, \<open>e_shentsize\<close>, \<open>e_shnum\<close>, \<open>e_shstrndx\<close>.\<close>

record ehdr =
  e_shoff :: nat
  e_shentsize :: nat
  e_shnum :: nat
  e_shstrndx :: nat

definition ehdr_in_memory :: "bmem \<Rightarrow> u64 \<Rightarrow> ehdr" where
  "ehdr_in_memory m b = \<lparr>e_shoff = unat (rd64 m (b + 40)), e_shentsize = unat (rd16 m (b + 58)),
     e_shnum = unat (rd16 m (b + 60)), e_shstrndx = unat (rd16 m (b + 62))\<rparr>"

definition ehdr_in_buffer :: "u8 list \<Rightarrow> ehdr option" where
  "ehdr_in_buffer b = do {
     off \<leftarrow> ld64 b 40;
     ent \<leftarrow> ld16 b 58;
     num \<leftarrow> ld16 b 60;
     str \<leftarrow> ld16 b 62;
     Some \<lparr>e_shoff = unat off, e_shentsize = unat ent, e_shnum = unat num, e_shstrndx = unat str\<rparr> }"

section \<open>Taking a symbol table\<close>

text \<open>
  The body of both loops for a \<open>.symtab\<close> section, over the way a section is read: the handle with the
  table, or nothing when the loop continues.
\<close>

definition take_symtab ::
    "(shdr \<Rightarrow> u8 list option) \<Rightarrow> u8 list \<Rightarrow> nat \<Rightarrow> shdr \<Rightarrow> xdl \<Rightarrow> xdl option option" where
  "take_symtab read shdrs shnum h x =
     (if shnum \<le> sh_link h then Some None
      else do {
        st \<leftarrow> shdr_at shdrs (sh_link h);
        if sh_type st \<noteq> SHT_STRTAB then Some None
        else
          (case read h of
             None \<Rightarrow> Some None
           | Some sy \<Rightarrow>
               (case read st of
                  None \<Rightarrow> Some None
                | Some str \<Rightarrow>
                    if sh_entsize h = 0 then None
                    else Some (Some (x\<lparr>symtab := Some sy, symtab_cnt := sh_size h div sh_entsize h,
                           strtab := str, strtab_sz := of_nat (sh_size st)\<rparr>)))) })"

fun debugdata_loop :: "xdl_env \<Rightarrow> u8 list \<Rightarrow> u8 list \<Rightarrow> nat \<Rightarrow> u8 list \<Rightarrow> nat \<Rightarrow> nat list \<Rightarrow> xdl \<Rightarrow>
    (bool \<times> xdl) option" where
  "debugdata_loop env data shdrs shnum names names_sz [] x = Some (False, x)"
| "debugdata_loop env data shdrs shnum names names_sz (i # is) x = do {
     h \<leftarrow> shdr_at shdrs i;
     if names_sz \<le> sh_name h then debugdata_loop env data shdrs shnum names names_sz is x
     else if sh_type h \<noteq> SHT_SYMTAB then debugdata_loop env data shdrs shnum names names_sz is x
     else do {
       is_sym \<leftarrow> streq_buf (drop (sh_name h) names) sect_symtab;
       if \<not> is_sym then debugdata_loop env data shdrs shnum names names_sz is x
       else do {
         r \<leftarrow> take_symtab (xdl_read_memory_to_heap_by_section env data) shdrs shnum h x;
         (case r of
            Some x' \<Rightarrow> Some (True, x')
          | None \<Rightarrow> debugdata_loop env data shdrs shnum names names_sz is x) } } }"

type_synonym decompressor = "u8 list \<Rightarrow> xst \<Rightarrow> (u8 list option \<times> xst) option"

definition xdl_symtab_load_from_debugdata ::
    "decompressor \<Rightarrow> xdl_env \<Rightarrow> xfile \<Rightarrow> nat \<Rightarrow> shdr \<Rightarrow> xdl \<Rightarrow> xst \<Rightarrow> (bool \<times> xdl \<times> xst) option" where
  "xdl_symtab_load_from_debugdata dec env f fsz h x s =
     (case xdl_read_file_to_heap_by_section env f fsz h of
        None \<Rightarrow> Some (False, x, s)
      | Some packed \<Rightarrow> do {
          (r, s1) \<leftarrow> dec packed s;
          (case r of
             None \<Rightarrow> Some (False, x, s1)
           | Some data \<Rightarrow> do {
               e \<leftarrow> ehdr_in_buffer data;
               if e_shnum e = 0 \<or> e_shentsize e \<noteq> 64 then Some (False, x, s1)
               else
                 (case xdl_read_memory_to_heap env data (e_shoff e) (e_shentsize e * e_shnum e) of
                    None \<Rightarrow> Some (False, x, s1)
                  | Some shdrs \<Rightarrow>
                      if e_shstrndx e = 0 \<or> e_shnum e \<le> e_shstrndx e then Some (False, x, s1)
                      else do {
                        hs \<leftarrow> shdr_at shdrs (e_shstrndx e);
                        (case xdl_get_memory_by_section data hs of
                           None \<Rightarrow> Some (False, x, s1)
                         | Some names \<Rightarrow> do {
                             (ok, x') \<leftarrow> debugdata_loop env data shdrs (e_shnum e) names (sh_size hs)
                               [0..<e_shnum e] x;
                             Some (ok, x', s1) }) }) }) })"

section \<open>Loading from the file\<close>

fun symtab_loop :: "decompressor \<Rightarrow> xdl_env \<Rightarrow> xfile \<Rightarrow> nat \<Rightarrow> u8 list \<Rightarrow> nat \<Rightarrow> u8 list \<Rightarrow> nat \<Rightarrow>
    nat list \<Rightarrow> xdl \<Rightarrow> xst \<Rightarrow> (xdl \<times> xst) option" where
  "symtab_loop dec env f fsz shdrs shnum names names_sz [] x s = Some (x, s)"
| "symtab_loop dec env f fsz shdrs shnum names names_sz (i # is) x s = do {
     h \<leftarrow> shdr_at shdrs i;
     if names_sz \<le> sh_name h then symtab_loop dec env f fsz shdrs shnum names names_sz is x s
     else do {
       is_sym \<leftarrow> (if sh_type h = SHT_SYMTAB then streq_buf (drop (sh_name h) names) sect_symtab
                  else Some False);
       if is_sym then do {
         r \<leftarrow> take_symtab (xdl_read_file_to_heap_by_section env f fsz) shdrs shnum h x;
         (case r of
            Some x' \<Rightarrow> Some (x', s)
          | None \<Rightarrow> symtab_loop dec env f fsz shdrs shnum names names_sz is x s) }
       else do {
         is_dbg \<leftarrow> (if sh_type h = SHT_PROGBITS then streq_buf (drop (sh_name h) names) sect_debugdata
                    else Some False);
         if is_dbg then do {
           (ok, x', s') \<leftarrow> xdl_symtab_load_from_debugdata dec env f fsz h x s;
           if ok then Some (x', s')
           else symtab_loop dec env f fsz shdrs shnum names names_sz is x' s' }
         else symtab_loop dec env f fsz shdrs shnum names names_sz is x s } } }"

definition XDL_LIB_PATH :: string where "XDL_LIB_PATH = ''/system/lib64''"

text \<open>The file of an object: its path, then the library directory, then the memory map.\<close>

definition open_object_file :: "xdl_env \<Rightarrow> xdl \<Rightarrow> xfile option" where
  "open_object_file env x =
     (if take 1 (pathname x) = ''/'' then xfiles env (pathname x)
      else
        (case xfiles env (take 1023 (XDL_LIB_PATH @ ''/'' @ pathname x)) of
           Some f \<Rightarrow> Some f
         | None \<Rightarrow>
             (case xdl_iterate_get_full_pathname env (x_base x) 1024 of
                None \<Rightarrow> None
              | Some p \<Rightarrow> xfiles env p)))"

definition xdl_symtab_load :: "decompressor \<Rightarrow> xdl_env \<Rightarrow> xdl \<Rightarrow> xst \<Rightarrow> (xdl \<times> xst) option" where
  "xdl_symtab_load dec env x s =
     (if take 1 (pathname x) = ''['' then Some (x, s)
      else
        (let v = min_vaddr (xmem env) (x_phdrs x) in
         if v = -1 then Some (x, s)
         else
           (let x1 = x\<lparr>x_base := load_bias x + v\<rparr> in
            case open_object_file env x1 of
              None \<Rightarrow> Some (x1, s)
            | Some f \<Rightarrow>
                (case st_size f of
                   None \<Rightarrow> Some (x1, s)
                 | Some sz \<Rightarrow>
                     (let e = ehdr_in_memory (xmem env) (x_base x1) in
                      if e_shnum e = 0 \<or> e_shentsize e \<noteq> 64 then Some (x1, s)
                      else
                        (case xdl_read_file_to_heap env f (unat sz) (e_shoff e) (e_shentsize e * e_shnum e) of
                           None \<Rightarrow> Some (x1, s)
                         | Some shdrs \<Rightarrow>
                             if e_shstrndx e = 0 \<or> e_shnum e \<le> e_shstrndx e then Some (x1, s)
                             else do {
                               hs \<leftarrow> shdr_at shdrs (e_shstrndx e);
                               (case xdl_read_file_to_heap_by_section env f (unat sz) hs of
                                  None \<Rightarrow> Some (x1, s)
                                | Some names \<Rightarrow>
                                    symtab_loop dec env f (unat sz) shdrs (e_shnum e) names (sh_size hs)
                                      [0..<e_shnum e] x1 s) }))))))"

definition xdl_ensure_symtab_loaded :: "decompressor \<Rightarrow> xdl_env \<Rightarrow> xdl \<Rightarrow> xst \<Rightarrow> (xdl \<times> xst) option" where
  "xdl_ensure_symtab_loaded dec env x s =
     (if symtab_loaded x then Some (x, s)
      else do {
        (x', s') \<leftarrow> xdl_symtab_load dec env x s;
        Some (x'\<lparr>symtab_loaded := True\<rparr>, s') })"

end
