(* ===== verification/XdlSym.thy ===== *)
theory XdlSym
  imports XdlFile
begin

unbundle bit_operations_syntax

text \<open>
  Looking symbols up by name and by address (\<^verbatim>\<open>xdl.c\<close>). The size is what \<open>symbol_size\<close> holds
  afterwards, when the caller passed one: 0 to begin with. An address of 0 is a null pointer.
\<close>

section \<open>By address\<close>

definition symtab_sym :: "u8 list \<Rightarrow> nat \<Rightarrow> esym option" where
  "symtab_sym b i = do {
     nm \<leftarrow> ld32 b (24 * i);
     inf \<leftarrow> bytes_at b (24 * i + 4) 1;
     ndx \<leftarrow> ld16 b (24 * i + 6);
     v \<leftarrow> ld64 b (24 * i + 8);
     sz \<leftarrow> ld64 b (24 * i + 16);
     Some \<lparr>st_name = nm, st_info = inf ! 0, st_shndx = ndx, st_value = v, st_ssize = sz\<rparr> }"

fun dsym_addr_loop :: "u8 list \<Rightarrow> u64 \<Rightarrow> nat list \<Rightarrow> esym option option" where
  "dsym_addr_loop b off [] = Some None"
| "dsym_addr_loop b off (i # is) = do {
     y \<leftarrow> symtab_sym b i;
     if xdl_sym_is_match y off True then Some (Some y) else dsym_addr_loop b off is }"

definition xdl_dsym_by_addr ::
    "decompressor \<Rightarrow> xdl_env \<Rightarrow> xdl \<Rightarrow> u64 \<Rightarrow> xst \<Rightarrow> (esym option \<times> xdl \<times> xst) option" where
  "xdl_dsym_by_addr dec env x0 addr s0 = do {
     (x, s) \<leftarrow> xdl_ensure_symtab_loaded dec env x0 s0;
     (case symtab x of
        None \<Rightarrow> Some (None, x, s)
      | Some b \<Rightarrow> do {
          r \<leftarrow> dsym_addr_loop b (addr - load_bias x) [0..<symtab_cnt x];
          Some (r, x, s) }) }"

section \<open>The address of a symbol\<close>

definition XDL_IFUNC_ARG_HWCAP :: u64 where "XDL_IFUNC_ARG_HWCAP = push_bit 62 1"

text \<open>
  The arguments of an indirect function's resolver: none up to Android 10, afterwards by architecture
  (the structure \<open>xdl_ifunc_arg_t\<close> is passed as its three members). \<open>None\<close>: the function gives up.
\<close>

definition ifunc_args :: "xdl_env \<Rightarrow> int \<Rightarrow> u64 list option" where
  "ifunc_args env api =
     (if api < API_R then Some []
      else
        (case xabi env of
           Aarch64 \<Rightarrow>
             (case getauxval env of
                None \<Rightarrow> None
              | Some aux \<Rightarrow> Some [aux AT_HWCAP OR XDL_IFUNC_ARG_HWCAP, 24, aux AT_HWCAP, aux AT_HWCAP2])
         | Arm \<Rightarrow> map_option (\<lambda>aux. [aux AT_HWCAP]) (getauxval env)
         | _ \<Rightarrow> Some []))"

definition xdl_resolve_symbol_address ::
    "decompressor \<Rightarrow> xdl_env \<Rightarrow> xdl \<Rightarrow> esym \<Rightarrow> bool \<Rightarrow> xst \<Rightarrow> (u64 \<times> u64 \<times> xdl \<times> xst) option" where
  "xdl_resolve_symbol_address dec env x y want s =
     (if ELF_ST_TYPE (st_info y) = STT_TLS then Some (0, 0, x, s)
      else if ELF_ST_TYPE (st_info y) = STT_GNU_IFUNC then
        (let (api, s1) = xdl_util_get_api_level env s in
         case ifunc_args env api of
           None \<Rightarrow> Some (0, 0, x, s1)
         | Some args \<Rightarrow>
             (let real = ifunc_call env (load_bias x + st_value y) args in
              if want \<and> real \<noteq> 0 then do {
                (r1, x1) \<leftarrow> xdl_sym_by_addr env x real;
                (case r1 of
                   Some z \<Rightarrow> Some (real, st_ssize z, x1, s1)
                 | None \<Rightarrow> do {
                     (r2, x2, s2) \<leftarrow> xdl_dsym_by_addr dec env x1 real s1;
                     Some (real, case r2 of Some z \<Rightarrow> st_ssize z | None \<Rightarrow> 0, x2, s2) }) }
              else Some (real, 0, x, s1)))
      else Some (load_bias x + st_value y, if want then st_ssize y else 0, x, s))"

section \<open>By name\<close>

definition xdl_sym_lookup :: "bmem \<Rightarrow> xdl \<Rightarrow> u8 list \<Rightarrow> esym option option" where
  "xdl_sym_lookup m x name = do {
     r \<leftarrow> (if 0 < gnu_buckets_cnt x then xdl_dynsym_find_symbol_use_gnu_hash m x name else Some None);
     (if r = None \<and> 0 < sysv_buckets_cnt x
      then xdl_dynsym_find_symbol_use_sysv_hash m x name else Some r) }"

definition xdl_sym ::
    "decompressor \<Rightarrow> xdl_env \<Rightarrow> xdl \<Rightarrow> u8 list \<Rightarrow> bool \<Rightarrow> xst \<Rightarrow> (u64 \<times> u64 \<times> xdl \<times> xst) option" where
  "xdl_sym dec env x0 name want s = do {
     x \<leftarrow> xdl_ensure_dynsym_loaded env x0;
     if dynsym x = 0 then Some (0, 0, x, s)
     else do {
       r \<leftarrow> xdl_sym_lookup (xmem env) x name;
       (case r of
          None \<Rightarrow> Some (0, 0, x, s)
        | Some y \<Rightarrow>
            if \<not> XDL_DYNSYM_IS_EXPORT_SYM (st_shndx y) then Some (0, 0, x, s)
            else xdl_resolve_symbol_address dec env x y want s) } }"

text \<open>The canonical name: the symbol, or the symbol followed by a suffix of the compiler.\<close>

definition xdl_dsym_is_match :: "u8 list \<Rightarrow> u8 list \<Rightarrow> bool" where
  "xdl_dsym_is_match str name =
     (if length str = 0 then False
      else if length str < length name then False
      else
        (let same = (take (length name) str = name) in
         if length str = length name then same
         else same \<and> (str ! length name = 0x2e \<or> str ! length name = 0x24)))"

fun dsym_loop :: "xdl \<Rightarrow> u8 list \<Rightarrow> u8 list \<Rightarrow> nat list \<Rightarrow> esym option option" where
  "dsym_loop x b name [] = Some None"
| "dsym_loop x b name (i # is) = do {
     y \<leftarrow> symtab_sym b i;
     if \<not> XDL_SYMTAB_IS_EXPORT_SYM (st_shndx y) then dsym_loop x b name is
     else if strtab_sz x \<le> ucast (st_name y) then dsym_loop x b name is
     else do {
       str \<leftarrow> str_at (strtab x) (unat (st_name y));
       if xdl_dsym_is_match str name then Some (Some y) else dsym_loop x b name is } }"

definition xdl_dsym ::
    "decompressor \<Rightarrow> xdl_env \<Rightarrow> xdl \<Rightarrow> u8 list \<Rightarrow> bool \<Rightarrow> xst \<Rightarrow> (u64 \<times> u64 \<times> xdl \<times> xst) option" where
  "xdl_dsym dec env x0 name want s0 = do {
     (x, s) \<leftarrow> xdl_ensure_symtab_loaded dec env x0 s0;
     (case symtab x of
        None \<Rightarrow> Some (0, 0, x, s)
      | Some b \<Rightarrow> do {
          r \<leftarrow> dsym_loop x b name [0..<symtab_cnt x];
          (case r of
             None \<Rightarrow> Some (0, 0, x, s)
           | Some y \<Rightarrow> xdl_resolve_symbol_address dec env x y want s) }) }"

end
