(* ===== verification/XdlLzma.thy ===== *)
theory XdlLzma
  imports XdlSym
begin

text \<open>
  \<^verbatim>\<open>xdl_lzma.c\<close>: finding the decoder in the system's LZMA library once, and decompressing with a
  destination buffer that grows. The decoder is a parameter: for its state, the room and the source
  bytes left it answers a \<open>coder_answer\<close>. The library's initialisation holds a lock while it opens the
  library, so the way it is opened is an argument.
\<close>

section \<open>The decoder\<close>

definition XDL_LZMA_PATHNAME :: string where "XDL_LZMA_PATHNAME = ''/system/lib64/liblzma.so''"

definition cstr :: "string \<Rightarrow> u8 list" where "cstr s = map of_char s"

text \<open>One step of the initialisation: a symbol that is missing ends it.\<close>

definition lzma_sym :: "decompressor \<Rightarrow> xdl_env \<Rightarrow> string \<Rightarrow> xdl \<Rightarrow> xst \<Rightarrow> (u64 \<times> xdl \<times> xst) option" where
  "lzma_sym dec env name x s = do {
     (a, n, x', s') \<leftarrow> xdl_sym dec env x (cstr name) False s;
     Some (a, x', s') }"

text \<open>The assignments in order; each pointer is stored before it is tested.\<close>

definition lzma_pointers :: "decompressor \<Rightarrow> xdl_env \<Rightarrow> xdl \<Rightarrow> xst \<Rightarrow> (xdl \<times> xst) option" where
  "lzma_pointers dec env x0 s0 = do {
     (crc, x1, s1) \<leftarrow> lzma_sym dec env ''CrcGenerateTable'' x0 s0;
     if crc = 0 then Some (x1, s1)
     else do {
       (crc64, x2, s2) \<leftarrow> lzma_sym dec env ''Crc64GenerateTable'' x1 s1;
       if crc64 = 0 then Some (x2, s2)
       else do {
         (con, x3, s3) \<leftarrow> lzma_sym dec env ''XzUnpacker_Construct'' x2 s2;
         let s3 = s3\<lparr>lzma_construct := con\<rparr>;
         if con = 0 then Some (x3, s3)
         else do {
           (fin, x4, s4) \<leftarrow> lzma_sym dec env ''XzUnpacker_IsStreamWasFinished'' x3 s3;
           let s4 = s4\<lparr>lzma_isfinished := fin\<rparr>;
           if fin = 0 then Some (x4, s4)
           else do {
             (fre, x5, s5) \<leftarrow> lzma_sym dec env ''XzUnpacker_Free'' x4 s4;
             let s5 = s5\<lparr>lzma_free := fre\<rparr>;
             if fre = 0 then Some (x5, s5)
             else do {
               (cod, x6, s6) \<leftarrow> lzma_sym dec env ''XzUnpacker_Code'' x5 s5;
               let s6 = s6\<lparr>lzma_code := cod\<rparr>;
               if cod = 0 then Some (x6, s6)
               else Some (x6, s6\<lparr>xlog := xlog s6 @ [Crc_tables]\<rparr>) } } } } } }"

type_synonym opener = "string \<Rightarrow> xst \<Rightarrow> (xdl option \<times> xst) option"

definition xdl_lzma_init :: "opener \<Rightarrow> decompressor \<Rightarrow> xdl_env \<Rightarrow> xst \<Rightarrow> xst option" where
  "xdl_lzma_init open_try dec env s = do {
     (r, s1) \<leftarrow> open_try XDL_LZMA_PATHNAME s;
     (case r of
        None \<Rightarrow> Some s1
      | Some x \<Rightarrow> map_option snd (lzma_pointers dec env x s1)) }"

section \<open>Decompression\<close>

text \<open>
  The loop: \<open>src\<close> is what is left of the source, \<open>dst\<close> what was written, \<open>cap\<close> the size of the
  buffer. The sizes are numbers here; their sum stays far below the width of \<open>size_t\<close>. The buffer
  grows before a call whenever less than twice the source's size is free in it. The result is
  nothing for the error path, else the bytes written.
\<close>

partial_function (option) lzma_loop ::
    "xdl_env \<Rightarrow> bool \<Rightarrow> nat \<Rightarrow> u8 list \<Rightarrow> u8 list \<Rightarrow> u8 list \<Rightarrow> nat \<Rightarrow> u8 list option option" where
  "lzma_loop env q src_size st src dst cap =
     (let grow = (cap - length dst < 2 * src_size);
          cap' = (if grow then cap + 2 * src_size else cap)
      in if grow \<and> \<not> malloc_ok env cap' then Some None
         else
           (let r = lzma_coder env q st (cap' - length dst) src in
            if co_result r \<noteq> 0 then Some None
            else if co_status r = NOT_FINISHED
            then lzma_loop env q src_size (co_state r) (drop (co_used r) src) (dst @ co_out r) cap'
            else if \<not> lzma_finished env (co_state r) then Some None
            else Some (Some (dst @ co_out r))))"

definition xdl_lzma_decompress :: "opener \<Rightarrow> decompressor \<Rightarrow> xdl_env \<Rightarrow> decompressor" where
  "xdl_lzma_decompress open_try dec env src s0 = do {
     s \<leftarrow> (if lzma_inited s0 then Some s0
           else map_option (\<lambda>s. s\<lparr>lzma_inited := True\<rparr>) (xdl_lzma_init open_try dec env s0));
     if lzma_code s = 0 then Some (None, s)
     else
       (let (api, s1) = xdl_util_get_api_level env s; n = length src in
        if \<not> malloc_ok env (7 * n) then Some (None, s1)
        else do {
          r \<leftarrow> lzma_loop env (API_Q \<le> api) n (lzma_state env) src [] (7 * n);
          Some (r, s1) }) }"

end
