(* ===== verification/XdlOpen.thy ===== *)
theory XdlOpen
  imports XdlLzma
begin

unbundle bit_operations_syntax

text \<open>
  Finding loaded objects (\<^verbatim>\<open>xdl.c\<close>), the linker's own \<open>dlopen\<close> (\<^verbatim>\<open>xdl_linker.c\<close>) and opening through
  it. Three initialisations run once under a lock of their own, and they call each other: the linker's
  symbols are looked up by opening the linker, its symbol table may have to be decompressed, and the
  decompressor is found by opening a library through the linker. Each function therefore takes what it
  reaches in this circle as an argument; the last section closes the circle. A lock that the same
  thread already holds is a deadlock, \<open>None\<close>.
\<close>

section \<open>Objects from the auxiliary vector\<close>

definition xdl_get_base_from_phdr :: "xdl_env \<Rightarrow> (nat \<Rightarrow> u64) \<Rightarrow> u64 \<Rightarrow> xst \<Rightarrow> u64 \<times> xst" where
  "xdl_get_base_from_phdr env aux ph s =
     (let m = xmem env; n = unat (aux AT_PHNUM);
          (page, s1) = xdl_util_get_pagesize env s;
          off = (\<lambda>b. b = 0 \<or> b AND (page - 1) \<noteq> 0);
          b0 = (case find (\<lambda>p. p_type m p = PT_PHDR) (phdr_list ph n) of
                  None \<Rightarrow> 0 | Some p \<Rightarrow> ph - p_vaddr m p);
          b1 = (if off b0 then ph - 64 else b0);
          b2 = (if off b1 then ph AND NOT (page - 1) else b1)
      in (b2, s1))"

definition xdl_find_from_auxv :: "xdl_env \<Rightarrow> nat \<Rightarrow> string \<Rightarrow> xst \<Rightarrow> xdl option \<times> xst" where
  "xdl_find_from_auxv env type path s =
     (case getauxval env of
        None \<Rightarrow> (None, s)
      | Some aux \<Rightarrow>
          if aux type = 0 then (None, s)
          else
            (let m = xmem env;
                 (b, s1) = (if type = AT_PHDR then xdl_get_base_from_phdr env aux (aux type) s
                            else (aux type, s))
             in if \<not> elf_magic m b then (None, s1)
                else
                  (let ph = ehdr_phdr m b; n = ehdr_phnum m b; v = min_vaddr m (phdr_list ph (unat n))
                   in if v = -1 \<or> b < v then (None, s1)
                      else (make_xdl env path (b - v) ph n, s1))))"

section \<open>Finding an object by name\<close>

definition name_matches :: "string \<Rightarrow> string \<Rightarrow> bool" where
  "name_matches filename nm =
     (if take 1 filename = ''['' then nm = filename
      else if take 1 filename = ''/'' then
        (if take 1 nm = ''/'' then nm = filename else xdl_util_ends_with filename nm)
      else
        (if take 1 nm = ''/'' then xdl_util_ends_with nm filename else nm = filename))"

definition xdl_find_iterate_cb :: "xdl_env \<Rightarrow> string \<Rightarrow> xdl option iter_cb" where
  "xdl_find_iterate_cb env filename info x =
     (case dlpi_name info of
        None \<Rightarrow> (0, x)
      | Some nm \<Rightarrow>
          if dlpi_addr info = 0 then (0, x)
          else if \<not> name_matches filename nm then (0, x)
          else (1, make_xdl env nm (dlpi_addr info) (dlpi_phdr info) (dlpi_phnum info)))"

definition xdl_find ::
    "locker \<Rightarrow> locker \<Rightarrow> xdl_env \<Rightarrow> string \<Rightarrow> xst \<Rightarrow> (xdl option \<times> xst) option" where
  "xdl_find lock unlock env filename s =
     (let (r, s1) =
            (if xdl_util_ends_with filename ''linker64''
             then xdl_find_from_auxv env AT_BASE LINKER_PATHNAME s
             else if xdl_util_ends_with filename ''[vdso]''
             then xdl_find_from_auxv env AT_SYSINFO_EHDR ''[vdso]'' s
             else (None, s));
          (r', s2) =
            (if xdl_util_ends_with filename ''app_process64''
             then xdl_find_from_auxv env AT_PHDR ''/system/bin/app_process64'' s1
             else (r, s1))
      in if r' \<noteq> None then Some (r', s2)
         else do {
           (ret, x, s3) \<leftarrow> xdl_iterate_phdr_impl lock unlock env (xdl_find_iterate_cb env filename) False None s2;
           Some (x, s3) })"

section \<open>The linker's symbols\<close>

text \<open>The symbol set the API level calls for: the mutex, the function, or both.\<close>

definition linker_symbols :: "decompressor \<Rightarrow> xdl_env \<Rightarrow> xdl \<Rightarrow> xst \<Rightarrow> xst option" where
  "linker_symbols dec env x s0 =
     (let (api, s) = xdl_util_get_api_level env s0; mutex = cstr ''__dl__ZL10g_dl_mutex'' in
      if api = API_L \<or> api = API_L_MR1 then do {
        (a, n, x1, s1) \<leftarrow> xdl_dsym dec env x mutex False s;
        Some (s1\<lparr>linker_mutex := a\<rparr>) }
      else if api = API_N \<or> api = API_N_MR1 then do {
        (a, n, x1, s1) \<leftarrow> xdl_dsym dec env x (cstr ''__dl__ZL10dlopen_extPKciPK17android_dlextinfoPv'') False s;
        if a \<noteq> 0 then Some (s1\<lparr>linker_dlopen := a\<rparr>)
        else do {
          (b, n, x2, s2) \<leftarrow> xdl_dsym dec env x1 (cstr ''__dl__Z9do_dlopenPKciPK17android_dlextinfoPv'') False
            (s1\<lparr>linker_dlopen := a\<rparr>);
          (c, n, x3, s3) \<leftarrow> xdl_dsym dec env x2 mutex False (s2\<lparr>linker_dlopen := b\<rparr>);
          Some (s3\<lparr>linker_mutex := c\<rparr>) } }
      else if api = API_O \<or> api = API_O_MR1 then do {
        (a, n, x1, s1) \<leftarrow> xdl_dsym dec env x (cstr ''__dl__Z8__dlopenPKciPKv'') False s;
        Some (s1\<lparr>linker_dlopen := a\<rparr>) }
      else if API_P \<le> api then do {
        (a, n, x1, s1) \<leftarrow> xdl_sym dec env x (cstr ''__loader_dlopen'') False s;
        Some (s1\<lparr>linker_dlopen := a\<rparr>) }
      else Some s)"

definition xdl_linker_unlock :: locker where
  "xdl_linker_unlock s =
     Some (if linker_mutex s \<noteq> 0 then s\<lparr>xlog := xlog s @ [Mutex_unlock (linker_mutex s)]\<rparr> else s)"

definition xdl_linker_init_symbols_impl :: "locker \<Rightarrow> decompressor \<Rightarrow> xdl_env \<Rightarrow> xst \<Rightarrow> xst option" where
  "xdl_linker_init_symbols_impl lock dec env s = do {
     (r, s1) \<leftarrow> xdl_find lock xdl_linker_unlock env ''linker64'' s;
     (case r of None \<Rightarrow> Some s1 | Some x \<Rightarrow> linker_symbols dec env x s1) }"

definition xdl_linker_init_symbols :: "locker \<Rightarrow> decompressor \<Rightarrow> xdl_env \<Rightarrow> xst \<Rightarrow> xst option" where
  "xdl_linker_init_symbols lock dec env s =
     (if linker_inited s then Some s
      else map_option (\<lambda>s. s\<lparr>linker_inited := True\<rparr>) (xdl_linker_init_symbols_impl lock dec env s))"

definition xdl_linker_lock :: "locker \<Rightarrow> locker" where
  "xdl_linker_lock init s = do {
     s1 \<leftarrow> init s;
     Some (if linker_mutex s1 \<noteq> 0 then s1\<lparr>xlog := xlog s1 @ [Mutex_lock (linker_mutex s1)]\<rparr> else s1) }"

section \<open>Callers the linker trusts\<close>

definition match_default :: "(match_type \<times> string) list" where
  "match_default = [(MATCH_SUFFIX, ''/libc.so'')]"

definition match_art :: "(match_type \<times> string) list" where
  "match_art = [(MATCH_SUFFIX, ''/libart.so'')]"

definition match_sphal :: "(match_type \<times> string) list" where
  "match_sphal = [(MATCH_PREFIX, ''/vendor/lib64/egl/''), (MATCH_PREFIX, ''/vendor/lib64/hw/''),
     (MATCH_PREFIX, ''/vendor/lib64/''), (MATCH_PREFIX, ''/odm/lib64/'')]"

definition match_vndk :: "(match_type \<times> string) list" where
  "match_vndk = [(MATCH_PREFIX, ''/apex/com.android.vndk.v''), (MATCH_PREFIX, ''/vendor/lib64/vndk-sp/''),
     (MATCH_PREFIX, ''/odm/lib64/vndk-sp/'')]"

definition initial_callers :: "caller list" where
  "initial_callers =
     map (\<lambda>ms. \<lparr>caller_addr = 0, matches = ms, matches_cursor = length ms\<rparr>)
       [match_default, match_art, match_sphal, match_vndk]"

definition xdl_linker_get_caller_addr :: "bmem \<Rightarrow> phinfo \<Rightarrow> u64" where
  "xdl_linker_get_caller_addr m i =
     (case find (\<lambda>p. p_type m p = PT_LOAD) (info_phdrs i) of
        None \<Rightarrow> 0 | Some p \<Rightarrow> dlpi_addr i + p_vaddr m p)"

definition xdl_linker_save_caller_addr :: "bmem \<Rightarrow> phinfo \<Rightarrow> nat \<Rightarrow> caller \<Rightarrow> caller" where
  "xdl_linker_save_caller_addr m i j c =
     (let a = xdl_linker_get_caller_addr m i in
      if a \<noteq> 0 then c\<lparr>caller_addr := a, matches_cursor := j\<rparr> else c)"

fun rule_holds :: "match_type \<times> string \<Rightarrow> string \<Rightarrow> bool" where
  "rule_holds (MATCH_PREFIX, v) nm = xdl_util_starts_with nm v"
| "rule_holds (MATCH_SUFFIX, v) nm = xdl_util_ends_with nm v"

text \<open>The inner loop: while the index is below the cursor, which a match moves down.\<close>

fun scan_rules :: "bmem \<Rightarrow> phinfo \<Rightarrow> string \<Rightarrow> (match_type \<times> string) list \<Rightarrow> nat \<Rightarrow> caller \<Rightarrow> caller" where
  "scan_rules m i nm [] j c = c"
| "scan_rules m i nm (r # rs) j c =
     (if j < matches_cursor c then
        scan_rules m i nm rs (Suc j)
          (if rule_holds r nm then xdl_linker_save_caller_addr m i j c else c)
      else c)"

definition xdl_linker_get_caller_addr_cb :: "xdl_env \<Rightarrow> caller list iter_cb" where
  "xdl_linker_get_caller_addr_cb env i cs =
     (case dlpi_name i of
        None \<Rightarrow> (0, cs)
      | Some nm \<Rightarrow>
          if dlpi_addr i = 0 then (0, cs)
          else
            (let cs' = map (\<lambda>c. scan_rules (xmem env) i nm (matches c) 0 c) cs
             in (if list_ex (\<lambda>c. caller_addr c = 0 \<or> matches_cursor c \<noteq> 0) cs' then 0 else 1, cs')))"

definition xdl_linker_init_caller_addr :: "locker \<Rightarrow> xdl_env \<Rightarrow> xst \<Rightarrow> xst option" where
  "xdl_linker_init_caller_addr lock env s =
     (if callers_inited s then Some s
      else do {
        (r, cs, s1) \<leftarrow> xdl_iterate_phdr_impl lock xdl_linker_unlock env (xdl_linker_get_caller_addr_cb env)
          False (linker_callers s) s;
        Some (s1\<lparr>linker_callers := cs, callers_inited := True\<rparr>) })"

fun try_callers :: "xdl_env \<Rightarrow> u64 \<Rightarrow> string \<Rightarrow> caller list \<Rightarrow> phinfo list \<Rightarrow> u64 \<times> phinfo list" where
  "try_callers env f filename [] objs = (0, objs)"
| "try_callers env f filename (c # cs) objs =
     (if caller_addr c = 0 then try_callers env f filename cs objs
      else
        (let (h, objs') = linker_open env f filename (caller_addr c) objs in
         if h \<noteq> 0 then (h, objs') else try_callers env f filename cs objs'))"

definition xdl_linker_force_dlopen :: "locker \<Rightarrow> xdl_env \<Rightarrow> string \<Rightarrow> xst \<Rightarrow> (u64 \<times> xst) option" where
  "xdl_linker_force_dlopen init env filename s0 =
     (let (api, s) = xdl_util_get_api_level env s0 in
      if api \<le> API_M then
        (let (h, objs) = libdl_open env filename (loaded s) in Some (h, s\<lparr>loaded := objs\<rparr>))
      else do {
        s1 \<leftarrow> init s;
        if linker_dlopen s1 = 0 then Some (0, s1)
        else do {
          s2 \<leftarrow> xdl_linker_init_caller_addr (xdl_linker_lock init) env s1;
          let seven = (api = API_N \<or> api = API_N_MR1);
          s3 \<leftarrow> (if seven then xdl_linker_lock init s2 else Some s2);
          let (h, objs) = try_callers env (linker_dlopen s3) filename (linker_callers s3) (loaded s3);
          s4 \<leftarrow> (if seven then xdl_linker_unlock (s3\<lparr>loaded := objs\<rparr>) else Some (s3\<lparr>loaded := objs\<rparr>));
          Some (h, s4) } })"

section \<open>Opening\<close>

definition xdl_open_always_force :: "locker \<Rightarrow> xdl_env \<Rightarrow> opener" where
  "xdl_open_always_force init env filename s = do {
     (h, s1) \<leftarrow> xdl_linker_force_dlopen init env filename s;
     if h = 0 then Some (None, s1)
     else do {
       (r, s2) \<leftarrow> xdl_find (xdl_linker_lock init) xdl_linker_unlock env filename s1;
       Some (case r of
          None \<Rightarrow> (None, s2\<lparr>xlog := xlog s2 @ [Dlclose h]\<rparr>)
        | Some x \<Rightarrow> (Some (x\<lparr>linker_handle := h\<rparr>), s2)) } }"

definition xdl_open_try_force :: "locker \<Rightarrow> xdl_env \<Rightarrow> opener" where
  "xdl_open_try_force init env filename s = do {
     (r, s1) \<leftarrow> xdl_find (xdl_linker_lock init) xdl_linker_unlock env filename s;
     if r \<noteq> None then Some (r, s1) else xdl_open_always_force init env filename s1 }"

definition XDL_TRY_FORCE_LOAD :: u32 where "XDL_TRY_FORCE_LOAD = 1"
definition XDL_ALWAYS_FORCE_LOAD :: u32 where "XDL_ALWAYS_FORCE_LOAD = 2"

definition xdl_open_with :: "locker \<Rightarrow> xdl_env \<Rightarrow> string option \<Rightarrow> u32 \<Rightarrow> xst \<Rightarrow> (xdl option \<times> xst) option" where
  "xdl_open_with init env filename flags s =
     (case filename of
        None \<Rightarrow> Some (None, s)
      | Some f \<Rightarrow>
          if flags AND XDL_ALWAYS_FORCE_LOAD \<noteq> 0 then xdl_open_always_force init env f s
          else if flags AND XDL_TRY_FORCE_LOAD \<noteq> 0 then xdl_open_try_force init env f s
          else xdl_find (xdl_linker_lock init) xdl_linker_unlock env f s)"

definition xdl_open2 :: "xdl_env \<Rightarrow> phinfo option \<Rightarrow> xdl option option" where
  "xdl_open2 env info =
     (case info of
        None \<Rightarrow> Some None
      | Some i \<Rightarrow>
          if \<not> calloc_ok env then Some None
          else do {
            nm \<leftarrow> dlpi_name i;
            Some (make_xdl env nm (dlpi_addr i) (dlpi_phdr i) (dlpi_phnum i)) })"

definition xdl_close :: "xdl option \<Rightarrow> u64" where
  "xdl_close x = (case x of None \<Rightarrow> 0 | Some x \<Rightarrow> linker_handle x)"

section \<open>Closing the circle\<close>

text \<open>
  During the linker's initialisation its lock is held, so reaching it again is a deadlock; during the
  decompressor's, likewise. The initialisations as they run from outside, and inside one another:
\<close>

definition held :: locker where "held s = None"
definition held_lzma :: decompressor where "held_lzma src s = None"

definition dec_in_init :: "xdl_env \<Rightarrow> decompressor" where
  "dec_in_init env = xdl_lzma_decompress (xdl_open_try_force held env) held_lzma env"

definition linker_init :: "xdl_env \<Rightarrow> locker" where
  "linker_init env = xdl_linker_init_symbols held (dec_in_init env) env"

definition init_in_lzma :: "xdl_env \<Rightarrow> locker" where
  "init_in_lzma env = xdl_linker_init_symbols held held_lzma env"

definition decompress :: "xdl_env \<Rightarrow> decompressor" where
  "decompress env = xdl_lzma_decompress (xdl_open_try_force (init_in_lzma env) env) held_lzma env"

definition xdl_open :: "xdl_env \<Rightarrow> string option \<Rightarrow> u32 \<Rightarrow> xst \<Rightarrow> (xdl option \<times> xst) option" where
  "xdl_open env = xdl_open_with (linker_init env) env"

definition xdl_iterate_phdr ::
    "xdl_env \<Rightarrow> 'a iter_cb option \<Rightarrow> bool \<Rightarrow> 'a \<Rightarrow> xst \<Rightarrow> (int \<times> 'a \<times> xst) option" where
  "xdl_iterate_phdr env cb full a s =
     (case cb of
        None \<Rightarrow> Some (0, a, s)
      | Some f \<Rightarrow> xdl_iterate_phdr_impl (xdl_linker_lock (linker_init env)) xdl_linker_unlock env f full a s)"

end
