(* ===== verification/XdlAddr.thy ===== *)
theory XdlAddr
  imports XdlOpen
begin

text \<open>
  \<^verbatim>\<open>xdl_addr\<close> and \<^verbatim>\<open>xdl_info\<close> (\<^verbatim>\<open>xdl.c\<close>): what is known of an address, with a cache of the
  handles of the objects found so far. The cache is the linked list, newest first; looking a symbol
  up loads tables into the cached handle.
\<close>

datatype sname = No_name | At_dynstr u64 | In_strtab u32 | Literal string

record xdl_info_t =
  dli_fname :: "string option"
  dli_fbase :: u64
  dli_sname :: sname
  dli_saddr :: u64
  dli_ssize :: u64
  dli_phdr :: u64
  dli_phnum :: nat

definition object_info :: "xdl \<Rightarrow> xdl_info_t" where
  "object_info x = \<lparr>dli_fname = Some (pathname x), dli_fbase = load_bias x, dli_sname = No_name,
     dli_saddr = 0, dli_ssize = 0, dli_phdr = x_phdr x, dli_phnum = unat (x_phnum x)\<rparr>"

definition xdl_open_by_addr_iterate_cb :: "xdl_env \<Rightarrow> u64 \<Rightarrow> xdl option iter_cb" where
  "xdl_open_by_addr_iterate_cb env addr info x =
     (case dlpi_name info of
        None \<Rightarrow> (0, x)
      | Some nm \<Rightarrow>
          if dlpi_addr info = 0 then (0, x)
          else if xdl_elf_is_match (xmem env) (dlpi_addr info) (dlpi_phdr info) (dlpi_phnum info) addr
          then (1, make_xdl env nm (dlpi_addr info) (dlpi_phdr info) (dlpi_phnum info))
          else (0, x))"

definition xdl_open_by_addr :: "xdl_env \<Rightarrow> u64 \<Rightarrow> xst \<Rightarrow> (xdl option \<times> xst) option" where
  "xdl_open_by_addr env addr s =
     (if addr = 0 then Some (None, s)
      else do {
        (r, x, s1) \<leftarrow> xdl_iterate_phdr env (Some (xdl_open_by_addr_iterate_cb env addr)) False None s;
        Some (x, s1) })"

text \<open>The handles before the first one that holds the address, that one, and those after it.\<close>

fun cache_find :: "xdl_env \<Rightarrow> u64 \<Rightarrow> xdl list \<Rightarrow> (xdl list \<times> xdl \<times> xdl list) option" where
  "cache_find env addr [] = None"
| "cache_find env addr (x # xs) =
     (if xdl_elf_is_match (xmem env) (load_bias x) (x_phdr x) (x_phnum x) addr then Some ([], x, xs)
      else map_option (\<lambda>(pre, y, post). (x # pre, y, post)) (cache_find env addr xs))"

text \<open>The symbol of an address in a handle: the dynamic table first.\<close>

definition symbol_info :: "xdl_env \<Rightarrow> xdl \<Rightarrow> u64 \<Rightarrow> xst \<Rightarrow> (xdl_info_t \<times> xdl \<times> xst) option" where
  "symbol_info env x addr s = do {
     (r1, x1) \<leftarrow> xdl_sym_by_addr env x addr;
     (case r1 of
        Some y \<Rightarrow>
          Some ((object_info x1)\<lparr>
            dli_sname := (if ucast (st_name y) < dynstr_sz x1 then At_dynstr (dynstr x1 + ucast (st_name y))
                          else Literal ''dynstr_out_of_bounds_error''),
            dli_saddr := load_bias x1 + st_value y, dli_ssize := st_ssize y\<rparr>, x1, s)
      | None \<Rightarrow> do {
          (r2, x2, s2) \<leftarrow> xdl_dsym_by_addr (decompress env) env x1 addr s;
          Some (case r2 of
             Some y \<Rightarrow>
               ((object_info x2)\<lparr>
                 dli_sname := (if ucast (st_name y) < strtab_sz x2 then In_strtab (st_name y)
                               else Literal ''strtab_out_of_bounds_error''),
                 dli_saddr := load_bias x2 + st_value y, dli_ssize := st_ssize y\<rparr>, x2, s2)
           | None \<Rightarrow> (object_info x2, x2, s2)) }) }"

text \<open>The information when there is one, the cache and the state afterwards.\<close>

definition xdl_addr4 ::
    "xdl_env \<Rightarrow> u64 \<Rightarrow> xdl list \<Rightarrow> bool \<Rightarrow> xst \<Rightarrow> (xdl_info_t option \<times> xdl list \<times> xst) option" where
  "xdl_addr4 env addr cache non_sym s =
     (if addr = 0 then Some (None, cache, s)
      else do {
        (found, s1) \<leftarrow> (case cache_find env addr cache of
           Some h \<Rightarrow> Some (Some h, s)
         | None \<Rightarrow> do {
             (r, s') \<leftarrow> xdl_open_by_addr env addr s;
             Some (map_option (\<lambda>x. ([], x, cache)) r, s') });
        (case found of
           None \<Rightarrow> Some (None, cache, s1)
         | Some (pre, x, post) \<Rightarrow>
             if non_sym then Some (Some (object_info x), pre @ x # post, s1)
             else do {
               (i, x', s2) \<leftarrow> symbol_info env x addr s1;
               Some (Some i, pre @ x' # post, s2) }) })"

definition xdl_addr ::
    "xdl_env \<Rightarrow> u64 \<Rightarrow> xdl list \<Rightarrow> xst \<Rightarrow> (xdl_info_t option \<times> xdl list \<times> xst) option" where
  "xdl_addr env addr cache s = xdl_addr4 env addr cache False s"

text \<open>Every handle is closed; what their linker handles were is dropped.\<close>

definition xdl_addr_clean :: "xdl list \<Rightarrow> u64 list \<times> xdl list" where
  "xdl_addr_clean cache = (map (\<lambda>x. xdl_close (Some x)) cache, [])"

definition XDL_DI_DLINFO :: int where "XDL_DI_DLINFO = 1"

definition xdl_info :: "xdl option \<Rightarrow> int \<Rightarrow> xdl_info_t option" where
  "xdl_info h request =
     (case h of
        None \<Rightarrow> None
      | Some x \<Rightarrow> if request \<noteq> XDL_DI_DLINFO then None else Some (object_info x))"

end
