(* ===== verification/XdlProps.thy ===== *)
theory XdlProps
  imports XdlAddr
begin

text \<open>
  What xDL's operations compute: iteration as a walk over a reference list of objects, symbol lookup
  by name in both tables, and the address cache.
\<close>

section \<open>Iteration\<close>

text \<open>The linker as an object, when the auxiliary vector names it and its header has a segment.\<close>

definition linker_info :: "xdl_env \<Rightarrow> phinfo list" where
  "linker_info env =
     (let m = xmem env; b = xdl_iterate_get_linker_base env; ph = ehdr_phdr m b; n = ehdr_phnum m b;
          v = min_vaddr m (phdr_list ph (unat n))
      in if b = 0 \<or> v = -1 then []
         else [\<lparr>dlpi_addr = b - v, dlpi_name = Some LINKER_PATHNAME, dlpi_phdr = ph, dlpi_phnum = n\<rparr>])"

definition repaired :: "xdl_env \<Rightarrow> bool \<Rightarrow> phinfo \<Rightarrow> phinfo option" where
  "repaired env full i =
     (case dlpi_name i of
        None \<Rightarrow> None
      | Some nm \<Rightarrow> if dlpi_addr i = 0 \<or> nm = [] then None else fix_name env full nm (fix_phdr env i))"

definition visited :: "xdl_env \<Rightarrow> bool \<Rightarrow> phinfo list \<Rightarrow> phinfo list" where
  "visited env full objs =
     linker_info env @
     List.map_filter (repaired env full)
       (filter (\<lambda>i. dlpi_addr i \<notin> dlpi_addr ` set (linker_info env)) objs)"

lemma dl_iterate_append:
  "dl_iterate_phdr f (is @ js) a =
     (let (r, a') = dl_iterate_phdr f is a in if r \<noteq> 0 then (r, a') else dl_iterate_phdr f js a')"
  by (induction "is" arbitrary: a) (auto split: prod.splits)

lemma by_linker_cb_repaired:
  "xdl_iterate_by_linker_cb env f bias full i a =
     (if bias = dlpi_addr i then (0, a)
      else case repaired env full i of None \<Rightarrow> (0, a) | Some j \<Rightarrow> f j a)"
  by (auto simp: xdl_iterate_by_linker_cb_def repaired_def split: option.splits)

lemma iterate_by_linker_cb:
  "dl_iterate_phdr (xdl_iterate_by_linker_cb env f bias full) objs a =
     dl_iterate_phdr f (List.map_filter (repaired env full) (filter (\<lambda>i. dlpi_addr i \<noteq> bias) objs)) a"
  by (induction objs arbitrary: a)
    (auto simp: by_linker_cb_repaired map_filter_simps split: option.splits prod.splits)

lemma repaired_zero: "dlpi_addr i = 0 \<Longrightarrow> repaired env full i = None"
  by (auto simp: repaired_def split: option.splits)

lemma map_filter_zero:
  "List.map_filter (repaired env full) (filter (\<lambda>i. dlpi_addr i \<noteq> 0) objs) =
     List.map_filter (repaired env full) objs"
  by (induction objs) (auto simp: map_filter_simps repaired_zero split: option.split)

lemma iterate_by_linker_visited:
  assumes "has_dl_iterate env" "xdl_util_get_api_level env s = (api, s1)" "api \<noteq> API_L" "api \<noteq> API_L_MR1"
  shows "xdl_iterate_by_linker lock unlock env f full a s =
    (let (r, a') = dl_iterate_phdr f (visited env full (loaded s1)) a in Some (r, a', s1))"
proof (cases "linker_info env")
  case Nil
  define b where "b = xdl_iterate_get_linker_base env"
  have none: "b \<noteq> 0 \<Longrightarrow> xdl_iterate_do_callback env f b LINKER_PATHNAME a = (0, a, 0)"
    using Nil by (auto simp: linker_info_def xdl_iterate_do_callback_def b_def Let_def split: if_splits)
  then show ?thesis
    using assms Nil
    by (cases "b = 0") (simp_all add: xdl_iterate_by_linker_def visited_def iterate_by_linker_cb
        map_filter_zero b_def [symmetric] Let_def none case_prod_beta)
next
  case (Cons i rest)
  define b where "b = xdl_iterate_get_linker_base env"
  have b: "b \<noteq> 0" "rest = []" using Cons by (auto simp: linker_info_def b_def Let_def split: if_splits)
  have "xdl_iterate_do_callback env f b LINKER_PATHNAME a =
      (let (r, a') = f i a in (r, a', dlpi_addr i))"
    using Cons by (auto simp: linker_info_def xdl_iterate_do_callback_def b_def Let_def split: if_splits)
  then show ?thesis
    using assms Cons b
    by (simp add: xdl_iterate_by_linker_def visited_def iterate_by_linker_cb b_def [symmetric]
        dl_iterate_append Let_def case_prod_beta)
qed

text \<open>
  Above Android 5 iteration always returns, takes no lock and is a walk over one list: the linker
  from the auxiliary vector first, then in their order the loaded objects other than it that have a
  bias and a name, with their program headers and, when asked for, their path names repaired; an
  object whose path cannot be found is left out. The walk ends at the first nonzero answer.
\<close>

theorem iteration_is_a_walk:
  assumes "has_dl_iterate env" "xdl_util_get_api_level env s = (api, s1)" "API_M \<le> api"
  shows "xdl_iterate_phdr env (Some f) full a s =
    Some (fst (dl_iterate_phdr f (visited env full (loaded s)) a),
          snd (dl_iterate_phdr f (visited env full (loaded s)) a), s1)"
proof -
  have "loaded s1 = loaded s"
    using assms(2) by (auto simp: xdl_util_get_api_level_def Let_def split: if_splits)
  with assms iterate_by_linker_visited [OF assms(1,2)] show ?thesis
    by (simp add: xdl_iterate_phdr_def xdl_iterate_phdr_impl_def api_levels case_prod_beta)
qed

section \<open>Symbols by name\<close>

lemma sysv_walk_sound:
  assumes "sysv_walk m x name i = Some (Some y)"
  shows "dynsym_named m x name y \<and> (\<exists>k. y = dynsym_at m x k)"
proof -
  have "\<forall>y. r = Some y \<longrightarrow> dynsym_named m x name y \<and> (\<exists>k. y = dynsym_at m x k)"
    if "sysv_walk m x name i = Some r" for r
  proof (rule sysv_walk.raw_induct
      [of "\<lambda>m x name i r. \<forall>y. r = Some y \<longrightarrow> dynsym_named m x name y \<and> (\<exists>k. y = dynsym_at m x k)"
        "(((m, x), name), i)" r, unfolded prod.case, OF _ that])
    fix f m x name i r
    assume IH: "\<And>m x name i r. f m x name i = Some r \<Longrightarrow>
        \<forall>y. r = Some y \<longrightarrow> dynsym_named m x name y \<and> (\<exists>k. y = dynsym_at m x k)"
      and eq: "(if i = 0 then Some None
         else if dynsym_named m x name (dynsym_at m x i) then Some (Some (dynsym_at m x i))
         else f m x name (rd32 m (sysv_chains x + 4 * ucast i))) = Some r"
    show "\<forall>y. r = Some y \<longrightarrow> dynsym_named m x name y \<and> (\<exists>k. y = dynsym_at m x k)"
      using eq IH [of m x name "rd32 m (sysv_chains x + 4 * ucast i)" r] by (auto split: if_splits)
  qed
  with assms show ?thesis by blast
qed

lemma gnu_walk_sound:
  assumes "gnu_walk m x name h i = Some (Some y)"
  shows "dynsym_named m x name y \<and> (\<exists>k. y = dynsym_at m x k)"
proof -
  have "\<forall>y. r = Some y \<longrightarrow> dynsym_named m x name y \<and> (\<exists>k. y = dynsym_at m x k)"
    if "gnu_walk m x name h i = Some r" for r
  proof (rule gnu_walk.raw_induct
      [of "\<lambda>m x name h i r. \<forall>y. r = Some y \<longrightarrow> dynsym_named m x name y \<and> (\<exists>k. y = dynsym_at m x k)"
        "((((m, x), name), h), i)" r, unfolded prod.case, OF _ that])
    fix f m x name h i r
    assume IH: "\<And>m x name h i r. f m x name h i = Some r \<Longrightarrow>
        \<forall>y. r = Some y \<longrightarrow> dynsym_named m x name y \<and> (\<exists>k. y = dynsym_at m x k)"
      and eq: "(let y = dynsym_at m x i; sh = rd32 m (gnu_chains x + 4 * ucast (i - gnu_symoffset x)) in
         if h OR 1 = sh OR 1 \<and> dynsym_named m x name y then Some (Some y)
         else if sh AND 1 \<noteq> 0 then Some None
         else f m x name h (i + 1)) = Some r"
    show "\<forall>y. r = Some y \<longrightarrow> dynsym_named m x name y \<and> (\<exists>k. y = dynsym_at m x k)"
      using eq IH [of m x name h "i + 1" r] by (auto simp: Let_def split: if_splits)
  qed
  with assms show ?thesis by blast
qed

lemma xdl_sym_lookup_sound:
  assumes "xdl_sym_lookup m x name = Some (Some y)"
  shows "dynsym_named m x name y \<and> (\<exists>k. y = dynsym_at m x k)"
proof -
  have g: "dynsym_named m x name z \<and> (\<exists>k. z = dynsym_at m x k)"
    if "xdl_dynsym_find_symbol_use_gnu_hash m x name = Some (Some z)" for z
    using that gnu_walk_sound [of m x name]
    by (auto simp: xdl_dynsym_find_symbol_use_gnu_hash_def Let_def split: if_splits)
  have v: "dynsym_named m x name z \<and> (\<exists>k. z = dynsym_at m x k)"
    if "xdl_dynsym_find_symbol_use_sysv_hash m x name = Some (Some z)" for z
    using that sysv_walk_sound [of m x name]
    by (auto simp: xdl_dynsym_find_symbol_use_sysv_hash_def split: if_splits)
  show ?thesis
    using assms g v by (auto simp: xdl_sym_lookup_def split: Option.bind_splits if_splits)
qed

text \<open>What the address of a symbol is.\<close>

definition resolved :: "xdl_env \<Rightarrow> xst \<Rightarrow> xdl \<Rightarrow> esym \<Rightarrow> u64 \<Rightarrow> bool" where
  "resolved env s x y a \<longleftrightarrow>
     ELF_ST_TYPE (st_info y) \<noteq> STT_TLS \<and>
     (if ELF_ST_TYPE (st_info y) = STT_GNU_IFUNC then
        (\<exists>args. ifunc_args env (fst (xdl_util_get_api_level env s)) = Some args \<and>
           a = ifunc_call env (load_bias x + st_value y) args)
      else a = load_bias x + st_value y)"

lemma resolve_resolved:
  "xdl_resolve_symbol_address dec env x y want s = Some (a, n, x', s') \<Longrightarrow> a \<noteq> 0 \<Longrightarrow> resolved env s x y a"
  by (auto simp: xdl_resolve_symbol_address_def resolved_def Let_def case_prod_beta
      split: if_splits option.splits Option.bind_splits)

text \<open>
  C33: An address \<^verbatim>\<open>xdl_sym\<close> returns is the one of an exported symbol of that very name in the object's
  dynamic table, whichever hash found it and whatever the tables hold: its value above the load bias,
  or for an indirect function what its resolver answers; never a thread-local symbol.
\<close>

theorem xdl_sym_sound:
  assumes "xdl_sym dec env x name want s = Some (a, n, x', s')" "a \<noteq> 0"
  shows "\<exists>x1 k. xdl_ensure_dynsym_loaded env x = Some x1 \<and>
    dynsym_named (xmem env) x1 name (dynsym_at (xmem env) x1 k) \<and>
    XDL_DYNSYM_IS_EXPORT_SYM (st_shndx (dynsym_at (xmem env) x1 k)) \<and>
    resolved env s x1 (dynsym_at (xmem env) x1 k) a"
proof -
  obtain x1 y where x1: "xdl_ensure_dynsym_loaded env x = Some x1"
    and y: "xdl_sym_lookup (xmem env) x1 name = Some (Some y)" "XDL_DYNSYM_IS_EXPORT_SYM (st_shndx y)"
    and r: "xdl_resolve_symbol_address dec env x1 y want s = Some (a, n, x', s')"
    using assms by (auto simp: xdl_sym_def split: Option.bind_splits if_splits option.splits)
  from xdl_sym_lookup_sound [OF y(1)] resolve_resolved [OF r assms(2)] x1 y(2) show ?thesis by blast
qed

section \<open>The full symbol table\<close>

text \<open>The buffers hold the entries the count promises, and the strings end.\<close>

definition table_ok :: "xdl \<Rightarrow> u8 list \<Rightarrow> bool" where
  "table_ok x b \<longleftrightarrow> 24 * symtab_cnt x \<le> length b \<and> strtab x \<noteq> [] \<and> last (strtab x) = 0 \<and>
     unat (strtab_sz x) \<le> length (strtab x)"

definition symbols :: "xdl \<Rightarrow> u8 list \<Rightarrow> esym list" where
  "symbols x b = List.map_filter (symtab_sym b) [0..<symtab_cnt x]"

text \<open>Exported, with a name that is the wanted one, or that one with a suffix.\<close>

definition canonical :: "u8 list \<Rightarrow> u8 list \<Rightarrow> bool" where
  "canonical name str \<longleftrightarrow> str \<noteq> [] \<and> (str = name \<or> (\<exists>c r. str = name @ c # r \<and> (c = 0x2e \<or> c = 0x24)))"

definition wanted :: "xdl \<Rightarrow> u8 list \<Rightarrow> esym \<Rightarrow> bool" where
  "wanted x name y \<longleftrightarrow> XDL_SYMTAB_IS_EXPORT_SYM (st_shndx y) \<and> ucast (st_name y) < strtab_sz x \<and>
     canonical name (takeWhile (\<lambda>c. c \<noteq> 0) (drop (unat (st_name y)) (strtab x)))"

lemma dsym_is_match_canonical: "xdl_dsym_is_match str name \<longleftrightarrow> canonical name str"
proof (cases "length name < length str")
  case True
  then have "str = take (length name) str @ str ! length name # drop (Suc (length name)) str"
    by (simp add: Cons_nth_drop_Suc)
  then have "take (length name) str = name \<and> (str ! length name = 0x2e \<or> str ! length name = 0x24) \<longleftrightarrow>
      (\<exists>c r. str = name @ c # r \<and> (c = 0x2e \<or> c = 0x24))"
    by (metis append_eq_conv_conj nth_append_length)
  moreover have "str \<noteq> name" "str \<noteq> []" "length str \<noteq> length name" "\<not> length str < length name" using True by auto
  ultimately show ?thesis by (simp add: xdl_dsym_is_match_def canonical_def Let_def)
next
  case False
  then show ?thesis by (auto simp: xdl_dsym_is_match_def canonical_def Let_def)
qed

lemma symtab_sym_some: "24 * Suc i \<le> length b \<Longrightarrow> \<exists>y. symtab_sym b i = Some y"
  by (simp add: symtab_sym_def ld64_def ld32_def ld16_def bytes_at_def)

lemma unat_ucast_u32: "unat (ucast (v :: u32) :: u64) = unat v"
proof -
  have "unat v < 2 ^ 64" using unat_u32_bound [of v] by simp
  then show ?thesis by (simp add: unsigned_ucast_eq take_bit_nat_eq_self)
qed

lemma str_at_some:
  assumes "table_ok x b" "ucast (st_name y) < strtab_sz x"
  shows "str_at (strtab x) (unat (st_name y)) =
    Some (takeWhile (\<lambda>c. c \<noteq> 0) (drop (unat (st_name y)) (strtab x)))"
proof -
  have "unat (st_name y) < unat (strtab_sz x)"
    using assms(2) by (simp add: word_less_nat_alt unat_ucast_u32)
  then have "unat (st_name y) < length (strtab x)" using assms(1) by (simp add: table_ok_def)
  then have "last (drop (unat (st_name y)) (strtab x)) = last (strtab x)"
      "drop (unat (st_name y)) (strtab x) \<noteq> []" by simp_all
  then have "0 \<in> set (drop (unat (st_name y)) (strtab x))"
    using assms(1) last_in_set [of "drop (unat (st_name y)) (strtab x)"] by (simp add: table_ok_def)
  then show ?thesis by (simp add: str_at_def)
qed

lemma dsym_loop_find:
  "table_ok x b \<Longrightarrow> \<forall>i\<in>set is. 24 * Suc i \<le> length b \<Longrightarrow>
     dsym_loop x b name is = Some (find (wanted x name) (List.map_filter (symtab_sym b) is))"
proof (induction "is")
  case Nil
  then show ?case by (simp add: map_filter_simps)
next
  case (Cons i rest)
  then obtain y where y: "symtab_sym b i = Some y" using symtab_sym_some [of i b] by auto
  show ?case
  proof (cases "XDL_SYMTAB_IS_EXPORT_SYM (st_shndx y) \<and> ucast (st_name y) < strtab_sz x")
    case True
    then have "\<not> strtab_sz x \<le> ucast (st_name y)" by (simp add: not_le)
    with True Cons y str_at_some [of x b y] show ?thesis
      by (simp add: map_filter_simps wanted_def dsym_is_match_canonical)
  next
    case False
    then have "\<not> wanted x name y" by (auto simp: wanted_def)
    with False Cons y show ?thesis by (auto simp: map_filter_simps not_le)
  qed
qed

text \<open>
  C34: In a table whose entries and strings end inside their buffers, \<^verbatim>\<open>xdl_dsym\<close> never reads outside
  them, and it resolves the first exported symbol whose canonical name is the one asked for: the name
  itself, or the name followed by a dot or a dollar sign and a suffix.
\<close>

theorem xdl_dsym_first:
  assumes "symtab_loaded x" "symtab x = Some b" "table_ok x b"
  shows "xdl_dsym dec env x name want s =
    (case find (wanted x name) (symbols x b) of
       None \<Rightarrow> Some (0, 0, x, s)
     | Some y \<Rightarrow> xdl_resolve_symbol_address dec env x y want s)"
proof -
  have "\<forall>i\<in>set [0..<symtab_cnt x]. 24 * Suc i \<le> length b"
    using assms(3) by (auto simp: table_ok_def)
  from dsym_loop_find [OF assms(3) this] assms(1,2) show ?thesis
    by (simp add: xdl_dsym_def xdl_ensure_symtab_loaded_def symbols_def split: option.splits)
qed

section \<open>The address cache\<close>

text \<open>What loading the full table may change of a handle.\<close>

definition sym_step :: "xdl \<Rightarrow> xdl \<Rightarrow> bool" where
  "sym_step x x' \<longleftrightarrow> (\<exists>b st cnt str sz l. x' = x\<lparr>x_base := b, symtab := st, symtab_cnt := cnt,
     strtab := str, strtab_sz := sz, symtab_loaded := l\<rparr>)"

lemma sym_step_refl [simp]: "sym_step x x"
  by (cases x) (auto simp: sym_step_def)

lemma sym_step_trans: "sym_step x y \<Longrightarrow> sym_step y z \<Longrightarrow> sym_step x z"
  unfolding sym_step_def by (elim exE) (simp; metis)

lemma sym_step_take: "take_symtab rd sh n h x = Some (Some x') \<Longrightarrow> sym_step x x'"
  by (cases x) (auto simp: take_symtab_def sym_step_def split: if_splits option.splits Option.bind_splits)

lemma sym_step_debugdata_loop:
  "debugdata_loop env data sh n names sz is x = Some (ok, x') \<Longrightarrow> sym_step x x'"
  by (induction "is" arbitrary: x)
    (auto split: if_splits option.splits Option.bind_splits dest: sym_step_take)

lemma sym_step_debugdata:
  "xdl_symtab_load_from_debugdata dec env f sz h x s = Some (ok, x', s') \<Longrightarrow> sym_step x x'"
  by (auto simp: xdl_symtab_load_from_debugdata_def
      split: if_splits option.splits Option.bind_splits dest!: sym_step_debugdata_loop)

lemma sym_step_loop:
  "symtab_loop dec env f sz sh n names nsz is x s = Some (x', s') \<Longrightarrow> sym_step x x'"
proof (induction "is" arbitrary: x s)
  case (Cons i rest)
  then show ?case
    by (auto split: if_splits option.splits Option.bind_splits
        dest!: sym_step_take sym_step_debugdata intro: sym_step_trans)
qed simp

lemma sym_step_base: "sym_step x (x\<lparr>x_base := v\<rparr>)"
  by (cases x) (auto simp: sym_step_def)

lemma sym_step_load: "xdl_symtab_load dec env x s = Some (x', s') \<Longrightarrow> sym_step x x'"
  using sym_step_base
  by (auto simp: xdl_symtab_load_def Let_def split: if_splits option.splits Option.bind_splits
      dest!: sym_step_loop intro: sym_step_trans)

lemma sym_step_fields:
  "sym_step x x' \<Longrightarrow> pathname x' = pathname x \<and> load_bias x' = load_bias x \<and> x_phdr x' = x_phdr x \<and>
     x_phnum x' = x_phnum x \<and> dynsym_loaded x' = dynsym_loaded x \<and> dynsym x' = dynsym x \<and>
     gnu_buckets x' = gnu_buckets x \<and> gnu_buckets_cnt x' = gnu_buckets_cnt x \<and>
     gnu_chains x' = gnu_chains x \<and> gnu_symoffset x' = gnu_symoffset x \<and>
     sysv_chains_cnt x' = sysv_chains_cnt x"
  by (auto simp: sym_step_def)

lemma sym_step_dynsym_at: "sym_step x x' \<Longrightarrow> dynsym_at m x' n = dynsym_at m x n"
  using sym_step_fields by (auto simp: dynsym_at_def)

lemma sym_step_addr_walk:
  assumes "gnu_addr_walk m x off n = Some r" "sym_step x x'"
  shows "gnu_addr_walk m x' off n = Some r"
proof -
  have "\<forall>x'. sym_step x x' \<longrightarrow> gnu_addr_walk m x' off n = Some r"
  proof (rule gnu_addr_walk.raw_induct
      [of "\<lambda>m x off n r. \<forall>x'. sym_step x x' \<longrightarrow> gnu_addr_walk m x' off n = Some r"
        "(((m, x), off), n)" r, unfolded prod.case, OF _ assms(1)], intro allI impI)
    fix f m x off n r x'
    assume IH: "\<And>m x off n r. f m x off n = Some r \<Longrightarrow>
        \<forall>x'. sym_step x x' \<longrightarrow> gnu_addr_walk m x' off n = Some r"
      and eq: "(if xdl_sym_is_match (dynsym_at m x n) off False then Some (Some (dynsym_at m x n))
         else if rd32 m (gnu_chains x - 4 * ucast (gnu_symoffset x) + 4 * ucast n) AND 1 = 0
         then f m x off (n + 1) else Some None) = Some r"
      and st: "sym_step x x'"
    show "gnu_addr_walk m x' off n = Some r"
      using eq st IH [of m x off "n + 1" r] sym_step_dynsym_at [OF st, of m n] sym_step_fields [OF st]
      by (subst gnu_addr_walk.simps) (auto split: if_splits)
  qed
  with assms(2) show ?thesis by blast
qed

lemma sym_step_addr_buckets:
  "gnu_addr_buckets m x off is = Some r \<Longrightarrow> sym_step x x' \<Longrightarrow> gnu_addr_buckets m x' off is = Some r"
proof (induction "is")
  case (Cons i rest)
  then show ?case
    using sym_step_fields [of x x'] sym_step_addr_walk [of m x off _ _ x']
    by (auto simp: Let_def split: if_splits Option.bind_splits)
qed simp

definition same_object :: "xdl \<Rightarrow> xdl \<Rightarrow> bool" where
  "same_object x x' \<longleftrightarrow> object_info x' = object_info x"

lemma same_object_iff:
  "same_object x x' \<longleftrightarrow> pathname x' = pathname x \<and> load_bias x' = load_bias x \<and> x_phdr x' = x_phdr x \<and>
     x_phnum x' = x_phnum x"
  by (auto simp: same_object_def object_info_def intro: unsigned_word_eqI)

lemma same_object_sym_step: "sym_step x x' \<Longrightarrow> same_object x x'"
  by (simp add: same_object_iff sym_step_fields)

lemma same_object_scan:
  assumes "dynsym_scan m e x = Some x'"
  shows "same_object x x'"
proof (rule dynsym_scan.raw_induct
    [of "\<lambda>m e x x'. same_object x x'" "((m, e), x)" x', unfolded prod.case, OF _ assms])
  fix f m e x x'
  assume IH: "\<And>m e x x'. f m e x = Some x' \<Longrightarrow> same_object x x'"
    and eq: "(if e = 0 \<or> rd64 m e = 0 then Some x
       else f m (e + 16) (dynsym_entry m (rd64 m e) (rd64 m (e + 8)) x)) = Some x'"
  have "same_object x (dynsym_entry m t v x)" for t v
    by (simp add: same_object_iff dynsym_entry_def Let_def)
  with eq IH [of m "e + 16" "dynsym_entry m (rd64 m e) (rd64 m (e + 8)) x" x'] show "same_object x x'"
    by (auto simp: same_object_def split: if_splits)
qed

lemma ensure_dynsym:
  assumes "xdl_ensure_dynsym_loaded env x = Some x'"
  shows "dynsym_loaded x' \<and> same_object x x' \<and> xdl_ensure_dynsym_loaded env x' = Some x'"
proof -
  have "same_object y (dynsym_check y)" for y by (simp add: same_object_iff dynsym_check_def)
  with assms same_object_scan [of "xmem env" _ x] show ?thesis
    by (auto simp: xdl_ensure_dynsym_loaded_def xdl_dynsym_load_def Let_def same_object_iff
        split: if_splits option.splits)
qed

lemma sym_by_addr_again:
  assumes "xdl_sym_by_addr env x a = Some (r, x1)"
  shows "same_object x x1 \<and> xdl_sym_by_addr env x1 a = Some (r, x1)"
proof -
  have "xdl_ensure_dynsym_loaded env x = Some x1"
    using assms by (auto simp: xdl_sym_by_addr_def Let_def split: Option.bind_splits if_splits)
  from this ensure_dynsym [OF this] assms show ?thesis by (simp add: xdl_sym_by_addr_def)
qed

lemma sym_by_addr_step:
  assumes "xdl_sym_by_addr env x a = Some (r, x)" "sym_step x x'"
  shows "xdl_sym_by_addr env x' a = Some (r, x')"
proof -
  have e: "xdl_ensure_dynsym_loaded env x = Some x"
    using assms(1) by (auto simp: xdl_sym_by_addr_def Let_def split: Option.bind_splits if_splits)
  then have "dynsym_loaded x'"
    using ensure_dynsym [OF e] sym_step_fields [OF assms(2)] by simp
  then have e': "xdl_ensure_dynsym_loaded env x' = Some x'" by (simp add: xdl_ensure_dynsym_loaded_def)
  show ?thesis
    using assms(1) e e' sym_step_fields [OF assms(2)] sym_step_dynsym_at [OF assms(2)]
      sym_step_addr_buckets [OF _ assms(2)]
    by (auto simp: xdl_sym_by_addr_def Let_def split: Option.bind_splits if_splits)
qed

lemma dsym_by_addr_again:
  assumes "xdl_dsym_by_addr dec env x a s = Some (r, x2, s2)"
  shows "sym_step x x2 \<and> xdl_dsym_by_addr dec env x2 a s' = Some (r, x2, s')"
proof -
  have e: "xdl_ensure_symtab_loaded dec env x s = Some (x2, s2)"
    using assms by (auto simp: xdl_dsym_by_addr_def split: Option.bind_splits option.splits)
  have t: "sym_step y (y\<lparr>symtab_loaded := True\<rparr>)" for y by (cases y) (auto simp: sym_step_def)
  have "symtab_loaded x2 \<and> sym_step x x2"
    using e by (auto simp: xdl_ensure_symtab_loaded_def split: if_splits Option.bind_splits
        dest!: sym_step_load intro: sym_step_trans [OF _ t])
  with e assms show ?thesis
    by (auto simp: xdl_dsym_by_addr_def xdl_ensure_symtab_loaded_def split: option.splits Option.bind_splits)
qed

lemma symbol_info_again:
  assumes "symbol_info env x a s = Some (i, x', s')"
  shows "same_object x x' \<and> dli_fbase i = load_bias x \<and> symbol_info env x' a s' = Some (i, x', s')"
proof -
  obtain r1 x1 where r1: "xdl_sym_by_addr env x a = Some (r1, x1)"
    using assms by (auto simp: symbol_info_def split: Option.bind_splits)
  note one = sym_by_addr_again [OF r1]
  show ?thesis
  proof (cases r1)
    case (Some y)
    with assms r1 one show ?thesis
      by (auto simp: symbol_info_def same_object_def object_info_def)
  next
    case None
    with assms r1 obtain r2 where r2: "xdl_dsym_by_addr (decompress env) env x1 a s = Some (r2, x', s')"
      by (auto simp: symbol_info_def split: Option.bind_splits option.splits)
    note two = dsym_by_addr_again [OF r2, of s']
    have "xdl_sym_by_addr env x' a = Some (None, x')"
      using sym_by_addr_step [of env x1 a r1 x'] one two None by simp
    moreover have "same_object x x'"
      using one two same_object_sym_step by (auto simp: same_object_def)
    ultimately show ?thesis
      using assms r1 r2 two None
      by (auto simp: symbol_info_def same_object_iff object_info_def split: option.splits)
  qed
qed

lemma iterate_keeps:
  assumes "\<And>i a. P a \<Longrightarrow> P (snd (f i a))" "P a"
  shows "P (snd (dl_iterate_phdr f is a))"
  using assms(2)
proof (induction "is" arbitrary: a)
  case (Cons i rest)
  then show ?case using assms(1) [of a i] by (auto simp: case_prod_beta Let_def)
qed simp

lemma by_linker_keeps:
  assumes step: "\<And>i a. P a \<Longrightarrow> P (snd (f i a))" and "P a"
    and run: "xdl_iterate_by_linker lock unlock env f full a s = Some (r, a', s')"
  shows "P a'"
proof -
  define b where "b = xdl_iterate_get_linker_base env"
  define d where "d = (if b \<noteq> 0 then xdl_iterate_do_callback env f b LINKER_PATHNAME a else (0, a, 0))"
  have d: "P (fst (snd d))"
    using step [OF \<open>P a\<close>] \<open>P a\<close>
    by (auto simp: d_def xdl_iterate_do_callback_def Let_def case_prod_beta)
  have "P (snd (dl_iterate_phdr (xdl_iterate_by_linker_cb env f bias full) objs c))" if "P c" for bias objs c
    by (rule iterate_keeps [where P = P, OF _ that])
      (auto simp: by_linker_cb_repaired intro: step split: option.split)
  with d run \<open>P a\<close> show ?thesis
    unfolding xdl_iterate_by_linker_def b_def [symmetric] Let_def case_prod_beta d_def [symmetric]
    by (auto split: if_splits Option.bind_splits)
qed

definition holds_addr :: "xdl_env \<Rightarrow> u64 \<Rightarrow> xdl \<Rightarrow> bool" where
  "holds_addr env a x \<longleftrightarrow> xdl_elf_is_match (xmem env) (load_bias x) (x_phdr x) (x_phnum x) a"

lemma open_by_addr_holds:
  assumes "xdl_open_by_addr env a s = Some (Some x, s')"
  shows "holds_addr env a x"
proof -
  let ?P = "\<lambda>r. \<forall>x. r = Some x \<longrightarrow> holds_addr env a x"
  have "?P (snd (xdl_open_by_addr_iterate_cb env a i r))" if "?P r" for i r
    using that
    by (auto simp: xdl_open_by_addr_iterate_cb_def make_xdl_def new_xdl_def holds_addr_def
        split: option.splits if_splits)
  then have step: "?P r \<Longrightarrow> ?P (snd (xdl_open_by_addr_iterate_cb env a i r))" for i r .
  obtain r where "xdl_iterate_by_linker (xdl_linker_lock (linker_init env)) xdl_linker_unlock env
      (xdl_open_by_addr_iterate_cb env a) False None s = Some (r, Some x, s')"
    using assms by (auto simp: xdl_open_by_addr_def xdl_iterate_phdr_def xdl_iterate_phdr_impl_def
        split: if_splits Option.bind_splits)
  from by_linker_keeps [where P = ?P, OF step _ this] show ?thesis by simp
qed

lemma cache_find_Some:
  "cache_find env a cache = Some (pre, x, post) \<Longrightarrow>
     cache = pre @ x # post \<and> holds_addr env a x \<and> (\<forall>y\<in>set pre. \<not> holds_addr env a y)"
  by (induction cache arbitrary: pre) (auto simp: holds_addr_def split: if_splits)

lemma cache_find_hit:
  "holds_addr env a x \<Longrightarrow> \<forall>y\<in>set pre. \<not> holds_addr env a y \<Longrightarrow>
     cache_find env a (pre @ x # post) = Some (pre, x, post)"
  by (induction pre) (auto simp: holds_addr_def)

text \<open>
  C32: The address cache is sound and settles at once: an answer names the base of an object of the
  cache that holds the address, and asking for the same address again gives the same answer from the
  cache, without opening or loading anything more.
\<close>

theorem xdl_addr_settles:
  assumes "xdl_addr4 env a cache non_sym s = Some (Some i, cache', s')"
  shows "(\<exists>x\<in>set cache'. dli_fbase i = load_bias x \<and> holds_addr env a x) \<and>
    xdl_addr4 env a cache' non_sym s' = Some (Some i, cache', s')"
proof -
  have a: "a \<noteq> 0" using assms by (auto simp: xdl_addr4_def)
  obtain pre x post s1 where f: "holds_addr env a x" "\<forall>y\<in>set pre. \<not> holds_addr env a y"
    and run: "(if non_sym then Some (Some (object_info x), pre @ x # post, s1)
      else do { (i, x', s2) \<leftarrow> symbol_info env x a s1; Some (Some i, pre @ x' # post, s2) }) =
      Some (Some i, cache', s')"
  proof (cases "cache_find env a cache")
    case (Some h)
    obtain pre x post where h: "h = (pre, x, post)" by (cases h)
    from that [of x pre post s] cache_find_Some [of env a cache pre x post] Some assms a show ?thesis
      by (simp add: xdl_addr4_def h)
  next
    case None
    with assms a obtain x s1 where o: "xdl_open_by_addr env a s = Some (Some x, s1)"
      by (auto simp: xdl_addr4_def split: Option.bind_splits option.splits)
    from that [of x "[]" cache s1] open_by_addr_holds [OF o] None o assms a show ?thesis
      by (simp add: xdl_addr4_def)
  qed
  show ?thesis
  proof (cases non_sym)
    case True
    with run f cache_find_hit [OF f] a show ?thesis
      by (auto simp: xdl_addr4_def object_info_def)
  next
    case False
    then obtain x' where x': "symbol_info env x a s1 = Some (i, x', s')" "cache' = pre @ x' # post"
      using run by (auto split: Option.bind_splits)
    note again = symbol_info_again [OF x'(1)]
    have "holds_addr env a x'" using again f(1) by (simp add: holds_addr_def same_object_iff)
    with again f(2) x'(2) False a cache_find_hit [of env a x' pre post] show ?thesis
      by (auto simp: xdl_addr4_def same_object_iff)
  qed
qed

section \<open>A small object\<close>

text \<open>
  An object with bias 4096 and one segment of 100 bytes, whose only symbol \<open>a\<close> is the function of 8
  bytes at offset 32, found through a SYSV hash table of one bucket.
\<close>

definition demo_xmem :: bmem where
  "demo_xmem a = (case map_of [(1024, 1), (1028, 0x12), (1030, 5), (1032, 32), (1040, 8), (2001, 97),
     (3000, 1), (5000, 1), (5040, 100)] a of Some b \<Rightarrow> b | None \<Rightarrow> 0)"

definition demo_env :: xdl_env where
  "demo_env = \<lparr>xmem = demo_xmem, xabi = Aarch64, getauxval = None, has_dl_iterate = True, device_api = 34,
     build_prop = None, sys_pagesize = 4096, self_maps = None, xfiles = (\<lambda>p. None), calloc_ok = True,
     strdup_ok = (\<lambda>p. True), malloc_ok = (\<lambda>n. True), ifunc_call = (\<lambda>a args. 0),
     libdl_open = (\<lambda>f objs. (0, objs)), linker_open = (\<lambda>d f c objs. (0, objs)), lzma_state = [],
     lzma_coder = (\<lambda>q st room src. \<lparr>co_result = 1, co_out = [], co_used = 0, co_status = NOT_SPECIFIED,
       co_state = st\<rparr>), lzma_finished = (\<lambda>st. False)\<rparr>"

definition demo_objs :: "phinfo list" where
  "demo_objs = [\<lparr>dlpi_addr = 4096, dlpi_name = Some ''/a.so'', dlpi_phdr = 5000, dlpi_phnum = 1\<rparr>,
     \<lparr>dlpi_addr = 0, dlpi_name = Some ''/b.so'', dlpi_phdr = 1, dlpi_phnum = 1\<rparr>,
     \<lparr>dlpi_addr = 8192, dlpi_name = None, dlpi_phdr = 1, dlpi_phnum = 1\<rparr>]"

definition demo_xst :: xst where
  "demo_xst = \<lparr>api_level = -1, pagesize = 0, linker_inited = False, linker_mutex = 0, linker_dlopen = 0,
     callers_inited = False, linker_callers = initial_callers, lzma_inited = False, lzma_construct = 0,
     lzma_isfinished = 0, lzma_free = 0, lzma_code = 0, loaded = demo_objs, xlog = []\<rparr>"

definition demo_handle :: xdl where
  "demo_handle = (new_xdl ''/a.so'' 4096 5000 1)\<lparr>dynsym_loaded := True, dynsym := 1000, dynstr := 2000,
     dynstr_sz := 3, sysv_buckets := 3000, sysv_buckets_cnt := 1, sysv_chains := 3004, sysv_chains_cnt := 2,
     symtab_loaded := True,
     symtab := Some ([1, 0, 0, 0, 0x12, 0, 5, 0] @ 32 # replicate 7 0 @ 8 # replicate 7 0), symtab_cnt := 1,
     strtab := [0, 97, 0], strtab_sz := 3\<rparr>"

lemmas xld = demo_xmem_def rd16_def rd32_def rd64_def of_le32_def push_bit_eq_mult unsigned_ucast_eq

lemma demo_dynsym:
  "sym_at demo_xmem 1024 = \<lparr>st_name = 1, st_info = 0x12, st_shndx = 5, st_value = 32, st_ssize = 8\<rparr>"
  "st_shndx (sym_at demo_xmem 1000) = 0" "rd32 demo_xmem 3000 = 1" "demo_xmem 2001 = 97" "demo_xmem 2002 = 0"
  by (simp_all add: sym_at_def xld)

lemma demo_phdr: "rd32 demo_xmem 5000 = 1" "rd64 demo_xmem 5016 = 0" "rd64 demo_xmem 5040 = 100"
  by (simp_all add: xld)

theorem iteration_is_a_walk_witness:
  "\<exists>s1. xdl_iterate_phdr demo_env (Some (\<lambda>i n. (0, n + 1))) False (0 :: nat) demo_xst = Some (0, 1, s1)"
proof -
  have l: "xdl_util_get_api_level demo_env demo_xst = (34, demo_xst\<lparr>api_level := 34\<rparr>)"
    by (simp add: xdl_util_get_api_level_def demo_env_def demo_xst_def api_levels)
  have v: "visited demo_env False (loaded demo_xst) = [hd demo_objs]"
    by (simp add: visited_def linker_info_def xdl_iterate_get_linker_base_def demo_env_def demo_xst_def
        demo_objs_def map_filter_simps repaired_def fix_phdr_def fix_name_def Let_def)
  have "has_dl_iterate demo_env" by (simp add: demo_env_def)
  from iteration_is_a_walk [OF this l, of "\<lambda>i n. (0, n + 1)" False "0 :: nat"] show ?thesis
    by (simp add: v api_levels)
qed

lemma demo_sysv_walk:
  "sysv_walk demo_xmem demo_handle [97] 1 = Some (Some (sym_at demo_xmem 1024))"
  by (subst sysv_walk.simps)
    (simp add: dynsym_named_def dynsym_at_def demo_handle_def new_xdl_def demo_dynsym)

theorem xdl_sym_sound_witness:
  "xdl_sym (decompress demo_env) demo_env demo_handle [97] True demo_xst = Some (4128, 8, demo_handle, demo_xst) \<and>
   (\<exists>k. dynsym_named demo_xmem demo_handle [97] (dynsym_at demo_xmem demo_handle k))"
proof -
  have e: "xdl_ensure_dynsym_loaded demo_env demo_handle = Some demo_handle"
    by (simp add: xdl_ensure_dynsym_loaded_def demo_handle_def)
  have h: "gnu_buckets_cnt demo_handle = 0" "sysv_buckets_cnt demo_handle = 1" "dynsym demo_handle = 1000"
      "sysv_buckets demo_handle = 3000" "load_bias demo_handle = 4096"
    by (simp_all add: demo_handle_def new_xdl_def)
  have m: "xmem demo_env = demo_xmem" by (simp add: demo_env_def)
  have run: "xdl_sym (decompress demo_env) demo_env demo_handle [97] True demo_xst = Some (4128, 8, demo_handle, demo_xst)"
    by (simp add: xdl_sym_def e h m xdl_sym_lookup_def xdl_dynsym_find_symbol_use_sysv_hash_def
        demo_sysv_walk demo_dynsym XDL_DYNSYM_IS_EXPORT_SYM_def xdl_resolve_symbol_address_def
        ELF_ST_TYPE_def STT_TLS_def STT_GNU_IFUNC_def)
  from xdl_sym_sound [OF run] e m run show ?thesis by auto
qed

lemma demo_table: "table_ok demo_handle (the (symtab demo_handle))"
  by (simp add: table_ok_def demo_handle_def new_xdl_def)

lemma demo_symbols:
  "symbols demo_handle (the (symtab demo_handle)) =
     [\<lparr>st_name = 1, st_info = 0x12, st_shndx = 5, st_value = 32, st_ssize = 8\<rparr>]"
  by (simp add: symbols_def demo_handle_def new_xdl_def map_filter_simps upt_rec symtab_sym_def ld64_def
      ld32_def ld16_def bytes_at_def of_le32_def push_bit_eq_mult)

theorem xdl_dsym_first_witness:
  "xdl_dsym (decompress demo_env) demo_env demo_handle [97] True demo_xst =
     Some (4128, 8, demo_handle, demo_xst)"
proof -
  have s: "symtab_loaded demo_handle" "symtab demo_handle = Some (the (symtab demo_handle))"
    by (simp_all add: demo_handle_def)
  have "wanted demo_handle [97] \<lparr>st_name = 1, st_info = 0x12, st_shndx = 5, st_value = 32, st_ssize = 8\<rparr>"
    by (simp add: wanted_def XDL_SYMTAB_IS_EXPORT_SYM_def canonical_def demo_handle_def)
  with xdl_dsym_first [OF s demo_table] show ?thesis
    by (simp add: demo_symbols xdl_resolve_symbol_address_def ELF_ST_TYPE_def STT_TLS_def
        STT_GNU_IFUNC_def) (simp add: demo_handle_def new_xdl_def)
qed

theorem xdl_addr_settles_witness:
  "\<exists>i. xdl_addr4 demo_env 4130 [demo_handle] False demo_xst = Some (Some i, [demo_handle], demo_xst) \<and>
     dli_fbase i = 4096 \<and> dli_sname i = At_dynstr 2001"
proof -
  have h: "holds_addr demo_env 4130 demo_handle"
    by (simp add: holds_addr_def xdl_elf_is_match_def demo_env_def demo_handle_def new_xdl_def phdr_list_def
        p_type_def p_vaddr_def p_memsz_def PT_LOAD_def demo_phdr)
  have f: "cache_find demo_env 4130 [demo_handle] = Some ([], demo_handle, [])"
    using cache_find_hit [OF h, of "[]" "[]"] by simp
  have y: "xdl_sym_by_addr demo_env demo_handle 4130 = Some (Some (sym_at demo_xmem 1024), demo_handle)"
    by (simp add: xdl_sym_by_addr_def xdl_ensure_dynsym_loaded_def demo_handle_def new_xdl_def demo_env_def
        upt_rec dynsym_at_def xdl_sym_is_match_def XDL_DYNSYM_IS_EXPORT_SYM_def demo_dynsym ELF_ST_TYPE_def
        STT_TLS_def)
  define i where "i = (object_info demo_handle)\<lparr>dli_sname := At_dynstr 2001, dli_saddr := 4128, dli_ssize := 8\<rparr>"
  have d: "dynstr_sz demo_handle = 3" "dynstr demo_handle = 2000" "load_bias demo_handle = 4096"
    by (simp_all add: demo_handle_def new_xdl_def)
  have run: "xdl_addr4 demo_env 4130 [demo_handle] False demo_xst =
      Some (Some i, [demo_handle], demo_xst)"
    by (simp add: xdl_addr4_def f symbol_info_def y demo_dynsym d i_def del: cache_find.simps)
  from xdl_addr_settles [OF run] have "dli_fbase i = load_bias demo_handle" by auto
  with run show ?thesis by (simp add: d i_def)
qed

end
