(* ===== verification/XdlLookup.thy ===== *)
theory XdlLookup
  imports XdlProps
begin

unbundle bit_operations_syntax

text \<open>
  The search for a name in the hash tables of an object (\<^verbatim>\<open>xdl_sym\<close>) against its reading: the first
  symbol of that name among the candidates of the tables, in their order. For tables whose chains end
  this also shows that the search returns.
\<close>

section \<open>Chains that end\<close>

definition gnu_word :: "bmem \<Rightarrow> xdl \<Rightarrow> u32 \<Rightarrow> u32" where
  "gnu_word m x i = rd32 m (gnu_chains x + 4 * ucast (i - gnu_symoffset x))"

definition gnu_hit :: "bmem \<Rightarrow> xdl \<Rightarrow> u8 list \<Rightarrow> u32 \<Rightarrow> bool" where
  "gnu_hit m x name i \<longleftrightarrow> xdl_gnu_hash name OR 1 = gnu_word m x i OR 1"

text \<open>The indices of a GNU chain from \<open>b\<close> on: its end is the first entry with the lowest bit set.\<close>

definition gnu_run :: "bmem \<Rightarrow> xdl \<Rightarrow> u32 \<Rightarrow> nat \<Rightarrow> bool" where
  "gnu_run m x b k \<longleftrightarrow> (\<forall>j<k. gnu_word m x (b + of_nat j) AND 1 = 0) \<and> gnu_word m x (b + of_nat k) AND 1 \<noteq> 0"

text \<open>A SYSV chain from \<open>i\<close> on, up to the index 0.\<close>

fun sysv_path :: "bmem \<Rightarrow> xdl \<Rightarrow> u32 \<Rightarrow> u32 list \<Rightarrow> bool" where
  "sysv_path m x i [] \<longleftrightarrow> i = 0"
| "sysv_path m x i (j # js) \<longleftrightarrow> i = j \<and> i \<noteq> 0 \<and> sysv_path m x (rd32 m (sysv_chains x + 4 * ucast i)) js"

abbreviation named :: "bmem \<Rightarrow> xdl \<Rightarrow> u8 list \<Rightarrow> u32 \<Rightarrow> bool" where
  "named m x name i \<equiv> dynsym_named m x name (dynsym_at m x i)"

lemma gnu_walk_step:
  "gnu_walk m x name (xdl_gnu_hash name) i =
     (if gnu_hit m x name i \<and> named m x name i then Some (Some (dynsym_at m x i))
      else if gnu_word m x i AND 1 \<noteq> 0 then Some None
      else gnu_walk m x name (xdl_gnu_hash name) (i + 1))"
  by (subst gnu_walk.simps) (simp only: gnu_hit_def gnu_word_def Let_def)

lemma gnu_walk_find:
  "gnu_run m x b k \<Longrightarrow> gnu_walk m x name (xdl_gnu_hash name) b =
     Some (map_option (dynsym_at m x)
       (find (named m x name) (filter (gnu_hit m x name) (map (\<lambda>j. b + of_nat j) [0..<Suc k]))))"
proof (induction k arbitrary: b)
  case 0
  then show ?case
    by (subst gnu_walk_step) (simp add: gnu_run_def)
next
  case (Suc k)
  have s: "map (\<lambda>j. b + of_nat j) [0..<Suc (Suc k)] = b # map (\<lambda>j. b + 1 + of_nat j) [0..<Suc k]"
    by (subst upt_conv_Cons) (simp_all add: map_Suc_upt [symmetric] comp_def add.assoc del: upt_Suc)
  have w: "gnu_word m x b AND 1 = 0" using Suc.prems by (auto simp: gnu_run_def)
  have "gnu_run m x (b + 1) k"
    using Suc.prems by (auto simp: gnu_run_def add.assoc dest: spec [of _ "Suc _"])
  from Suc.IH [OF this] show ?case
    by (subst gnu_walk_step) (simp add: s w del: upt_Suc)
qed

lemma sysv_walk_find:
  "sysv_path m x i js \<Longrightarrow> sysv_walk m x name i = Some (map_option (dynsym_at m x) (find (named m x name) js))"
proof (induction js arbitrary: i)
  case Nil
  then show ?case by (subst sysv_walk.simps) simp
next
  case (Cons j js)
  then show ?case by (subst sysv_walk.simps) auto
qed

section \<open>The candidates of an object\<close>

definition bloom_passes :: "bmem \<Rightarrow> xdl \<Rightarrow> u8 list \<Rightarrow> bool" where
  "bloom_passes m x name \<longleftrightarrow>
     (let mask = gnu_mask x (xdl_gnu_hash name)
      in rd64 m (gnu_bloom x + 8 * ucast ((xdl_gnu_hash name div 64) mod gnu_bloom_cnt x)) AND mask = mask)"

definition gnu_start :: "bmem \<Rightarrow> xdl \<Rightarrow> u8 list \<Rightarrow> u32" where
  "gnu_start m x name = rd32 m (gnu_buckets x + 4 * ucast (xdl_gnu_hash name mod gnu_buckets_cnt x))"

definition sysv_start :: "bmem \<Rightarrow> xdl \<Rightarrow> u8 list \<Rightarrow> u32" where
  "sysv_start m x name = rd32 m (sysv_buckets x + 4 * ucast (xdl_sysv_hash name mod sysv_buckets_cnt x))"

text \<open>
  The tables are fit to be searched for a name: what is divided by is not 0, and the chain of the
  name's bucket ends, after \<open>k\<close> further entries in the GNU table and after \<open>js\<close> in the SYSV table.
\<close>

definition searchable :: "bmem \<Rightarrow> xdl \<Rightarrow> u8 list \<Rightarrow> nat \<Rightarrow> u32 list \<Rightarrow> bool" where
  "searchable m x name k js \<longleftrightarrow>
     (0 < gnu_buckets_cnt x \<longrightarrow> 0 < gnu_bloom_cnt x \<and> gnu_bloom_shift x < 32 \<and>
        (gnu_symoffset x \<le> gnu_start m x name \<longrightarrow> gnu_run m x (gnu_start m x name) k)) \<and>
     (if 0 < sysv_buckets_cnt x then sysv_path m x (sysv_start m x name) js else js = [])"

text \<open>The GNU candidates are those with the name's hash, up to the bit that marks the end.\<close>

definition named_candidates :: "bmem \<Rightarrow> xdl \<Rightarrow> u8 list \<Rightarrow> nat \<Rightarrow> u32 list \<Rightarrow> u32 list" where
  "named_candidates m x name k js =
     (if 0 < gnu_buckets_cnt x \<and> bloom_passes m x name \<and> gnu_symoffset x \<le> gnu_start m x name
      then filter (gnu_hit m x name) (map (\<lambda>j. gnu_start m x name + of_nat j) [0..<Suc k]) else []) @ js"

lemma gnu_find:
  assumes "searchable m x name k js" "0 < gnu_buckets_cnt x"
  shows "xdl_dynsym_find_symbol_use_gnu_hash m x name =
    Some (map_option (dynsym_at m x) (find (named m x name) (named_candidates m x name k [])))"
  using assms gnu_walk_find [of m x "gnu_start m x name" k name]
  by (auto simp: xdl_dynsym_find_symbol_use_gnu_hash_def searchable_def named_candidates_def bloom_passes_def
      gnu_start_def Let_def not_less not_le simp del: upt_Suc)

lemma sysv_find:
  assumes "searchable m x name k js" "0 < sysv_buckets_cnt x"
  shows "xdl_dynsym_find_symbol_use_sysv_hash m x name =
    Some (map_option (dynsym_at m x) (find (named m x name) js))"
  using assms sysv_walk_find [of m x "sysv_start m x name" js name]
  by (simp add: xdl_dynsym_find_symbol_use_sysv_hash_def searchable_def sysv_start_def)

lemma lookup_find:
  assumes "searchable m x name k js"
  shows "xdl_sym_lookup m x name = Some (map_option (dynsym_at m x) (find (named m x name) (named_candidates m x name k js)))"
proof -
  have c: "named_candidates m x name k js = named_candidates m x name k [] @ js" by (simp add: named_candidates_def)
  have g: "named_candidates m x name k [] = []" if "\<not> 0 < gnu_buckets_cnt x" using that by (simp add: named_candidates_def)
  have v: "js = []" if "\<not> 0 < sysv_buckets_cnt x" using that assms by (simp add: searchable_def)
  show ?thesis
    using gnu_find [OF assms] sysv_find [OF assms] g v
    unfolding c find_append
    by (cases "0 < gnu_buckets_cnt x"; cases "0 < sysv_buckets_cnt x")
      (auto simp: xdl_sym_lookup_def split: option.split)
qed

text \<open>
  C39: \<^verbatim>\<open>xdl_sym\<close> finds what the tables hold. In an object whose chains for the name end it always
  returns from the search, and the search finds the first symbol of that very name among the
  candidates of the GNU table and then of the SYSV table. The function then resolves that symbol, or
  answers null when there is none or the first one is not defined in the object.
\<close>

theorem xdl_sym_finds_first:
  assumes "xdl_ensure_dynsym_loaded env x = Some x1" "dynsym x1 \<noteq> 0" "searchable (xmem env) x1 name k js"
  shows "xdl_sym dec env x name want s =
    (case find (named (xmem env) x1 name) (named_candidates (xmem env) x1 name k js) of
       None \<Rightarrow> Some (0, 0, x1, s)
     | Some i \<Rightarrow>
         if st_shndx (dynsym_at (xmem env) x1 i) = 0 then Some (0, 0, x1, s)
         else xdl_resolve_symbol_address dec env x1 (dynsym_at (xmem env) x1 i) want s)"
  using assms(1,2) lookup_find [OF assms(3)]
  by (simp add: xdl_sym_def XDL_DYNSYM_IS_EXPORT_SYM_def split: option.split)

section \<open>A concrete search\<close>

text \<open>
  A GNU table of one bucket over two symbols, \<open>b\<close> and \<open>a\<close>, behind the undefined symbol.
\<close>

definition gnu_demo_xmem :: bmem where
  "gnu_demo_xmem a = (case map_of [(1024, 3), (1030, 5), (1032, 64), (1048, 1), (1052, 0x12), (1054, 5), (1056, 32), (1064, 8),
     (2001, 97), (2003, 98), (3000, 0xff), (3008, 1), (3012, 6), (3013, 0xb6), (3014, 2), (3016, 7), (3017, 0xb6), (3018, 2)] a of
     Some b \<Rightarrow> b | None \<Rightarrow> 0)"

definition gnu_demo_handle :: xdl where
  "gnu_demo_handle = (new_xdl ''/a.so'' 4096 5000 1)\<lparr>dynsym_loaded := True, dynsym := 1000, dynstr := 2000,
     dynstr_sz := 5, gnu_buckets := 3008, gnu_buckets_cnt := 1, gnu_chains := 3012, gnu_symoffset := 1,
     gnu_bloom := 3000, gnu_bloom_cnt := 1, gnu_bloom_shift := 31\<rparr>"

lemma gnu_demo_words:
  "rd32 gnu_demo_xmem 3008 = 1" "rd64 gnu_demo_xmem 3000 = 0xff" "gnu_demo_xmem 2001 = 97" "gnu_demo_xmem 2002 = 0"
  "rd32 gnu_demo_xmem 3012 = 0x2b606" "rd32 gnu_demo_xmem 3016 = 0x2b607"
  by (simp_all add: gnu_demo_xmem_def rd16_def rd32_def rd64_def of_le32_def push_bit_eq_mult unsigned_ucast_eq)

lemma gnu_demo_syms:
  "sym_at gnu_demo_xmem 1024 = \<lparr>st_name = 3, st_info = 0, st_shndx = 5, st_value = 64, st_ssize = 0\<rparr>"
  "sym_at gnu_demo_xmem 1048 = \<lparr>st_name = 1, st_info = 0x12, st_shndx = 5, st_value = 32, st_ssize = 8\<rparr>"
  by (simp_all add: sym_at_def gnu_demo_xmem_def rd16_def rd32_def rd64_def of_le32_def push_bit_eq_mult unsigned_ucast_eq)

lemma gnu_demo_hash [simp]: "xdl_gnu_hash [97] = 177670"
  by (simp add: xdl_gnu_hash_def push_bit_eq_mult unsigned_ucast_eq)

lemma gnu_demo_fields [simp]:
  "gnu_buckets_cnt gnu_demo_handle = 1" "sysv_buckets_cnt gnu_demo_handle = 0" "dynsym gnu_demo_handle = 1000"
  "gnu_buckets gnu_demo_handle = 3008" "gnu_chains gnu_demo_handle = 3012" "gnu_symoffset gnu_demo_handle = 1"
  "gnu_bloom gnu_demo_handle = 3000" "gnu_bloom_cnt gnu_demo_handle = 1" "gnu_bloom_shift gnu_demo_handle = 31"
  "dynstr gnu_demo_handle = 2000" "dynstr_sz gnu_demo_handle = 5" "load_bias gnu_demo_handle = 4096"
  "dynsym_loaded gnu_demo_handle"
  by (simp_all add: gnu_demo_handle_def new_xdl_def)

lemma gnu_demo_start: "gnu_start gnu_demo_xmem gnu_demo_handle [97] = 1"
  by (simp add: gnu_start_def gnu_demo_words)

lemma gnu_demo_searchable: "searchable gnu_demo_xmem gnu_demo_handle [97] 1 []"
  by (simp add: searchable_def gnu_demo_start gnu_run_def gnu_word_def gnu_demo_words)

lemma gnu_demo_candidates: "named_candidates gnu_demo_xmem gnu_demo_handle [97] 1 [] = [1, 2]"
  by (simp add: named_candidates_def gnu_demo_start bloom_passes_def gnu_demo_words gnu_mask_def drop_bit_eq_div
      push_bit_eq_mult gnu_hit_def gnu_word_def upt_rec)

theorem xdl_sym_finds_first_witness:
  "named_candidates gnu_demo_xmem gnu_demo_handle [97] 1 [] = [1, 2] \<and>
   xdl_sym (decompress demo_env) (demo_env\<lparr>xmem := gnu_demo_xmem\<rparr>) gnu_demo_handle [97] True demo_xst =
     Some (4128, 8, gnu_demo_handle, demo_xst)"
proof -
  let ?env = "demo_env\<lparr>xmem := gnu_demo_xmem\<rparr>"
  have l: "xdl_ensure_dynsym_loaded ?env gnu_demo_handle = Some gnu_demo_handle"
    by (simp add: xdl_ensure_dynsym_loaded_def)
  have n: "find (named gnu_demo_xmem gnu_demo_handle [97]) [1, 2] = Some 2"
    by (simp add: dynsym_named_def dynsym_at_def gnu_demo_syms gnu_demo_words) (simp add: gnu_demo_xmem_def)
  have s: "searchable (xmem ?env) gnu_demo_handle [97] 1 []" using gnu_demo_searchable by simp
  have d: "dynsym gnu_demo_handle \<noteq> 0" by simp
  have m: "xmem ?env = gnu_demo_xmem" by simp
  have y: "dynsym_at gnu_demo_xmem gnu_demo_handle 2 =
      \<lparr>st_name = 1, st_info = 0x12, st_shndx = 5, st_value = 32, st_ssize = 8\<rparr>"
    by (simp add: dynsym_at_def gnu_demo_syms)
  note q = xdl_sym_finds_first [OF l d s, of "decompress demo_env" True demo_xst, unfolded m gnu_demo_candidates n option.case y]
  from q show ?thesis
    by (simp add: gnu_demo_candidates [simplified] xdl_resolve_symbol_address_def ELF_ST_TYPE_def STT_TLS_def STT_GNU_IFUNC_def)
qed

end
