(* ===== verification/XdlStream.thy ===== *)
theory XdlStream
  imports XdlProps
begin

text \<open>
  Decompression against the stream the decoder stands for: the loop around the decoder and the
  growing buffer deliver the whole stream, however the decoder splits it.
\<close>

section \<open>The decoder's contract\<close>

text \<open>
  \<open>rest st src\<close> is the stream still to come in state \<open>st\<close> with \<open>src\<close> unread, when they belong to a
  valid archive. A call with room for at least one byte succeeds, writes a prefix of the stream into
  its room, and asks to be called again only when it has made progress; otherwise the stream is
  complete and the decoder says so.
\<close>

definition decodes :: "xdl_env \<Rightarrow> bool \<Rightarrow> (u8 list \<Rightarrow> u8 list \<Rightarrow> u8 list option) \<Rightarrow> (u8 list \<Rightarrow> u8 list \<Rightarrow> nat) \<Rightarrow> bool" where
  "decodes env q rest left \<longleftrightarrow>
     (\<forall>st src room t. rest st src = Some t \<and> 0 < room \<longrightarrow>
       (let r = lzma_coder env q st room src; st' = co_state r; src' = drop (co_used r) src
        in co_result r = 0 \<and> length (co_out r) \<le> room \<and>
           (\<exists>t'. t = co_out r @ t' \<and> rest st' src' = Some t' \<and>
             (if co_status r = NOT_FINISHED then left st' src' < left st src
              else t' = [] \<and> lzma_finished env st'))))"

lemma decodes_call:
  assumes "decodes env q rest left" "rest st src = Some t" "0 < room" "r = lzma_coder env q st room src"
  obtains t' where "co_result r = 0" "length (co_out r) \<le> room" "t = co_out r @ t'"
    "rest (co_state r) (drop (co_used r) src) = Some t'"
    "co_status r = NOT_FINISHED \<Longrightarrow> left (co_state r) (drop (co_used r) src) < left st src"
    "co_status r \<noteq> NOT_FINISHED \<Longrightarrow> t' = [] \<and> lzma_finished env (co_state r)"
proof -
  from assms(1) [unfolded decodes_def, rule_format, OF conjI, OF assms(2,3)] assms(4)
  obtain t' where "co_result r = 0 \<and> length (co_out r) \<le> room" "t = co_out r @ t'"
    "rest (co_state r) (drop (co_used r) src) = Some t'"
    "if co_status r = NOT_FINISHED then left (co_state r) (drop (co_used r) src) < left st src
     else t' = [] \<and> lzma_finished env (co_state r)"
    by (auto simp: Let_def)
  then show thesis using that by (cases "co_status r = NOT_FINISHED") simp_all
qed

section \<open>The loop\<close>

text \<open>
  Before each call at least twice the source's size is free, and the buffer is never larger than its
  first size or what was written plus four times the source's size.
\<close>

lemma buffer_grows:
  fixes cap d n :: nat
  assumes "d \<le> cap" "cap \<le> max (7 * n) (d + 4 * n)" "cap' = (if cap - d < 2 * n then cap + 2 * n else cap)"
  shows "2 * n \<le> cap' - d" "d \<le> cap'" "cap' \<le> max (7 * n) (d + 4 * n)"
  using assms by (auto split: if_splits)

lemma lzma_loop_exact:
  assumes d: "decodes env q rest left" and n: "0 < n"
    and mem: "\<And>k. k \<le> max (7 * n) (length dst + length t + 4 * n) \<Longrightarrow> malloc_ok env k"
  shows "rest st src = Some t \<Longrightarrow> length dst \<le> cap \<Longrightarrow> cap \<le> max (7 * n) (length dst + 4 * n) \<Longrightarrow>
    lzma_loop env q n st src dst cap = Some (Some (dst @ t))"
  using mem
proof (induction "left st src" arbitrary: st src dst t cap rule: less_induct)
  case less
  define cap' where "cap' = (if cap - length dst < 2 * n then cap + 2 * n else cap)"
  define r where "r = lzma_coder env q st (cap' - length dst) src"
  note b = buffer_grows [OF less.prems(2,3) cap'_def]
  have "0 < cap' - length dst" using b(1) n by linarith
  from decodes_call [OF d less.prems(1) this r_def] obtain t' where
    c: "co_result r = 0" "length (co_out r) \<le> cap' - length dst" "t = co_out r @ t'"
      "rest (co_state r) (drop (co_used r) src) = Some t'"
      "co_status r = NOT_FINISHED \<Longrightarrow> left (co_state r) (drop (co_used r) src) < left st src"
      "co_status r \<noteq> NOT_FINISHED \<Longrightarrow> t' = [] \<and> lzma_finished env (co_state r)" by blast
  have ok: "malloc_ok env cap'" using b(3) by (intro less.prems(4)) linarith
  show ?case
  proof (cases "co_status r = NOT_FINISHED")
    case more: True
    have "lzma_loop env q n (co_state r) (drop (co_used r) src) (dst @ co_out r) cap' = Some (Some ((dst @ co_out r) @ t'))"
    proof (rule less.hyps [OF c(5) [OF more] c(4)])
      show "length (dst @ co_out r) \<le> cap'" using b(2) c(2) by simp
      show "cap' \<le> max (7 * n) (length (dst @ co_out r) + 4 * n)" using b(3) by simp
      show "malloc_ok env k" if "k \<le> max (7 * n) (length (dst @ co_out r) + length t' + 4 * n)" for k
        using that c(3) by (intro less.prems(4)) simp
    qed
    with more c(1,3) ok show ?thesis
      by (subst lzma_loop.simps) (simp add: Let_def cap'_def [symmetric] r_def [symmetric])
  next
    case False
    with c(1,3,6) ok show ?thesis
      by (subst lzma_loop.simps) (simp add: Let_def cap'_def [symmetric] r_def [symmetric])
  qed
qed

text \<open>
  C36: Decompression delivers the whole stream. For a decoder that keeps its contract and a non-empty
  source that is a valid archive of \<open>t\<close>, xdl_lzma_decompress returns, and its result is \<open>t\<close>, in
  whatever pieces the decoder writes it; an allocator that grants seven times the source's size and
  the stream's size plus four times the source's size is enough.
\<close>

theorem decompression_exact:
  assumes "decodes env (API_Q \<le> api) rest left" "rest (lzma_state env) src = Some t" "src \<noteq> []"
    and "lzma_inited s" "lzma_code s \<noteq> 0" "xdl_util_get_api_level env s = (api, s1)"
    and "\<forall>k\<le>max (7 * length src) (length t + 4 * length src). malloc_ok env k"
  shows "xdl_lzma_decompress open_try dec env src s = Some (Some t, s1)"
proof -
  have "lzma_loop env (API_Q \<le> api) (length src) (lzma_state env) src [] (7 * length src) = Some (Some ([] @ t))"
    using assms by (intro lzma_loop_exact [OF assms(1) _ _ assms(2)]) auto
  with assms show ?thesis by (simp add: xdl_lzma_decompress_def)
qed

text \<open>
  A decoder that expands every byte to ten, keeping what finds no room, and an allocator that grants
  fourteen bytes. For one byte the buffer has seven at first and grows twice.
\<close>

definition expand :: "u8 list \<Rightarrow> u8 list" where "expand src = concat (map (replicate 10) src)"

definition expand_env :: xdl_env where
  "expand_env = demo_env\<lparr>malloc_ok := (\<lambda>k. k \<le> 14),
     lzma_coder := (\<lambda>q st room src. (let t = st @ expand src
       in \<lparr>co_result = 0, co_out = take room t, co_used = length src,
            co_status = (if length t \<le> room then FINISHED_WITH_MARK else NOT_FINISHED), co_state = drop room t\<rparr>)),
     lzma_finished := (\<lambda>st. st = [])\<rparr>"

definition lzma_ready :: xst where
  "lzma_ready = demo_xst\<lparr>api_level := 34, lzma_inited := True, lzma_code := 8\<rparr>"

lemma expand_simps [simp]: "expand [] = []" "expand [5] = [5, 5, 5, 5, 5, 5, 5, 5, 5, 5]"
  by (code_simp, code_simp)

lemma expand_decodes:
  "decodes expand_env q (\<lambda>st src. Some (st @ expand src)) (\<lambda>st src. length (st @ expand src))"
  by (auto simp: decodes_def expand_env_def Let_def simp del: take_append drop_append)

theorem decompression_exact_witness:
  "xdl_lzma_decompress (\<lambda>f s. None) (\<lambda>src s. None) expand_env [5] lzma_ready =
     Some (Some [5, 5, 5, 5, 5, 5, 5, 5, 5, 5], lzma_ready)"
  by (rule decompression_exact [OF expand_decodes [of "API_Q \<le> 34"]])
    (simp_all add: lzma_ready_def demo_xst_def expand_env_def demo_env_def
      xdl_util_get_api_level_def)

end
