(* ===== verification/XdlCallers.thy ===== *)
theory XdlCallers
  imports XdlProps
begin

text \<open>
  The callers with whose addresses the linker's own \<^verbatim>\<open>dlopen\<close> is called: one pass over the loaded
  objects finds the best one for every list of rules.
\<close>

section \<open>The best caller\<close>

text \<open>An object a rule accepts, with a segment whose address can be given as the caller's.\<close>

definition fits :: "bmem \<Rightarrow> match_type \<times> string \<Rightarrow> phinfo \<Rightarrow> bool" where
  "fits m r i \<longleftrightarrow> dlpi_addr i \<noteq> 0 \<and> (case dlpi_name i of None \<Rightarrow> False | Some nm \<Rightarrow> rule_holds r nm) \<and>
     xdl_linker_get_caller_addr m i \<noteq> 0"

text \<open>
  The cursor is the first rule any of the objects fits and the address that of the first such object;
  if no rule is, the address is null.
\<close>

definition best_caller :: "bmem \<Rightarrow> phinfo list \<Rightarrow> caller \<Rightarrow> bool" where
  "best_caller m objs c \<longleftrightarrow>
     (let k = matches_cursor c; ms = matches c in
      k \<le> length ms \<and> (\<forall>j<k. \<forall>i\<in>set objs. \<not> fits m (ms ! j) i) \<and>
      (if k = length ms then caller_addr c = 0
       else map_option (xdl_linker_get_caller_addr m) (find (fits m (ms ! k)) objs) = Some (caller_addr c)))"

section \<open>One object\<close>

lemma scan_rules_matches [simp]: "matches (scan_rules m i nm rs j c) = matches c"
  by (induction m i nm rs j c rule: scan_rules.induct) (auto simp: xdl_linker_save_caller_addr_def Let_def)

text \<open>The inner loop stops at the first rule the object fits below the cursor.\<close>

lemma scan_rules_first:
  assumes "dlpi_name i = Some nm" "dlpi_addr i \<noteq> 0" "matches_cursor c \<le> j + length rs"
  shows "scan_rules m i nm rs j c =
    (case find (\<lambda>k. fits m (rs ! (k - j)) i) [j..<matches_cursor c] of
       None \<Rightarrow> c
     | Some k \<Rightarrow> c\<lparr>caller_addr := xdl_linker_get_caller_addr m i, matches_cursor := k\<rparr>)"
  using assms
proof (induction rs arbitrary: j c)
  case (Cons r rs)
  have shift: "find (\<lambda>k. fits m ((r # rs) ! (k - j)) i) [Suc j..<n] = find (\<lambda>k. fits m (rs ! (k - Suc j)) i) [Suc j..<n]" for n
    by (intro find_cong refl) (simp add: nth_Cons')
  show ?case
  proof (cases "j < matches_cursor c \<and> fits m r i")
    case True
    then have s: "scan_rules m i nm (r # rs) j c =
        scan_rules m i nm rs (Suc j) (c\<lparr>caller_addr := xdl_linker_get_caller_addr m i, matches_cursor := j\<rparr>)"
      using Cons.prems by (simp add: fits_def xdl_linker_save_caller_addr_def)
    have "scan_rules m i nm rs (Suc j) d = d" if "matches_cursor d = j" for d
      using that by (cases rs) simp_all
    with s True show ?thesis by (simp add: upt_rec [of j])
  next
    case False
    then have "scan_rules m i nm (r # rs) j c = (if j < matches_cursor c then scan_rules m i nm rs (Suc j) c else c)"
      using Cons.prems by (auto simp: fits_def xdl_linker_save_caller_addr_def)
    moreover have "j < matches_cursor c \<Longrightarrow> \<not> fits m r i" using False by simp
    ultimately show ?thesis
      using Cons.IH [of c "Suc j"] Cons.prems by (auto simp: upt_rec [of j] shift)
  qed
qed simp

lemma best_caller_skip:
  assumes "best_caller m objs c" "\<forall>j<matches_cursor c. \<not> fits m (matches c ! j) i"
  shows "best_caller m (objs @ [i]) c"
  using assms by (auto simp: best_caller_def Let_def find_append split: if_splits option.splits)

lemma best_caller_step:
  assumes b: "best_caller m objs c" and i: "dlpi_name i = Some nm" "dlpi_addr i \<noteq> 0"
  shows "best_caller m (objs @ [i]) (scan_rules m i nm (matches c) 0 c)"
proof -
  have k: "matches_cursor c \<le> length (matches c)" using b by (simp add: best_caller_def Let_def)
  let ?f = "find (\<lambda>k. fits m (matches c ! k) i) [0..<matches_cursor c]"
  have s: "scan_rules m i nm (matches c) 0 c = (case ?f of None \<Rightarrow> c
      | Some k \<Rightarrow> c\<lparr>caller_addr := xdl_linker_get_caller_addr m i, matches_cursor := k\<rparr>)"
    using scan_rules_first [OF i, of c 0 "matches c" m] k by simp
  show ?thesis
  proof (cases ?f)
    case None
    then have "\<forall>j<matches_cursor c. \<not> fits m (matches c ! j) i" by (auto simp: find_None_iff)
    from best_caller_skip [OF b this] show ?thesis by (simp add: s None)
  next
    case (Some j)
    then have j: "j < matches_cursor c" "fits m (matches c ! j) i" "\<forall>l<j. \<not> fits m (matches c ! l) i"
      by (auto simp: find_Some_iff)
    have "\<forall>l<matches_cursor c. \<forall>x\<in>set objs. \<not> fits m (matches c ! l) x"
      using b by (simp add: best_caller_def Let_def)
    moreover from this j(1) have "find (fits m (matches c ! j)) objs = None" by (simp add: find_None_iff)
    ultimately show ?thesis
      using j k by (auto simp: best_caller_def s Some Let_def find_append)
  qed
qed

section \<open>All objects\<close>

lemma best_caller_settled:
  assumes "best_caller m objs c" "caller_addr c \<noteq> 0" "matches_cursor c = 0"
  shows "best_caller m (objs @ later) c"
  using assms by (auto simp: best_caller_def Let_def find_append split: if_splits)

lemma callers_after_one:
  assumes "list_all (best_caller m objs) cs" "m = xmem env" "xdl_linker_get_caller_addr_cb env i cs = (r, cs')"
  shows "list_all (best_caller m (objs @ [i])) cs'" "map matches cs' = map matches cs"
    "r \<noteq> 0 \<Longrightarrow> list_all (best_caller m (objs @ i # later)) cs'"
proof -
  show one: "list_all (best_caller m (objs @ [i])) cs'"
  proof (cases "dlpi_name i = None \<or> dlpi_addr i = 0")
    case True
    then have "\<not> fits m x i" for x by (auto simp: fits_def)
    with True assms show ?thesis
      by (auto simp: xdl_linker_get_caller_addr_cb_def list_all_iff best_caller_skip split: option.splits)
  next
    case False
    then obtain nm where "dlpi_name i = Some nm" "dlpi_addr i \<noteq> 0" by auto
    with assms best_caller_step show ?thesis
      by (auto simp: xdl_linker_get_caller_addr_cb_def Let_def list_all_iff split: if_splits)
  qed
  show "map matches cs' = map matches cs"
    using assms(3) by (auto simp: xdl_linker_get_caller_addr_cb_def Let_def split: option.splits if_splits)
  assume "r \<noteq> 0"
  then have "\<forall>c\<in>set cs'. caller_addr c \<noteq> 0 \<and> matches_cursor c = 0"
    using assms(3) by (auto simp: xdl_linker_get_caller_addr_cb_def Let_def list_ex_iff split: option.splits if_splits)
  with one best_caller_settled [of m "objs @ [i]" _ later] show "list_all (best_caller m (objs @ i # later)) cs'"
    by (simp add: list_all_iff)
qed

lemma callers_after_all:
  assumes "list_all (best_caller m objs) cs" "m = xmem env"
    "dl_iterate_phdr (xdl_linker_get_caller_addr_cb env) later cs = (r, cs')"
  shows "list_all (best_caller m (objs @ later)) cs' \<and> map matches cs' = map matches cs"
  using assms(1,3)
proof (induction later arbitrary: objs cs)
  case (Cons i later)
  obtain q ds where q: "xdl_linker_get_caller_addr_cb env i cs = (q, ds)" by fastforce
  note one = callers_after_one [OF Cons.prems(1) assms(2) q]
  show ?case
  proof (cases "q = 0")
    case True
    with Cons.prems(2) q have "dl_iterate_phdr (xdl_linker_get_caller_addr_cb env) later ds = (r, cs')" by simp
    from Cons.IH [OF one(1) this] one(2) show ?thesis by simp
  next
    case False
    with Cons.prems(2) q have "cs' = ds" by simp
    with one(2) one(3) [OF False] show ?thesis by simp
  qed
qed (simp add: assms)

text \<open>
  C37: The callers are the best ones. From Android 6 on the initialisation, which goes over the loaded
  objects once and stops as soon as nothing can improve, returns and leaves for each of the four lists of
  rules the first rule that an object with a bias, a name and a loaded segment fits, with the address
  of the first object that fits it, or null where no object fits any rule of the list.
\<close>

theorem callers_best:
  assumes "has_dl_iterate env" "xdl_util_get_api_level env s = (api, s1)" "API_M \<le> api"
    and "linker_callers s = initial_callers" "\<not> callers_inited s"
  shows "\<exists>s'. xdl_linker_init_caller_addr lock env s = Some s' \<and> callers_inited s' \<and>
    map matches (linker_callers s') = [match_default, match_art, match_sphal, match_vndk] \<and>
    list_all (best_caller (xmem env) (visited env False (loaded s))) (linker_callers s')"
proof -
  have l: "loaded s1 = loaded s"
    using assms(2) by (auto simp: xdl_util_get_api_level_def Let_def split: if_splits)
  obtain r cs where it: "dl_iterate_phdr (xdl_linker_get_caller_addr_cb env) (visited env False (loaded s)) initial_callers = (r, cs)"
    by fastforce
  have "list_all (best_caller (xmem env) []) initial_callers"
    by (simp add: initial_callers_def best_caller_def)
  from callers_after_all [OF this refl it] have
    "list_all (best_caller (xmem env) (visited env False (loaded s))) cs" "map matches cs = map matches initial_callers"
    by simp_all
  moreover have "xdl_iterate_by_linker lock xdl_linker_unlock env (xdl_linker_get_caller_addr_cb env) False initial_callers s =
      Some (r, cs, s1)"
    using assms(3) by (simp add: iterate_by_linker_visited [OF assms(1,2)] api_levels l it)
  then have "xdl_linker_init_caller_addr lock env s = Some (s1\<lparr>linker_callers := cs, callers_inited := True\<rparr>)"
    using assms(4,5) by (simp add: xdl_linker_init_caller_addr_def xdl_iterate_phdr_impl_def)
  ultimately show ?thesis by (simp add: initial_callers_def)
qed

text \<open>One object, which the rule of the first list fits.\<close>

definition libc_info :: phinfo where
  "libc_info = \<lparr>dlpi_addr = 4096, dlpi_name = Some ''/x/libc.so'', dlpi_phdr = 5000, dlpi_phnum = 1\<rparr>"

lemma libc_fits: "fits demo_xmem (MATCH_SUFFIX, ''/libc.so'') libc_info"
  "xdl_linker_get_caller_addr demo_xmem libc_info = 4096"
  by (simp_all add: fits_def libc_info_def xdl_util_ends_with_def xdl_linker_get_caller_addr_def
      info_phdrs_def phdr_list_def p_type_def p_vaddr_def demo_phdr PT_LOAD_def)

theorem callers_best_witness:
  "\<exists>s'. xdl_linker_init_caller_addr Some demo_env (demo_xst\<lparr>loaded := [libc_info]\<rparr>) = Some s' \<and>
     caller_addr (hd (linker_callers s')) = 4096"
proof -
  let ?s = "demo_xst\<lparr>loaded := [libc_info]\<rparr>"
  have l: "xdl_util_get_api_level demo_env ?s = (34, ?s\<lparr>api_level := 34\<rparr>)"
    by (simp add: xdl_util_get_api_level_def demo_env_def demo_xst_def api_levels)
  have v: "visited demo_env False (loaded ?s) = [libc_info]"
    by (simp add: visited_def linker_info_def xdl_iterate_get_linker_base_def demo_env_def libc_info_def
        map_filter_simps repaired_def fix_phdr_def fix_name_def Let_def)
  have e: "has_dl_iterate demo_env" "API_M \<le> 34" "xmem demo_env = demo_xmem"
    by (simp_all add: demo_env_def api_levels)
  have c: "linker_callers ?s = initial_callers" "\<not> callers_inited ?s" by (simp_all add: demo_xst_def)
  obtain s' where s': "xdl_linker_init_caller_addr Some demo_env ?s = Some s'"
    "map matches (linker_callers s') = [match_default, match_art, match_sphal, match_vndk]"
    "list_all (best_caller demo_xmem [libc_info]) (linker_callers s')"
    using callers_best [OF e(1) l e(2) c, of Some] unfolding v e(3) by (elim exE conjE)
  then obtain x xs where x: "linker_callers s' = x # xs" "matches x = match_default" "best_caller demo_xmem [libc_info] x"
    by (auto simp: map_eq_Cons_conv)
  from x(2,3) libc_fits have "caller_addr x = 4096"
    by (cases "matches_cursor x") (auto simp: best_caller_def match_default_def Let_def)
  with s'(1) x(1) show ?thesis by simp
qed

end
