(* ===== verification/XdlLocks.thy ===== *)
theory XdlLocks
  imports XdlProps
begin

text \<open>
  The circle of initialisations under locks: when a thread that is initialising the linker's symbols
  comes back to the lock it holds.
\<close>

section \<open>Looking among the loaded objects\<close>

definition named_like :: "string \<Rightarrow> phinfo \<Rightarrow> bool" where
  "named_like filename i \<longleftrightarrow>
     dlpi_addr i \<noteq> 0 \<and> (case dlpi_name i of None \<Rightarrow> False | Some nm \<Rightarrow> name_matches filename nm)"

definition handle_of :: "xdl_env \<Rightarrow> phinfo \<Rightarrow> xdl option" where
  "handle_of env i = make_xdl env (the (dlpi_name i)) (dlpi_addr i) (dlpi_phdr i) (dlpi_phnum i)"

lemma find_cb_walk:
  "snd (dl_iterate_phdr (xdl_find_iterate_cb env filename) objs x) =
     (case find (named_like filename) objs of None \<Rightarrow> x | Some i \<Rightarrow> handle_of env i)"
  by (induction objs arbitrary: x)
    (auto simp: xdl_find_iterate_cb_def named_like_def handle_of_def split: option.split)

lemma api_level_cached:
  "xdl_util_get_api_level env s = (api, s1) \<Longrightarrow> xdl_util_get_api_level env s1 = (api, s1) \<and> loaded s1 = loaded s \<and>
     lzma_inited s1 = lzma_inited s"
  by (auto simp: xdl_util_get_api_level_def Let_def api_levels split: if_splits)

text \<open>From Android 6 on the search takes no lock, whoever holds one.\<close>

lemma find_lzma:
  assumes "has_dl_iterate env" "xdl_util_get_api_level env s = (api, s1)" "API_M \<le> api"
  shows "xdl_find lock unlock env XDL_LZMA_PATHNAME s =
    Some (case find (named_like XDL_LZMA_PATHNAME) (visited env False (loaded s)) of None \<Rightarrow> None | Some i \<Rightarrow> handle_of env i, s1)"
proof -
  have e: "\<not> xdl_util_ends_with XDL_LZMA_PATHNAME ''linker64''" "\<not> xdl_util_ends_with XDL_LZMA_PATHNAME ''[vdso]''"
    "\<not> xdl_util_ends_with XDL_LZMA_PATHNAME ''app_process64''"
    by (simp_all add: xdl_util_ends_with_def XDL_LZMA_PATHNAME_def)
  obtain r x where it: "dl_iterate_phdr (xdl_find_iterate_cb env XDL_LZMA_PATHNAME) (visited env False (loaded s)) None = (r, x)"
    by fastforce
  have "xdl_iterate_by_linker lock unlock env (xdl_find_iterate_cb env XDL_LZMA_PATHNAME) False None s = Some (r, x, s1)"
    using assms(3) api_level_cached [OF assms(2)] by (simp add: iterate_by_linker_visited [OF assms(1,2)] api_levels it)
  moreover have "x = (case find (named_like XDL_LZMA_PATHNAME) (visited env False (loaded s)) of None \<Rightarrow> None | Some i \<Rightarrow> handle_of env i)"
    using find_cb_walk [of env XDL_LZMA_PATHNAME "visited env False (loaded s)" None] it by simp
  ultimately show ?thesis by (simp add: xdl_find_def e xdl_iterate_phdr_impl_def)
qed

section \<open>Opening once the initialisation is done\<close>

text \<open>The level that is answered, and that the linker's symbols are there.\<close>

definition ready :: "xdl_env \<Rightarrow> int \<Rightarrow> xst \<Rightarrow> bool" where
  "ready env api s \<longleftrightarrow> linker_inited s \<and> fst (xdl_util_get_api_level env s) = api"

lemma ready_update [simp]:
  "ready env api (s\<lparr>linker_callers := x\<rparr>) = ready env api s" "ready env api (s\<lparr>callers_inited := b\<rparr>) = ready env api s"
  "ready env api (s\<lparr>loaded := l\<rparr>) = ready env api s" "ready env api (s\<lparr>xlog := e\<rparr>) = ready env api s"
  "ready env api (s\<lparr>pagesize := p\<rparr>) = ready env api s"
  by (simp_all add: ready_def xdl_util_get_api_level_def Let_def)

lemma ready_level: "ready env api s \<Longrightarrow> xdl_util_get_api_level env s = (k, s1) \<Longrightarrow> k = api \<and> ready env api s1"
  by (auto simp: ready_def xdl_util_get_api_level_def Let_def api_levels split: if_splits)

lemma ready_base: "ready env api (snd (xdl_get_base_from_phdr env aux ph s)) = ready env api s"
proof -
  have "snd (xdl_get_base_from_phdr env aux ph s) = snd (xdl_util_get_pagesize env s)"
    by (simp only: xdl_get_base_from_phdr_def Let_def case_prod_beta snd_conv)
  then show ?thesis by (simp add: xdl_util_get_pagesize_def)
qed

lemma ready_auxv: "ready env api (snd (xdl_find_from_auxv env type path s)) = ready env api s"
proof (cases "getauxval env")
  case (Some aux)
  define b where "b = (if type = AT_PHDR then xdl_get_base_from_phdr env aux (aux type) s else (aux type, s))"
  have "snd (xdl_find_from_auxv env type path s) = (if aux type = 0 then s else snd b)"
    by (simp only: xdl_find_from_auxv_def Some option.case b_def [symmetric] Let_def case_prod_beta)
      (simp only: if_distrib [of snd] snd_conv if_cancel)
  moreover have "ready env api (snd b) = ready env api s" by (simp add: b_def ready_base)
  ultimately show ?thesis by simp
qed (simp add: xdl_find_from_auxv_def)

lemma iterate_returns:
  assumes "has_dl_iterate env" "ready env api s" "API_M \<le> api"
  obtains r a' s' where "xdl_iterate_phdr_impl lock unlock env cb full a s = Some (r, a', s')" "ready env api s'"
proof -
  obtain k s1 where l: "xdl_util_get_api_level env s = (k, s1)" by fastforce
  note r = ready_level [OF assms(2) l]
  have "k \<noteq> API_L" "k \<noteq> API_L_MR1" using r assms(3) by (auto simp: api_levels)
  then have "xdl_iterate_phdr_impl lock unlock env cb full a s =
      (let (r, a') = dl_iterate_phdr cb (visited env full (loaded s1)) a in Some (r, a', s1))"
    unfolding xdl_iterate_phdr_impl_def by (rule iterate_by_linker_visited [OF assms(1) l])
  with that r show thesis by (simp add: case_prod_beta)
qed

lemma find_returns:
  assumes "has_dl_iterate env" "ready env api s" "API_M \<le> api"
  shows "\<exists>r s'. xdl_find lock unlock env filename s = Some (r, s') \<and> ready env api s'"
proof -
  define first where "first = (if xdl_util_ends_with filename ''linker64''
      then xdl_find_from_auxv env AT_BASE LINKER_PATHNAME s
      else if xdl_util_ends_with filename ''[vdso]'' then xdl_find_from_auxv env AT_SYSINFO_EHDR ''[vdso]'' s
      else (None, s))"
  define second where "second = (if xdl_util_ends_with filename ''app_process64''
      then xdl_find_from_auxv env AT_PHDR ''/system/bin/app_process64'' (snd first) else first)"
  have "ready env api (snd first)" using assms(2) by (simp add: first_def ready_auxv)
  then have two: "ready env api (snd second)" by (simp add: second_def ready_auxv)
  have f: "xdl_find lock unlock env filename s =
      (if fst second \<noteq> None then Some second
       else do {
         (ret, x, s3) \<leftarrow> xdl_iterate_phdr_impl lock unlock env (xdl_find_iterate_cb env filename) False None (snd second);
         Some (x, s3) })"
    unfolding xdl_find_def first_def [symmetric]
    by (cases "xdl_util_ends_with filename ''app_process64''") (simp_all add: second_def Let_def case_prod_beta)
  obtain r a' s' where "xdl_iterate_phdr_impl lock unlock env (xdl_find_iterate_cb env filename) False None (snd second) =
      Some (r, a', s')" "ready env api s'"
    by (rule iterate_returns [OF assms(1) two assms(3)])
  with two f show ?thesis by (cases "fst second = None") (auto intro: prod.collapse [symmetric])
qed

lemma lock_returns: "ready env api s \<Longrightarrow> \<exists>s'. xdl_linker_lock (linker_init env) s = Some s' \<and> ready env api s'"
  by (simp add: xdl_linker_lock_def linker_init_def xdl_linker_init_symbols_def ready_def [of env api s])

lemma unlock_returns: "ready env api s \<Longrightarrow> \<exists>s'. xdl_linker_unlock s = Some s' \<and> ready env api s'"
  by (simp add: xdl_linker_unlock_def)

lemma callers_return:
  assumes "has_dl_iterate env" "ready env api s" "API_M \<le> api"
  shows "\<exists>s'. xdl_linker_init_caller_addr lock env s = Some s' \<and> ready env api s'"
proof (cases "callers_inited s")
  case False
  obtain r cs s' where "xdl_iterate_phdr_impl lock xdl_linker_unlock env (xdl_linker_get_caller_addr_cb env) False
      (linker_callers s) s = Some (r, cs, s')" "ready env api s'"
    by (rule iterate_returns [OF assms])
  with False show ?thesis by (simp add: xdl_linker_init_caller_addr_def)
qed (use assms in \<open>simp add: xdl_linker_init_caller_addr_def\<close>)

lemma force_returns:
  assumes e: "has_dl_iterate env" and r: "ready env api s" and v: "API_M \<le> api"
  shows "\<exists>h s'. xdl_linker_force_dlopen (linker_init env) env filename s = Some (h, s') \<and> ready env api s'"
proof -
  obtain k s1 where l: "xdl_util_get_api_level env s = (k, s1)" by fastforce
  note r1 = ready_level [OF r l]
  then have i: "linker_init env s1 = Some s1"
    by (simp add: linker_init_def xdl_linker_init_symbols_def ready_def)
  obtain s2 where s2: "xdl_linker_init_caller_addr (xdl_linker_lock (linker_init env)) env s1 = Some s2" "ready env api s2"
    using callers_return [OF e _ v] r1 by blast
  obtain s3 where s3: "xdl_linker_lock (linker_init env) s2 = Some s3" "ready env api s3"
    using lock_returns [OF s2(2)] by blast
  define objs where "objs = snd (try_callers env (linker_dlopen s3) filename (linker_callers s3) (loaded s3))"
  obtain s4 where s4: "xdl_linker_unlock (s3\<lparr>loaded := objs\<rparr>) = Some s4" "ready env api s4"
    using unlock_returns [of env api "s3\<lparr>loaded := objs\<rparr>"] s3(2) by auto
  consider "api \<le> API_M" | "\<not> api \<le> API_M" "linker_dlopen s1 = 0" | "\<not> api \<le> API_M" "linker_dlopen s1 \<noteq> 0" by blast
  then show ?thesis
  proof cases
    case 3
    then show ?thesis
      using r1 s2 s3 s4
      by (cases "api = API_N \<or> api = API_N_MR1")
        (simp_all add: xdl_linker_force_dlopen_def l i case_prod_beta Let_def objs_def)
  qed (use r1 i in \<open>simp_all add: xdl_linker_force_dlopen_def l case_prod_beta Let_def\<close>)
qed

lemma always_force_returns:
  assumes e: "has_dl_iterate env" and r: "ready env api s" and v: "API_M \<le> api"
  shows "\<exists>x. xdl_open_always_force (linker_init env) env filename s = Some x"
proof -
  obtain h s1 where h: "xdl_linker_force_dlopen (linker_init env) env filename s = Some (h, s1)" "ready env api s1"
    using force_returns [OF assms] by blast
  obtain y s2 where "xdl_find (xdl_linker_lock (linker_init env)) xdl_linker_unlock env filename s1 = Some (y, s2)"
    using find_returns [OF e h(2) v] by blast
  with h show ?thesis by (simp add: xdl_open_always_force_def)
qed

text \<open>
  C38: When opening waits for itself. From Android 7 on, once the linker's symbols are initialised, opening
  any library with any flags returns. Inside that initialisation it need not: the first decompression
  made by it returns only if the decompression library is found among the loaded objects, since
  otherwise that library is to be loaded through the linker's function, for which the thread enters
  the initialisation again whose lock it holds.
\<close>

theorem opening_waits_for_itself:
  assumes "has_dl_iterate env" "xdl_util_get_api_level env s = (api, s1)" "API_N \<le> api"
  shows "(linker_inited s \<longrightarrow> (\<exists>r. xdl_open env filename flags s = Some r)) \<and>
    (\<not> lzma_inited s \<and> find (named_like XDL_LZMA_PATHNAME) (visited env False (loaded s)) = None \<longrightarrow>
       dec_in_init env src s = None)"
proof (intro conjI impI)
  have v: "API_M \<le> api" using assms(3) by (simp add: api_levels)
  show "\<exists>r. xdl_open env filename flags s = Some r" if "linker_inited s"
  proof (cases filename)
    case (Some f)
    have r: "ready env api s" using that assms(2) by (simp add: ready_def)
    obtain y s2 where f: "xdl_find (xdl_linker_lock (linker_init env)) xdl_linker_unlock env f s = Some (y, s2)" "ready env api s2"
      using find_returns [OF assms(1) r v] by blast
    show ?thesis
      using f always_force_returns [OF assms(1) r v, of f] always_force_returns [OF assms(1) f(2) v, of f] Some
      by (auto simp: xdl_open_def xdl_open_with_def xdl_open_try_force_def)
  qed (simp add: xdl_open_def xdl_open_with_def)
  assume *: "\<not> lzma_inited s \<and> find (named_like XDL_LZMA_PATHNAME) (visited env False (loaded s)) = None"
  have "xdl_linker_force_dlopen held env XDL_LZMA_PATHNAME s1 = None"
    using api_level_cached [OF assms(2)] assms(3) by (simp add: xdl_linker_force_dlopen_def held_def api_levels)
  then have "xdl_open_try_force held env XDL_LZMA_PATHNAME s = None"
    using * find_lzma [OF assms(1,2) v] by (simp add: xdl_open_try_force_def xdl_open_always_force_def)
  with * show "dec_in_init env src s = None"
    by (simp add: dec_in_init_def xdl_lzma_decompress_def xdl_lzma_init_def)
qed

text \<open>No library of that name is loaded.\<close>

theorem opening_waits_for_itself_witness:
  "(\<exists>r. xdl_open demo_env (Some ''/a.so'') XDL_ALWAYS_FORCE_LOAD (demo_xst\<lparr>linker_inited := True\<rparr>) = Some r) \<and>
   dec_in_init demo_env [] demo_xst = None"
proof
  have l: "xdl_util_get_api_level demo_env (demo_xst\<lparr>linker_inited := b\<rparr>) = (34, demo_xst\<lparr>linker_inited := b, api_level := 34\<rparr>)" for b
    by (simp add: xdl_util_get_api_level_def demo_env_def demo_xst_def api_levels)
  have d: "demo_xst\<lparr>linker_inited := False\<rparr> = demo_xst" by (simp add: demo_xst_def)
  have v: "visited demo_env False (loaded demo_xst) = [hd demo_objs]"
    by (simp add: visited_def linker_info_def xdl_iterate_get_linker_base_def demo_env_def demo_xst_def
        demo_objs_def map_filter_simps repaired_def fix_phdr_def fix_name_def Let_def)
  have n: "\<not> name_matches XDL_LZMA_PATHNAME ''/a.so''"
    by (simp add: name_matches_def XDL_LZMA_PATHNAME_def)
  have e: "has_dl_iterate demo_env" "API_N \<le> 34" by (simp_all add: demo_env_def api_levels)
  from opening_waits_for_itself [OF e(1) l [of True] e(2)]
  show "\<exists>r. xdl_open demo_env (Some ''/a.so'') XDL_ALWAYS_FORCE_LOAD (demo_xst\<lparr>linker_inited := True\<rparr>) = Some r"
    by simp
  have "find (named_like XDL_LZMA_PATHNAME) (visited demo_env False (loaded demo_xst)) = None"
    using n by (simp add: v demo_objs_def named_like_def)
  with opening_waits_for_itself [OF e(1) l [of False, unfolded d] e(2)] show "dec_in_init demo_env [] demo_xst = None"
    by (simp add: demo_xst_def)
qed

end
