(* ===== verification/Spec2Isabelle.thy ===== *)
theory Spec2Isabelle
  imports Prelude Wire Posix IpcClient Daemon Server MapInfo ElfUtil ElfProofs Lsplt LspltProofs LspltTable LspltDemo
    JniHooks JniGen JniText JniHeader ZygiskState JniMethods PltHooks ZygModule ZygContext Lifecycle ZygDemo
    ZygFrames ModuleProps ContextFrames ContextProps FdProps LoadProps JniProps UnloadProps
    Runtime ForkFail PltSelect Exchange StaleClient Syscalls
    XdlUtil XdlElf XdlIterate XdlFile XdlSym XdlLzma XdlOpen XdlAddr XdlProps XdlLookup XdlStream XdlCallers XdlLocks
begin

text \<open>
  This library is a shallow embedding of the Zygisk module of this repository: the C++ library
  \<^verbatim>\<open>libzygisk\<close> that is loaded into Zygote as a native bridge, the code it is linked with (\<^verbatim>\<open>lsplt\<close>,
  \<^verbatim>\<open>xDL\<close>), the wire protocol it speaks with the daemon, the daemon, and the script that generates its
  table of hooks. Paths below are relative to \<^verbatim>\<open>src/src\<close>.

  How the program works. Zygote loads the library as its native bridge (\<^verbatim>\<open>libzygisk/src/entry.cpp\<close>) and
  asks whether it is compatible; that call starts the program. It hooks slots of the procedure
  linkage tables of the runtime (\<^verbatim>\<open>hook_plt\<close>) with the PLT hooker \<^verbatim>\<open>lsplt\<close>, which reads the memory map
  of the process and the ELF tables of the mapped libraries. The first hooked call to be made closes
  the library handle: there the real native bridge is loaded and the runtime's callbacks are found in
  the registers of the caller. When Zygote's own initialisation starts (seen through \<^verbatim>\<open>strdup\<close>), three
  native methods of the class \<^verbatim>\<open>Zygote\<close> are replaced by hooking functions (\<^verbatim>\<open>jni_hooks.hpp\<close>). A hooking
  function builds a context for one process, forks, asks the daemon for flags and modules, loads the
  modules and runs their callbacks, closes inherited descriptors, calls the original, runs the second
  callbacks and deletes the context. In a child this also puts the native methods back and arms the
  unloading, which the next \<^verbatim>\<open>pthread_attr_destroy\<close> of the main thread carries out.

  \<^bold>\<open>Theories of the model\<close>

  \<^item> \<open>Prelude\<close>: machine integers, little-endian bytes, the locales \<open>codec\<close> and \<open>machine\<close>, list and word lemmas.
  \<^item> \<open>Wire\<close>: \<^verbatim>\<open>common/consts.hpp\<close>, the requests, flags and packed headers; instances of \<open>codec\<close>.
  \<^item> \<open>Posix\<close>: descriptors, sockets with scripted peers, and the log of system calls in order (\<open>oslog\<close>).
  \<^item> \<open>IpcClient\<close>: \<^verbatim>\<open>libzygisk/src/ipc_client.cpp\<close> and the reads and writes of \<^verbatim>\<open>module.cpp\<close>; the global
    \<^verbatim>\<open>g_sock\<close> and \<^verbatim>\<open>g_available\<close> are fields of the record \<open>ipc\<close>.
  \<^item> \<open>Daemon\<close>, \<open>Server\<close>: \<^verbatim>\<open>zygiskd/src\<close>, the answer to one connection (\<^verbatim>\<open>process.rs\<close>, \<^verbatim>\<open>server.rs\<close>), and the
    daemon as a process: its start, its socket file and the loop that accepts connections (\<^verbatim>\<open>main.rs\<close>).
  \<^item> \<open>MapInfo\<close>, \<open>ElfUtil\<close>, \<open>Lsplt\<close>: \<^verbatim>\<open>libzygisk/lsplt\<close>, the parser of the memory map, the ELF reader and the
    hooker, whose \<^verbatim>\<open>std::map\<close> is the locale \<open>ordered_map\<close> with its one implementation.
  \<^item> \<open>Syscalls\<close>: the wrappers of \<^verbatim>\<open>lsplt/syscall.hpp\<close> the hooker calls, for the architectures the library
    is built for, down to the registers at the trap.
  \<^item> \<open>JniHooks\<close>, \<open>JniGen\<close>, \<open>JniText\<close>, \<open>JniHeader\<close>: \<^verbatim>\<open>jni_hooks.hpp\<close>, one record per hooking function; the
    generator \<^verbatim>\<open>gen_jni_hooks.py\<close>, as the records and as the text it writes; and the checked-in file line by
    line, which is that text.
  \<^item> \<open>ZygiskState\<close>: the data of \<^verbatim>\<open>module.hpp\<close> and \<^verbatim>\<open>api.hpp\<close> and the record \<open>zyg\<close> of the whole process, which
    extends the records of the hooker, the client and the system: \<open>g_ctx\<close> and \<open>g_hook\<close> are the two global
    pointers, \<open>jst\<close> the state of the JVM, \<open>w\<close> what surrounds the process.
  \<^item> \<open>JniMethods\<close>, \<open>PltHooks\<close>, \<open>Lifecycle\<close>: \<^verbatim>\<open>hook.cpp\<close> and \<^verbatim>\<open>entry.cpp\<close>: native methods, PLT hooks, and the
    functions called in place of the hooked ones; \<open>run_hook\<close> is a whole call of a hooking function.
  \<^item> \<open>ZygModule\<close>, \<open>ZygContext\<close>: \<^verbatim>\<open>module.cpp\<close>: the interface of modules; discovery, loading, forking,
    descriptors and specialization.
  \<^item> \<open>XdlUtil\<close>, \<open>XdlIterate\<close>, \<open>XdlElf\<close>, \<open>XdlFile\<close>, \<open>XdlSym\<close>, \<open>XdlLzma\<close>, \<open>XdlOpen\<close>, \<open>XdlAddr\<close>:
    \<^verbatim>\<open>libxdl/_xDL/xdl/src/main/cpp\<close>, which is compiled into the library, file by file.

  \<^bold>\<open>Theories of lemmas\<close>

  \<^item> \<open>IpcClient\<close>, \<open>Daemon\<close> (with the model): the client refines a connection that is present or not, gives up
    after a bounded wait, and reads exactly what the daemon sent or closes; along any operations each
    descriptor is the caller's, the cached socket or one that was there before.
  \<^item> \<open>MapInfo\<close>: parsing reads back the map the kernel prints.
  \<^item> \<open>ElfProofs\<close>: symbol lookups are sound and, on well-formed tables, complete and terminating; the slots
    found are exactly the relocations of the symbol the hooker may patch; a parsed image is consistent.
  \<^item> \<open>LspltProofs\<close>, \<open>LspltTable\<close>, \<open>LspltDemo\<close>: memory and table after any sequence of hooks, the last unhook
    restores the mapping, every outcome of invalidating a backup, whole commits, the table's invariant as
    an instance of \<open>machine\<close>.
  \<^item> \<open>ZygFrames\<close>, \<open>ContextFrames\<close>: what each operation leaves alone, one lemma per operation.
  \<^item> \<open>ModuleProps\<close>: the API table is well typed, argument objects have the published layouts, a module
    changes only what its version may.
  \<^item> \<open>ContextProps\<close>, \<open>FdProps\<close>, \<open>LoadProps\<close>: one fork per hooking call that forks, with signals blocked around
    it; the descriptors a child keeps, inherited or exempted; what a deny-listed app does and what every
    later call it makes unmounts; which modules are found, which stay, and the order they run in.
  \<^item> \<open>JniProps\<close>: replacing native methods, all or none, and restoring them. \<open>UnloadProps\<close>: the end of the
    program in a child, down to the commit that puts the PLT slots back.
  \<^item> \<open>PltSelect\<close>: which slots the path patterns and exclusions of modules come to.
  \<^item> \<open>Exchange\<close>: client and daemon together, what an app learns. \<open>StaleClient\<close>: what is left of the connection,
    along everything that can follow in the process.
  \<^item> \<open>Runtime\<close>: the whole program as a transition system over the calls of the runtime, an invariant of
    every reachable state, and the refinement of a deterministic machine of four phases. \<open>ForkFail\<close>: what
    becomes of Zygote when the fork of a hooking function fails.
  \<^item> \<open>Syscalls\<close> (with the model): the kernel, reading the registers of its calling convention, finds the
    arguments in place, and its errors are decoded.
  \<^item> \<open>XdlProps\<close>, \<open>XdlLookup\<close>, \<open>XdlStream\<close>, \<open>XdlCallers\<close>, \<open>XdlLocks\<close>: iteration as a walk over a list, symbol
    lookups, the address cache; the search of the hash tables as the first match among their candidates,
    and that it returns; the decompression loop against the stream its decoder stands for; the best callers for
    the linker's \<^verbatim>\<open>dlopen\<close>; when opening waits for a lock its own thread holds.
  \<^item> \<open>ZygDemo\<close>: the concrete process the witnesses use.

  \<^bold>\<open>Conventions\<close>

  A C++ object with operations is a record and functions that return it updated. A result of \<open>None\<close> of an
  operation on the whole process stands for undefined behaviour reached (a null or freed pointer used),
  for a deadlock, or for a loop that does not end; errors the code returns are values. Machine integers
  are words of their width, C strings the characters before the terminator, memory a function from
  addresses to bytes. Loops over chains and tables in memory that nothing bounds (\<open>gnu_chain\<close>, \<open>elf_chain\<close>,
  \<open>dynsym_scan\<close>, \<open>sysv_walk\<close>, \<open>gnu_walk\<close>, \<open>gnu_addr_walk\<close>, \<open>lzma_loop\<close>) are \<open>partial_function (option)\<close>,
  so that not returning is \<open>None\<close>; that the lookups by name return is proved for tables whose chains end.
  Every other loop is structural or has a measure (in \<open>connect_loop\<close> the distance of the delay to its
  bound), and there is no fuel.

  \<^bold>\<open>Parameters\<close>

  What is not code of the repository is data of the state or an argument. The kernel's answers, the texts
  of the memory map and what peers send are lists in the state. The JVM is the record \<open>jvm_ops\<close>, and the
  properties that need it assume \<open>jvm_laws\<close>: a class has a fixed list of natives with distinct names and
  signatures, and registering succeeds exactly for one of them, whose pointer it sets. A module is the
  list of API calls and argument writes its callbacks make; what the original native method calls is a
  list of hooked functions. The unwinder's frames, the property store, regular expressions, loading of
  libraries, and for xDL the loader's list of objects, files, the decompressor, resolvers of indirect
  functions and the functions called through addresses are functions of \<open>world\<close> or \<open>xdl_env\<close>. Witnesses
  instantiate all of them.

  \<^bold>\<open>Not modelled\<close>

  Of the vendored \<^verbatim>\<open>lsplt/syscall.hpp\<close> only the wrappers of \<^verbatim>\<open>mmap\<close> and \<^verbatim>\<open>mremap\<close> are used, and modelled; in
  the hooker these calls are operations of the process, whose outcomes are data of the state.
  Logging, the debug-only \<^verbatim>\<open>DIAG\<close> macro, cache flushes and the callers' errno have no effect on what is
  modelled. The ELF readers use the 64-bit layouts. xDL's branches for build levels below the one the
  library is built for are not compiled and not modelled. One thread is modelled; a lock matters where the
  thread that holds it reaches it again. Of the daemon, what the system refuses and what clients send are
  data; that a write of twelve bytes to a socket does not wait is assumed. On the client's side too a write
  to an open socket takes all its bytes at once: the branch of \<^verbatim>\<open>zygisk_request\<close> for a failed write is reached
  through a closed descriptor only. The shell scripts of
  \<^verbatim>\<open>src/module\<close> and the sample application of xDL are outside the model.

  What no definition translates in the C++ files of the program are comments, forward declarations, logging,
  and the branches for other build levels and 32-bit layouts named above.
\<close>

end
